(* ===== verification/Prelude.thy ===== *)
theory Prelude
  imports Main "HOL-Library.Sublist"
begin

text \<open>
  The prelude of the development: what every component shares.
  \<^item> integer division as Python computes it, ceiling division included;
  \<^item> Python's string operations on ASCII strings (\<open>lower\<close>, \<open>removeprefix\<close>,
    \<open>in\<close>, decimal printing and parsing);
  \<^item> tables as lists of rows: an SQL \<open>UPDATE\<close> (\<open>update_where\<close>), a \<open>SELECT\<close> with
    its limit, the row of a key (\<open>find_row\<close>);
  \<^item> the state and exception monad \<open>act\<close> for code that talks to a node and may raise in
    the middle of its writes, with Hoare-style rules in the collection \<open>wp\<close>;
  \<^item> the exceptions of the program and the named collections the components add to.
\<close>

named_theorems wp \<open>Hoare rules of the state and exception monad\<close>
named_theorems tbl \<open>facts about the rows of updated tables\<close>

section \<open>Integers\<close>

text \<open>\<open>-(-a // b)\<close>, the ceiling division the source writes out by hand.\<close>

definition ceil_div :: "int \<Rightarrow> int \<Rightarrow> int" where
  "ceil_div a b = - ((- a) div b)"

lemma le_div_iff: "0 < b \<Longrightarrow> c \<le> a div b \<longleftrightarrow> c * b \<le> a" for a b c :: int
proof
  assume b: "0 < b" and "c \<le> a div b"
  then have "c * b \<le> (a div b) * b" by (simp add: mult_right_mono)
  also have "\<dots> \<le> a"
    using b by (metis div_mult_mod_eq le_add_same_cancel1 pos_mod_sign)
  finally show "c * b \<le> a" .
next
  assume b: "0 < b" and "c * b \<le> a"
  then have "(c * b) div b \<le> a div b" by (intro zdiv_mono1)
  with b show "c \<le> a div b" by simp
qed

lemma div_less_iff: "0 < b \<Longrightarrow> a div b < c \<longleftrightarrow> a < c * b" for a b c :: int
  using le_div_iff [of b c a] by linarith

lemma ceil_div_le_iff: "0 < b \<Longrightarrow> ceil_div a b \<le> c \<longleftrightarrow> a \<le> c * b"
  using le_div_iff [of b "- c" "- a"] by (simp add: ceil_div_def) linarith

lemma less_ceil_div_iff: "0 < b \<Longrightarrow> c < ceil_div a b \<longleftrightarrow> c * b < a"
  using ceil_div_le_iff [of b a c] by linarith

lemma ceil_div_mult_ge: "0 < b \<Longrightarrow> a \<le> ceil_div a b * b"
  using ceil_div_le_iff [of b a "ceil_div a b"] by simp

lemma div_mult_le_int: "0 < b \<Longrightarrow> a div b * b \<le> a" for a b :: int
  using le_div_iff [of b "a div b" a] by simp

section \<open>ASCII strings\<close>

definition lower_char :: "char \<Rightarrow> char" where
  "lower_char c =
     (let n = of_char c :: nat in if 65 \<le> n \<and> n \<le> 90 then char_of (n + 32) else c)"

text \<open>\<open>str.lower\<close> on ASCII text.\<close>

definition lower :: "string \<Rightarrow> string" where
  "lower s = map lower_char s"

lemma lower_char_idem [simp]: "lower_char (lower_char c) = lower_char c"
  by (simp add: lower_char_def Let_def)

lemma lower_lower [simp]: "lower (lower s) = lower s"
  by (simp add: lower_def)

lemma length_lower [simp]: "length (lower s) = length s"
  by (simp add: lower_def)

lemma lower_Nil [simp]: "lower s = [] \<longleftrightarrow> s = []"
  by (simp add: lower_def)

text \<open>\<open>p in s\<close> and \<open>s.removeprefix(p)\<close>.\<close>

definition contains :: "string \<Rightarrow> string \<Rightarrow> bool" where
  "contains p s = sublist p s"

definition removeprefix :: "string \<Rightarrow> string \<Rightarrow> string" where
  "removeprefix p s = (if prefix p s then drop (length p) s else s)"

definition is_digit :: "char \<Rightarrow> bool" where
  "is_digit c = (let n = of_char c :: nat in 48 \<le> n \<and> n \<le> 57)"

definition is_hex_digit :: "char \<Rightarrow> bool" where
  "is_hex_digit c =
     (let n = of_char c :: nat
      in 48 \<le> n \<and> n \<le> 57 \<or> 65 \<le> n \<and> n \<le> 70 \<or> 97 \<le> n \<and> n \<le> 102)"

text \<open>\<open>str(n)\<close> of a non-negative integer and \<open>int(s)\<close> of a string of digits.\<close>

definition digit_char :: "nat \<Rightarrow> char" where
  "digit_char d = char_of (48 + d)"

fun show_nat :: "nat \<Rightarrow> string" where
  "show_nat n = (if n < 10 then [digit_char n] else show_nat (n div 10) @ [digit_char (n mod 10)])"

declare show_nat.simps [simp del]

definition digit_val :: "char \<Rightarrow> nat" where
  "digit_val c = of_char c - 48"

definition read_nat :: "string \<Rightarrow> nat option" where
  "read_nat s =
     (if s \<noteq> [] \<and> list_all is_digit s then Some (foldl (\<lambda>n c. 10 * n + digit_val c) 0 s) else None)"

lemma is_digit_digit_char [simp]: "d < 10 \<Longrightarrow> is_digit (digit_char d)"
  by (simp add: is_digit_def digit_char_def)

lemma digit_val_digit_char [simp]: "d < 10 \<Longrightarrow> digit_val (digit_char d) = d"
  by (simp add: digit_val_def digit_char_def)

lemma show_nat_nonempty [simp]: "show_nat n \<noteq> []"
  by (subst show_nat.simps) simp

lemma show_nat_digits: "list_all is_digit (show_nat n)"
proof (induction n rule: show_nat.induct)
  case (1 n)
  then show ?case by (subst show_nat.simps) simp
qed

lemma foldl_show_nat: "foldl (\<lambda>n c. 10 * n + digit_val c) 0 (show_nat n) = n"
proof (induction n rule: show_nat.induct)
  case (1 n)
  then show ?case by (subst show_nat.simps) simp
qed

lemma read_show_nat [simp]: "read_nat (show_nat n) = Some n"
  by (simp add: read_nat_def show_nat_digits foldl_show_nat)

lemma show_nat_inj [simp]: "show_nat m = show_nat n \<longleftrightarrow> m = n"
  by (metis option.inject read_show_nat)

definition show_int :: "int \<Rightarrow> string" where
  "show_int n = (if n < 0 then CHR ''-'' # show_nat (nat (- n)) else show_nat (nat n))"

text \<open>Splitting at the first character with a property, where the parts are known.\<close>

lemma append_sep_eq:
  assumes "c \<notin> set as" and "c \<notin> set bs"
  shows "as @ c # xs = bs @ c # ys \<longleftrightarrow> as = bs \<and> xs = ys"
  using assms
proof (induction as arbitrary: bs)
  case Nil
  then show ?case by (cases bs) auto
next
  case (Cons a as)
  then show ?case by (cases bs) auto
qed

section \<open>Tables as lists of rows\<close>

text \<open>\<open>UPDATE t SET ... WHERE p\<close>, and the row count the cursor reports.\<close>

definition update_where :: "('r \<Rightarrow> bool) \<Rightarrow> ('r \<Rightarrow> 'r) \<Rightarrow> 'r list \<Rightarrow> 'r list" where
  "update_where p f t = map (\<lambda>r. if p r then f r else r) t"

definition row_count :: "('r \<Rightarrow> bool) \<Rightarrow> 'r list \<Rightarrow> nat" where
  "row_count p t = length (filter p t)"

text \<open>\<open>LIMIT n\<close>: a negative limit is no limit.\<close>

definition sql_limit :: "int \<Rightarrow> 'r list \<Rightarrow> 'r list" where
  "sql_limit n t = (if n < 0 then t else take (nat n) t)"

lemma set_sql_limit: "set (sql_limit n t) \<subseteq> set t"
  by (auto simp: sql_limit_def dest: in_set_takeD)

lemma length_sql_limit: "0 \<le> n \<Longrightarrow> int (length (sql_limit n t)) \<le> n"
  by (simp add: sql_limit_def)

lemma length_update_where [simp]: "length (update_where p f t) = length t"
  by (simp add: update_where_def)

lemma update_where_Nil [simp]: "update_where p f [] = []"
  by (simp add: update_where_def)

lemma update_where_Cons [simp]:
  "update_where p f (r # t) = (if p r then f r else r) # update_where p f t"
  by (simp add: update_where_def)

lemma set_update_where [tbl]:
  "set (update_where p f t) = (\<lambda>r. if p r then f r else r) ` set t"
  by (simp add: update_where_def)

lemma map_update_where: "(\<And>r. k (f r) = k r) \<Longrightarrow> map k (update_where p f t) = map k t"
  by (simp add: update_where_def)

lemma row_count_0: "row_count p t = 0 \<longleftrightarrow> (\<forall>r\<in>set t. \<not> p r)"
  by (induction t) (auto simp: row_count_def)

lemma update_where_none: "\<forall>r\<in>set t. \<not> p r \<Longrightarrow> update_where p f t = t"
  by (induction t) auto

text \<open>\<open>SELECT ... WHERE key = ?\<close> with \<open>fetchone\<close>.\<close>

definition find_row :: "('r \<Rightarrow> 'k) \<Rightarrow> 'k \<Rightarrow> 'r list \<Rightarrow> 'r option" where
  "find_row k x t = find (\<lambda>r. k r = x) t"

lemma find_row_Nil [simp]: "find_row k x [] = None"
  by (simp add: find_row_def)

lemma find_row_Cons [simp]:
  "find_row k x (r # t) = (if k r = x then Some r else find_row k x t)"
  by (simp add: find_row_def)

lemma find_row_None: "find_row k x t = None \<longleftrightarrow> x \<notin> k ` set t"
  by (induction t) auto

lemma find_row_Some: "find_row k x t = Some r \<Longrightarrow> r \<in> set t \<and> k r = x"
  by (induction t) (auto split: if_splits)

lemma find_row_append:
  "find_row k x (t @ u) = (case find_row k x t of None \<Rightarrow> find_row k x u | Some r \<Rightarrow> Some r)"
  by (induction t) auto

lemma find_row_distinct:
  "distinct (map k t) \<Longrightarrow> r \<in> set t \<Longrightarrow> find_row k (k r) t = Some r"
  by (induction t) (auto simp: image_iff)

lemma find_row_update_where:
  "(\<And>r. k (f r) = k r) \<Longrightarrow>
     find_row k x (update_where p f t) = map_option (\<lambda>r. if p r then f r else r) (find_row k x t)"
  by (induction t) auto

section \<open>Exceptions\<close>

text \<open>The exceptions the modelled code raises or catches, with the message where the code
  stores it. \<open>HttpStatus\<close> is the answer of a service httpx raises, \<open>TransportError\<close> a connection of httpx that failed,
  with the name of its class, and \<open>HTTPException\<close> the answer a route gives. \<open>OutOfFuel\<close> is none of the code: it marks a loop that was followed for as many turns as
  it was given and is still running.\<close>

datatype exc =
    ValueError string
  | RuntimeError string
  | KeyError
  | TypeError
  | IndexError
  | ZeroDivisionError
  | ContractLogicError string
  | RpcError "string option" string
  | NodeError string
  | LiquidityUnavailable string
  | ReceiptUnknown string
  | OperationPending string string
  | StaleNonce nat nat
  | PendingLimitReached nat
  | InsufficientRateHistory
  | HttpStatus int string
  | TransportError string string
  | HTTPException int string
  | AccountingApiError int string
  | NetworkError string
  | BelowFloor string
  | PricingUnavailable string
  | TimeoutError
  | InvalidOperation
  | OverflowError
  | MidasInstantUnavailable string
  | MidasLiquidityUnavailable string
  | OutOfFuel

text \<open>\<open>str(exc)\<close>. An \<open>RpcError\<close> carries the node's own message, when its reply had one, and
  the text web3 wraps it in; a \<open>NodeError\<close> is any other failure of a call to a node.\<close>

definition exc_text :: "exc \<Rightarrow> string" where
  "exc_text e =
     (case e of
        ValueError m \<Rightarrow> m
      | RuntimeError m \<Rightarrow> m
      | ContractLogicError m \<Rightarrow> m
      | RpcError _ m \<Rightarrow> m
      | NodeError m \<Rightarrow> m
      | LiquidityUnavailable m \<Rightarrow> m
      | ReceiptUnknown m \<Rightarrow> m
      | OperationPending _ _ \<Rightarrow>
          ''A previous operation is still pending; wait for it to finish before submitting another''
      | HttpStatus _ m \<Rightarrow> m
      | TransportError _ m \<Rightarrow> m
      | AccountingApiError _ m \<Rightarrow> m
      | NetworkError m \<Rightarrow> m
      | BelowFloor m \<Rightarrow> m
      | PricingUnavailable m \<Rightarrow> m
      | MidasInstantUnavailable m \<Rightarrow> m
      | MidasLiquidityUnavailable m \<Rightarrow> m
      | _ \<Rightarrow> [])"

text \<open>Sequencing of pure code that may raise.\<close>

definition bindE :: "'e + 'a \<Rightarrow> ('a \<Rightarrow> 'e + 'b) \<Rightarrow> 'e + 'b" where
  "bindE x f = (case x of Inl e \<Rightarrow> Inl e | Inr a \<Rightarrow> f a)"

lemma bindE_simps [simp]:
  "bindE (Inl e) f = Inl e"
  "bindE (Inr a) f = f a"
  by (simp_all add: bindE_def)

lemma bindE_Inr: "bindE x f = Inr b \<longleftrightarrow> (\<exists>a. x = Inr a \<and> f a = Inr b)"
  by (cases x) auto

lemma bindE_Inl: "bindE x f = Inl e \<longleftrightarrow> x = Inl e \<or> (\<exists>a. x = Inr a \<and> f a = Inl e)"
  by (cases x) auto

text \<open>A guard: \<open>if not p: raise e\<close>.\<close>

definition guardE :: "bool \<Rightarrow> 'e \<Rightarrow> 'e + unit" where
  "guardE p e = (if p then Inr () else Inl e)"

lemma guardE_simps [simp]:
  "guardE p e = Inr u \<longleftrightarrow> p"
  "guardE p e = Inl e' \<longleftrightarrow> \<not> p \<and> e' = e"
  by (auto simp: guardE_def)

section \<open>The state and exception monad\<close>

text \<open>
  An action on a state \<open>'s\<close> returns a value or raises, and in both cases leaves a state:
  what was written before a raise stays written.
\<close>

type_synonym ('s, 'e, 'a) act = "'s \<Rightarrow> ('e + 'a) \<times> 's"

definition ret :: "'a \<Rightarrow> ('s, 'e, 'a) act" where
  "ret x = (\<lambda>s. (Inr x, s))"

definition throw :: "'e \<Rightarrow> ('s, 'e, 'a) act" where
  "throw e = (\<lambda>s. (Inl e, s))"

definition bindA :: "('s, 'e, 'a) act \<Rightarrow> ('a \<Rightarrow> ('s, 'e, 'b) act) \<Rightarrow> ('s, 'e, 'b) act" where
  "bindA m f = (\<lambda>s. case m s of (Inl e, s') \<Rightarrow> (Inl e, s') | (Inr x, s') \<Rightarrow> f x s')"

definition seqA :: "('s, 'e, 'a) act \<Rightarrow> ('s, 'e, 'b) act \<Rightarrow> ('s, 'e, 'b) act" where
  "seqA m n = bindA m (\<lambda>_. n)"

definition getA :: "('s \<Rightarrow> 'a) \<Rightarrow> ('s, 'e, 'a) act" where
  "getA f = (\<lambda>s. (Inr (f s), s))"

definition modifyA :: "('s \<Rightarrow> 's) \<Rightarrow> ('s, 'e, unit) act" where
  "modifyA f = (\<lambda>s. (Inr (), f s))"

text \<open>\<open>try: m except: h\<close>.\<close>

definition catchA :: "('s, 'e, 'a) act \<Rightarrow> ('e \<Rightarrow> ('s, 'e, 'a) act) \<Rightarrow> ('s, 'e, 'a) act" where
  "catchA m h = (\<lambda>s. case m s of (Inl e, s') \<Rightarrow> h e s' | (Inr x, s') \<Rightarrow> (Inr x, s'))"

text \<open>A pure computation that may raise, and the outcome of an action as a value: the body of a
  \<open>try\<close> whose handlers are a case distinction on it.\<close>

definition liftE :: "'e + 'a \<Rightarrow> ('s, 'e, 'a) act" where
  "liftE x = (\<lambda>s. (x, s))"

definition tryA :: "('s, 'e, 'a) act \<Rightarrow> ('s, 'e, 'e + 'a) act" where
  "tryA m = (\<lambda>s. case m s of (x, s') \<Rightarrow> (Inr x, s'))"

text \<open>
  \<open>hoare P m Q E\<close>: from a state with \<open>P\<close>, a return of \<open>x\<close> leaves a state with \<open>Q x\<close>,
  and a raise one with \<open>E\<close>.
\<close>

definition hoare ::
  "('s \<Rightarrow> bool) \<Rightarrow> ('s, 'e, 'a) act \<Rightarrow> ('a \<Rightarrow> 's \<Rightarrow> bool) \<Rightarrow> ('s \<Rightarrow> bool) \<Rightarrow> bool" where
  "hoare P m Q E =
     (\<forall>s. P s \<longrightarrow> (case m s of (Inl e, s') \<Rightarrow> E s' | (Inr x, s') \<Rightarrow> Q x s'))"

lemma hoareD:
  "hoare P m Q E \<Longrightarrow> P s \<Longrightarrow> m s = (Inr x, s') \<Longrightarrow> Q x s'"
  "hoare P m Q E \<Longrightarrow> P s \<Longrightarrow> m s = (Inl e, s') \<Longrightarrow> E s'"
  by (auto simp: hoare_def dest: spec [of _ s])

lemma hoare_pre: "hoare P m Q E \<Longrightarrow> (\<And>s. P' s \<Longrightarrow> P s) \<Longrightarrow> hoare P' m Q E"
  by (auto simp: hoare_def)

lemma hoare_post:
  "hoare P m Q E \<Longrightarrow> (\<And>x s. Q x s \<Longrightarrow> Q' x s) \<Longrightarrow> (\<And>s. E s \<Longrightarrow> E' s) \<Longrightarrow> hoare P m Q' E'"
  by (fastforce simp: hoare_def split: prod.splits sum.splits)

lemma hoare_ret [wp]: "hoare (Q x) (ret x) Q E"
  by (simp add: hoare_def ret_def)

lemma hoare_throw [wp]: "hoare E (throw e) Q E"
  by (simp add: hoare_def throw_def)

lemma hoare_getA [wp]: "hoare (\<lambda>s. Q (f s) s) (getA f) Q E"
  by (simp add: hoare_def getA_def)

lemma hoare_modifyA [wp]: "hoare (\<lambda>s. Q () (f s)) (modifyA f) Q E"
  by (simp add: hoare_def modifyA_def)

lemma hoare_bindA: "hoare P m R E \<Longrightarrow> (\<And>x. hoare (R x) (f x) Q E) \<Longrightarrow> hoare P (bindA m f) Q E"
  by (fastforce simp: hoare_def bindA_def split: prod.splits sum.splits)

lemma hoare_seqA: "hoare P m (\<lambda>_. R) E \<Longrightarrow> hoare R n Q E \<Longrightarrow> hoare P (seqA m n) Q E"
  unfolding seqA_def by (rule hoare_bindA)

lemma hoare_catchA: "hoare P m Q R \<Longrightarrow> (\<And>e. hoare R (h e) Q E) \<Longrightarrow> hoare P (catchA m h) Q E"
  by (fastforce simp: hoare_def catchA_def split: prod.splits sum.splits)

lemma hoare_liftE [wp]: "hoare (\<lambda>s. (\<forall>a. x = Inr a \<longrightarrow> Q a s) \<and> ((\<exists>e. x = Inl e) \<longrightarrow> E s)) (liftE x) Q E"
  by (auto simp: hoare_def liftE_def split: sum.splits)

lemma hoare_tryA:
  assumes m: "hoare P m (\<lambda>x. Q (Inr x)) R" and h: "\<And>e s. R s \<Longrightarrow> Q (Inl e) s"
  shows "hoare P (tryA m) Q E"
  unfolding hoare_def
proof (intro allI impI)
  fix s assume P: "P s"
  obtain x s' where ms: "m s = (x, s')" by (cases "m s")
  have "Q x s'"
    using hoareD [OF m P] ms h by (cases x) auto
  with ms show "case tryA m s of (Inl e, s') \<Rightarrow> E s' | (Inr x, s') \<Rightarrow> Q x s'"
    by (simp add: tryA_def)
qed

lemma hoare_if:
  "(b \<Longrightarrow> hoare P m Q E) \<Longrightarrow> (\<not> b \<Longrightarrow> hoare P n Q E) \<Longrightarrow> hoare P (if b then m else n) Q E"
  by simp

lemma hoare_assume: "(p \<Longrightarrow> hoare P m Q E) \<Longrightarrow> hoare (\<lambda>s. p \<and> P s) m Q E"
  by (auto simp: hoare_def)

lemma hoare_ex:
  assumes "\<And>r. hoare (P r) m Q E"
  shows "hoare (\<lambda>s. \<exists>r. P r s) m Q E"
  using assms unfolding hoare_def by (metis (mono_tags, lifting))

lemma hoare_False [simp]: "hoare (\<lambda>_. False) m Q E"
  by (simp add: hoare_def)

text \<open>An invariant of an action: kept whether it returns or raises.\<close>

definition keeps :: "('s \<Rightarrow> bool) \<Rightarrow> ('s, 'e, 'a) act \<Rightarrow> bool" where
  "keeps I m = (\<forall>s. I s \<longrightarrow> I (snd (m s)))"

lemma keepsI: "(\<And>s. I s \<Longrightarrow> I (snd (m s))) \<Longrightarrow> keeps I m"
  by (simp add: keeps_def)

lemma keepsD: "keeps I m \<Longrightarrow> I s \<Longrightarrow> I (snd (m s))"
  by (simp add: keeps_def)

lemma keeps_hoare: "keeps I m \<longleftrightarrow> hoare I m (\<lambda>_. I) I"
  by (auto simp: keeps_def hoare_def split: prod.splits sum.splits) (metis old.sum.exhaust sndI surj_pair)+

lemma keeps_ret [wp]: "keeps I (ret x)"
  by (simp add: keeps_def ret_def)

lemma keeps_throw [wp]: "keeps I (throw e)"
  by (simp add: keeps_def throw_def)

lemma keeps_getA [wp]: "keeps I (getA f)"
  by (simp add: keeps_def getA_def)

lemma keeps_modifyA: "(\<And>s. I s \<Longrightarrow> I (f s)) \<Longrightarrow> keeps I (modifyA f)"
  by (simp add: keeps_def modifyA_def)

lemma keeps_bindA [wp]: "keeps I m \<Longrightarrow> (\<And>x. keeps I (f x)) \<Longrightarrow> keeps I (bindA m f)"
  unfolding keeps_hoare by (rule hoare_bindA)

lemma keeps_seqA [wp]: "keeps I m \<Longrightarrow> keeps I n \<Longrightarrow> keeps I (seqA m n)"
  unfolding keeps_hoare by (rule hoare_seqA)

lemma keeps_catchA [wp]: "keeps I m \<Longrightarrow> (\<And>e. keeps I (h e)) \<Longrightarrow> keeps I (catchA m h)"
  unfolding keeps_hoare by (rule hoare_catchA)

lemma keeps_liftE [wp]: "keeps I (liftE x)"
  by (simp add: keeps_def liftE_def)

lemma keeps_tryA [wp]: "keeps I m \<Longrightarrow> keeps I (tryA m)"
  by (simp add: keeps_def tryA_def split: prod.splits) (metis sndI)

lemma keeps_if [wp]: "(b \<Longrightarrow> keeps I m) \<Longrightarrow> (\<not> b \<Longrightarrow> keeps I n) \<Longrightarrow> keeps I (if b then m else n)"
  by simp

lemma act_simps:
  "ret x s = (Inr x, s)"
  "throw e s = (Inl e, s)"
  "getA f s = (Inr (f s), s)"
  "modifyA g s = (Inr (), g s)"
  by (simp_all add: ret_def throw_def getA_def modifyA_def)

lemma bindA_eq:
  "bindA m f s = (case m s of (Inl e, s') \<Rightarrow> (Inl e, s') | (Inr x, s') \<Rightarrow> f x s')"
  by (simp add: bindA_def)

lemma seqA_eq:
  "seqA m n s = (case m s of (Inl e, s') \<Rightarrow> (Inl e, s') | (Inr x, s') \<Rightarrow> n s')"
  by (simp add: seqA_def bindA_def)

lemmas act_eqs = act_simps bindA_eq seqA_eq

end
