(* ===== verification/Fees.thy ===== *)
theory Fees
  imports Prelude
begin

text \<open>
  Fee arithmetic: the fee of a gross amount (\<open>core/fees.py\<close>), the minimum a LiFi execution
  quote credits and the slippage that still credits the quote's floor
  (\<open>_net_min\<close> and \<open>_slippage_bps_to_floor\<close> of \<open>services/swap/lifi_pipeline.py\<close>).
  The lemmas of the slippage search hold for any monotone payout (locale \<open>monotone_net\<close>), which
  \<open>calculate_fee\<close> is for every fee from 0 to 10000 basis points.
\<close>

section \<open>The fee\<close>

definition calculate_fee :: "int \<Rightarrow> int \<Rightarrow> int \<times> int" where
  "calculate_fee gross_amount fee_bps =
     (let fee = (gross_amount * fee_bps) div 10000; net = gross_amount - fee in (net, fee))"

abbreviation net_of :: "int \<Rightarrow> int \<Rightarrow> int" where
  "net_of fee_bps gross \<equiv> fst (calculate_fee gross fee_bps)"

lemma net_of_eq: "net_of b g = g - (g * b) div 10000"
  by (simp add: calculate_fee_def Let_def)

lemma fee_sum: "fst (calculate_fee g b) + snd (calculate_fee g b) = g"
  by (simp add: calculate_fee_def Let_def)

text \<open>The net amount is the part of the gross left by the basis points, rounded up.\<close>

lemma net_of_ceil: "net_of b g = ceil_div (g * (10000 - b)) 10000"
proof -
  have "- (g * (10000 - b)) = g * b + (- g) * 10000" by (simp add: algebra_simps)
  then have "(- (g * (10000 - b))) div 10000 = (g * b) div 10000 - g"
    by (metis div_mult_self1 add.commute diff_conv_add_uminus zero_neq_numeral mult.commute)
  then show ?thesis by (simp add: net_of_eq ceil_div_def)
qed

lemma net_of_ge_iff: "f \<le> net_of b g \<longleftrightarrow> (f - 1) * 10000 < g * (10000 - b)"
  using less_ceil_div_iff [of 10000 "f - 1" "g * (10000 - b)"] by (simp add: net_of_ceil) linarith

lemma net_of_mono: "b \<le> 10000 \<Longrightarrow> g \<le> h \<Longrightarrow> net_of b g \<le> net_of b h"
proof -
  assume "b \<le> 10000" and "g \<le> h"
  then have "g * (10000 - b) \<le> h * (10000 - b)" by (simp add: mult_right_mono)
  moreover have "(net_of b g - 1) * 10000 < g * (10000 - b)"
    using net_of_ge_iff [where f = "net_of b g" and b = b and g = g] by simp
  ultimately show ?thesis by (simp add: net_of_ge_iff [where f = "net_of b g" and b = b and g = h])
qed

lemma net_of_0 [simp]: "net_of b 0 = 0"
  by (simp add: net_of_eq)

lemma net_of_bounds: "0 \<le> b \<Longrightarrow> b \<le> 10000 \<Longrightarrow> 0 \<le> g \<Longrightarrow> 0 \<le> net_of b g \<and> net_of b g \<le> g"
  using net_of_mono [where b = b and g = 0 and h = g] by (simp add: net_of_eq pos_imp_zdiv_nonneg_iff)

section \<open>Execution quotes against the floor\<close>

text \<open>\<open>gross_min\<close> walked down while one unit less still nets the floor.\<close>

function lower_gross :: "(int \<Rightarrow> int) \<Rightarrow> int \<Rightarrow> int \<Rightarrow> int" where
  "lower_gross net floor gross_min =
     (if 0 < gross_min \<and> floor \<le> net (gross_min - 1) then lower_gross net floor (gross_min - 1)
      else gross_min)"
  by pat_completeness auto
termination
  by (relation "measure (\<lambda>(net, floor, g). nat g)") auto

declare lower_gross.simps [simp del]

locale monotone_net =
  fixes net :: "int \<Rightarrow> int \<Rightarrow> int"
    and valid :: "int \<Rightarrow> bool"
  assumes net_monotone: "valid b \<Longrightarrow> g \<le> h \<Longrightarrow> net b g \<le> net b h"
begin

lemma lower_gross_le: "lower_gross (net b) floor g \<le> g"
proof (induction "net b" floor g rule: lower_gross.induct)
  case (1 floor g)
  then show ?case by (subst lower_gross.simps) auto
qed

lemma lower_gross_nonneg: "0 \<le> g \<Longrightarrow> 0 \<le> lower_gross (net b) floor g"
proof (induction "net b" floor g rule: lower_gross.induct)
  case (1 floor g)
  then show ?case by (subst lower_gross.simps) auto
qed

lemma lower_gross_least:
  assumes "valid b" and "floor \<le> net b g" and "0 \<le> g"
  shows "0 \<le> h \<Longrightarrow> floor \<le> net b h \<longleftrightarrow> lower_gross (net b) floor g \<le> h"
  using assms(2,3)
proof (induction "net b" floor g rule: lower_gross.induct)
  case (1 floor g)
  show ?case
  proof (cases "0 < g \<and> floor \<le> net b (g - 1)")
    case True
    with 1 show ?thesis by (simp add: lower_gross.simps [of "net b" floor g])
  next
    case False
    have "floor \<le> net b h \<longleftrightarrow> g \<le> h"
    proof
      assume "floor \<le> net b h"
      with False \<open>0 \<le> g\<close> \<open>0 \<le> h\<close> show "g \<le> h"
        using net_monotone [OF assms(1), of h "g - 1"] by linarith
    next
      assume "g \<le> h"
      with 1 show "floor \<le> net b h" using net_monotone [OF assms(1), of g h] by linarith
    qed
    moreover from False have "lower_gross (net b) floor g = g"
      by (subst lower_gross.simps) auto
    ultimately show ?thesis by simp
  qed
qed

end

interpretation fee_net: monotone_net "\<lambda>b g. net_of b g" "\<lambda>b. 0 \<le> b \<and> b \<le> 10000"
  by unfold_locales (auto intro: net_of_mono)

text \<open>\<open>_net_min\<close>: the least the user is credited if LiFi pays out \<open>toAmountMin\<close>.\<close>

definition net_min :: "int \<Rightarrow> int \<Rightarrow> int" where
  "net_min to_amount_min fee_bps = fst (calculate_fee to_amount_min fee_bps)"

text \<open>\<open>_slippage_bps_to_floor\<close>; both divisions raise on a zero divisor.\<close>

definition gross_for_floor :: "int \<Rightarrow> int \<Rightarrow> int" where
  "gross_for_floor floor fee_bps =
     lower_gross (\<lambda>g. fst (calculate_fee g fee_bps)) floor (ceil_div (floor * 10000) (10000 - fee_bps))"

definition slippage_bps_to_floor :: "int \<Rightarrow> int \<Rightarrow> int \<Rightarrow> exc + int option" where
  "slippage_bps_to_floor to_amount floor fee_bps =
     (if 10000 - fee_bps = 0 then Inl ZeroDivisionError
      else let gross_min = gross_for_floor floor fee_bps in
        if to_amount < gross_min then Inr None
        else if to_amount = 0 then Inl ZeroDivisionError
        else Inr (Some ((to_amount - gross_min) * 10000 div to_amount)))"

lemma gross_start:
  assumes "0 \<le> b" and "b < 10000" and "0 \<le> f"
  shows "f \<le> net_of b (ceil_div (f * 10000) (10000 - b))" and "0 \<le> ceil_div (f * 10000) (10000 - b)"
proof -
  have "f * 10000 \<le> ceil_div (f * 10000) (10000 - b) * (10000 - b)"
    using assms by (intro ceil_div_mult_ge) simp
  then show "f \<le> net_of b (ceil_div (f * 10000) (10000 - b))"
    by (simp add: net_of_ge_iff)
  show "0 \<le> ceil_div (f * 10000) (10000 - b)"
    using assms less_ceil_div_iff [of "10000 - b" "- 1" "f * 10000"] by simp
qed

lemma gross_for_floor_least:
  assumes "0 \<le> b" and "b < 10000" and "0 \<le> f" and "0 \<le> g"
  shows "f \<le> net_of b g \<longleftrightarrow> gross_for_floor f b \<le> g"
  unfolding gross_for_floor_def
  using fee_net.lower_gross_least [of b f "ceil_div (f * 10000) (10000 - b)" g] gross_start [of b f] assms
  by simp

lemma gross_for_floor_nonneg: "0 \<le> b \<Longrightarrow> b < 10000 \<Longrightarrow> 0 \<le> f \<Longrightarrow> 0 \<le> gross_for_floor f b"
  unfolding gross_for_floor_def using gross_start [of b f] by (intro fee_net.lower_gross_nonneg) simp

text \<open>C9: the slippage asked of LiFi is exact. For a fee below 100 percent, a quote is refused just when its
  expected output, after the fee, credits less than the floor; otherwise the slippage returned is
  the largest whole number of basis points for which the least output LiFi then enforces,
  \<open>toAmount * (10000 - slippage) // 10000\<close>, still credits the floor after the fee.\<close>

theorem slippage_exact:
  assumes "0 \<le> fee_bps" and "fee_bps < 10000" and "0 \<le> floor" and "0 < to_amount"
  shows "(slippage_bps_to_floor to_amount floor fee_bps = Inr None \<longleftrightarrow> net_min to_amount fee_bps < floor)
    \<and> (\<forall>s. slippage_bps_to_floor to_amount floor fee_bps = Inr (Some s) \<longrightarrow>
         0 \<le> s \<and> (\<forall>b. 0 \<le> b \<and> b \<le> 10000 \<longrightarrow>
            (floor \<le> net_min (to_amount * (10000 - b) div 10000) fee_bps \<longleftrightarrow> b \<le> s)))"
proof -
  let ?gm = "gross_for_floor floor fee_bps"
  have least: "0 \<le> g \<Longrightarrow> floor \<le> net_min g fee_bps \<longleftrightarrow> ?gm \<le> g" for g
    unfolding net_min_def by (rule gross_for_floor_least [OF assms(1-3)])
  have slip: "slippage_bps_to_floor to_amount floor fee_bps =
      (if to_amount < ?gm then Inr None else Inr (Some ((to_amount - ?gm) * 10000 div to_amount)))"
    using assms by (simp add: slippage_bps_to_floor_def Let_def)
  have "floor \<le> net_min (to_amount * (10000 - b) div 10000) fee_bps \<longleftrightarrow> b \<le> (to_amount - ?gm) * 10000 div to_amount"
    if "0 \<le> b" "b \<le> 10000" for b
  proof -
    have "0 \<le> to_amount * (10000 - b) div 10000"
      using assms(4) that by (simp add: pos_imp_zdiv_nonneg_iff)
    then have "floor \<le> net_min (to_amount * (10000 - b) div 10000) fee_bps \<longleftrightarrow> ?gm * 10000 \<le> to_amount * (10000 - b)"
      using least le_div_iff [of 10000 ?gm "to_amount * (10000 - b)"] by simp
    also have "\<dots> \<longleftrightarrow> b * to_amount \<le> (to_amount - ?gm) * 10000"
      by (simp add: algebra_simps)
    finally show ?thesis using le_div_iff [OF assms(4), of b] by simp
  qed
  moreover have "to_amount < ?gm \<longleftrightarrow> net_min to_amount fee_bps < floor"
    using least [of to_amount] assms(4) by linarith
  ultimately show ?thesis
    using assms(4) by (auto simp: slip pos_imp_zdiv_nonneg_iff)
qed

theorem slippage_exact_witness:
  "slippage_bps_to_floor 1000 980 50 = Inr (Some 160) \<and> net_min (1000 * (10000 - 160) div 10000) 50 \<ge> 980"
proof -
  have s: "slippage_bps_to_floor 1000 980 50 = Inr (Some 160)" by code_simp
  with slippage_exact [of 50 980 1000]
  have "\<forall>b. 0 \<le> b \<and> b \<le> 10000 \<longrightarrow>
      (980 \<le> net_min (1000 * (10000 - b) div 10000) 50 \<longleftrightarrow> b \<le> 160)" by simp
  from spec [OF this, of 160] s show ?thesis by simp
qed

end
