(* ===== verification/Validation.thy ===== *)
theory Validation
  imports Prelude
begin

text \<open>
  Input validation (\<open>core/validation.py\<close>) on ASCII strings: the address, token id, amount and
  signature checks the routes and the fee policies run, with Python's own rules for
  \<open>re\<close>'s \<open>$\<close>, \<open>int()\<close> and \<open>bytes.fromhex\<close>. \<open>None\<close> of the routes' optional strings is the empty
  string, which \<open>not value\<close> rejects the same way. The value a check passes is decoded by
  \<open>hex_value\<close>, so that the lemmas can say which number an accepted string stands for.
\<close>

section \<open>Hexadecimal patterns\<close>

definition newline :: char where
  "newline = char_of (10 :: nat)"

text \<open>\<open>$\<close> matches at the end of the string and just before a newline that ends it.\<close>

definition before_dollar :: "string \<Rightarrow> string" where
  "before_dollar s = (if s \<noteq> [] \<and> last s = newline then butlast s else s)"

text \<open>\<open>^0x[0-9a-fA-F]{n}$\<close>\<close>

definition hex_pattern :: "nat \<Rightarrow> string \<Rightarrow> bool" where
  "hex_pattern n s =
     (let t = before_dollar s
      in prefix ''0x'' t \<and> length t = n + 2 \<and> list_all is_hex_digit (drop 2 t))"

definition address_pattern :: "string \<Rightarrow> bool" where
  "address_pattern = hex_pattern 40"

definition token_id_pattern :: "string \<Rightarrow> bool" where
  "token_id_pattern = hex_pattern 64"

definition validate_token_id :: "string \<Rightarrow> string \<Rightarrow> exc + unit" where
  "validate_token_id value name =
     (if value = [] \<or> \<not> token_id_pattern value
      then Inl (ValueError (name @ '' must be a bytes32 hex string (0x + 64 hex chars)''))
      else Inr ())"

definition validate_address :: "string \<Rightarrow> string \<Rightarrow> exc + unit" where
  "validate_address value name =
     (if value = [] \<or> \<not> address_pattern value
      then Inl (ValueError (name @ '' must be a valid hex address (0x + 40 hex chars)''))
      else Inr ())"

lemma newline_not_hex [simp]: "\<not> is_hex_digit newline"
  by (simp add: newline_def is_hex_digit_def)

lemma is_hex_digit_lower_char: "is_hex_digit c \<Longrightarrow> is_hex_digit (lower_char c)"
  by (auto simp: is_hex_digit_def lower_char_def Let_def)

lemma last_lower: "s \<noteq> [] \<Longrightarrow> last (lower s) = lower_char (last s)"
  by (simp add: lower_def last_map)

lemma lower_char_newline: "lower_char c = newline \<longleftrightarrow> c = newline"
proof
  assume "lower_char c = newline"
  then show "c = newline"
    by (auto simp: lower_char_def newline_def Let_def split: if_splits
          dest: arg_cong [of _ _ "of_char :: char \<Rightarrow> nat"])
qed (simp add: lower_char_def newline_def)

lemma before_dollar_lower: "before_dollar (lower s) = lower (before_dollar s)"
proof (cases "s = []")
  case False
  then show ?thesis
    by (simp add: before_dollar_def last_lower lower_char_newline) (simp add: lower_def map_butlast)
qed (simp add: before_dollar_def)

lemma hex_pattern_lower: "hex_pattern n s \<Longrightarrow> hex_pattern n (lower s)"
proof -
  assume "hex_pattern n s"
  then obtain h where t: "before_dollar s = ''0x'' @ h" and n: "length h = n" and h: "list_all is_hex_digit h"
    by (auto simp: hex_pattern_def Let_def prefix_def)
  have "lower (''0x'' @ h) = ''0x'' @ lower h" by (simp add: lower_def lower_char_def)
  moreover have "list_all is_hex_digit (lower h)"
    using h by (auto simp: lower_def list_all_iff intro: is_hex_digit_lower_char)
  ultimately show ?thesis
    using t n by (simp add: hex_pattern_def before_dollar_lower)
qed

text \<open>An address with a newline behind it passes the check of addresses, since \<open>$\<close> also matches
  before a final newline.\<close>

lemma address_accepts_newline:
  "validate_address (''0x'' @ replicate 40 CHR ''0'' @ [newline]) name = Inr ()"
  by (simp add: validate_address_def address_pattern_def hex_pattern_def before_dollar_def is_hex_digit_def
      list_all_iff butlast_append)

section \<open>Amounts\<close>

text \<open>The characters C's \<open>isspace\<close> accepts, which \<open>int()\<close> and \<open>bytes.fromhex\<close> skip.\<close>

definition is_space :: "char \<Rightarrow> bool" where
  "is_space c = (let n = of_char c :: nat in n = 32 \<or> 9 \<le> n \<and> n \<le> 13)"

definition strip_spaces :: "string \<Rightarrow> string" where
  "strip_spaces s = rev (dropWhile is_space (rev (dropWhile is_space s)))"

text \<open>Digits with single underscores between them, and at most 4300 of them.\<close>

fun digits_ok :: "string \<Rightarrow> bool" where
  "digits_ok [] = False"
| "digits_ok [c] = is_digit c"
| "digits_ok (c # d # s) =
     (is_digit c \<and> (if d = CHR ''_'' then digits_ok s else digits_ok (d # s)))"

definition py_int :: "string \<Rightarrow> int option" where
  "py_int value =
     (let t = strip_spaces value;
          neg = (t \<noteq> [] \<and> hd t = CHR ''-'');
          u = (if t \<noteq> [] \<and> (hd t = CHR ''-'' \<or> hd t = CHR ''+'') then tl t else t);
          ds = filter (\<lambda>c. c \<noteq> CHR ''_'') u
      in if digits_ok u \<and> length ds \<le> 4300
         then map_option (\<lambda>n. if neg then - int n else int n) (read_nat ds)
         else None)"

definition validate_amount :: "string \<Rightarrow> string \<Rightarrow> exc + unit" where
  "validate_amount value name =
     (case py_int value of
        None \<Rightarrow> Inl (ValueError (name @ '' must be a valid integer string''))
      | Some parsed \<Rightarrow>
          if parsed \<le> 0 then Inl (ValueError (name @ '' must be greater than zero'')) else Inr ())"

lemma validate_amount_iff:
  "validate_amount v name = Inr () \<longleftrightarrow> (\<exists>n. py_int v = Some n \<and> 0 < n)"
  by (auto simp: validate_amount_def split: option.splits)

lemma is_digit_not_space: "is_digit c \<Longrightarrow> \<not> is_space c"
  by (auto simp: is_digit_def is_space_def Let_def)

lemma is_digit_not_special:
  "is_digit c \<Longrightarrow> c \<noteq> CHR ''_'' \<and> c \<noteq> CHR ''-'' \<and> c \<noteq> CHR ''+'' \<and> c \<noteq> CHR '':'' \<and> c \<noteq> CHR '' ''"
  by (auto simp: is_digit_def)

lemma digits_ok_digits: "s \<noteq> [] \<Longrightarrow> list_all is_digit s \<Longrightarrow> digits_ok s"
  by (induction s rule: digits_ok.induct) (auto dest: is_digit_not_special)

lemma strip_spaces_digits: "list_all is_digit s \<Longrightarrow> strip_spaces s = s"
proof -
  assume d: "list_all is_digit s"
  have "dropWhile is_space s = s"
    using d by (cases s) (auto dest: is_digit_not_space)
  moreover have "dropWhile is_space (rev s) = rev s"
    using d by (cases "rev s") (auto simp: list_all_iff dest!: is_digit_not_space dest: arg_cong [of _ _ set])
  ultimately show ?thesis by (simp add: strip_spaces_def)
qed

text \<open>What the code writes with \<open>str(n)\<close> it reads back with \<open>int()\<close>.\<close>

lemma py_int_show_nat: "length (show_nat n) \<le> 4300 \<Longrightarrow> py_int (show_nat n) = Some (int n)"
proof -
  assume len: "length (show_nat n) \<le> 4300"
  have d: "list_all is_digit (show_nat n)" by (rule show_nat_digits)
  then have u: "filter (\<lambda>c. c \<noteq> CHR ''_'') (show_nat n) = show_nat n"
    by (auto simp: list_all_iff filter_id_conv dest: is_digit_not_special)
  have "hd (show_nat n) \<noteq> CHR ''-'' \<and> hd (show_nat n) \<noteq> CHR ''+''"
    using d by (cases "show_nat n") (auto dest: is_digit_not_special)
  then show ?thesis
    using len u d by (simp add: py_int_def strip_spaces_digits digits_ok_digits)
qed

section \<open>Signatures\<close>

text \<open>\<open>bytes.fromhex\<close>: pairs of hex digits, whitespace allowed between the bytes.\<close>

definition hex_val :: "char \<Rightarrow> nat" where
  "hex_val c =
     (let n = of_char c :: nat
      in if n \<le> 57 then n - 48 else if n \<le> 70 then n - 55 else n - 87)"

fun fromhex :: "string \<Rightarrow> nat list option" where
  "fromhex [] = Some []"
| "fromhex [c] = (if is_space c then Some [] else None)"
| "fromhex (c # d # s) =
     (if is_space c then fromhex (d # s)
      else if is_hex_digit c \<and> is_hex_digit d
      then map_option ((#) (16 * hex_val c + hex_val d)) (fromhex s)
      else None)"

definition validate_signature :: "string \<Rightarrow> string \<Rightarrow> exc + unit" where
  "validate_signature value name =
     (if \<not> prefix ''0x'' value then Inl (ValueError (name @ '' must start with 0x''))
      else case fromhex (drop 2 value) of
        None \<Rightarrow> Inl (ValueError (name @ '' must be valid hex''))
      | Some sig_bytes \<Rightarrow>
          if length sig_bytes \<noteq> 65 then Inl (ValueError (name @ '' must be 65 bytes'')) else Inr ())"

lemma hex_val_less: "is_hex_digit c \<Longrightarrow> hex_val c < 16"
  by (auto simp: is_hex_digit_def hex_val_def Let_def)

lemma fromhex_bytes: "fromhex s = Some bs \<Longrightarrow> b \<in> set bs \<Longrightarrow> b < 256"
proof (induction s arbitrary: bs rule: fromhex.induct)
  case (3 c d s)
  then show ?case
    using hex_val_less [of c] hex_val_less [of d] by (auto split: if_splits)
qed (auto split: if_splits)

definition hex_char :: "nat \<Rightarrow> char" where
  "hex_char n = char_of (if n < 10 then 48 + n else 87 + n)"

definition hex_of_bytes :: "nat list \<Rightarrow> string" where
  "hex_of_bytes bs = concat (map (\<lambda>b. [hex_char (b div 16), hex_char (b mod 16)]) bs)"

lemma hex_char_props:
  assumes "n < 16"
  shows "is_hex_digit (hex_char n)" and "hex_val (hex_char n) = n" and "\<not> is_space (hex_char n)"
proof -
  have "of_char (hex_char n) = (if n < 10 then 48 + n else 87 + n)"
    using assms by (simp add: hex_char_def)
  then show "is_hex_digit (hex_char n)" "hex_val (hex_char n) = n" "\<not> is_space (hex_char n)"
    using assms by (auto simp: is_hex_digit_def hex_val_def is_space_def Let_def)
qed

lemma fromhex_hex_of_bytes: "\<forall>b\<in>set bs. b < 256 \<Longrightarrow> fromhex (hex_of_bytes bs) = Some bs"
  by (induction bs) (auto simp: hex_of_bytes_def hex_char_props)

text \<open>A plain 65-byte signature passes, whatever its bytes.\<close>

lemma validate_signature_bytes:
  assumes "\<forall>b\<in>set bs. b < 256"
  shows "validate_signature (''0x'' @ hex_of_bytes bs) name = Inr () \<longleftrightarrow> length bs = 65"
  using fromhex_hex_of_bytes [OF assms] by (simp add: validate_signature_def)

end
