(* ===== verification/FeePolicy.thy ===== *)
theory FeePolicy
  imports Validation "HOL-Library.Multiset"
begin

text \<open>
  Per-wallet fee policies (\<open>core/fee_policy.py\<close>): strict parsing of the campaign list and the
  fee of an internal swap. The JSON text is read by the standard library: the parser is the
  parameter \<open>loads\<close> of \<open>parse_fee_policies\<close>, \<open>None\<close> for \<open>JSONDecodeError\<close>, and a document is a
  \<open>json\<close> value. The loop carries the ids and wallets seen so far; \<open>policies_ok\<close> is what it
  guarantees of the list it returns. The messages of the errors leave out the index of the entry.
\<close>

datatype json =
    JNull
  | JBool bool
  | JInt int
  | JFloat
  | JStr string
  | JArr "json list"
  | JObj "(string \<times> json) list"

text \<open>\<open>entry.get(key)\<close> on a parsed object: the last of the equal keys is the one kept.\<close>

definition json_get :: "(string \<times> json) list \<Rightarrow> string \<Rightarrow> json option" where
  "json_get kvs key = map_of (rev kvs) key"

record fee_policy =
  fp_id :: string
  fp_fee_bps :: int
  fp_from :: int
  fp_until :: int
  fp_wallets :: "string set"

record fee_decision =
  fd_fee_bps :: int
  fd_policy :: "string option"
  fd_until :: "int option"

section \<open>Parsing\<close>

text \<open>The wallets of one policy: lowered, and in no policy before, this one included.\<close>

fun parse_wallets ::
  "string \<Rightarrow> json list \<Rightarrow> string set \<Rightarrow> string set \<Rightarrow> exc + (string set \<times> string set)" where
  "parse_wallets policy_id [] seen wallets = Inr (seen, wallets)"
| "parse_wallets policy_id (w # ws) seen wallets =
     (case w of
        JStr wallet \<Rightarrow>
          bindE (validate_address wallet (''fee policy '' @ policy_id @ '' wallet'')) (\<lambda>_.
            let lowered = lower wallet in
            if lowered \<in> seen
            then Inl (ValueError (''wallet '' @ lowered @ '' appears in more than one fee policy''))
            else parse_wallets policy_id ws (insert lowered seen) (insert lowered wallets))
      | _ \<Rightarrow> Inl (ValueError (''fee policy '' @ policy_id @ '': wallets must be address strings'')))"

text \<open>\<open>not isinstance(v, int) or isinstance(v, bool)\<close> leaves the integers.\<close>

definition json_int :: "json option \<Rightarrow> int option" where
  "json_int v = (case v of Some (JInt n) \<Rightarrow> Some n | _ \<Rightarrow> None)"

definition blank :: "string \<Rightarrow> bool" where
  "blank s = list_all (\<lambda>c. is_space c \<or> (28 \<le> (of_char c :: nat) \<and> (of_char c :: nat) \<le> 31)) s"

definition parse_entry ::
  "json \<Rightarrow> string set \<Rightarrow> string set \<Rightarrow> exc + (fee_policy \<times> string set \<times> string set)" where
  "parse_entry entry seen_ids seen_wallets =
     (case entry of
        JObj kvs \<Rightarrow>
          (case json_get kvs ''id'' of
             Some (JStr policy_id) \<Rightarrow>
               let err = (\<lambda>m. Inl (ValueError (''fee policy '' @ policy_id @ m))) in
               if blank policy_id then Inl (ValueError ''id must be a non-empty string'')
               else if policy_id \<in> seen_ids then Inl (ValueError (''duplicate fee policy id '' @ policy_id))
               else
                 (case json_int (json_get kvs ''fee_bps'') of
                    None \<Rightarrow> err '': fee_bps must be an int in 0..10000''
                  | Some fee_bps \<Rightarrow>
                      if \<not> (0 \<le> fee_bps \<and> fee_bps \<le> 10000)
                      then err '': fee_bps must be an int in 0..10000''
                      else
                        (case (json_int (json_get kvs ''valid_from''), json_int (json_get kvs ''valid_until'')) of
                           (None, _) \<Rightarrow> err '': valid_from must be a unix timestamp''
                         | (Some _, None) \<Rightarrow> err '': valid_until must be a unix timestamp''
                         | (Some valid_from, Some valid_until) \<Rightarrow>
                             if valid_from \<ge> valid_until
                             then err '': valid_from must be before valid_until''
                             else if json_get kvs ''venue_scope'' \<notin> {None, Some (JStr ''internal'')}
                             then err '': only venue_scope 'internal' is supported''
                             else
                               (case json_get kvs ''wallets'' of
                                  Some (JArr wallets_raw) \<Rightarrow>
                                    if wallets_raw = [] then err '': wallets must be a non-empty array''
                                    else bindE (parse_wallets policy_id wallets_raw seen_wallets {})
                                      (\<lambda>(seen, wallets).
                                        Inr (\<lparr>fp_id = policy_id, fp_fee_bps = fee_bps,
                                               fp_from = valid_from, fp_until = valid_until,
                                               fp_wallets = wallets\<rparr>,
                                             insert policy_id seen_ids, seen))
                                | _ \<Rightarrow> err '': wallets must be a non-empty array'')))
           | _ \<Rightarrow> Inl (ValueError ''id must be a non-empty string''))
      | _ \<Rightarrow> Inl (ValueError ''entry must be an object''))"

fun parse_entries :: "json list \<Rightarrow> string set \<Rightarrow> string set \<Rightarrow> exc + fee_policy list" where
  "parse_entries [] seen_ids seen_wallets = Inr []"
| "parse_entries (entry # entries) seen_ids seen_wallets =
     bindE (parse_entry entry seen_ids seen_wallets) (\<lambda>(p, ids, wallets).
       bindE (parse_entries entries ids wallets) (\<lambda>ps. Inr (p # ps)))"

definition parse_fee_policies ::
  "(string \<Rightarrow> json option) \<Rightarrow> string \<Rightarrow> exc + fee_policy list" where
  "parse_fee_policies loads raw =
     (if blank raw then Inr []
      else case loads raw of
        None \<Rightarrow> Inl (ValueError ''FEE_POLICIES_JSON is not valid JSON'')
      | Some (JArr entries) \<Rightarrow> parse_entries entries {} {}
      | Some _ \<Rightarrow> Inl (ValueError ''FEE_POLICIES_JSON must be a JSON array''))"

section \<open>The fee of a wallet\<close>

definition covers :: "string \<Rightarrow> int \<Rightarrow> fee_policy \<Rightarrow> bool" where
  "covers wallet now p \<longleftrightarrow> wallet \<in> fp_wallets p \<and> fp_from p \<le> now \<and> now < fp_until p"

definition resolve_internal_fee :: "fee_policy list \<Rightarrow> int \<Rightarrow> string \<Rightarrow> int \<Rightarrow> fee_decision" where
  "resolve_internal_fee policies default_bps user_address now =
     (case find (covers (lower user_address) now) policies of
        Some p \<Rightarrow> \<lparr>fd_fee_bps = fp_fee_bps p, fd_policy = Some (fp_id p), fd_until = Some (fp_until p)\<rparr>
      | None \<Rightarrow> \<lparr>fd_fee_bps = default_bps, fd_policy = None, fd_until = None\<rparr>)"

section \<open>What parsing guarantees\<close>

definition policy_ok :: "fee_policy \<Rightarrow> bool" where
  "policy_ok p \<longleftrightarrow>
     \<not> blank (fp_id p) \<and> 0 \<le> fp_fee_bps p \<and> fp_fee_bps p \<le> 10000 \<and> fp_from p < fp_until p
     \<and> fp_wallets p \<noteq> {} \<and> (\<forall>w\<in>fp_wallets p. lower w = w \<and> address_pattern w)"

definition policies_ok :: "fee_policy list \<Rightarrow> bool" where
  "policies_ok ps \<longleftrightarrow>
     (\<forall>p\<in>set ps. policy_ok p) \<and> distinct (map fp_id ps)
     \<and> (\<forall>p\<in>set ps. \<forall>q\<in>set ps. p \<noteq> q \<longrightarrow> fp_wallets p \<inter> fp_wallets q = {})"

lemma parse_wallets_Inr:
  "parse_wallets i ws seen acc = Inr (seen', acc') \<Longrightarrow> acc \<subseteq> seen \<Longrightarrow>
     acc \<subseteq> acc' \<and> seen' = seen \<union> acc' \<and> (acc' - acc) \<inter> seen = {}
     \<and> (\<forall>w\<in>acc' - acc. lower w = w \<and> address_pattern w) \<and> (ws \<noteq> [] \<longrightarrow> acc' \<noteq> {})"
proof (induction ws arbitrary: seen acc)
  case Nil
  then show ?case by auto
next
  case (Cons w ws)
  from Cons.prems(1) obtain s where w: "w = JStr s" and s: "address_pattern s" "lower s \<notin> seen"
    and rest: "parse_wallets i ws (insert (lower s) seen) (insert (lower s) acc) = Inr (seen', acc')"
    by (auto simp: bindE_Inr validate_address_def Let_def split: json.splits if_splits)
  have low: "address_pattern (lower s)"
    using s(1) by (simp add: address_pattern_def hex_pattern_lower)
  have "insert (lower s) acc \<subseteq> insert (lower s) seen" using Cons.prems(2) by blast
  note ih = Cons.IH [OF rest this]
  have "(acc' - acc) \<inter> seen = {}"
    using ih s(2) by blast
  moreover have "\<forall>w\<in>acc' - acc. lower w = w \<and> address_pattern w"
    using ih low lower_lower [of s] by blast
  ultimately show ?case using ih by blast
qed

lemma parse_entry_Inr:
  assumes "parse_entry e ids seen = Inr (p, ids', seen')"
  shows "policy_ok p" and "fp_id p \<notin> ids" and "ids' = insert (fp_id p) ids"
    and "fp_wallets p \<inter> seen = {}" and "seen' = seen \<union> fp_wallets p"
proof -
  from assms obtain i f u ws wallets b where ok: "parse_wallets i ws seen {} = Inr (seen', wallets)"
    and p: "p = \<lparr>fp_id = i, fp_fee_bps = b, fp_from = f, fp_until = u, fp_wallets = wallets\<rparr>"
    and side: "\<not> blank i" "i \<notin> ids" "0 \<le> b" "b \<le> 10000" "f < u" "ws \<noteq> []" "ids' = insert i ids"
    by (auto simp: parse_entry_def bindE_Inr Let_def split: json.splits option.splits if_splits)
  from parse_wallets_Inr [OF ok] p side
  show "policy_ok p" "fp_id p \<notin> ids" "ids' = insert (fp_id p) ids"
    "fp_wallets p \<inter> seen = {}" "seen' = seen \<union> fp_wallets p"
    by (auto simp: policy_ok_def)
qed

lemma parse_entries_Inr:
  "parse_entries es ids seen = Inr ps \<Longrightarrow>
     policies_ok ps \<and> (\<forall>p\<in>set ps. fp_id p \<notin> ids \<and> fp_wallets p \<inter> seen = {})"
proof (induction es arbitrary: ids seen ps)
  case Nil
  then show ?case by (simp add: policies_ok_def)
next
  case (Cons e es)
  from Cons.prems obtain p qs ids' seen' where
    e: "parse_entry e ids seen = Inr (p, ids', seen')"
    and qs: "parse_entries es ids' seen' = Inr qs" and ps: "ps = p # qs"
    by (auto simp: bindE_Inr)
  note p = parse_entry_Inr [OF e]
  from Cons.IH [OF qs] p have ok: "policies_ok qs"
    and fresh: "\<forall>q\<in>set qs. fp_id q \<noteq> fp_id p \<and> fp_id q \<notin> ids \<and> fp_wallets q \<inter> (seen \<union> fp_wallets p) = {}"
    by auto
  have "distinct (map fp_id ps)"
    using ok fresh ps by (auto simp: policies_ok_def image_iff)
  moreover have "\<forall>a\<in>set ps. \<forall>b\<in>set ps. a \<noteq> b \<longrightarrow> fp_wallets a \<inter> fp_wallets b = {}"
    using ok fresh ps by (auto simp: policies_ok_def)
  ultimately show ?case
    using ok fresh p ps by (auto simp: policies_ok_def)
qed

lemma policies_ok_Nil: "policies_ok []"
  by (simp add: policies_ok_def)

lemma parse_fee_policies_ok: "parse_fee_policies loads raw = Inr ps \<Longrightarrow> policies_ok ps"
  by (auto simp: parse_fee_policies_def policies_ok_Nil dest: parse_entries_Inr
      split: if_splits option.splits json.splits)

text \<open>At most one policy covers a wallet at a time, so the order of the list does not matter.\<close>

lemma covers_unique:
  "policies_ok ps \<Longrightarrow> p \<in> set ps \<Longrightarrow> q \<in> set ps \<Longrightarrow> covers w n p \<Longrightarrow> covers w n q \<Longrightarrow> p = q"
  by (auto simp: policies_ok_def covers_def)

lemma find_covers:
  assumes "policies_ok ps"
  shows "find (covers w n) ps = Some p \<longleftrightarrow> p \<in> set ps \<and> covers w n p"
proof
  assume "find (covers w n) ps = Some p"
  then show "p \<in> set ps \<and> covers w n p" by (auto simp: find_Some_iff)
next
  assume p: "p \<in> set ps \<and> covers w n p"
  then obtain q where q: "find (covers w n) ps = Some q"
    by (cases "find (covers w n) ps") (auto simp: find_None_iff)
  then have "q \<in> set ps" "covers w n q" by (auto simp: find_Some_iff)
  with p q covers_unique [OF assms] show "find (covers w n) ps = Some p" by metis
qed

text \<open>C13: whatever the campaign list of the deployment, a list the parser accepts gives every wallet
  at every time one fee that does not depend on the order of the campaigns, and that fee is
  between 0 and 10000 basis points when the default one is.\<close>

theorem fee_policies_unambiguous:
  assumes "parse_fee_policies loads raw = Inr ps" and "mset qs = mset ps"
    and "0 \<le> default_bps" and "default_bps \<le> 10000"
  shows "resolve_internal_fee qs default_bps w now = resolve_internal_fee ps default_bps w now
    \<and> 0 \<le> fd_fee_bps (resolve_internal_fee ps default_bps w now)
    \<and> fd_fee_bps (resolve_internal_fee ps default_bps w now) \<le> 10000"
proof -
  have ok: "policies_ok ps" using assms(1) by (rule parse_fee_policies_ok)
  have same: "set qs = set ps" using assms(2) by (rule mset_eq_setD)
  have "mset (map fp_id qs) = mset (map fp_id ps)" using assms(2) by simp
  then have "distinct (map fp_id qs)"
    using ok by (metis mset_eq_imp_distinct_iff policies_ok_def)
  then have ok': "policies_ok qs"
    using ok same by (simp add: policies_ok_def)
  have "find (covers (lower w) now) qs = find (covers (lower w) now) ps"
    using find_covers [OF ok] find_covers [OF ok'] same by (metis not_Some_eq)
  then have eq: "resolve_internal_fee qs default_bps w now = resolve_internal_fee ps default_bps w now"
    by (simp add: resolve_internal_fee_def)
  have "\<forall>p\<in>set ps. policy_ok p" using ok by (simp add: policies_ok_def)
  then show ?thesis
    using assms(3,4) eq find_covers [OF ok, of "lower w" now]
    by (auto simp: resolve_internal_fee_def policy_ok_def split: option.splits)
qed

definition campaign :: json where
  "campaign =
     JArr [JObj [(''id'', JStr ''founders''), (''fee_bps'', JInt 0), (''valid_from'', JInt 100),
                 (''valid_until'', JInt 200),
                 (''wallets'', JArr [JStr ''0x00000000000000000000000000000000000000Aa''])]]"

definition founders :: fee_policy where
  "founders = \<lparr>fp_id = ''founders'', fp_fee_bps = 0, fp_from = 100, fp_until = 200,
     fp_wallets = {''0x00000000000000000000000000000000000000aa''}\<rparr>"

theorem fee_policies_unambiguous_witness:
  "parse_fee_policies (\<lambda>_. Some campaign) ''[..]'' = Inr [founders]
     \<and> fd_fee_bps (resolve_internal_fee [founders] 30 ''0x00000000000000000000000000000000000000AA'' 150) = 0
     \<and> fd_fee_bps (resolve_internal_fee [founders] 30 ''0x00000000000000000000000000000000000000AA'' 200) = 30
     \<and> 0 \<le> fd_fee_bps (resolve_internal_fee [founders] 30 ''0x00000000000000000000000000000000000000AA'' 150)"
proof -
  have p: "parse_fee_policies (\<lambda>_. Some campaign) ''[..]'' = Inr [founders]"
    by code_simp
  have at: "fd_fee_bps (resolve_internal_fee [founders] 30 ''0x00000000000000000000000000000000000000AA'' 150) = 0"
    "fd_fee_bps (resolve_internal_fee [founders] 30 ''0x00000000000000000000000000000000000000AA'' 200) = 30"
    by code_simp+
  from p at fee_policies_unambiguous [OF p refl, of 30 "''0x00000000000000000000000000000000000000AA''" 150]
  show ?thesis by simp
qed

end
