(* ===== verification/Store.thy ===== *)
theory Store
  imports Prelude
begin

text \<open>
  The service's SQLite tables (\<open>core/db.py\<close>) and the row types the services read from them
  (\<open>models/swap.py\<close>). A table is the list of its rows in insertion order; a nullable column is
  an option; an amount stored as decimal text is the integer the code reads back with \<open>int()\<close>.
  \<open>evm_transactions\<close> and \<open>privana_transactions\<close> share one contract, \<open>INSERT ... ON
  CONFLICT(owner) DO NOTHING\<close>: it is the locale \<open>owner_table\<close>, interpreted on both.
\<close>

section \<open>Swaps and quotes\<close>

datatype swap_status = SwapScheduled | SwapExecuting | SwapCompleted | SwapFailed | SwapRefunding | SwapRefunded

datatype swap_venue = VenueInternal | VenueLifi

datatype swap_step =
    InternalSwapPricing
  | InternalSwapSent
  | InputSent
  | WithdrawSent
  | ExecuteFunding
  | ExecuteSent
  | ExecuteBridging
  | DepositSent
  | DepositCrediting
  | CreditSent
  | RefundRedeposit
  | RefundCrediting
  | RefundPayout
  | Parked
  | NoFundsMoved

record quote =
  q_id :: string
  q_user :: string
  q_from_token :: string
  q_to_token :: string
  q_from_chain :: int
  q_to_chain :: int
  q_from_amount :: string
  q_gross :: int
  q_estimate :: int
  q_min :: int
  q_tool :: "string option"
  q_lp :: string
  q_expires :: int
  q_created :: int
  q_venue :: swap_venue
  q_slippage :: "int option"

record swap =
  sw_id :: string
  sw_quote :: string
  sw_user :: string
  sw_from_token :: string
  sw_to_token :: string
  sw_from_amount :: int
  sw_estimate :: int
  sw_actual :: "int option"
  sw_status :: swap_status
  sw_tx_hash :: "string option"
  sw_error :: "string option"
  sw_created :: int
  sw_updated :: int
  sw_venue :: swap_venue
  sw_step :: "swap_step option"
  sw_lifi_tx :: "string option"
  sw_deposit_tx :: "string option"
  sw_received :: "int option"
  sw_executed :: "int option"
  sw_input_nonce :: nat
  sw_input_sig :: string

section \<open>Queued transactions\<close>

text \<open>
  \<open>attempts\<close> is the column of signed versions, \<open>nonce:hash\<close> pairs joined by spaces with NULL
  for none: here the list of pairs, \<open>[]\<close> for NULL. The text form is in the theory of the batcher.
\<close>

datatype evm_status = EvmQueued | EvmMined | EvmReverted | EvmFailed

record evm_tx =
  tx_id :: nat
  tx_chain :: int
  tx_address :: string
  tx_owner :: string
  tx_to :: string
  tx_data :: string
  tx_value :: int
  tx_gas :: int
  tx_simulate :: bool
  tx_status :: evm_status
  tx_attempts :: "(nat \<times> string) list"
  tx_nonce :: "nat option"
  tx_hash :: "string option"
  tx_logs :: "string option"
  tx_error :: "string option"
  tx_created :: int
  tx_updated :: int

datatype lane_kind = KindTransfer | KindSwap | KindWithdraw

datatype lane_status = LaneQueued | LaneSent | LaneLanded | LaneFailed

text \<open>The \<open>input\<close> object of a swap's payload: the user's signed transfer.\<close>

record input_leg =
  leg_token :: string
  leg_amount :: int
  leg_nonce :: nat
  leg_signature :: string

text \<open>The JSON payload of a row; a withdrawal's has no \<open>to\<close>, only a swap's has an \<open>input\<close>.\<close>

record lane_payload =
  p_to :: "string option"
  p_token :: string
  p_amount :: int
  p_input :: "input_leg option"

record lane_row =
  ln_id :: nat
  ln_signer :: string
  ln_owner :: string
  ln_kind :: lane_kind
  ln_payload :: lane_payload
  ln_nonce :: "nat option"
  ln_signature :: "string option"
  ln_attempts :: nat
  ln_status :: lane_status
  ln_error :: "string option"
  ln_created :: int
  ln_updated :: int

section \<open>Earn operations\<close>

datatype earn_op = OpDeposit | OpWithdraw

datatype earn_status =
    EarnScheduled
  | EarnExecuting
  | EarnPending
  | EarnCompleted
  | EarnFailed
  | EarnUndeployed
  | EarnAwaitingLiquidity

text \<open>The timeline of an operation, the JSON list of its \<open>history\<close> column.\<close>

datatype progress_detail =
    StatusChange "string option" string
  | Confirmations int int

record progress_entry =
  pe_stage :: string
  pe_at :: int
  pe_detail :: "progress_detail option"

record earn_row =
  ea_id :: string
  ea_op :: earn_op
  ea_pool :: string
  ea_user :: string
  ea_token :: string
  ea_amount :: int
  ea_signer :: string
  ea_nonce :: nat
  ea_signature :: string
  ea_status :: earn_status
  ea_tx_hash :: "string option"
  ea_error :: "string option"
  ea_created :: int
  ea_updated :: int
  ea_consent :: "string option"
  ea_shares :: "int option"
  ea_rate :: "(int \<times> int) option"
  ea_settled :: "int option"
  ea_claimed :: "int option"
  ea_input_nonce :: "nat option"
  ea_input_sig :: "string option"
  ea_history :: "progress_entry list"

section \<open>The database\<close>

record db =
  db_quotes :: "quote list"
  db_swaps :: "swap list"
  db_evm :: "evm_tx list"
  db_lanes :: "lane_row list"
  db_earns :: "earn_row list"

text \<open>\<open>INTEGER PRIMARY KEY AUTOINCREMENT\<close>: past every id the table ever held, and no row of
  these tables is ever deleted.\<close>

definition next_id :: "('r \<Rightarrow> nat) \<Rightarrow> 'r list \<Rightarrow> nat" where
  "next_id k t = fold (\<lambda>r n. max n (Suc (k r))) t 1"

lemma next_id_gt: "r \<in> set t \<Longrightarrow> k r < next_id k t"
proof -
  have ge: "n \<le> fold (\<lambda>r n. max n (Suc (k r))) t n" for n t
    by (induction t arbitrary: n) (auto intro: order_trans [OF max.cobounded1])
  have "r \<in> set t \<Longrightarrow> k r < fold (\<lambda>r n. max n (Suc (k r))) t n" for n
  proof (induction t arbitrary: n)
    case Nil
    then show ?case by simp
  next
    case (Cons a t)
    then show ?case
      using ge [of "max n (Suc (k r))" t] by auto
  qed
  then show "r \<in> set t \<Longrightarrow> k r < next_id k t" by (simp add: next_id_def)
qed

lemma next_id_fresh: "next_id k t \<notin> k ` set t"
  using next_id_gt [of _ t k] by (metis image_iff order_less_irrefl)

section \<open>Tables with one row per owner\<close>

text \<open>
  What a caller of \<open>submit\<close> relies on: a row is found by its owner once inserted, inserting an
  owner again changes nothing, and other owners are not touched.
\<close>

locale owner_table =
  fixes find_owner :: "string \<Rightarrow> 't \<Rightarrow> 'r option"
    and insert_new :: "'i \<Rightarrow> 't \<Rightarrow> 't"
    and owner_of :: "'i \<Rightarrow> string"
    and row_of :: "'i \<Rightarrow> 't \<Rightarrow> 'r"
  assumes insert_conflict: "find_owner (owner_of i) t \<noteq> None \<Longrightarrow> insert_new i t = t"
    and insert_found: "find_owner (owner_of i) t = None \<Longrightarrow> find_owner (owner_of i) (insert_new i t) = Some (row_of i t)"
    and insert_frame: "x \<noteq> owner_of i \<Longrightarrow> find_owner x (insert_new i t) = find_owner x t"
begin

definition insert_all :: "'i list \<Rightarrow> 't \<Rightarrow> 't" where
  "insert_all is t = fold insert_new is t"

lemma insert_some: "find_owner (owner_of i) (insert_new i t) \<noteq> None"
  by (cases "find_owner (owner_of i) t") (auto simp: insert_conflict insert_found)

lemma insert_keeps: "find_owner x t = Some r \<Longrightarrow> find_owner x (insert_new i t) = Some r"
  by (cases "x = owner_of i") (auto simp: insert_conflict insert_frame)

lemma insert_all_keeps: "find_owner x t = Some r \<Longrightarrow> find_owner x (insert_all is t) = Some r"
  unfolding insert_all_def
  by (induction "is" arbitrary: t) (auto simp: insert_keeps)

lemma insert_all_frame: "x \<notin> owner_of ` set is \<Longrightarrow> find_owner x (insert_all is t) = find_owner x t"
  unfolding insert_all_def
  by (induction "is" arbitrary: t) (auto simp: insert_frame)

lemma insert_all_found: "i \<in> set is \<Longrightarrow> find_owner (owner_of i) (insert_all is t) \<noteq> None"
proof (induction "is" arbitrary: t)
  case Nil
  then show ?case by simp
next
  case (Cons j "is")
  show ?case
  proof (cases "i \<in> set is")
    case True
    then have "find_owner (owner_of i) (insert_all is (insert_new j t)) \<noteq> None" by (rule Cons.IH)
    then show ?thesis by (simp add: insert_all_def)
  next
    case False
    with Cons.prems have [simp]: "j = i" by simp
    obtain r where "find_owner (owner_of i) (insert_new i t) = Some r"
      using insert_some by blast
    from insert_all_keeps [OF this, of "is"] show ?thesis by (simp add: insert_all_def)
  qed
qed

lemma insert_all_present:
  "(\<And>i. i \<in> set is \<Longrightarrow> find_owner (owner_of i) t \<noteq> None) \<Longrightarrow> insert_all is t = t"
  unfolding insert_all_def
proof (induction "is" arbitrary: t)
  case Nil
  then show ?case by simp
next
  case (Cons j "is")
  from Cons.prems [of j] have "insert_new j t = t" by (simp add: insert_conflict)
  with Cons show ?case by simp
qed

text \<open>Submitting again after a restart changes nothing.\<close>

lemma insert_all_again: "insert_all is (insert_all is t) = insert_all is t"
  by (rule insert_all_present) (rule insert_all_found)

end

end
