(* ===== verification/Queues.thy ===== *)
theory Queues
  imports Store
begin

text \<open>
  The two transaction queues as their callers see them: \<open>submit\<close>, \<open>requeue\<close>,
  \<open>refused_for_gas\<close>, \<open>find_evm_tx\<close> and \<open>result\<close> of \<open>clients/evm_batcher.py\<close> on the table
  \<open>evm_transactions\<close>; \<open>submit_privana\<close>, \<open>submit_withdrawal\<close>, \<open>cancel_queued\<close>,
  \<open>find_privana_tx\<close> and \<open>lane_outflow\<close> of \<open>clients/privana_lanes.py\<close> on
  \<open>privana_transactions\<close>. The table contract \<open>owner_table\<close> is interpreted on both.
  \<open>outer_op\<close> lists the writes the event loop can make to these tables while a sender's thread
  waits for its node.
\<close>

section \<open>The queue of EVM transactions\<close>

record tx_intent =
  in_owner :: string
  in_to :: string
  in_gas :: int
  in_data :: string
  in_value :: int
  in_simulate :: bool

definition evm_row :: "int \<Rightarrow> string \<Rightarrow> int \<Rightarrow> tx_intent \<Rightarrow> evm_tx list \<Rightarrow> evm_tx" where
  "evm_row chain_id address now i t =
     \<lparr>tx_id = next_id tx_id t, tx_chain = chain_id, tx_address = address, tx_owner = in_owner i,
      tx_to = in_to i, tx_data = in_data i, tx_value = in_value i, tx_gas = in_gas i,
      tx_simulate = in_simulate i, tx_status = EvmQueued, tx_attempts = [], tx_nonce = None,
      tx_hash = None, tx_logs = None, tx_error = None, tx_created = now, tx_updated = now\<rparr>"

definition find_evm_tx :: "string \<Rightarrow> evm_tx list \<Rightarrow> evm_tx option" where
  "find_evm_tx owner t = find_row tx_owner owner t"

definition result :: "nat \<Rightarrow> evm_tx list \<Rightarrow> evm_tx option" where
  "result i t = find_row tx_id i t"

text \<open>\<open>INSERT ... ON CONFLICT(owner) DO NOTHING\<close>\<close>

definition insert_evm :: "int \<Rightarrow> string \<Rightarrow> int \<Rightarrow> tx_intent \<Rightarrow> evm_tx list \<Rightarrow> evm_tx list" where
  "insert_evm chain_id address now i t =
     (if find_evm_tx (in_owner i) t = None then t @ [evm_row chain_id address now i t] else t)"

text \<open>The ids \<open>find(owner)["id"]\<close> of some owners; subscripting a missing row raises.\<close>

fun ids_of :: "(string \<Rightarrow> 'r option) \<Rightarrow> ('r \<Rightarrow> nat) \<Rightarrow> string list \<Rightarrow> exc + nat list" where
  "ids_of find_it k [] = Inr []"
| "ids_of find_it k (x # xs) =
     (case find_it x of
        None \<Rightarrow> Inl TypeError
      | Some r \<Rightarrow> bindE (ids_of find_it k xs) (\<lambda>is. Inr (k r # is)))"

lemma ids_of_found: "(\<And>x. x \<in> set xs \<Longrightarrow> f x \<noteq> None) \<Longrightarrow> ids_of f k xs = Inr (map (\<lambda>x. k (the (f x))) xs)"
proof (induction xs)
  case (Cons a xs)
  from Cons.prems obtain r where "f a = Some r" by fastforce
  with Cons show ?case by simp
qed simp

definition submit ::
  "int \<Rightarrow> string \<Rightarrow> int \<Rightarrow> tx_intent list \<Rightarrow> evm_tx list \<Rightarrow> (exc + nat list) \<times> evm_tx list" where
  "submit chain_id address now intents t =
     (let t' = fold (insert_evm chain_id (lower address) now) intents t
      in (ids_of (\<lambda>x. find_evm_tx x t') tx_id (map in_owner intents), t'))"

text \<open>Node replies meaning the account cannot pay for the gas.\<close>

definition GAS_REFUSED :: "string list" where
  "GAS_REFUSED = [''insufficient funds'', ''insufficient balance to pay fees'']"

definition some_phrase :: "string list \<Rightarrow> string \<Rightarrow> bool" where
  "some_phrase ps s = list_ex (\<lambda>p. contains p s) ps"

definition refused_for_gas :: "evm_tx \<Rightarrow> bool" where
  "refused_for_gas tx =
     (tx_status tx = EvmFailed \<and> tx_attempts tx = []
      \<and> some_phrase GAS_REFUSED (lower (case tx_error tx of None \<Rightarrow> [] | Some e \<Rightarrow> e)))"

definition requeuable :: "string list \<Rightarrow> evm_tx \<Rightarrow> bool" where
  "requeuable owners r \<longleftrightarrow> tx_owner r \<in> set owners \<and> tx_status r = EvmFailed \<and> tx_attempts r = []"

definition requeue :: "int \<Rightarrow> string list \<Rightarrow> evm_tx list \<Rightarrow> nat \<times> evm_tx list" where
  "requeue now owners t =
     (row_count (requeuable owners) t,
      update_where (requeuable owners)
        (\<lambda>r. r\<lparr>tx_status := EvmQueued, tx_error := None, tx_hash := None, tx_nonce := None,
               tx_logs := None, tx_updated := now\<rparr>) t)"

interpretation evm_queue: owner_table find_evm_tx "insert_evm c a now" in_owner "evm_row c a now"
  for c a now
  by unfold_locales (auto simp: insert_evm_def find_evm_tx_def find_row_append evm_row_def split: option.splits)

lemma submit_eq:
  "submit c a now is t =
     (Inr (map (\<lambda>i. tx_id (the (find_evm_tx (in_owner i) (evm_queue.insert_all c (lower a) now is t)))) is),
      evm_queue.insert_all c (lower a) now is t)"
proof -
  let ?t = "evm_queue.insert_all c (lower a) now is t"
  have "\<And>x. x \<in> set (map in_owner is) \<Longrightarrow> find_evm_tx x ?t \<noteq> None"
    using evm_queue.insert_all_found [of _ "is" c "lower a" now t] by auto
  then have "ids_of (\<lambda>x. find_evm_tx x ?t) tx_id (map in_owner is)
      = Inr (map (\<lambda>x. tx_id (the (find_evm_tx x ?t))) (map in_owner is))"
    by (rule ids_of_found)
  then show ?thesis
    by (simp add: submit_def Let_def evm_queue.insert_all_def comp_def)
qed

lemma next_id_append: "next_id k (t @ [r]) = max (next_id k t) (Suc (k r))"
  by (simp add: next_id_def)

lemma submit_ids:
  assumes "distinct (map in_owner is)" and "\<forall>i\<in>set is. find_evm_tx (in_owner i) t = None"
  shows "map (\<lambda>i. tx_id (the (find_evm_tx (in_owner i) (evm_queue.insert_all c a now is t)))) is
      = [next_id tx_id t ..< next_id tx_id t + length is]"
  using assms
proof (induction "is" arbitrary: t)
  case Nil
  then show ?case by simp
next
  case (Cons i "is")
  let ?t = "insert_evm c a now i t"
  from Cons.prems have new: "?t = t @ [evm_row c a now i t]" by (simp add: insert_evm_def)
  have frame: "find_evm_tx (in_owner j) ?t = None" if "j \<in> set is" for j
  proof -
    from Cons.prems(1) that have "in_owner j \<noteq> in_owner i" by (auto simp: image_iff)
    then show ?thesis using Cons.prems(2) that by (simp add: evm_queue.insert_frame)
  qed
  have next': "next_id tx_id ?t = Suc (next_id tx_id t)"
    by (simp add: new next_id_append evm_row_def)
  have all: "evm_queue.insert_all c a now (i # is) t = evm_queue.insert_all c a now is ?t"
    by (simp add: evm_queue.insert_all_def)
  have "find_evm_tx (in_owner i) ?t = Some (evm_row c a now i t)"
    using Cons.prems by (intro evm_queue.insert_found) simp
  then have "find_evm_tx (in_owner i) (evm_queue.insert_all c a now is ?t) = Some (evm_row c a now i t)"
    by (rule evm_queue.insert_all_keeps)
  moreover have "map (\<lambda>i. tx_id (the (find_evm_tx (in_owner i) (evm_queue.insert_all c a now is ?t)))) is
      = [next_id tx_id ?t ..< next_id tx_id ?t + length is]"
    using Cons.prems frame by (intro Cons.IH) auto
  moreover have "[next_id tx_id t ..< next_id tx_id t + length (i # is)]
      = next_id tx_id t # [next_id tx_id ?t ..< next_id tx_id ?t + length is]"
    by (simp add: next' upt_conv_Cons del: upt_Suc)
  ultimately show ?case
    by (simp only: all list.map) (simp add: evm_row_def)
qed


definition intent_a :: tx_intent where
  "intent_a = \<lparr>in_owner = ''swap:1:approve'', in_to = ''0xT'', in_gas = 80000, in_data = ''0x'', in_value = 0,
     in_simulate = True\<rparr>"

definition intent_b :: tx_intent where
  "intent_b = \<lparr>in_owner = ''swap:1:lifi'', in_to = ''0xL'', in_gas = 500000, in_data = ''0x'', in_value = 0,
     in_simulate = False\<rparr>"


text \<open>C14: \<open>requeue\<close> queues again exactly the failed transactions of its owners that have no attempt,
  reports how many, and changes no other row: in particular none that may have been mined.\<close>

theorem requeue_unsent_only:
  "fst (requeue now owners t) = length (filter (requeuable owners) t)
    \<and> length (snd (requeue now owners t)) = length t
    \<and> (\<forall>k < length t.
         (if tx_owner (t ! k) \<in> set owners \<and> tx_status (t ! k) = EvmFailed \<and> tx_attempts (t ! k) = []
          then tx_status (snd (requeue now owners t) ! k) = EvmQueued
            \<and> tx_id (snd (requeue now owners t) ! k) = tx_id (t ! k)
            \<and> tx_attempts (snd (requeue now owners t) ! k) = []
          else snd (requeue now owners t) ! k = t ! k))"
  by (simp add: requeue_def row_count_def update_where_def requeuable_def)

theorem requeue_unsent_only_witness:
  "length (snd (requeue 9 [''swap:1:lifi''] (snd (submit 8453 ''0xLP'' 10 [intent_a, intent_b] [])))) = 2"
proof -
  have "length (snd (submit 8453 ''0xLP'' 10 [intent_a, intent_b] [])) = 2" by code_simp
  then show ?thesis using requeue_unsent_only [of 9 "[''swap:1:lifi'']"] by simp
qed

subsection \<open>Intents\<close>

text \<open>\<open>int(token, 16)\<close> on \<open>0x\<close> text; the calldata of an ERC-20 call comes from web3.\<close>

definition is_native :: "string option \<Rightarrow> bool" where
  "is_native token =
     (case token of
        None \<Rightarrow> True
      | Some t \<Rightarrow> t = [] \<or> list_all (\<lambda>c. c = CHR ''0'') (removeprefix ''0x'' t))"

definition transfer_intent ::
  "(string \<Rightarrow> string list \<Rightarrow> int \<Rightarrow> string) \<Rightarrow> string \<Rightarrow> string option \<Rightarrow> string \<Rightarrow> int \<Rightarrow> tx_intent" where
  "transfer_intent encode owner token to amount =
     (if is_native token
      then \<lparr>in_owner = owner, in_to = to, in_gas = 21000, in_data = ''0x'', in_value = amount,
            in_simulate = True\<rparr>
      else \<lparr>in_owner = owner, in_to = the token, in_gas = 100000,
            in_data = encode ''transfer'' [to] amount, in_value = 0, in_simulate = True\<rparr>)"

definition approve_intent ::
  "(string \<Rightarrow> string list \<Rightarrow> int \<Rightarrow> string) \<Rightarrow> string \<Rightarrow> string \<Rightarrow> string \<Rightarrow> int \<Rightarrow> tx_intent" where
  "approve_intent encode owner token spender amount =
     \<lparr>in_owner = owner, in_to = token, in_gas = 80000, in_data = encode ''approve'' [spender] amount,
      in_value = 0, in_simulate = True\<rparr>"

section \<open>The queue of Privana writes\<close>

record privana_intent =
  pi_owner :: string
  pi_kind :: lane_kind
  pi_payload :: lane_payload

definition transfer_balance_intent :: "string \<Rightarrow> string \<Rightarrow> string \<Rightarrow> int \<Rightarrow> privana_intent" where
  "transfer_balance_intent owner to token_id amount =
     \<lparr>pi_owner = owner, pi_kind = KindTransfer,
      pi_payload = \<lparr>p_to = Some to, p_token = token_id, p_amount = amount, p_input = None\<rparr>\<rparr>"

definition swap_intent ::
  "string \<Rightarrow> string \<Rightarrow> string \<Rightarrow> int \<Rightarrow> nat \<Rightarrow> string \<Rightarrow> string \<Rightarrow> int \<Rightarrow> privana_intent" where
  "swap_intent owner user input_token input_amount input_nonce input_signature output_token output_amount =
     \<lparr>pi_owner = owner, pi_kind = KindSwap,
      pi_payload = \<lparr>p_to = Some user, p_token = output_token, p_amount = output_amount,
        p_input = Some \<lparr>leg_token = input_token, leg_amount = input_amount, leg_nonce = input_nonce,
                        leg_signature = input_signature\<rparr>\<rparr>\<rparr>"

definition lane_row_of :: "string \<Rightarrow> int \<Rightarrow> privana_intent \<Rightarrow> lane_row list \<Rightarrow> lane_row" where
  "lane_row_of signer now i t =
     \<lparr>ln_id = next_id ln_id t, ln_signer = signer, ln_owner = pi_owner i, ln_kind = pi_kind i,
      ln_payload = pi_payload i, ln_nonce = None, ln_signature = None, ln_attempts = 0,
      ln_status = LaneQueued, ln_error = None, ln_created = now, ln_updated = now\<rparr>"

definition find_privana_tx :: "string \<Rightarrow> lane_row list \<Rightarrow> lane_row option" where
  "find_privana_tx owner t = find_row ln_owner owner t"

definition insert_lane :: "string \<Rightarrow> int \<Rightarrow> privana_intent \<Rightarrow> lane_row list \<Rightarrow> lane_row list" where
  "insert_lane signer now i t =
     (if find_privana_tx (pi_owner i) t = None then t @ [lane_row_of signer now i t] else t)"

interpretation lane_queue: owner_table find_privana_tx "insert_lane signer now" pi_owner "lane_row_of signer now"
  for signer now
  by unfold_locales
    (auto simp: insert_lane_def find_privana_tx_def find_row_append lane_row_of_def split: option.splits)

text \<open>\<open>keys\<close> are the lowered addresses this service signs transfers for.\<close>

definition submit_privana ::
  "string set \<Rightarrow> int \<Rightarrow> string \<Rightarrow> privana_intent list \<Rightarrow> lane_row list
     \<Rightarrow> (exc + nat list) \<times> lane_row list" where
  "submit_privana keys now signer intents t =
     (if lower signer \<notin> keys
      then (Inl (ValueError (''no key signs Privana transfers of '' @ lower signer)), t)
      else let t' = fold (insert_lane (lower signer) now) intents t
        in (ids_of (\<lambda>x. find_privana_tx x t') ln_id (map pi_owner intents), t'))"

definition withdrawal_intent :: "string \<Rightarrow> string \<Rightarrow> int \<Rightarrow> privana_intent" where
  "withdrawal_intent owner token_id amount =
     \<lparr>pi_owner = owner, pi_kind = KindWithdraw,
      pi_payload = \<lparr>p_to = None, p_token = token_id, p_amount = amount, p_input = None\<rparr>\<rparr>"

definition submit_withdrawal ::
  "string set \<Rightarrow> int \<Rightarrow> string \<Rightarrow> string \<Rightarrow> string \<Rightarrow> int \<Rightarrow> lane_row list \<Rightarrow> (exc + nat) \<times> lane_row list" where
  "submit_withdrawal lanes now signer owner token_id amount t =
     (if lower signer \<notin> lanes then (Inl (ValueError (''no withdraw lane for '' @ lower signer)), t)
      else let t' = insert_lane (lower signer) now (withdrawal_intent owner token_id amount) t
        in (case find_privana_tx owner t' of None \<Rightarrow> Inl TypeError | Some r \<Rightarrow> Inr (ln_id r), t'))"

definition cancel_queued :: "int \<Rightarrow> string \<Rightarrow> string \<Rightarrow> lane_row list \<Rightarrow> bool \<times> lane_row list" where
  "cancel_queued now owner error t =
     (let p = (\<lambda>r. ln_owner r = owner \<and> ln_status r = LaneQueued)
      in (row_count p t \<noteq> 0,
          update_where p (\<lambda>r. r\<lparr>ln_status := LaneFailed, ln_error := Some error, ln_updated := now\<rparr>) t))"

definition lane_unsettled :: "lane_row \<Rightarrow> bool" where
  "lane_unsettled r \<longleftrightarrow> ln_status r = LaneQueued \<or> ln_status r = LaneSent"

definition lane_outflow :: "string \<Rightarrow> string \<Rightarrow> lane_row list \<Rightarrow> int" where
  "lane_outflow signer token_id t =
     (\<Sum>r\<leftarrow>filter (\<lambda>r. ln_signer r = lower signer \<and> lane_unsettled r) t.
        if lower (p_token (ln_payload r)) = lower token_id then p_amount (ln_payload r) else 0)"

lemma submit_privana_eq:
  "lower signer \<in> keys \<Longrightarrow> submit_privana keys now signer is t =
     (Inr (map (\<lambda>i. ln_id (the (find_privana_tx (pi_owner i) (lane_queue.insert_all (lower signer) now is t)))) is),
      lane_queue.insert_all (lower signer) now is t)"
proof -
  assume k: "lower signer \<in> keys"
  let ?t = "lane_queue.insert_all (lower signer) now is t"
  have "\<And>x. x \<in> set (map pi_owner is) \<Longrightarrow> find_privana_tx x ?t \<noteq> None"
    using lane_queue.insert_all_found [of _ "is" "lower signer" now t] by auto
  then have "ids_of (\<lambda>x. find_privana_tx x ?t) ln_id (map pi_owner is)
      = Inr (map (\<lambda>x. ln_id (the (find_privana_tx x ?t))) (map pi_owner is))"
    by (rule ids_of_found)
  with k show ?thesis
    by (simp add: submit_privana_def Let_def lane_queue.insert_all_def comp_def)
qed

section \<open>Writes of the event loop\<close>

datatype outer_op =
    OuterSubmit int string int "tx_intent list"
  | OuterRequeue int "string list"
  | OuterLane "string set" int string "privana_intent list"
  | OuterWithdrawal "string set" int string string string int
  | OuterCancel int string string

fun outer_step :: "outer_op \<Rightarrow> db \<Rightarrow> db" where
  "outer_step (OuterSubmit c a now is) d = d\<lparr>db_evm := snd (submit c a now is (db_evm d))\<rparr>"
| "outer_step (OuterRequeue now owners) d = d\<lparr>db_evm := snd (requeue now owners (db_evm d))\<rparr>"
| "outer_step (OuterLane keys now signer is) d =
     d\<lparr>db_lanes := snd (submit_privana keys now signer is (db_lanes d))\<rparr>"
| "outer_step (OuterWithdrawal lanes now signer owner tok amount) d =
     d\<lparr>db_lanes := snd (submit_withdrawal lanes now signer owner tok amount (db_lanes d))\<rparr>"
| "outer_step (OuterCancel now owner error) d =
     d\<lparr>db_lanes := snd (cancel_queued now owner error (db_lanes d))\<rparr>"

definition outer_steps :: "outer_op list \<Rightarrow> db \<Rightarrow> db" where
  "outer_steps ops d = fold outer_step ops d"

text \<open>The rows of one kind of lane rewritten at will by the lane that owns them, which keeps what
  identifies a row.\<close>

definition rewrite_rows :: "(lane_row \<Rightarrow> bool) \<Rightarrow> (lane_row \<Rightarrow> lane_row) \<Rightarrow> lane_row list \<Rightarrow> lane_row list" where
  "rewrite_rows p f t =
     update_where p
       (\<lambda>r. (f r)\<lparr>ln_id := ln_id r, ln_signer := ln_signer r, ln_owner := ln_owner r, ln_kind := ln_kind r\<rparr>) t"

definition on_transfer_lane :: "lane_row \<Rightarrow> bool" where
  "on_transfer_lane r \<longleftrightarrow> ln_kind r \<noteq> KindWithdraw"

definition other_lane :: "(lane_row \<Rightarrow> bool) \<Rightarrow> (lane_row \<Rightarrow> lane_row) \<Rightarrow> db \<Rightarrow> db" where
  "other_lane p f d = d\<lparr>db_lanes := rewrite_rows p f (db_lanes d)\<rparr>"

end
