(* ===== verification/EvmBatcher.thy ===== *)
theory EvmBatcher
  imports Queues
begin

text \<open>
  The sender of one account on one chain (\<open>clients/evm_batcher.py\<close>, class \<open>EvmBatcher\<close>): rounds
  that settle, sign, send and wait. The node is arbitrary: a record \<open>node\<close> of its replies, each a
  function of the number of calls made so far, any of which may raise; during each call time
  passes and the event loop may write to the tables (\<open>outer_op\<close>). The state \<open>bst\<close> holds the
  database, \<open>self._used_since\<close>, the monotonic clock in milliseconds, and two histories the
  lemmas speak of: what was broadcast, and what the node refused for good.
\<close>

section \<open>The node and the state\<close>

datatype fees = GasPrice int | FeeCap int int

text \<open>A transaction the node holds: its \<open>gasPrice\<close>, \<open>maxFeePerGas\<close> and \<open>maxPriorityFeePerGas\<close>.\<close>

record held =
  h_gas_price :: "int option"
  h_max_fee :: "int option"
  h_priority :: "int option"

record signable =
  sg_to :: string
  sg_data :: string
  sg_value :: int
  sg_gas :: int
  sg_nonce :: nat
  sg_fees :: fees

record node =
  nd_chain :: int
  nd_address :: string
  nd_sapphire :: bool
  nd_count :: "nat \<Rightarrow> exc + nat"
  nd_receipt :: "nat \<Rightarrow> string \<Rightarrow> exc + (bool \<times> string) option"
  nd_fees :: "nat \<Rightarrow> exc + fees"
  nd_tx :: "nat \<Rightarrow> string \<Rightarrow> exc + held option"
  nd_simulate :: "nat \<Rightarrow> signable \<Rightarrow> exc + unit"
  nd_sign :: "nat \<Rightarrow> signable \<Rightarrow> exc + string"
  nd_send :: "nat \<Rightarrow> string \<Rightarrow> exc + unit"
  nd_time :: "nat \<Rightarrow> int"
  nd_lapse :: "nat \<Rightarrow> nat"
  nd_stop :: "nat \<Rightarrow> bool"
  nd_outer :: "nat \<Rightarrow> outer_op list"
  nd_withdraw :: "nat \<Rightarrow> lane_row \<Rightarrow> lane_row"

record bst =
  bs_db :: db
  bs_used_since :: "nat \<Rightarrow> int option"
  bs_tick :: nat
  bs_mono :: int
  bs_cast :: "(nat \<times> nat \<times> string) list"
  bs_refused :: "(nat \<times> nat \<times> string) list"

type_synonym 'a bact = "(bst, exc, 'a) act"

abbreviation evm_table :: "bst \<Rightarrow> evm_tx list" where
  "evm_table s \<equiv> db_evm (bs_db s)"

definition set_evm :: "(evm_tx list \<Rightarrow> evm_tx list) \<Rightarrow> bst \<Rightarrow> bst" where
  "set_evm f s = s\<lparr>bs_db := (bs_db s)\<lparr>db_evm := f (db_evm (bs_db s))\<rparr>\<rparr>"

text \<open>One call to the node: it answers, time passes, and the event loop may write, its withdraw
  lane included.\<close>

definition pass :: "node \<Rightarrow> bst \<Rightarrow> bst" where
  "pass nd s =
     s\<lparr>bs_tick := Suc (bs_tick s), bs_mono := bs_mono s + int (nd_lapse nd (bs_tick s)),
       bs_db := other_lane (Not \<circ> on_transfer_lane) (nd_withdraw nd (bs_tick s))
                  (outer_steps (nd_outer nd (bs_tick s)) (bs_db s))\<rparr>"

definition call_node :: "node \<Rightarrow> (nat \<Rightarrow> exc + 'a) \<Rightarrow> 'a bact" where
  "call_node nd f = (\<lambda>s. (f (bs_tick s), pass nd s))"

definition wall :: "node \<Rightarrow> int bact" where
  "wall nd = getA (\<lambda>s. nd_time nd (bs_tick s))"

section \<open>Constants\<close>

definition REFUSED :: "string list" where
  "REFUSED = GAS_REFUSED @ [''intrinsic gas too low'', ''exceeds block gas limit'']"

definition CALL_FAILED :: "string list" where
  "CALL_FAILED = [''out of gas'', ''invalid opcode'', ''stack underflow'', ''stack overflow'']"

definition SUPERSEDED :: string where
  "SUPERSEDED = ''superseded: the tx before it failed''"

definition batch_size :: "node \<Rightarrow> int" where
  "batch_size nd = (if nd_sapphire nd then 1 else 10)"

datatype outcome = Sent | Skipped | Stopped

section \<open>The attempts column\<close>

text \<open>\<open>nonce:hash\<close> pairs joined by spaces. \<open>split\<close> without a separator drops empty parts.\<close>

definition show_attempt :: "nat \<times> string \<Rightarrow> string" where
  "show_attempt a = show_nat (fst a) @ CHR '':'' # snd a"

fun split_words :: "string \<Rightarrow> string \<Rightarrow> string list" where
  "split_words acc [] = (if acc = [] then [] else [rev acc])"
| "split_words acc (c # s) =
     (if c = CHR '' ''
      then (if acc = [] then split_words [] s else rev acc # split_words [] s)
      else split_words (c # acc) s)"

text \<open>\<open>split(":", 1)\<close>, which raises when unpacked without a colon, and \<open>int\<close> of the nonce.\<close>

definition read_attempt :: "string \<Rightarrow> (nat \<times> string) option" where
  "read_attempt a =
     (case dropWhile (\<lambda>c. c \<noteq> CHR '':'') a of
        [] \<Rightarrow> None
      | _ # h \<Rightarrow> map_option (\<lambda>n. (n, h)) (read_nat (takeWhile (\<lambda>c. c \<noteq> CHR '':'') a)))"

definition read_attempts :: "string \<Rightarrow> (nat \<times> string) list option" where
  "read_attempts col = those (map read_attempt (split_words [] col))"

text \<open>\<open>TRIM(COALESCE(attempts, '') || ' ' || ?)\<close>\<close>

definition trim :: "string \<Rightarrow> string" where
  "trim s = rev (dropWhile ((=) CHR '' '') (rev (dropWhile ((=) CHR '' '') s)))"

definition append_attempt :: "string \<Rightarrow> nat \<times> string \<Rightarrow> string" where
  "append_attempt col a = trim (col @ CHR '' '' # show_attempt a)"

definition attempts_column :: "(nat \<times> string) list \<Rightarrow> string" where
  "attempts_column as = foldl append_attempt [] as"

text \<open>A hash is a non-empty word without spaces; what is appended is read back.\<close>

definition hash_ok :: "string \<Rightarrow> bool" where
  "hash_ok h \<longleftrightarrow> h \<noteq> [] \<and> CHR '' '' \<notin> set h"

lemma split_words_word: "CHR '' '' \<notin> set w \<Longrightarrow> split_words acc (w @ s) = split_words (rev w @ acc) s"
  by (induction w arbitrary: acc) auto

lemma split_words_append:
  "split_words acc (s @ CHR '' '' # t) = split_words acc s @ split_words [] t"
  by (induction acc s rule: split_words.induct) auto

lemma show_nat_no_space: "CHR '' '' \<notin> set (show_nat n)" and show_nat_no_colon: "CHR '':'' \<notin> set (show_nat n)"
  using show_nat_digits [of n] by (auto simp: list_all_iff is_digit_def)

lemma show_attempt_word: "hash_ok (snd a) \<Longrightarrow> CHR '' '' \<notin> set (show_attempt a) \<and> show_attempt a \<noteq> []"
  using show_nat_no_space [of "fst a"] by (auto simp: show_attempt_def hash_ok_def)

lemma read_show_attempt: "read_attempt (show_attempt a) = Some a"
proof -
  have "dropWhile (\<lambda>c. c \<noteq> CHR '':'') (show_attempt a) = CHR '':'' # snd a"
    and "takeWhile (\<lambda>c. c \<noteq> CHR '':'') (show_attempt a) = show_nat (fst a)"
    using show_nat_no_colon [of "fst a"]
    unfolding show_attempt_def by (subst dropWhile_append2 takeWhile_append2, auto)+
  then show ?thesis by (simp add: read_attempt_def)
qed

lemma trim_word:
  assumes "s = [] \<or> hd s \<noteq> CHR '' ''" and "CHR '' '' \<notin> set w" and "w \<noteq> []"
  shows "trim (s @ CHR '' '' # w) = (if s = [] then w else s @ CHR '' '' # w)"
proof -
  have rw: "dropWhile ((=) CHR '' '') (rev w @ r) = rev w @ r" for r
    using assms(2,3) by (cases "rev w") (auto dest: arg_cong [of _ _ set])
  moreover have "dropWhile ((=) CHR '' '') w = w"
    using assms(2,3) by (cases w) auto
  moreover have "s \<noteq> [] \<Longrightarrow> dropWhile ((=) CHR '' '') (s @ r) = s @ r" for r
    using assms(1) by (cases s) auto
  ultimately show ?thesis
    using assms(1) rw [of "[]"] by (auto simp: trim_def)
qed

lemma attempts_column_props:
  assumes "\<forall>a\<in>set as. hash_ok (snd a)"
  shows "(attempts_column as = [] \<or> hd (attempts_column as) \<noteq> CHR '' '')
    \<and> (attempts_column as = [] \<longleftrightarrow> as = [])
    \<and> split_words [] (attempts_column as) = map show_attempt as"
  using assms
proof (induction "as" rule: rev_induct)
  case Nil
  then show ?case by (simp add: attempts_column_def)
next
  case (snoc a "as")
  let ?c = "attempts_column as" and ?w = "show_attempt a"
  from snoc.prems have w: "CHR '' '' \<notin> set ?w" "?w \<noteq> []" using show_attempt_word [of a] by auto
  from snoc have ih: "?c = [] \<or> hd ?c \<noteq> CHR '' ''" "?c = [] \<longleftrightarrow> as = []"
    "split_words [] ?c = map show_attempt as" by auto
  have c: "attempts_column (as @ [a]) = (if ?c = [] then ?w else ?c @ CHR '' '' # ?w)"
    using trim_word [OF ih(1) w] by (simp add: attempts_column_def append_attempt_def)
  have sw: "split_words [] ?w = [?w]"
    using split_words_word [OF w(1), of "[]" "[]"] w(2) by simp
  have "hd ?w \<noteq> CHR '' ''" using w by (cases ?w) auto
  then show ?case
    using c ih sw w split_words_append [of "[]" ?c ?w] by auto
qed

lemma those_map_Some: "(\<And>x. x \<in> set xs \<Longrightarrow> f x = Some (g x)) \<Longrightarrow> those (map f xs) = Some (map g xs)"
  by (induction xs) auto

text \<open>C14: the attempts column is read back as it was written: whatever attempts are appended, one
  \<open>UPDATE\<close> each, \<open>_attempts\<close> returns them in order, for every nonce and every hash that is a word.\<close>

theorem attempts_roundtrip:
  assumes "\<forall>a\<in>set as. hash_ok (snd a)"
  shows "read_attempts (attempts_column as) = Some as"
proof -
  have "read_attempts (attempts_column as) = those (map (\<lambda>a. read_attempt (show_attempt a)) as)"
    using attempts_column_props [OF assms] by (simp add: read_attempts_def comp_def)
  also have "\<dots> = Some (map (\<lambda>a. a) as)"
    by (rule those_map_Some) (rule read_show_attempt)
  finally show ?thesis by simp
qed

theorem attempts_roundtrip_witness:
  "read_attempts (attempts_column [(7, ''0xab''), (7, ''0xc:d'')]) = Some [(7, ''0xab''), (7, ''0xc:d'')]"
  by (rule attempts_roundtrip) (simp add: hash_ok_def)

section \<open>Settling\<close>

text \<open>\<open>_finish\<close>\<close>

definition finish ::
  "node \<Rightarrow> evm_tx \<Rightarrow> evm_status \<Rightarrow> string option \<Rightarrow> nat option \<Rightarrow> string option \<Rightarrow> string option \<Rightarrow> unit bact"
  where
  "finish nd row status hash nonce logs error =
     bindA (wall nd) (\<lambda>now.
       modifyA (\<lambda>s. set_evm (update_where (\<lambda>r. tx_id r = tx_id row)
           (\<lambda>r. r\<lparr>tx_status := status, tx_hash := hash, tx_nonce := nonce, tx_logs := logs,
                  tx_error := error, tx_updated := now\<rparr>))
         (s\<lparr>bs_used_since := (bs_used_since s)(tx_id row := None)\<rparr>)))"

text \<open>\<open>_settle\<close>: the first attempt with a receipt, else whether a nonce is used without one.\<close>

fun settle_attempts :: "node \<Rightarrow> evm_tx \<Rightarrow> (nat \<times> string) list \<Rightarrow> bool bact" where
  "settle_attempts nd row [] = ret False"
| "settle_attempts nd row ((nonce, hash) # as) =
     bindA (call_node nd (\<lambda>t. nd_receipt nd t hash)) (\<lambda>receipt.
       case receipt of
         None \<Rightarrow> settle_attempts nd row as
       | Some (ok, logs) \<Rightarrow>
           seqA (finish nd row (if ok then EvmMined else EvmReverted) (Some hash) (Some nonce) (Some logs) None)
             (ret True))"

definition nonce_used :: "nat option \<Rightarrow> evm_tx \<Rightarrow> bool" where
  "nonce_used used row \<longleftrightarrow>
     (case used of None \<Rightarrow> False | Some u \<Rightarrow> list_ex (\<lambda>a. fst a < u) (tx_attempts row))"

definition settle :: "node \<Rightarrow> evm_tx \<Rightarrow> nat option \<Rightarrow> bool option bact" where
  "settle nd row used =
     bindA (settle_attempts nd row (tx_attempts row)) (\<lambda>mined.
       ret (if mined then Some True else if nonce_used used row then None else Some False))"

text \<open>\<open>_next_after_mined\<close>\<close>

definition next_after_mined :: "node \<Rightarrow> evm_tx list \<Rightarrow> nat" where
  "next_after_mined nd t =
     fold (\<lambda>r n. case tx_nonce r of None \<Rightarrow> n | Some k \<Rightarrow> max n (Suc k))
       (filter (\<lambda>r. tx_chain r = nd_chain nd \<and> tx_address r = lower (nd_address nd)) t) 0"

section \<open>Sending\<close>

definition need :: "'a option \<Rightarrow> exc + 'a" where
  "need x = (case x of None \<Rightarrow> Inl KeyError | Some a \<Rightarrow> Inr a)"

text \<open>\<open>_includable\<close>\<close>

definition includable :: "held \<Rightarrow> fees \<Rightarrow> exc + bool" where
  "includable h f =
     (case f of
        GasPrice g \<Rightarrow> bindE (need (h_gas_price h)) (\<lambda>p. Inr (g \<le> p))
      | FeeCap cap tip \<Rightarrow>
          let base_fee = (cap - tip) div 2 in
          bindE (need (h_priority h)) (\<lambda>p.
            if p < tip then Inr False
            else bindE (need (h_max_fee h)) (\<lambda>m. Inr (base_fee + tip \<le> m))))"

definition bump :: "int \<Rightarrow> int \<Rightarrow> int" where
  "bump fee old = max fee (old + old * 1250 div 10000 + 1)"

definition bump_fees :: "held \<Rightarrow> fees \<Rightarrow> exc + fees" where
  "bump_fees h f =
     (case f of
        GasPrice g \<Rightarrow> bindE (need (h_gas_price h)) (\<lambda>p. Inr (GasPrice (bump g p)))
      | FeeCap cap tip \<Rightarrow>
          bindE (need (h_max_fee h)) (\<lambda>m. bindE (need (h_priority h)) (\<lambda>p.
            Inr (FeeCap (bump cap m) (bump tip p)))))"

text \<open>\<open>_newest_held\<close>, on the attempts from the newest on.\<close>

fun newest_held :: "node \<Rightarrow> (nat \<times> string) list \<Rightarrow> held option bact" where
  "newest_held nd [] = ret None"
| "newest_held nd ((_, hash) # as) =
     bindA (call_node nd (\<lambda>t. nd_tx nd t hash)) (\<lambda>h.
       case h of None \<Rightarrow> newest_held nd as | Some x \<Rightarrow> ret (Some x))"

text \<open>\<open>_rpc_message\<close>\<close>

definition rpc_message :: "string option \<Rightarrow> string \<Rightarrow> string" where
  "rpc_message message text =
     lower (case message of None \<Rightarrow> text | Some m \<Rightarrow> if m = [] then text else m)"

text \<open>The fees of a retry, or \<open>None\<close>, to stop, while the node holds a version that can be mined.\<close>

definition retry_fees :: "node \<Rightarrow> evm_tx \<Rightarrow> fees \<Rightarrow> fees option bact" where
  "retry_fees nd row f =
     (if tx_attempts row = [] then ret (Some f)
      else bindA (tryA (newest_held nd (rev (tx_attempts row)))) (\<lambda>looked.
        case looked of
          Inl _ \<Rightarrow> ret None
        | Inr None \<Rightarrow> ret (Some f)
        | Inr (Some h) \<Rightarrow>
            bindA (liftE (includable h f)) (\<lambda>b.
              if b then ret None
              else bindA (liftE (bump_fees h f)) (\<lambda>g. ret (Some g)))))"

text \<open>The simulation of a transaction not sent before: \<open>None\<close> to go on.\<close>

definition call_fails :: "exc \<Rightarrow> bool" where
  "call_fails e =
     (case e of
        ContractLogicError _ \<Rightarrow> True
      | RpcError m txt \<Rightarrow> some_phrase (REFUSED @ CALL_FAILED) (rpc_message m txt)
      | _ \<Rightarrow> False)"

definition simulate_first :: "node \<Rightarrow> evm_tx \<Rightarrow> signable \<Rightarrow> outcome option bact" where
  "simulate_first nd row tx =
     (if tx_simulate row \<and> tx_attempts row = []
      then bindA (tryA (call_node nd (\<lambda>t. nd_simulate nd t tx))) (\<lambda>reply.
        case reply of
          Inr _ \<Rightarrow> ret None
        | Inl e \<Rightarrow>
            if call_fails e
            then seqA (finish nd row EvmFailed None None None (Some (''simulation failed: '' @ exc_text e)))
              (ret (Some Skipped))
            else ret (Some Stopped))
      else ret None)"

text \<open>\<open>_log_send_failure\<close>: calls whose replies only go to the log.\<close>

definition log_send_failure :: "node \<Rightarrow> string \<Rightarrow> unit bact" where
  "log_send_failure nd hash =
     catchA
       (seqA (call_node nd (nd_count nd))
         (seqA (call_node nd (nd_count nd))
           (seqA (call_node nd (\<lambda>t. nd_tx nd t hash)) (ret ()))))
       (\<lambda>_. ret ())"

definition save_attempt :: "node \<Rightarrow> evm_tx \<Rightarrow> nat \<Rightarrow> string \<Rightarrow> unit bact" where
  "save_attempt nd row nonce hash =
     bindA (wall nd) (\<lambda>now.
       modifyA (set_evm (update_where (\<lambda>r. tx_id r = tx_id row)
         (\<lambda>r. r\<lparr>tx_attempts := tx_attempts r @ [(nonce, hash)], tx_updated := now\<rparr>))))"

definition drop_attempts :: "evm_tx \<Rightarrow> unit bact" where
  "drop_attempts row =
     modifyA (set_evm (update_where (\<lambda>r. tx_id r = tx_id row) (\<lambda>r. r\<lparr>tx_attempts := []\<rparr>)))"

text \<open>The broadcast. The history of broadcasts grows with the call itself, the history of refusals
  with the reply the code takes for one.\<close>

definition refused_for_good :: "evm_tx \<Rightarrow> exc \<Rightarrow> bool" where
  "refused_for_good row e =
     (case e of
        RpcError m txt \<Rightarrow> tx_attempts row = [] \<and> some_phrase REFUSED (rpc_message m txt)
      | _ \<Rightarrow> False)"

definition broadcast :: "node \<Rightarrow> evm_tx \<Rightarrow> nat \<Rightarrow> string \<Rightarrow> outcome bact" where
  "broadcast nd row nonce hash =
     seqA (modifyA (\<lambda>s. s\<lparr>bs_cast := (tx_id row, nonce, hash) # bs_cast s\<rparr>))
       (bindA (tryA (call_node nd (\<lambda>t. nd_send nd t hash))) (\<lambda>reply.
          case reply of
            Inr _ \<Rightarrow> ret Sent
          | Inl e \<Rightarrow>
              seqA (log_send_failure nd hash)
                (if refused_for_good row e
                 then seqA (modifyA (\<lambda>s. s\<lparr>bs_refused := (tx_id row, nonce, hash) # bs_refused s\<rparr>))
                   (seqA (drop_attempts row)
                     (seqA (finish nd row EvmFailed None None None (Some (exc_text e))) (ret Skipped)))
                 else ret Stopped)))"

text \<open>\<open>_send\<close>\<close>

definition send :: "node \<Rightarrow> evm_tx \<Rightarrow> nat \<Rightarrow> fees \<Rightarrow> outcome bact" where
  "send nd row nonce f =
     bindA (retry_fees nd row f) (\<lambda>r.
       case r of
         None \<Rightarrow> ret Stopped
       | Some f' \<Rightarrow>
           let tx = \<lparr>sg_to = tx_to row, sg_data = tx_data row, sg_value = tx_value row,
                     sg_gas = tx_gas row, sg_nonce = nonce, sg_fees = f'\<rparr> in
           bindA (simulate_first nd row tx) (\<lambda>o1.
             case o1 of
               Some out \<Rightarrow> ret out
             | None \<Rightarrow>
                 bindA (tryA (call_node nd (\<lambda>t. nd_sign nd t tx))) (\<lambda>signed.
                   case signed of
                     Inl _ \<Rightarrow> ret Stopped
                   | Inr hash \<Rightarrow> seqA (save_attempt nd row nonce hash) (broadcast nd row nonce hash))))"

section \<open>A round\<close>

definition STUCK_AFTER_MS :: int where
  "STUCK_AFTER_MS = 900000"

definition RECEIPT_TIMEOUT :: int where
  "RECEIPT_TIMEOUT = 120"

text \<open>The first loop of \<open>_run_batch\<close>: \<open>Inl\<close> is an early return, \<open>Inr\<close> the rows to send.\<close>

definition held_since :: "evm_tx \<Rightarrow> int bact" where
  "held_since row =
     bindA (getA (\<lambda>s. case bs_used_since s (tx_id row) of None \<Rightarrow> bs_mono s | Some m \<Rightarrow> m)) (\<lambda>since.
       seqA (modifyA (\<lambda>s. s\<lparr>bs_used_since := (bs_used_since s)(tx_id row \<mapsto> since)\<rparr>)) (ret since))"

definition min_nonce :: "evm_tx \<Rightarrow> nat" where
  "min_nonce row = Min (set (map fst (tx_attempts row)))"

fun triage :: "node \<Rightarrow> nat \<Rightarrow> evm_tx list \<Rightarrow> evm_tx list \<Rightarrow> bool \<Rightarrow> (bool + evm_tx list \<times> bool) bact" where
  "triage nd used [] unsent progressed = ret (Inr (unsent, progressed))"
| "triage nd used (row # rows) unsent progressed =
     bindA (settle nd row (Some used)) (\<lambda>settled.
       case settled of
         Some True \<Rightarrow> triage nd used rows unsent True
       | None \<Rightarrow>
           bindA (held_since row) (\<lambda>since.
             bindA (getA bs_mono) (\<lambda>mono.
               if mono - since < STUCK_AFTER_MS then ret (Inl progressed)
               else seqA (finish nd row EvmFailed None (Some (min_nonce row)) None
                            (Some ''nonce taken by another tx''))
                      (triage nd used rows unsent True)))
       | Some False \<Rightarrow>
           bindA (wall nd) (\<lambda>now.
             if tx_attempts row \<noteq> [] \<and> now - tx_updated row < RECEIPT_TIMEOUT
             then ret (Inl progressed)
             else triage nd used rows (unsent @ [row]) progressed))"

text \<open>\<open>_row\<close> and the hash of its last attempt.\<close>

definition row_of_id :: "nat \<Rightarrow> evm_tx bact" where
  "row_of_id i =
     bindA (getA (\<lambda>s. result i (evm_table s))) (\<lambda>r.
       case r of None \<Rightarrow> throw TypeError | Some x \<Rightarrow> ret x)"

definition last_attempt :: "evm_tx \<Rightarrow> exc + nat \<times> string" where
  "last_attempt r = (if tx_attempts r = [] then Inl IndexError else Inr (last (tx_attempts r)))"

definition superseded :: "bool \<Rightarrow> evm_tx \<Rightarrow> bool" where
  "superseded failed_before row \<longleftrightarrow> failed_before \<and> \<not> tx_simulate row \<and> tx_attempts row = []"

definition nonce_for :: "evm_tx \<Rightarrow> nat \<Rightarrow> nat" where
  "nonce_for row nonce = (if tx_attempts row = [] then nonce else fst (last (tx_attempts row)))"

fun send_rows ::
  "node \<Rightarrow> fees \<Rightarrow> evm_tx list \<Rightarrow> nat \<Rightarrow> evm_tx list \<Rightarrow> string option \<Rightarrow> bool
     \<Rightarrow> (evm_tx list \<times> string option) bact" where
  "send_rows nd f [] nonce sent last_hash failed_before = ret (sent, last_hash)"
| "send_rows nd f (row # rows) nonce sent last_hash failed_before =
     (if superseded failed_before row
      then seqA (finish nd row EvmFailed None None None (Some SUPERSEDED))
        (send_rows nd f rows nonce sent last_hash failed_before)
      else let at = nonce_for row nonce in
        bindA (send nd row at f) (\<lambda>out.
          case out of
            Stopped \<Rightarrow> ret (sent, last_hash)
          | Skipped \<Rightarrow> send_rows nd f rows nonce sent last_hash True
          | Sent \<Rightarrow>
              bindA (row_of_id (tx_id row)) (\<lambda>r.
                bindA (liftE (last_attempt r)) (\<lambda>a.
                  send_rows nd f rows (max nonce (at + 1)) (sent @ [row]) (Some (snd a)) False))))"

text \<open>\<open>_await_receipt\<close>: the poll waits a second, so the monotonic clock moves.\<close>

definition poll :: "node \<Rightarrow> bst \<Rightarrow> bst" where
  "poll nd s = (pass nd s)\<lparr>bs_mono := bs_mono (pass nd s) + 1000\<rparr>"

lemma bs_mono_pass: "bs_mono s \<le> bs_mono (pass nd s)"
  by (simp add: pass_def)

function await_loop :: "node \<Rightarrow> int \<Rightarrow> string \<Rightarrow> bst \<Rightarrow> (exc + unit) \<times> bst" where
  "await_loop nd deadline hash s =
     (if bs_mono s < deadline
      then (case nd_receipt nd (bs_tick s) hash of
          Inl e \<Rightarrow> (Inl e, pass nd s)
        | Inr (Some _) \<Rightarrow> (Inr (), pass nd s)
        | Inr None \<Rightarrow>
            if nd_stop nd (bs_tick (pass nd s)) then (Inr (), pass nd s)
            else await_loop nd deadline hash (poll nd (pass nd s)))
      else (Inr (), s))"
  by pat_completeness auto
termination
  by (relation "measure (\<lambda>(nd, deadline, hash, s). nat (deadline - bs_mono s))")
    (auto simp: poll_def pass_def)

declare await_loop.simps [simp del]

definition await_receipt :: "node \<Rightarrow> string \<Rightarrow> unit bact" where
  "await_receipt nd hash = (\<lambda>s. await_loop nd (bs_mono s + RECEIPT_TIMEOUT * 1000) hash s)"

fun settle_sent :: "node \<Rightarrow> evm_tx list \<Rightarrow> unit bact" where
  "settle_sent nd [] = ret ()"
| "settle_sent nd (row # rows) =
     bindA (row_of_id (tx_id row)) (\<lambda>r. seqA (settle nd r None) (settle_sent nd rows))"

definition finish_batch :: "node \<Rightarrow> bool \<Rightarrow> evm_tx list \<times> string option \<Rightarrow> bool bact" where
  "finish_batch nd progressed sl =
     (case sl of
        (sent, None) \<Rightarrow> ret (progressed \<or> sent \<noteq> [])
      | (sent, Some hash) \<Rightarrow>
          seqA (await_receipt nd hash) (seqA (settle_sent nd sent) (ret (progressed \<or> sent \<noteq> []))))"

definition batch_rows :: "node \<Rightarrow> evm_tx list \<Rightarrow> evm_tx list" where
  "batch_rows nd t =
     sql_limit (batch_size nd)
       (sort_key tx_id
         (filter (\<lambda>r. tx_chain r = nd_chain nd \<and> tx_address r = lower (nd_address nd)
                       \<and> tx_status r = EvmQueued) t))"

text \<open>\<open>_run_batch\<close>\<close>

definition run_batch :: "node \<Rightarrow> bool bact" where
  "run_batch nd =
     bindA (getA (\<lambda>s. batch_rows nd (evm_table s))) (\<lambda>rows.
       if rows = [] then ret False
       else bindA (call_node nd (nd_count nd)) (\<lambda>count.
         bindA (getA (\<lambda>s. max count (next_after_mined nd (evm_table s)))) (\<lambda>used.
           bindA (triage nd used rows [] False) (\<lambda>t.
             case t of
               Inl progressed \<Rightarrow> ret progressed
             | Inr (unsent, progressed) \<Rightarrow>
                 bindA (getA (\<lambda>s. max used (next_after_mined nd (evm_table s)))) (\<lambda>nonce.
                   bindA (call_node nd (nd_fees nd)) (\<lambda>f.
                     bindA (send_rows nd f unsent nonce [] None False) (finish_batch nd progressed)))))))"

text \<open>\<open>run_round\<close>, and \<open>run\<close> for a number of its rounds: a raise ends the round only.\<close>

definition run_round :: "node \<Rightarrow> bool bact option \<Rightarrow> bool bact" where
  "run_round nd before_round =
     bindA (case before_round of None \<Rightarrow> ret False | Some hook \<Rightarrow> hook) (\<lambda>signed.
       bindA (run_batch nd) (\<lambda>b. ret (b \<or> signed)))"

fun run :: "node \<Rightarrow> bool bact option \<Rightarrow> nat \<Rightarrow> bst \<Rightarrow> bst" where
  "run nd before_round 0 s = s"
| "run nd before_round (Suc n) s =
     (if nd_stop nd (bs_tick s) then s
      else case run_round nd before_round s of
        (Inr True, s') \<Rightarrow> run nd before_round n s'
      | (_, s') \<Rightarrow> run nd before_round n (pass nd s'))"

section \<open>Health\<close>

text \<open>\<open>sender_health\<close>: how long the oldest queued transaction of each sender has waited.\<close>

definition oldest_queued :: "int \<Rightarrow> evm_tx list \<Rightarrow> ((int \<times> string) \<times> int) list" where
  "oldest_queued now t =
     (let q = filter (\<lambda>r. tx_status r = EvmQueued) t
      in map (\<lambda>k. (k, now - Min (set (map tx_created (filter (\<lambda>r. (tx_chain r, tx_address r) = k) q)))))
           (remdups (map (\<lambda>r. (tx_chain r, tx_address r)) q)))"

end
