(* ===== verification/BatcherInv.thy ===== *)
theory BatcherInv
  imports EvmBatcher "HOL-Library.Multiset"
begin

text \<open>
  What every sender keeps, whatever its node answers and whatever the event loop queues
  meanwhile. \<open>evm_inv\<close> is the well-formedness of the table: one row per id and per owner, one
  nonce for all the attempts of a row, and a mined row names one of its own attempts. \<open>batcher_ok\<close>
  adds the histories: every broadcast is in its row's attempts unless it was refused for good
  (\<open>cast_ok\<close>), rows that were final stay as they were, and a row becomes mined or reverted only on
  a receipt of its hash. The rules follow the functions of \<open>EvmBatcher\<close> one by one.
\<close>

section \<open>The table\<close>

definition one_nonce :: "evm_tx \<Rightarrow> bool" where
  "one_nonce r \<longleftrightarrow> (\<forall>a\<in>set (tx_attempts r). \<forall>b\<in>set (tx_attempts r). fst a = fst b)"

lemma one_nonce_cong: "tx_attempts r = tx_attempts r' \<Longrightarrow> one_nonce r = one_nonce r'"
  by (simp add: one_nonce_def)

definition on_chain :: "evm_tx \<Rightarrow> bool" where
  "on_chain r \<longleftrightarrow> tx_status r = EvmMined \<or> tx_status r = EvmReverted"

definition names_attempt :: "evm_tx \<Rightarrow> bool" where
  "names_attempt r \<longleftrightarrow>
     (\<exists>n h. tx_nonce r = Some n \<and> tx_hash r = Some h \<and> (n, h) \<in> set (tx_attempts r))"

definition row_ok :: "evm_tx \<Rightarrow> bool" where
  "row_ok r \<longleftrightarrow> one_nonce r \<and> (on_chain r \<longrightarrow> names_attempt r)"

definition evm_inv :: "evm_tx list \<Rightarrow> bool" where
  "evm_inv t \<longleftrightarrow> distinct (map tx_id t) \<and> distinct (map tx_owner t) \<and> (\<forall>r\<in>set t. row_ok r)"

text \<open>A row that failed before any attempt was kept can be queued again; any other row that is
  not queued is final.\<close>

definition idle :: "evm_tx \<Rightarrow> bool" where
  "idle r \<longleftrightarrow> tx_status r = EvmFailed \<and> tx_attempts r = []"

definition final :: "evm_tx \<Rightarrow> bool" where
  "final r \<longleftrightarrow> tx_status r \<noteq> EvmQueued \<and> \<not> idle r"

definition fresh :: "evm_tx \<Rightarrow> bool" where
  "fresh r \<longleftrightarrow> tx_status r = EvmQueued \<and> tx_attempts r = []"

lemma fresh_row_ok: "fresh r \<Longrightarrow> row_ok r"
  by (simp add: fresh_def row_ok_def one_nonce_def on_chain_def)

lemma evm_inv_unique: "evm_inv t \<Longrightarrow> r \<in> set t \<Longrightarrow> r' \<in> set t \<Longrightarrow> tx_id r = tx_id r' \<Longrightarrow> r = r'"
  by (metis evm_inv_def distinct_map inj_onD)

lemma evm_inv_result: "evm_inv t \<Longrightarrow> r \<in> set t \<Longrightarrow> result (tx_id r) t = Some r"
  unfolding result_def evm_inv_def by (simp add: find_row_distinct)

lemma evm_inv_update:
  assumes "evm_inv t" and "\<And>r. tx_id (g r) = tx_id r" and "\<And>r. tx_owner (g r) = tx_owner r"
    and "\<And>r. r \<in> set t \<Longrightarrow> p r \<Longrightarrow> row_ok (g r)"
  shows "evm_inv (update_where p g t)"
  using assms unfolding evm_inv_def
  by (auto simp: map_update_where set_update_where)

section \<open>What the event loop can do\<close>

text \<open>Every row stays as it is unless it is idle, and what is new is queued and unsent.\<close>

definition outer_evm :: "evm_tx list \<Rightarrow> evm_tx list \<Rightarrow> bool" where
  "outer_evm t t' \<longleftrightarrow>
     (evm_inv t \<longrightarrow> evm_inv t') \<and> (\<forall>r\<in>set t. r \<in> set t' \<or> idle r) \<and> (\<forall>r\<in>set t'. r \<in> set t \<or> fresh r)"

lemma outer_evm_refl [intro, simp]: "outer_evm t t"
  by (simp add: outer_evm_def)

lemma outer_evm_trans: "outer_evm t u \<Longrightarrow> outer_evm u v \<Longrightarrow> outer_evm t v"
  unfolding outer_evm_def by blast

lemma outer_evm_insert: "outer_evm t (insert_evm c a now i t)"
proof (cases "find_evm_tx (in_owner i) t = None")
  case True
  have f: "fresh (evm_row c a now i t)" by (simp add: fresh_def evm_row_def)
  have "in_owner i \<notin> tx_owner ` set t"
    using True by (simp add: find_evm_tx_def find_row_None)
  moreover have "next_id tx_id t \<notin> tx_id ` set t" by (rule next_id_fresh)
  ultimately have "evm_inv t \<Longrightarrow> evm_inv (t @ [evm_row c a now i t])"
    using fresh_row_ok [OF f] by (auto simp: evm_inv_def evm_row_def)
  with True f show ?thesis by (auto simp: outer_evm_def insert_evm_def)
next
  case False
  then have "insert_evm c a now i t = t" by (simp add: insert_evm_def)
  then show ?thesis by simp
qed

lemma outer_evm_submit: "outer_evm t (snd (submit c a now is t))"
proof -
  have "outer_evm t (fold (insert_evm c b now) is t)" for b
    by (induction "is" arbitrary: t) (auto intro: outer_evm_trans outer_evm_insert)
  then show ?thesis by (simp add: submit_def Let_def)
qed

lemma outer_evm_requeue: "outer_evm t (snd (requeue now owners t))"
proof -
  let ?g = "\<lambda>r. r\<lparr>tx_status := EvmQueued, tx_error := None, tx_hash := None, tx_nonce := None,
               tx_logs := None, tx_updated := now\<rparr>"
  have f: "requeuable owners r \<Longrightarrow> fresh (?g r) \<and> idle r" for r
    by (simp add: requeuable_def fresh_def idle_def)
  have "evm_inv t \<Longrightarrow> evm_inv (update_where (requeuable owners) ?g t)"
    by (rule evm_inv_update) (use f in \<open>auto intro: fresh_row_ok\<close>)
  moreover have "\<forall>r\<in>set t. r \<in> set (update_where (requeuable owners) ?g t) \<or> idle r"
    using f by (auto simp: set_update_where image_iff)
  moreover have "\<forall>r\<in>set (update_where (requeuable owners) ?g t). r \<in> set t \<or> fresh r"
    using f by (auto simp: set_update_where)
  ultimately show ?thesis by (simp add: requeue_def outer_evm_def)
qed

lemma outer_evm_step: "outer_evm (db_evm d) (db_evm (outer_step op d))"
  by (cases op) (simp_all add: outer_evm_submit outer_evm_requeue)

lemma outer_evm_steps: "outer_evm (db_evm d) (db_evm (outer_steps ops d))"
  unfolding outer_steps_def
  by (induction ops arbitrary: d) (auto intro: outer_evm_trans outer_evm_step)

lemma outer_evm_pass: "outer_evm (evm_table s) (evm_table (pass nd s))"
  by (simp add: pass_def other_lane_def outer_evm_steps)

section \<open>The invariant of a sender\<close>

definition cast_ok :: "bst \<Rightarrow> bool" where
  "cast_ok s \<longleftrightarrow>
     (\<forall>(i, n, h)\<in>set (bs_cast s).
        (i, n, h) \<in> set (bs_refused s)
        \<or> (\<exists>r\<in>set (evm_table s). tx_id r = i \<and> (n, h) \<in> set (tx_attempts r)))"

definition got_receipt :: "node \<Rightarrow> nat \<Rightarrow> string \<Rightarrow> bool \<Rightarrow> bool" where
  "got_receipt nd now hash ok \<longleftrightarrow> (\<exists>t<now. \<exists>logs. nd_receipt nd t hash = Inr (Some (ok, logs)))"

definition receipts_ok :: "node \<Rightarrow> evm_tx set \<Rightarrow> bst \<Rightarrow> bool" where
  "receipts_ok nd F s \<longleftrightarrow>
     (\<forall>r\<in>set (evm_table s). on_chain r \<longrightarrow>
        r \<in> F \<or> (\<exists>h. tx_hash r = Some h \<and> got_receipt nd (bs_tick s) h (tx_status r = EvmMined)))"

text \<open>\<open>F\<close> are rows that were final before.\<close>

definition batcher_ok :: "(db \<Rightarrow> bool) \<Rightarrow> node \<Rightarrow> evm_tx set \<Rightarrow> bst \<Rightarrow> bool" where
  "batcher_ok X nd F s \<longleftrightarrow>
     X (bs_db s) \<and> evm_inv (evm_table s) \<and> cast_ok s \<and> receipts_ok nd F s
     \<and> F \<subseteq> set (evm_table s) \<and> (\<forall>r\<in>F. final r)"

text \<open>In the middle of a round: the rows still to handle are as the round read them, and the rows
  sent are still queued.\<close>

definition working :: "(db \<Rightarrow> bool) \<Rightarrow> node \<Rightarrow> evm_tx set \<Rightarrow> evm_tx list \<Rightarrow> nat list \<Rightarrow> bst \<Rightarrow> bool" where
  "working X nd F pend ids s \<longleftrightarrow>
     batcher_ok X nd F s
     \<and> (\<forall>r\<in>set pend. r \<in> set (evm_table s) \<and> tx_status r = EvmQueued)
     \<and> (\<forall>i\<in>set ids. \<exists>r\<in>set (evm_table s). tx_id r = i \<and> tx_status r = EvmQueued)
     \<and> distinct (map tx_id pend @ ids)"

text \<open>The row being sent, as the table has it once its attempt is saved, and what a send leaves.\<close>

definition saved ::
  "(db \<Rightarrow> bool) \<Rightarrow> node \<Rightarrow> evm_tx set \<Rightarrow> evm_tx \<Rightarrow> evm_tx list \<Rightarrow> nat list \<Rightarrow> nat \<Rightarrow> string \<Rightarrow> bst \<Rightarrow> bool" where
  "saved X nd F row pend ids nonce hash s \<longleftrightarrow>
     (\<exists>r. tx_id r = tx_id row \<and> tx_attempts r = tx_attempts row @ [(nonce, hash)]
        \<and> working X nd F (r # pend) ids s)"

definition after_send ::
  "(db \<Rightarrow> bool) \<Rightarrow> node \<Rightarrow> evm_tx set \<Rightarrow> evm_tx \<Rightarrow> evm_tx list \<Rightarrow> nat list \<Rightarrow> outcome \<Rightarrow> bst \<Rightarrow> bool" where
  "after_send X nd F row pend ids out =
     (case out of Sent \<Rightarrow> working X nd F pend (ids @ [tx_id row]) | _ \<Rightarrow> working X nd F pend ids)"

definition settles :: "node \<Rightarrow> evm_tx \<Rightarrow> evm_status \<Rightarrow> string option \<Rightarrow> nat option \<Rightarrow> bst \<Rightarrow> bool" where
  "settles nd row st hash nonce s \<longleftrightarrow>
     (st = EvmMined \<or> st = EvmReverted \<longrightarrow>
        (\<exists>n h. nonce = Some n \<and> hash = Some h \<and> (n, h) \<in> set (tx_attempts row)
          \<and> got_receipt nd (bs_tick s) h (st = EvmMined)))"

text \<open>
  A sender shares the database with other components. \<open>sender\<close> is what a predicate \<open>X\<close> of theirs on the
  database must promise to be kept by a sender: the event loop keeps it while the node answers,
  and so does any change to a queued row of the sender's table that keeps its id and owner.
\<close>

locale sender =
  fixes nd :: node and X :: "db \<Rightarrow> bool"
  assumes X_pass: "evm_inv (evm_table s) \<Longrightarrow> X (bs_db s) \<Longrightarrow> X (bs_db (pass nd s))"
    and X_row: "evm_inv (db_evm d) \<Longrightarrow> X d \<Longrightarrow> row \<in> set (db_evm d) \<Longrightarrow> tx_status row = EvmQueued \<Longrightarrow>
       (\<And>r. tx_id (g r) = tx_id r) \<Longrightarrow> (\<And>r. tx_owner (g r) = tx_owner r) \<Longrightarrow>
       X (d\<lparr>db_evm := update_where (\<lambda>r. tx_id r = tx_id row) g (db_evm d)\<rparr>)"
begin

lemma got_receipt_mono: "got_receipt nd m h ok \<Longrightarrow> m \<le> n \<Longrightarrow> got_receipt nd n h ok"
  unfolding got_receipt_def by (meson less_le_trans)

lemma working_ok: "working X nd F pend ids s \<Longrightarrow> working X nd F [] [] s"
  by (simp add: working_def)

lemma working_batcher: "working X nd F pend ids s \<Longrightarrow> batcher_ok X nd F s"
  by (simp add: working_def)

lemma working_Nil [simp]: "working X nd F [] [] s \<longleftrightarrow> batcher_ok X nd F s"
  by (simp add: working_def)

lemma working_drop: "working X nd F (row # pend) ids s \<Longrightarrow> working X nd F pend ids s"
  by (simp add: working_def)

lemma working_used_since [simp]:
  "working X nd F pend ids (s\<lparr>bs_used_since := u\<rparr>) = working X nd F pend ids s"
  by (simp add: working_def batcher_ok_def cast_ok_def receipts_ok_def)

text \<open>What the event loop, or a hook of the round, may do to the table keeps the rest.\<close>

lemma batcher_ok_outer:
  assumes b: "batcher_ok X nd F s" and o: "outer_evm (evm_table s) (evm_table s')" and X: "X (bs_db s')"
    and hist: "bs_cast s' = bs_cast s" "bs_refused s' = bs_refused s" "bs_tick s \<le> bs_tick s'"
  shows "batcher_ok X nd F s'"
proof -
  let ?t = "evm_table s" and ?t' = "evm_table s'"
  from o have
    inv: "evm_inv ?t \<longrightarrow> evm_inv ?t'" and kept: "\<And>r. r \<in> set ?t \<Longrightarrow> \<not> idle r \<Longrightarrow> r \<in> set ?t'"
    and new: "\<And>r. r \<in> set ?t' \<Longrightarrow> r \<in> set ?t \<or> fresh r"
    unfolding outer_evm_def by blast+
  have "cast_ok s'"
    unfolding cast_ok_def hist
  proof (clarify)
    fix i n h
    assume "(i, n, h) \<in> set (bs_cast s)" and nr: "\<not> (\<exists>r\<in>set ?t'. tx_id r = i \<and> (n, h) \<in> set (tx_attempts r))"
    with b have "(i, n, h) \<in> set (bs_refused s) \<or> (\<exists>r\<in>set ?t. tx_id r = i \<and> (n, h) \<in> set (tx_attempts r))"
      unfolding batcher_ok_def cast_ok_def by blast
    moreover have "\<not> (\<exists>r\<in>set ?t. tx_id r = i \<and> (n, h) \<in> set (tx_attempts r))"
    proof
      assume "\<exists>r\<in>set ?t. tx_id r = i \<and> (n, h) \<in> set (tx_attempts r)"
      then obtain r where "r \<in> set ?t" "tx_id r = i" "(n, h) \<in> set (tx_attempts r)" by blast
      moreover from this have "r \<in> set ?t'" by (intro kept) (auto simp: idle_def)
      ultimately show False using nr by blast
    qed
    ultimately show "(i, n, h) \<in> set (bs_refused s)" by blast
  qed
  moreover have "receipts_ok nd F s'"
    unfolding receipts_ok_def
  proof (intro ballI impI)
    fix r assume r: "r \<in> set ?t'" "on_chain r"
    then have "r \<in> set ?t" using new [of r] by (auto simp: fresh_def on_chain_def)
    with r b have "r \<in> F \<or> (\<exists>h. tx_hash r = Some h \<and> got_receipt nd (bs_tick s) h (tx_status r = EvmMined))"
      unfolding batcher_ok_def receipts_ok_def by blast
    then show "r \<in> F \<or> (\<exists>h. tx_hash r = Some h \<and> got_receipt nd (bs_tick s') h (tx_status r = EvmMined))"
      using got_receipt_mono [of "bs_tick s" _ _ "bs_tick s'"] hist(3) by auto
  qed
  moreover have "F \<subseteq> set ?t'"
    using b kept unfolding batcher_ok_def final_def by blast
  ultimately show ?thesis using b X inv by (simp add: batcher_ok_def)
qed

lemma batcher_ok_pass: "batcher_ok X nd F s \<Longrightarrow> batcher_ok X nd F (pass nd s)"
  by (rule batcher_ok_outer [OF _ outer_evm_pass]) (auto simp: batcher_ok_def X_pass, simp_all add: pass_def)

lemma working_pass:
  assumes "working X nd F pend ids s"
  shows "working X nd F pend ids (pass nd s)"
proof -
  have kept: "r \<in> set (evm_table (pass nd s))" if "r \<in> set (evm_table s)" "tx_status r = EvmQueued" for r
    using outer_evm_pass [of s nd] that unfolding outer_evm_def idle_def by force
  show ?thesis
    using assms batcher_ok_pass [of F s] kept unfolding working_def by blast
qed

text \<open>One row rewritten, by its id.\<close>

lemma working_update:
  assumes w: "working X nd F (row # pend) ids s"
    and id: "\<And>r. tx_id (g r) = tx_id r" "\<And>r. tx_owner (g r) = tx_owner r"
    and ok: "row_ok (g row)"
    and kept: "\<And>n h. (n, h) \<in> set (tx_attempts row) \<Longrightarrow> (tx_id row, n, h) \<notin> set (bs_refused s)
                 \<Longrightarrow> (n, h) \<in> set (tx_attempts (g row))"
    and receipt: "on_chain (g row) \<Longrightarrow>
       \<exists>h. tx_hash (g row) = Some h \<and> got_receipt nd (bs_tick s) h (tx_status (g row) = EvmMined)"
  shows "working X nd F pend ids (set_evm (update_where (\<lambda>r. tx_id r = tx_id row) g) s)"
    and "tx_status (g row) = EvmQueued \<Longrightarrow>
           working X nd F (g row # pend) ids (set_evm (update_where (\<lambda>r. tx_id r = tx_id row) g) s)"
    and "tx_status (g row) = EvmQueued \<Longrightarrow>
           working X nd F pend (ids @ [tx_id row]) (set_evm (update_where (\<lambda>r. tx_id r = tx_id row) g) s)"
proof -
  let ?s' = "set_evm (update_where (\<lambda>r. tx_id r = tx_id row) g) s"
  let ?t = "evm_table s" and ?t' = "evm_table ?s'"
  from w have inv: "evm_inv ?t" and row: "row \<in> set ?t" "tx_status row = EvmQueued"
    and b: "batcher_ok X nd F s" by (simp_all add: working_def batcher_ok_def)
  have t': "?t' = update_where (\<lambda>r. tx_id r = tx_id row) g ?t" by (simp add: set_evm_def)
  have sel: "r \<in> set ?t \<Longrightarrow> tx_id r = tx_id row \<longleftrightarrow> r = row" for r
    using evm_inv_unique [OF inv _ row(1)] by blast
  have mem: "r \<in> set ?t' \<longleftrightarrow> r = g row \<or> r \<in> set ?t \<and> r \<noteq> row" for r
    unfolding t' set_update_where using sel row(1) by (auto simp: image_iff)
  have inv': "evm_inv ?t'"
    unfolding t' using inv id ok sel by (intro evm_inv_update) auto
  have other: "r \<in> set ?t \<Longrightarrow> tx_id r \<noteq> tx_id row \<Longrightarrow> r \<in> set ?t'" for r
    using mem by blast
  have cast: "cast_ok ?s'"
    unfolding cast_ok_def
  proof (clarify)
    fix i n h
    assume c: "(i, n, h) \<in> set (bs_cast ?s')" and nr: "\<not> (\<exists>r\<in>set ?t'. tx_id r = i \<and> (n, h) \<in> set (tx_attempts r))"
    show "(i, n, h) \<in> set (bs_refused ?s')"
    proof (rule ccontr)
      assume "(i, n, h) \<notin> set (bs_refused ?s')"
      then have ref: "(i, n, h) \<notin> set (bs_refused s)" by (simp add: set_evm_def)
      with c b obtain r where r: "r \<in> set ?t" "tx_id r = i" "(n, h) \<in> set (tx_attempts r)"
        unfolding batcher_ok_def cast_ok_def set_evm_def by fastforce
      show False
      proof (cases "r = row")
        case True
        then have "(n, h) \<in> set (tx_attempts (g row))" using kept r ref by blast
        then show False using nr mem id(1) r True by blast
      next
        case False
        then show False using nr mem r by blast
      qed
    qed
  qed
  have F: "row \<notin> F" using b row by (auto simp: batcher_ok_def final_def)
  have rec: "receipts_ok nd F ?s'"
    unfolding receipts_ok_def
  proof (intro ballI impI)
    fix r assume "r \<in> set ?t'" "on_chain r"
    with mem receipt b show "r \<in> F \<or> (\<exists>h. tx_hash r = Some h \<and>
        got_receipt nd (bs_tick ?s') h (tx_status r = EvmMined))"
      unfolding batcher_ok_def receipts_ok_def set_evm_def by auto
  qed
  have "X (bs_db ?s')"
    unfolding set_evm_def using X_row [of "bs_db s" row g] inv b row id by (simp add: batcher_ok_def)
  then have bok: "batcher_ok X nd F ?s'"
    using b inv' cast rec mem F unfolding batcher_ok_def by blast
  then show main: "working X nd F pend ids ?s'"
    using w other unfolding working_def
    by (auto simp: image_iff) metis+
  show "working X nd F (g row # pend) ids ?s'" if "tx_status (g row) = EvmQueued"
    using main w mem id(1) that by (auto simp: working_def)
  show "working X nd F pend (ids @ [tx_id row]) ?s'" if "tx_status (g row) = EvmQueued"
    using main w mem id(1) that by (auto simp: working_def)
qed

section \<open>Rules for the steps of a round\<close>

lemma hoare_call:
  assumes "\<And>s x. P s \<Longrightarrow> f (bs_tick s) = Inr x \<Longrightarrow> Q x (pass nd s)"
    and "\<And>s. P s \<Longrightarrow> E (pass nd s)"
  shows "hoare P (call_node nd f) Q E"
  unfolding hoare_def call_node_def
proof (intro allI impI)
  fix s assume "P s"
  then show "case (f (bs_tick s), pass nd s) of (Inl e, s') \<Rightarrow> E s' | (Inr x, s') \<Rightarrow> Q x s'"
    using assms by (cases "f (bs_tick s)") auto
qed

lemma call_working:
  "hoare (working X nd F pend ids) (call_node nd f) (\<lambda>_. working X nd F pend ids) (working X nd F pend ids)"
  by (rule hoare_call) (rule working_pass, assumption)+

lemma call_keeps [wp]: "keeps (working X nd F pend ids) (call_node nd f)"
  unfolding keeps_hoare by (rule call_working)

text \<open>An action that keeps what it is given, in the shape of a rule.\<close>

lemma keeps_rule:
  "keeps (working X nd F pend ids) m \<Longrightarrow>
     hoare (working X nd F pend ids) m (\<lambda>_. working X nd F pend ids) (batcher_ok X nd F)"
  unfolding keeps_hoare by (erule hoare_post) (auto dest: working_ok)

lemma finish_cong: "tx_id row = tx_id row' \<Longrightarrow> finish nd row = finish nd row'"
  by (intro ext) (simp add: finish_def)

lemma drop_attempts_cong: "tx_id row = tx_id row' \<Longrightarrow> drop_attempts row = drop_attempts row'"
  by (simp add: drop_attempts_def)

lemma working_row:
  assumes "working X nd F (row # pend) ids s"
  shows "row \<in> set (evm_table s)" and "tx_status row = EvmQueued" and "row_ok row"
  using assms by (auto simp: working_def batcher_ok_def evm_inv_def)

lemma finish_working:
  "hoare (\<lambda>s. working X nd F (row # pend) ids s \<and> settles nd row st hash nonce s)
     (finish nd row st hash nonce logs err) (\<lambda>_. working X nd F pend ids) (batcher_ok X nd F)"
proof -
  let ?g = "\<lambda>now r. r\<lparr>tx_status := st, tx_hash := hash, tx_nonce := nonce, tx_logs := logs,
                  tx_error := err, tx_updated := now\<rparr>"
  let ?u = "\<lambda>s. s\<lparr>bs_used_since := (bs_used_since s)(tx_id row := None)\<rparr>"
  have "working X nd F pend ids (set_evm (update_where (\<lambda>r. tx_id r = tx_id row) (?g now)) (?u s))"
    if w: "working X nd F (row # pend) ids s" and st: "settles nd row st hash nonce s" for s now
  proof (rule working_update(1))
    show "working X nd F (row # pend) ids (?u s)" using w by simp
    have "one_nonce (?g now row)"
      using working_row(3) [OF w] one_nonce_cong [of "?g now row" row] unfolding row_ok_def by simp
    moreover have "on_chain (?g now row) \<longrightarrow> names_attempt (?g now row)"
      using st unfolding on_chain_def names_attempt_def settles_def by simp blast
    ultimately show "row_ok (?g now row)" unfolding row_ok_def by (rule conjI)
  next
    assume "on_chain (?g now row)"
    then show "\<exists>h. tx_hash (?g now row) = Some h \<and> got_receipt nd (bs_tick (?u s)) h (tx_status (?g now row) = EvmMined)"
      using st unfolding on_chain_def settles_def by simp blast
  qed simp_all
  then show ?thesis
    by (simp add: hoare_def finish_def wall_def bindA_def getA_def modifyA_def)
qed

lemma finish_failed:
  "tx_id r = tx_id row \<Longrightarrow>
     hoare (working X nd F (row # pend) ids)
       (finish nd r EvmFailed hash nonce logs err) (\<lambda>_. working X nd F pend ids) (batcher_ok X nd F)"
  unfolding finish_cong [of r row]
  by (rule hoare_pre [OF finish_working]) (simp add: settles_def)

lemma settle_attempts_working:
  "set as \<subseteq> set (tx_attempts row) \<Longrightarrow>
   hoare (working X nd F (row # pend) ids) (settle_attempts nd row as)
     (\<lambda>m. if m then working X nd F pend ids else working X nd F (row # pend) ids) (batcher_ok X nd F)"
proof (induction "as")
  case Nil
  show ?case unfolding settle_attempts.simps by (rule hoare_pre [OF hoare_ret]) simp
next
  case (Cons a as)
  obtain n h where a: "a = (n, h)" by (cases a)
  let ?R = "\<lambda>receipt s. working X nd F (row # pend) ids s \<and>
     (\<forall>ok logs. receipt = Some (ok, logs) \<longrightarrow> got_receipt nd (bs_tick s) h ok)"
  show ?case
    unfolding a settle_attempts.simps
  proof (rule hoare_bindA)
    show "hoare (working X nd F (row # pend) ids) (call_node nd (\<lambda>t. nd_receipt nd t h)) ?R (batcher_ok X nd F)"
    proof (rule hoare_call)
      fix s x
      assume w: "working X nd F (row # pend) ids s" and x: "nd_receipt nd (bs_tick s) h = Inr x"
      have "bs_tick s < bs_tick (pass nd s)" by (simp add: pass_def)
      with x working_pass [OF w] show "?R x (pass nd s)" unfolding got_receipt_def by blast
    next
      fix s assume "working X nd F (row # pend) ids s"
      then show "batcher_ok X nd F (pass nd s)" by (intro working_batcher working_pass)
    qed
  next
    fix receipt
    show "hoare (?R receipt)
       (case receipt of None \<Rightarrow> settle_attempts nd row as
        | Some (ok, logs) \<Rightarrow>
            seqA (finish nd row (if ok then EvmMined else EvmReverted) (Some h) (Some n) (Some logs) None) (ret True))
       (\<lambda>m. if m then working X nd F pend ids else working X nd F (row # pend) ids) (batcher_ok X nd F)"
    proof (cases receipt)
      case None
      then show ?thesis using Cons by simp
    next
      case (Some x)
      obtain ok logs where x: "x = (ok, logs)" by (cases x)
      have "hoare (?R receipt)
        (finish nd row (if ok then EvmMined else EvmReverted) (Some h) (Some n) (Some logs) None)
        (\<lambda>_. working X nd F pend ids) (batcher_ok X nd F)"
        by (rule hoare_pre [OF finish_working]) (use Cons.prems a Some x in \<open>auto simp: settles_def\<close>)
      then show ?thesis
        unfolding Some x option.case prod.case
        by (rule hoare_seqA) (rule hoare_pre [OF hoare_ret], simp)
    qed
  qed
qed

lemma settle_working:
  "hoare (working X nd F (row # pend) ids) (settle nd row used)
     (\<lambda>r. if r = Some True then working X nd F pend ids else working X nd F (row # pend) ids) (batcher_ok X nd F)"
  unfolding settle_def
  by (rule hoare_bindA [OF settle_attempts_working [OF subset_refl]])
    (rule hoare_pre [OF hoare_ret], simp split: if_splits)

lemma working_perm:
  "mset pend = mset pend' \<Longrightarrow> working X nd F pend ids s \<Longrightarrow> working X nd F pend' ids s"
proof -
  assume m: "mset pend = mset pend'" and w: "working X nd F pend ids s"
  from m have "set pend = set pend'" by (rule mset_eq_setD)
  moreover have "distinct (map tx_id pend @ ids) = distinct (map tx_id pend' @ ids)"
    using m by (intro mset_eq_imp_distinct_iff) simp
  ultimately show ?thesis using w by (simp add: working_def)
qed

subsection \<open>Sending\<close>

lemma newest_held_keeps [wp]: "keeps (working X nd F pend ids) (newest_held nd as)"
  by (induction "as") (auto intro!: wp split: option.split)

lemma retry_fees_keeps [wp]: "keeps (working X nd F pend ids) (retry_fees nd row f)"
  unfolding retry_fees_def
  by (auto intro!: wp split: sum.split option.split)

lemma log_send_failure_keeps [wp]: "keeps (working X nd F pend ids) (log_send_failure nd h)"
  unfolding log_send_failure_def by (intro wp)

lemma simulate_first_working:
  "hoare (working X nd F (row # pend) ids) (simulate_first nd row tx)
     (\<lambda>o1. case o1 of
        None \<Rightarrow> working X nd F (row # pend) ids
      | Some out \<Rightarrow> (\<lambda>s. out \<noteq> Sent \<and> working X nd F pend ids s)) (batcher_ok X nd F)"
proof -
  have "hoare (working X nd F (row # pend) ids) (tryA (call_node nd (\<lambda>t. nd_simulate nd t tx)))
     (\<lambda>_. working X nd F (row # pend) ids) (batcher_ok X nd F)"
    by (intro keeps_rule wp)
  moreover have "hoare (working X nd F (row # pend) ids)
     (seqA (finish nd row EvmFailed None None None e) (ret (Some Skipped)))
     (\<lambda>o1. case o1 of None \<Rightarrow> working X nd F (row # pend) ids
        | Some out \<Rightarrow> (\<lambda>s. out \<noteq> Sent \<and> working X nd F pend ids s)) (batcher_ok X nd F)" for e
    by (rule hoare_seqA [OF finish_failed [OF refl]]) (rule hoare_pre [OF hoare_ret], simp)
  moreover have "hoare (working X nd F (row # pend) ids) (ret (Some Stopped))
     (\<lambda>o1. case o1 of None \<Rightarrow> working X nd F (row # pend) ids
        | Some out \<Rightarrow> (\<lambda>s. out \<noteq> Sent \<and> working X nd F pend ids s)) (batcher_ok X nd F)"
    by (rule hoare_pre [OF hoare_ret]) (simp add: working_drop)
  moreover have "hoare (working X nd F (row # pend) ids) (ret None)
     (\<lambda>o1. case o1 of None \<Rightarrow> working X nd F (row # pend) ids
        | Some out \<Rightarrow> (\<lambda>s. out \<noteq> Sent \<and> working X nd F pend ids s)) (batcher_ok X nd F)"
    by (rule hoare_pre [OF hoare_ret]) simp
  ultimately show ?thesis
    unfolding simulate_first_def by (auto intro!: hoare_bindA split: sum.split)
qed

lemma save_attempt_working:
  assumes "tx_attempts row \<noteq> [] \<longrightarrow> nonce = fst (last (tx_attempts row))"
  shows "hoare (working X nd F (row # pend) ids) (save_attempt nd row nonce hash)
     (\<lambda>_. saved X nd F row pend ids nonce hash) (batcher_ok X nd F)"
proof -
  let ?g = "\<lambda>now r. r\<lparr>tx_attempts := tx_attempts r @ [(nonce, hash)], tx_updated := now\<rparr>"
  have "saved X nd F row pend ids nonce hash (set_evm (update_where (\<lambda>r. tx_id r = tx_id row) (?g now)) s)"
    if w: "working X nd F (row # pend) ids s" for s now
    unfolding saved_def
  proof (intro exI conjI)
    have one: "one_nonce row" using working_row(3) [OF w] unfolding row_ok_def by (rule conjunct1)
    have "fst a = nonce" if "a \<in> set (tx_attempts row)" for a
    proof -
      from that have "tx_attempts row \<noteq> []" by auto
      with one that assms last_in_set [of "tx_attempts row"] show ?thesis
        unfolding one_nonce_def by metis
    qed
    then have "one_nonce (?g now row)" by (auto simp: one_nonce_def)
    then show "working X nd F (?g now row # pend) ids
        (set_evm (update_where (\<lambda>r. tx_id r = tx_id row) (?g now)) s)"
      using working_row(2) [OF w]
      by (intro working_update(2) [OF w]) (auto simp: row_ok_def on_chain_def)
  qed simp_all
  then show ?thesis
    by (simp add: hoare_def save_attempt_def wall_def bindA_def getA_def modifyA_def)
qed

lemma saved_cast:
  assumes "saved X nd F row pend ids nonce hash s"
  shows "saved X nd F row pend ids nonce hash (s\<lparr>bs_cast := (tx_id row, nonce, hash) # bs_cast s\<rparr>)"
proof -
  from assms obtain r where r: "tx_id r = tx_id row" "tx_attempts r = tx_attempts row @ [(nonce, hash)]"
    "working X nd F (r # pend) ids s" by (auto simp: saved_def)
  from working_row(1) [OF r(3)] r have
    "working X nd F (r # pend) ids (s\<lparr>bs_cast := (tx_id row, nonce, hash) # bs_cast s\<rparr>)"
    by (auto simp: working_def batcher_ok_def cast_ok_def receipts_ok_def intro!: bexI [of _ r])
  with r show ?thesis by (auto simp: saved_def)
qed

lemma saved_drop:
  assumes "saved X nd F row pend ids nonce hash s" and "tx_attempts row = []"
  shows "\<exists>r. tx_id r = tx_id row \<and> working X nd F (r # pend) ids
     (set_evm (update_where (\<lambda>r. tx_id r = tx_id row) (\<lambda>r. r\<lparr>tx_attempts := []\<rparr>))
       (s\<lparr>bs_refused := (tx_id row, nonce, hash) # bs_refused s\<rparr>))"
proof -
  from assms obtain r where r: "tx_id r = tx_id row" "tx_attempts r = [(nonce, hash)]"
    "working X nd F (r # pend) ids s" by (auto simp: saved_def)
  let ?s = "s\<lparr>bs_refused := (tx_id row, nonce, hash) # bs_refused s\<rparr>"
  have w: "working X nd F (r # pend) ids ?s"
    using r(3) by (auto simp: working_def batcher_ok_def cast_ok_def receipts_ok_def)
  have "working X nd F (r\<lparr>tx_attempts := []\<rparr> # pend) ids
     (set_evm (update_where (\<lambda>q. tx_id q = tx_id r) (\<lambda>r. r\<lparr>tx_attempts := []\<rparr>)) ?s)"
    using working_row(2) [OF w] r
    by (intro working_update(2) [OF w]) (auto simp: row_ok_def one_nonce_def on_chain_def)
  then show ?thesis unfolding r(1) by (intro exI [of _ "r\<lparr>tx_attempts := []\<rparr>"]) (simp add: r(1))
qed

lemma saved_keeps:
  "(\<And>r. keeps (working X nd F (r # pend) ids) m) \<Longrightarrow> keeps (saved X nd F row pend ids nonce hash) m"
  unfolding keeps_def saved_def by blast

lemma saved_sent: "saved X nd F row pend ids nonce hash s \<Longrightarrow> working X nd F pend (ids @ [tx_id row]) s"
  by (auto simp: saved_def working_def)

lemma saved_batcher: "saved X nd F row pend ids nonce hash s \<Longrightarrow> working X nd F pend ids s"
  by (auto simp: saved_def working_def)

lemma broadcast_working:
  "hoare (saved X nd F row pend ids nonce hash) (broadcast nd row nonce hash)
     (after_send X nd F row pend ids) (batcher_ok X nd F)"
proof -
  let ?S = "saved X nd F row pend ids nonce hash"
  let ?D = "\<lambda>s. \<exists>r. tx_id r = tx_id row \<and> working X nd F (r # pend) ids s"
  have call: "hoare ?S (tryA (call_node nd (\<lambda>t. nd_send nd t hash))) (\<lambda>_. ?S) (batcher_ok X nd F)"
    by (rule hoare_post [where Q = "\<lambda>_. ?S" and E = ?S])
      (auto simp: keeps_hoare [symmetric] intro!: saved_keeps wp dest: saved_batcher working_batcher)
  have logged: "hoare ?S (log_send_failure nd hash) (\<lambda>_. ?S) (batcher_ok X nd F)"
    by (rule hoare_post [where Q = "\<lambda>_. ?S" and E = ?S])
      (auto simp: keeps_hoare [symmetric] intro!: saved_keeps wp dest: saved_batcher working_batcher)
  have finish: "hoare ?D (seqA (finish nd row EvmFailed None None None e) (ret Skipped))
      (after_send X nd F row pend ids) (batcher_ok X nd F)" for e
  proof (rule hoare_ex)
    fix r
    show "hoare (\<lambda>s. tx_id r = tx_id row \<and> working X nd F (r # pend) ids s)
       (seqA (finish nd row EvmFailed None None None e) (ret Skipped))
       (after_send X nd F row pend ids) (batcher_ok X nd F)"
      by (rule hoare_assume, rule hoare_seqA [OF finish_failed])
        (simp_all add: after_send_def hoare_def ret_def)
  qed
  have refused: "hoare ?S
      (seqA (modifyA (\<lambda>s. s\<lparr>bs_refused := (tx_id row, nonce, hash) # bs_refused s\<rparr>))
        (seqA (drop_attempts row) (seqA (finish nd row EvmFailed None None None e) (ret Skipped))))
      (after_send X nd F row pend ids) (batcher_ok X nd F)" if "tx_attempts row = []" for e
  proof (rule hoare_seqA [where R = "\<lambda>s. ?D (set_evm
        (update_where (\<lambda>r. tx_id r = tx_id row) (\<lambda>r. r\<lparr>tx_attempts := []\<rparr>)) s)"])
    show "hoare ?S (modifyA (\<lambda>s. s\<lparr>bs_refused := (tx_id row, nonce, hash) # bs_refused s\<rparr>))
       (\<lambda>_ s. ?D (set_evm (update_where (\<lambda>r. tx_id r = tx_id row) (\<lambda>r. r\<lparr>tx_attempts := []\<rparr>)) s))
       (batcher_ok X nd F)"
      by (rule hoare_pre [OF hoare_modifyA]) (rule saved_drop [OF _ that])
  qed (rule hoare_seqA [OF _ finish], simp add: hoare_def drop_attempts_def modifyA_def)
  show ?thesis
    unfolding broadcast_def
  proof (rule hoare_seqA [where R = ?S])
    show "hoare ?S (modifyA (\<lambda>s. s\<lparr>bs_cast := (tx_id row, nonce, hash) # bs_cast s\<rparr>)) (\<lambda>_. ?S)
       (batcher_ok X nd F)"
      by (rule hoare_pre [OF hoare_modifyA]) (rule saved_cast)
  next
    show "hoare ?S (bindA (tryA (call_node nd (\<lambda>t. nd_send nd t hash))) (\<lambda>reply.
        case reply of Inl e \<Rightarrow>
            seqA (log_send_failure nd hash)
              (if refused_for_good row e
               then seqA (modifyA (\<lambda>s. s\<lparr>bs_refused := (tx_id row, nonce, hash) # bs_refused s\<rparr>))
                 (seqA (drop_attempts row)
                   (seqA (finish nd row EvmFailed None None None (Some (exc_text e))) (ret Skipped)))
               else ret Stopped)
        | Inr _ \<Rightarrow> ret Sent)) (after_send X nd F row pend ids) (batcher_ok X nd F)"
    proof (rule hoare_bindA [OF call])
      fix reply
      have ok: "hoare ?S (ret Sent) (after_send X nd F row pend ids) (batcher_ok X nd F)"
        by (rule hoare_pre [OF hoare_ret]) (simp add: after_send_def saved_sent)
      have stop: "hoare ?S (ret Stopped) (after_send X nd F row pend ids) (batcher_ok X nd F)"
        by (rule hoare_pre [OF hoare_ret]) (simp add: after_send_def saved_batcher)
      have none: "refused_for_good row e \<Longrightarrow> tx_attempts row = []" for e
        by (auto simp: refused_for_good_def split: exc.splits)
      show "hoare ?S (case reply of Inl e \<Rightarrow>
            seqA (log_send_failure nd hash)
              (if refused_for_good row e
               then seqA (modifyA (\<lambda>s. s\<lparr>bs_refused := (tx_id row, nonce, hash) # bs_refused s\<rparr>))
                 (seqA (drop_attempts row)
                   (seqA (finish nd row EvmFailed None None None (Some (exc_text e))) (ret Skipped)))
               else ret Stopped)
        | Inr _ \<Rightarrow> ret Sent) (after_send X nd F row pend ids) (batcher_ok X nd F)"
        using ok stop refused none
        by (auto split: sum.split intro!: hoare_seqA [OF logged] hoare_if)
    qed
  qed
qed

lemma send_working:
  assumes "tx_attempts row \<noteq> [] \<longrightarrow> nonce = fst (last (tx_attempts row))"
  shows "hoare (working X nd F (row # pend) ids) (send nd row nonce f)
     (after_send X nd F row pend ids) (batcher_ok X nd F)"
proof -
  have stopped: "hoare (working X nd F (row # pend) ids) (ret out) (after_send X nd F row pend ids) (batcher_ok X nd F)"
    if "out \<noteq> Sent" for out
    by (rule hoare_pre [OF hoare_ret])
      (use that in \<open>auto simp: after_send_def dest: working_drop split: outcome.split\<close>)
  have failed: "hoare (\<lambda>s. out \<noteq> Sent \<and> working X nd F pend ids s) (ret out)
     (after_send X nd F row pend ids) (batcher_ok X nd F)" for out
    by (rule hoare_pre [OF hoare_ret]) (auto simp: after_send_def split: outcome.split)
  have sign: "hoare (working X nd F (row # pend) ids) (tryA (call_node nd g))
     (\<lambda>_. working X nd F (row # pend) ids) (batcher_ok X nd F)" for g :: "nat \<Rightarrow> exc + string"
    by (intro keeps_rule wp)
  note go = hoare_bindA [OF sign] and save = hoare_seqA [OF save_attempt_working [OF assms] broadcast_working]
  show ?thesis
    unfolding send_def Let_def
  proof (rule hoare_bindA [OF keeps_rule [OF retry_fees_keeps]])
    fix r
    show "hoare (working X nd F (row # pend) ids)
       (case r of None \<Rightarrow> ret Stopped
        | Some f' \<Rightarrow>
            bindA (simulate_first nd row
               \<lparr>sg_to = tx_to row, sg_data = tx_data row, sg_value = tx_value row,
                sg_gas = tx_gas row, sg_nonce = nonce, sg_fees = f'\<rparr>)
             (\<lambda>o1. case o1 of
                None \<Rightarrow>
                  bindA (tryA (call_node nd (\<lambda>t. nd_sign nd t
                     \<lparr>sg_to = tx_to row, sg_data = tx_data row, sg_value = tx_value row,
                      sg_gas = tx_gas row, sg_nonce = nonce, sg_fees = f'\<rparr>)))
                   (\<lambda>signed. case signed of Inl _ \<Rightarrow> ret Stopped
                      | Inr hash \<Rightarrow> seqA (save_attempt nd row nonce hash) (broadcast nd row nonce hash))
              | Some out \<Rightarrow> ret out))
       (after_send X nd F row pend ids) (batcher_ok X nd F)"
    proof (cases r)
      case None
      then show ?thesis by (simp add: stopped)
    next
      case (Some f')
      show ?thesis
        unfolding Some option.case
        by (rule hoare_bindA [OF simulate_first_working])
          (auto split: option.split sum.split intro!: failed go save stopped)
    qed
  qed
qed

subsection \<open>Rounds\<close>

lemma triage_working:
  "hoare (working X nd F (rows @ unsent) []) (triage nd used rows unsent progressed)
     (\<lambda>r. case r of Inl _ \<Rightarrow> batcher_ok X nd F | Inr (u, _) \<Rightarrow> working X nd F u []) (batcher_ok X nd F)"
proof (induction rows arbitrary: unsent progressed)
  case Nil
  show ?case unfolding triage.simps by (rule hoare_pre [OF hoare_ret]) simp
next
  case (Cons row rows)
  let ?Q = "\<lambda>r. case r of Inl _ \<Rightarrow> batcher_ok X nd F | Inr (u, _) \<Rightarrow> working X nd F u []"
  have since: "hoare (working X nd F (row # rows @ unsent) []) (held_since row)
     (\<lambda>_. working X nd F (row # rows @ unsent) []) (batcher_ok X nd F)"
    by (simp add: hoare_def held_since_def bindA_def getA_def seqA_def modifyA_def ret_def)
  have return: "hoare (working X nd F (row # rows @ unsent) []) (ret (Inl progressed)) ?Q (batcher_ok X nd F)"
    for progressed
    by (rule hoare_pre [OF hoare_ret]) (simp add: working_batcher)
  have keep: "hoare (working X nd F (row # rows @ unsent) []) (triage nd used rows (unsent @ [row]) p) ?Q
     (batcher_ok X nd F)" for p
    by (rule hoare_pre [OF Cons.IH]) (erule working_perm [rotated], simp)
  have get: "hoare P (getA f) (\<lambda>_. P) E" for P E and f :: "bst \<Rightarrow> 'z"
    by (simp add: hoare_def getA_def)
  have stuck: "hoare (working X nd F (row # rows @ unsent) [])
     (bindA (held_since row) (\<lambda>since. bindA (getA bs_mono) (\<lambda>mono.
        if mono - since < STUCK_AFTER_MS then ret (Inl progressed)
        else seqA (finish nd row EvmFailed None (Some (min_nonce row)) None
               (Some ''nonce taken by another tx'')) (triage nd used rows unsent True)))) ?Q (batcher_ok X nd F)"
    by (intro hoare_bindA [OF since] hoare_bindA [OF get] hoare_if return)
      (rule hoare_seqA [OF finish_failed [OF refl] Cons.IH])
  have wait: "hoare (working X nd F (row # rows @ unsent) [])
     (bindA (wall nd) (\<lambda>now.
        if tx_attempts row \<noteq> [] \<and> now - tx_updated row < RECEIPT_TIMEOUT then ret (Inl progressed)
        else triage nd used rows (unsent @ [row]) progressed)) ?Q (batcher_ok X nd F)"
    unfolding wall_def by (intro hoare_bindA [OF get] hoare_if return keep)
  show ?case
    unfolding triage.simps append_Cons
  proof (rule hoare_bindA [OF settle_working])
    fix settled
    show "hoare (if settled = Some True then working X nd F (rows @ unsent) []
                 else working X nd F (row # rows @ unsent) [])
      (case settled of None \<Rightarrow>
          bindA (held_since row) (\<lambda>since. bindA (getA bs_mono) (\<lambda>mono.
            if mono - since < STUCK_AFTER_MS then ret (Inl progressed)
            else seqA (finish nd row EvmFailed None (Some (min_nonce row)) None
                   (Some ''nonce taken by another tx'')) (triage nd used rows unsent True)))
        | Some True \<Rightarrow> triage nd used rows unsent True
        | Some False \<Rightarrow>
            bindA (wall nd) (\<lambda>now.
              if tx_attempts row \<noteq> [] \<and> now - tx_updated row < RECEIPT_TIMEOUT then ret (Inl progressed)
              else triage nd used rows (unsent @ [row]) progressed)) ?Q (batcher_ok X nd F)"
      using stuck wait Cons.IH by (auto split: option.split bool.split)
  qed
qed

lemma row_of_id_working:
  "hoare (working X nd F pend ids) (row_of_id i)
     (\<lambda>r s. working X nd F pend ids s \<and> r \<in> set (evm_table s) \<and> tx_id r = i) (batcher_ok X nd F)"
proof -
  have "r \<in> set t \<and> tx_id r = i" if "result i t = Some r" for r t
    using that unfolding result_def by (rule find_row_Some)
  then show ?thesis
    by (auto simp: hoare_def row_of_id_def bindA_def getA_def throw_def ret_def working_batcher
        split: option.split)
qed

lemma send_rows_working:
  "hoare (working X nd F rows (map tx_id sent)) (send_rows nd f rows nonce sent last_hash failed)
     (\<lambda>(sent', _). working X nd F [] (map tx_id sent')) (batcher_ok X nd F)"
proof (induction rows arbitrary: nonce sent last_hash failed)
  case Nil
  show ?case unfolding send_rows.simps by (rule hoare_pre [OF hoare_ret]) simp
next
  case (Cons row rows)
  let ?Q = "\<lambda>(sent', _). working X nd F [] (map tx_id sent')"
  have nonce: "tx_attempts row \<noteq> [] \<longrightarrow> nonce_for row nonce = fst (last (tx_attempts row))"
    by (simp add: nonce_for_def)
  have stop: "hoare (working X nd F rows (map tx_id sent)) (ret (sent, last_hash)) ?Q (batcher_ok X nd F)"
    by (rule hoare_pre [OF hoare_ret]) (simp add: working_def)
  have on: "hoare (\<lambda>s. working X nd F rows (map tx_id sent @ [tx_id row]) s \<and> r \<in> set (evm_table s) \<and> tx_id r = tx_id row)
     (bindA (liftE (last_attempt r)) (\<lambda>a.
        send_rows nd f rows (max nonce (nonce_for row nonce + 1)) (sent @ [row]) (Some (snd a)) False))
     ?Q (batcher_ok X nd F)" for r
  proof (rule hoare_bindA)
    show "hoare (\<lambda>s. working X nd F rows (map tx_id sent @ [tx_id row]) s \<and> r \<in> set (evm_table s) \<and> tx_id r = tx_id row)
        (liftE (last_attempt r)) (\<lambda>_. working X nd F rows (map tx_id (sent @ [row]))) (batcher_ok X nd F)"
      by (rule hoare_pre [OF hoare_liftE]) (auto dest: working_batcher)
  qed (rule Cons.IH)
  show ?case
    unfolding send_rows.simps Let_def
  proof (rule hoare_if)
    show "hoare (working X nd F (row # rows) (map tx_id sent))
      (seqA (finish nd row EvmFailed None None None (Some SUPERSEDED))
        (send_rows nd f rows nonce sent last_hash failed)) ?Q (batcher_ok X nd F)"
      by (rule hoare_seqA [OF finish_failed [OF refl] Cons.IH])
  next
    show "hoare (working X nd F (row # rows) (map tx_id sent))
      (bindA (send nd row (nonce_for row nonce) f) (\<lambda>out.
         case out of
           Sent \<Rightarrow> bindA (row_of_id (tx_id row)) (\<lambda>r. bindA (liftE (last_attempt r)) (\<lambda>a.
              send_rows nd f rows (max nonce (nonce_for row nonce + 1)) (sent @ [row]) (Some (snd a)) False))
         | Skipped \<Rightarrow> send_rows nd f rows nonce sent last_hash True
         | Stopped \<Rightarrow> ret (sent, last_hash))) ?Q (batcher_ok X nd F)"
    proof (rule hoare_bindA [OF send_working [OF nonce]])
      fix out
      show "hoare (after_send X nd F row rows (map tx_id sent) out)
        (case out of
           Sent \<Rightarrow> bindA (row_of_id (tx_id row)) (\<lambda>r. bindA (liftE (last_attempt r)) (\<lambda>a.
              send_rows nd f rows (max nonce (nonce_for row nonce + 1)) (sent @ [row]) (Some (snd a)) False))
         | Skipped \<Rightarrow> send_rows nd f rows nonce sent last_hash True
         | Stopped \<Rightarrow> ret (sent, last_hash)) ?Q (batcher_ok X nd F)"
      proof (cases out)
        case Sent
        show ?thesis
          unfolding Sent outcome.case after_send_def by (rule hoare_bindA [OF row_of_id_working on])
      qed (simp_all add: after_send_def stop Cons.IH)
    qed
  qed
qed

lemma await_loop_working:
  "nd' = nd \<Longrightarrow> working X nd F pend ids s \<Longrightarrow> working X nd F pend ids (snd (await_loop nd' d h s))"
proof (induction nd' d h s rule: await_loop.induct)
  case (1 nd' d h s)
  have "working X nd F pend ids (poll nd (pass nd s))"
    using working_pass [OF working_pass [OF 1(3)]]
    by (simp add: poll_def working_def batcher_ok_def cast_ok_def receipts_ok_def)
  with 1 show ?case
    by (subst await_loop.simps) (auto intro: working_pass split: sum.split option.split)
qed

lemma await_receipt_keeps [wp]: "keeps (working X nd F pend ids) (await_receipt nd h)"
  by (rule keepsI) (simp add: await_receipt_def await_loop_working)

lemma settle_sent_working:
  "hoare (working X nd F [] (map tx_id sent)) (settle_sent nd sent) (\<lambda>_. batcher_ok X nd F) (batcher_ok X nd F)"
proof (induction sent)
  case Nil
  show ?case unfolding settle_sent.simps by (rule hoare_pre [OF hoare_ret]) (simp add: working_batcher)
next
  case (Cons row rows)
  show ?case
    unfolding settle_sent.simps list.map
  proof (rule hoare_bindA [OF row_of_id_working])
    fix r
    have pend: "working X nd F [r] (map tx_id rows) s"
      if "working X nd F [] (tx_id row # map tx_id rows) s \<and> r \<in> set (evm_table s) \<and> tx_id r = tx_id row" for s
    proof -
      from that obtain q where q: "q \<in> set (evm_table s)" "tx_id q = tx_id row" "tx_status q = EvmQueued"
        by (auto simp: working_def)
      with that have "q = r"
        using evm_inv_unique [of "evm_table s" q r] by (simp add: working_def batcher_ok_def)
      with that q show ?thesis by (auto simp: working_def)
    qed
    have "hoare (working X nd F [r] (map tx_id rows)) (settle nd r None)
        (\<lambda>_. working X nd F [] (map tx_id rows)) (batcher_ok X nd F)"
      by (rule hoare_post [OF settle_working]) (auto dest: working_drop split: if_splits)
    then show "hoare (\<lambda>s. working X nd F [] (tx_id row # map tx_id rows) s \<and> r \<in> set (evm_table s) \<and> tx_id r = tx_id row)
       (seqA (settle nd r None) (settle_sent nd rows)) (\<lambda>_. batcher_ok X nd F) (batcher_ok X nd F)"
      by (intro hoare_seqA [OF _ Cons.IH]) (rule hoare_pre, assumption, rule pend)
  qed
qed

lemma batch_rows_working:
  assumes "batcher_ok X nd F s"
  shows "working X nd F (batch_rows nd (evm_table s)) [] s"
proof -
  let ?q = "filter (\<lambda>r. tx_chain r = nd_chain nd \<and> tx_address r = lower (nd_address nd)
                       \<and> tx_status r = EvmQueued) (evm_table s)"
  have "distinct (map tx_id (evm_table s))" using assms by (simp add: batcher_ok_def evm_inv_def)
  then have "distinct (map tx_id ?q)" by (rule distinct_map_filter)
  then have d: "distinct (map tx_id (sort_key tx_id ?q))" by (simp add: distinct_map)
  have "distinct (map tx_id (batch_rows nd (evm_table s)))"
    using d by (auto simp: batch_rows_def sql_limit_def take_map [symmetric])
  moreover have "r \<in> set (evm_table s) \<and> tx_status r = EvmQueued" if "r \<in> set (batch_rows nd (evm_table s))" for r
    using that set_sql_limit [of "batch_size nd" "sort_key tx_id ?q"] by (auto simp: batch_rows_def)
  ultimately show ?thesis using assms by (simp add: working_def)
qed

lemma finish_batch_keeps:
  "hoare ((\<lambda>(sent', _). working X nd F [] (map tx_id sent')) sl) (finish_batch nd p sl)
     (\<lambda>_. batcher_ok X nd F) (batcher_ok X nd F)"
proof -
  obtain sent h where sl: "sl = (sent, h)" by (cases sl)
  have "hoare (working X nd F [] (map tx_id sent)) (await_receipt nd x)
      (\<lambda>_. working X nd F [] (map tx_id sent)) (batcher_ok X nd F)" for x
    by (intro keeps_rule wp)
  moreover have "hoare (working X nd F [] (map tx_id sent)) (seqA (settle_sent nd sent) (ret b))
     (\<lambda>_. batcher_ok X nd F) (batcher_ok X nd F)" for b :: bool
    by (rule hoare_seqA [OF settle_sent_working]) (rule hoare_ret)
  ultimately have wait: "hoare (working X nd F [] (map tx_id sent))
     (seqA (await_receipt nd x) (seqA (settle_sent nd sent) (ret b))) (\<lambda>_. batcher_ok X nd F) (batcher_ok X nd F)"
    for x and b :: bool
    by (rule hoare_seqA)
  have "hoare (working X nd F [] (map tx_id sent)) (ret b) (\<lambda>_. batcher_ok X nd F) (batcher_ok X nd F)" for b :: bool
    by (rule hoare_pre [OF hoare_ret]) (rule working_batcher)
  with wait show ?thesis
    unfolding sl finish_batch_def prod.case by (cases h) (simp_all only: option.case)
qed

lemma run_batch_keeps: "keeps (batcher_ok X nd F) (run_batch nd)"
proof -
  have get: "hoare P (getA f) (\<lambda>_. P) E" for P E and f :: "bst \<Rightarrow> nat"
    by (simp add: hoare_def getA_def)
  have call: "hoare (working X nd F pend []) (call_node nd f) (\<lambda>_. working X nd F pend []) (batcher_ok X nd F)"
    for pend and f :: "nat \<Rightarrow> exc + 'z"
    by (intro keeps_rule wp)
  have rows: "hoare (batcher_ok X nd F) (getA (\<lambda>s. batch_rows nd (evm_table s)))
     (\<lambda>rows. working X nd F rows []) (batcher_ok X nd F)"
    by (simp add: hoare_def getA_def batch_rows_working)
  have none: "hoare (working X nd F rows []) (ret b) (\<lambda>_. batcher_ok X nd F) (batcher_ok X nd F)"
    for rows and b :: bool
    by (rule hoare_pre [OF hoare_ret]) (rule working_batcher)
  have triage: "hoare (working X nd F rows []) (triage nd used rows [] False)
     (\<lambda>r. case r of Inl _ \<Rightarrow> batcher_ok X nd F | Inr (u, _) \<Rightarrow> working X nd F u []) (batcher_ok X nd F)" for rows used
    using triage_working [of F rows "[]" used False] by simp
  have send: "hoare (working X nd F u []) (bindA (send_rows nd f u nonce [] None False) (finish_batch nd p))
     (\<lambda>_. batcher_ok X nd F) (batcher_ok X nd F)" for u f nonce p
    using hoare_bindA [OF send_rows_working [of F u "[]"] finish_batch_keeps] by simp
  show ?thesis
    unfolding keeps_hoare run_batch_def
    by (auto intro!: hoare_bindA [OF rows] hoare_if none hoare_bindA [OF call] hoare_bindA [OF get]
        hoare_bindA [OF triage] send hoare_ret split: sum.split)
qed

lemma run_keeps:
  assumes "\<And>hook. before = Some hook \<Longrightarrow> keeps (batcher_ok X nd F) hook" and "batcher_ok X nd F s"
  shows "batcher_ok X nd F (run nd before n s)"
proof -
  have round: "keeps (batcher_ok X nd F) (run_round nd before)"
    unfolding run_round_def using assms(1) by (auto intro!: wp run_batch_keeps split: option.split)
  show ?thesis
    using assms(2)
  proof (induction n arbitrary: s)
    case (Suc n)
    have r: "batcher_ok X nd F (snd (run_round nd before s))"
      using keepsD [OF round Suc.prems] .
    obtain x s' where x: "run_round nd before s = (x, s')" by (cases "run_round nd before s")
    with r have "batcher_ok X nd F s'" "batcher_ok X nd F (pass nd s')" by (simp_all add: batcher_ok_pass)
    then show ?case
      using Suc x by (auto split: sum.split bool.split)
  qed simp
qed

end

end
