(* ===== verification/PrivanaLanes.thy ===== *)
theory PrivanaLanes
  imports EvmBatcher
begin

text \<open>
  The lanes of Privana writes (\<open>clients/privana_lanes.py\<close>). A transfer lane runs at the start of
  its account's Sapphire rounds, in the sender's thread: it is an action on the sender's state
  \<open>bst\<close>, with the accounting contract, the account's key and web3's encoder in the record
  \<open>lane_env\<close>. The withdraw lane runs on the event loop with a state of its own, \<open>wst\<close>: the rows
  and the requests it sent, while the transfer lanes and the event loop write the same table.
\<close>

section \<open>Transfer lanes\<close>

record lane_env =
  le_nonce :: "nat \<Rightarrow> exc + nat"
  le_keys :: "string set"
  le_sign :: "lane_payload \<Rightarrow> nat \<Rightarrow> string"
  le_encode :: "lane_kind \<Rightarrow> lane_payload \<Rightarrow> nat \<Rightarrow> string \<Rightarrow> string"
  le_accounting :: string
  le_swap_manager :: string

definition GAS_REFUSAL_PAUSE :: int where
  "GAS_REFUSAL_PAUSE = 60"

definition FOREIGN_SPEND :: string where
  "FOREIGN_SPEND = ''nonce spent elsewhere; manual recovery required''"

definition SAPPHIRE_BATCH_SIZE :: int where
  "SAPPHIRE_BATCH_SIZE = 1"

definition gas_limit :: "lane_kind \<Rightarrow> exc + int" where
  "gas_limit k = (case k of KindTransfer \<Rightarrow> Inr 500000 | KindSwap \<Rightarrow> Inr 1000000 | KindWithdraw \<Rightarrow> Inl KeyError)"

abbreviation lane_table :: "bst \<Rightarrow> lane_row list" where
  "lane_table s \<equiv> db_lanes (bs_db s)"

definition set_lanes :: "(lane_row list \<Rightarrow> lane_row list) \<Rightarrow> bst \<Rightarrow> bst" where
  "set_lanes f s = s\<lparr>bs_db := (bs_db s)\<lparr>db_lanes := f (db_lanes (bs_db s))\<rparr>\<rparr>"

text \<open>\<open>lane_evm_owner\<close>: the transaction of a row's latest signing.\<close>

definition lane_owner_name :: "nat \<Rightarrow> nat \<Rightarrow> string" where
  "lane_owner_name i k = ''privana:'' @ show_nat i @ CHR '':'' # show_nat k"

definition lane_evm_owner :: "lane_row \<Rightarrow> string" where
  "lane_evm_owner row = lane_owner_name (ln_id row) (ln_attempts row)"

text \<open>\<open>_lane_rows\<close>: \<open>NULL\<close> nonces, which a sent row never has, sort first.\<close>

definition nonce_key :: "lane_row \<Rightarrow> nat" where
  "nonce_key r = (case ln_nonce r of None \<Rightarrow> 0 | Some n \<Rightarrow> Suc n)"

definition lane_rows :: "string \<Rightarrow> lane_status \<Rightarrow> int \<Rightarrow> lane_row list \<Rightarrow> lane_row list" where
  "lane_rows signer status limit t =
     sql_limit limit
       (sort_key (if status = LaneSent then nonce_key else ln_id)
         (filter (\<lambda>r. ln_signer r = signer \<and> on_transfer_lane r \<and> ln_status r = status) t))"

text \<open>\<open>_next_after_landed\<close>, on the lane of withdrawals or of the other kinds.\<close>

definition next_after_landed :: "string \<Rightarrow> bool \<Rightarrow> lane_row list \<Rightarrow> nat" where
  "next_after_landed signer withdrawals t =
     fold (\<lambda>r n. case ln_nonce r of None \<Rightarrow> n | Some k \<Rightarrow> max n (Suc k))
       (filter (\<lambda>r. ln_signer r = signer \<and> ln_status r = LaneLanded
                     \<and> (ln_kind r = KindWithdraw \<longleftrightarrow> withdrawals)) t) 0"

text \<open>\<open>_finish\<close>\<close>

definition finish_rows :: "lane_row \<Rightarrow> lane_status \<Rightarrow> string option \<Rightarrow> int \<Rightarrow> lane_row list \<Rightarrow> lane_row list" where
  "finish_rows row status error now t =
     update_where (\<lambda>r. ln_id r = ln_id row)
       (\<lambda>r. r\<lparr>ln_status := status, ln_error := error, ln_updated := now\<rparr>) t"

definition finish_lane :: "node \<Rightarrow> lane_row \<Rightarrow> lane_status \<Rightarrow> string option \<Rightarrow> unit bact" where
  "finish_lane nd row status error =
     bindA (wall nd) (\<lambda>now. modifyA (set_lanes (finish_rows row status error now)))"

definition lane_outcome :: "evm_tx \<Rightarrow> string" where
  "lane_outcome tx =
     (case tx_error tx of
        Some e \<Rightarrow> if e = [] then ''reverted as '' @ (case tx_hash tx of None \<Rightarrow> ''None'' | Some h \<Rightarrow> h) else e
      | None \<Rightarrow> ''reverted as '' @ (case tx_hash tx of None \<Rightarrow> ''None'' | Some h \<Rightarrow> h))"

definition requeue_row :: "node \<Rightarrow> lane_row \<Rightarrow> string \<Rightarrow> unit bact" where
  "requeue_row nd row error =
     bindA (wall nd) (\<lambda>now. modifyA (set_lanes (update_where (\<lambda>r. ln_id r = ln_id row)
       (\<lambda>r. r\<lparr>ln_status := LaneQueued, ln_nonce := None, ln_signature := None,
              ln_error := Some error, ln_updated := now\<rparr>))))"

text \<open>\<open>_settle\<close>; comparing a nonce that is \<open>None\<close> raises.\<close>

definition settle_lane :: "node \<Rightarrow> lane_row \<Rightarrow> nat \<Rightarrow> bool bact" where
  "settle_lane nd row counter =
     bindA (getA (\<lambda>s. find_evm_tx (lane_evm_owner row) (evm_table s))) (\<lambda>found.
       case (found, ln_nonce row) of
         (None, _) \<Rightarrow> throw TypeError
       | (Some tx, nonce) \<Rightarrow>
           if tx_status tx = EvmQueued then ret False
           else case nonce of
             None \<Rightarrow> throw TypeError
           | Some n \<Rightarrow>
               if tx_status tx = EvmMined
               then if counter \<le> n then ret False
                 else seqA (finish_lane nd row LaneLanded None) (ret True)
               else if counter > n
               then seqA (finish_lane nd row LaneFailed (Some FOREIGN_SPEND)) (ret True)
               else if tx_simulate tx \<and> n = counter \<and> \<not> some_phrase GAS_REFUSED (lane_outcome tx)
               then seqA (finish_lane nd row LaneFailed (Some (lane_outcome tx))) (ret True)
               else seqA (requeue_row nd row (lane_outcome tx)) (ret True))"

fun settle_lanes :: "node \<Rightarrow> lane_row list \<Rightarrow> nat \<Rightarrow> bool \<Rightarrow> bool bact" where
  "settle_lanes nd [] counter progressed = ret progressed"
| "settle_lanes nd (row # rows) counter progressed =
     bindA (settle_lane nd row counter) (\<lambda>b. settle_lanes nd rows counter (b \<or> progressed))"

text \<open>\<open>_call\<close>: the contract and calldata of a row signed at \<open>nonce\<close>.\<close>

definition lane_call :: "lane_env \<Rightarrow> lane_kind \<Rightarrow> lane_payload \<Rightarrow> nat \<Rightarrow> string \<Rightarrow> exc + string \<times> string" where
  "lane_call le kind payload nonce signature =
     (if p_to payload = None then Inl KeyError
      else if kind = KindTransfer
      then Inr (le_accounting le, le_encode le kind payload nonce signature)
      else if p_input payload = None then Inl KeyError
      else Inr (le_swap_manager le, le_encode le kind payload nonce signature))"

text \<open>The transaction of \<open>_sign\<close>: all the rows or, when one raises, none.\<close>

definition insert_evm_strict :: "int \<Rightarrow> string \<Rightarrow> int \<Rightarrow> tx_intent \<Rightarrow> evm_tx list \<Rightarrow> exc + evm_tx list" where
  "insert_evm_strict chain_id address now i t =
     (if find_evm_tx (in_owner i) t = None then Inr (t @ [evm_row chain_id address now i t])
      else Inl (NodeError ''UNIQUE constraint failed: evm_transactions.owner''))"

definition sent_row :: "lane_row \<Rightarrow> nat \<Rightarrow> string \<Rightarrow> int \<Rightarrow> lane_row \<Rightarrow> lane_row" where
  "sent_row row nonce signature now r =
     r\<lparr>ln_status := LaneSent, ln_nonce := Some nonce, ln_signature := Some signature,
       ln_attempts := Suc (ln_attempts row), ln_updated := now\<rparr>"

fun sign_rows :: "lane_env \<Rightarrow> node \<Rightarrow> int \<Rightarrow> nat \<Rightarrow> lane_row list \<Rightarrow> nat \<Rightarrow> db \<Rightarrow> exc + db \<times> nat" where
  "sign_rows le nd now counter [] signed d = Inr (d, signed)"
| "sign_rows le nd now counter (row # rows) signed d =
     (let nonce = counter + signed; payload = ln_payload row;
          signature = le_sign le payload nonce;
          mine = (\<lambda>r. ln_id r = ln_id row \<and> ln_status r = LaneQueued) in
      bindE (lane_call le (ln_kind row) payload nonce signature) (\<lambda>(to, data).
      if row_count mine (db_lanes d) = 0 then sign_rows le nd now counter rows signed d
      else
        bindE (gas_limit (ln_kind row)) (\<lambda>gas.
        bindE (insert_evm_strict (nd_chain nd) (lower (nd_address nd)) now
                 \<lparr>in_owner = lane_owner_name (ln_id row) (Suc (ln_attempts row)), in_to = to, in_gas = gas,
                  in_data = data, in_value = 0, in_simulate = (signed = 0)\<rparr> (db_evm d)) (\<lambda>evm.
          sign_rows le nd now counter rows (Suc signed)
            (d\<lparr>db_lanes := update_where mine (sent_row row nonce signature now) (db_lanes d),
               db_evm := evm\<rparr>)))))"

definition sign_lane :: "lane_env \<Rightarrow> node \<Rightarrow> string \<Rightarrow> nat \<Rightarrow> bool bact" where
  "sign_lane le nd signer counter =
     bindA (wall nd) (\<lambda>now.
       bindA (getA bs_db) (\<lambda>d.
         bindA (liftE (sign_rows le nd now counter
                 (lane_rows signer LaneQueued SAPPHIRE_BATCH_SIZE (db_lanes d)) 0 d)) (\<lambda>(d', signed).
           seqA (modifyA (\<lambda>s. s\<lparr>bs_db := d'\<rparr>)) (ret (signed \<noteq> 0)))))"

text \<open>\<open>_run_lane\<close>\<close>

definition run_lane :: "lane_env \<Rightarrow> node \<Rightarrow> string \<Rightarrow> bool \<Rightarrow> bool bact" where
  "run_lane le nd signer gas_refused =
     bindA (call_node nd (le_nonce le)) (\<lambda>read.
       bindA (getA (\<lambda>s. max read (next_after_landed signer False (lane_table s)))) (\<lambda>counter.
         bindA (getA (\<lambda>s. lane_rows signer LaneSent (-1) (lane_table s))) (\<lambda>rows.
           bindA (settle_lanes nd rows counter False) (\<lambda>progressed.
             bindA (getA (\<lambda>s. lane_rows signer LaneSent (-1) (lane_table s) \<noteq> []
                        \<or> lane_rows signer LaneQueued 1 (lane_table s) = [])) (\<lambda>busy.
               if busy then ret progressed
               else if gas_refused then ret progressed
               else if signer \<notin> le_keys le then throw KeyError
               else bindA (sign_lane le nd signer counter) (\<lambda>b. ret (b \<or> progressed)))))))"

text \<open>Whether the sender was refused for gas less than a minute ago: \<open>instr\<close> is case-sensitive.\<close>

definition gas_refused_lately :: "node \<Rightarrow> int \<Rightarrow> evm_tx list \<Rightarrow> bool" where
  "gas_refused_lately nd now t =
     list_ex (\<lambda>r. tx_chain r = nd_chain nd \<and> tx_address r = lower (nd_address nd) \<and> tx_status r = EvmFailed
        \<and> some_phrase GAS_REFUSED (case tx_error r of None \<Rightarrow> [] | Some e \<Rightarrow> e)
        \<and> now - GAS_REFUSAL_PAUSE < tx_updated r) t"

definition run_transfer_lanes :: "lane_env \<Rightarrow> node \<Rightarrow> bool bact" where
  "run_transfer_lanes le nd =
     (let sender = lower (nd_address nd) in
      bindA (getA (\<lambda>s. list_ex (\<lambda>r. ln_signer r = sender \<and> on_transfer_lane r \<and> lane_unsettled r) (lane_table s)))
        (\<lambda>pending.
          if \<not> pending then ret False
          else bindA (wall nd) (\<lambda>now.
            bindA (getA (\<lambda>s. gas_refused_lately nd now (evm_table s))) (\<lambda>gas_refused.
              catchA (run_lane le nd sender gas_refused) (\<lambda>_. ret False)))))"

section \<open>The withdraw lane\<close>

text \<open>What the Privana API answers to one request, with the status codes the lane tells apart.\<close>

datatype withdraw_reply =
    NoReply
  | ApiError int string
  | Accepted
  | Declined string

record wnode =
  wn_signer :: string
  wn_nonce :: "nat \<Rightarrow> exc + nat"
  wn_sign :: "lane_payload \<Rightarrow> nat \<Rightarrow> string"
  wn_reply :: "nat \<Rightarrow> withdraw_reply"
  wn_time :: "nat \<Rightarrow> int"
  wn_outer :: "nat \<Rightarrow> outer_op list"
  wn_transfers :: "nat \<Rightarrow> lane_row \<Rightarrow> lane_row"

record wst =
  ws_db :: db
  ws_tick :: nat
  ws_sends :: "(nat \<times> nat \<times> string) list"

type_synonym 'a wact = "(wst, exc, 'a) act"

abbreviation withdrawals :: "wst \<Rightarrow> lane_row list" where
  "withdrawals s \<equiv> db_lanes (ws_db s)"

definition set_withdrawals :: "(lane_row list \<Rightarrow> lane_row list) \<Rightarrow> wst \<Rightarrow> wst" where
  "set_withdrawals f s = s\<lparr>ws_db := (ws_db s)\<lparr>db_lanes := f (db_lanes (ws_db s))\<rparr>\<rparr>"

definition wpass :: "wnode \<Rightarrow> wst \<Rightarrow> wst" where
  "wpass wn s =
     s\<lparr>ws_tick := Suc (ws_tick s),
       ws_db := other_lane on_transfer_lane (wn_transfers wn (ws_tick s))
                  (outer_steps (wn_outer wn (ws_tick s)) (ws_db s))\<rparr>"

definition await_node :: "wnode \<Rightarrow> (nat \<Rightarrow> exc + 'a) \<Rightarrow> 'a wact" where
  "await_node wn f = (\<lambda>s. (f (ws_tick s), wpass wn s))"

definition wwall :: "wnode \<Rightarrow> int wact" where
  "wwall wn = getA (\<lambda>s. wn_time wn (ws_tick s))"

definition WITHDRAW_RESEND :: int where
  "WITHDRAW_RESEND = 120"

definition WITHDRAW_MAX_SENDS :: nat where
  "WITHDRAW_MAX_SENDS = 15"

definition WITHDRAW_GIVEN_UP :: string where
  "WITHDRAW_GIVEN_UP = ''not landed after its last send; manual recovery required''"

definition API_CONFLICT :: int where
  "API_CONFLICT = 409"

text \<open>The row of a round: a sent one first, then the oldest queued one.\<close>

definition withdraw_row :: "string \<Rightarrow> lane_row list \<Rightarrow> lane_row option" where
  "withdraw_row signer t =
     (case sort_key (\<lambda>r. if ln_status r = LaneSent then 0 else 1::nat)
             (sort_key ln_id
               (filter (\<lambda>r. ln_signer r = signer \<and> ln_kind r = KindWithdraw \<and> lane_unsettled r) t)) of
        [] \<Rightarrow> None
      | r # _ \<Rightarrow> Some r)"

definition wcounter :: "wnode \<Rightarrow> nat wact" where
  "wcounter wn =
     bindA (await_node wn (wn_nonce wn)) (\<lambda>read.
       getA (\<lambda>s. max read (next_after_landed (wn_signer wn) True (withdrawals s))))"

definition wfinish :: "wnode \<Rightarrow> lane_row \<Rightarrow> lane_status \<Rightarrow> string option \<Rightarrow> unit wact" where
  "wfinish wn row status error =
     bindA (wwall wn) (\<lambda>now. modifyA (set_withdrawals (finish_rows row status error now)))"

text \<open>\<open>_sign\<close>: \<open>None\<close> when the row was cancelled since the round read it.\<close>

definition wsign :: "wnode \<Rightarrow> lane_row \<Rightarrow> nat \<Rightarrow> lane_row option wact" where
  "wsign wn row nonce =
     (let signature = wn_sign wn (ln_payload row) nonce;
          mine = (\<lambda>r. ln_id r = ln_id row \<and> ln_status r = LaneQueued) in
      bindA (wwall wn) (\<lambda>now.
        bindA (getA (\<lambda>s. row_count mine (withdrawals s))) (\<lambda>n.
          seqA (modifyA (set_withdrawals (update_where mine
                 (\<lambda>r. r\<lparr>ln_status := LaneSent, ln_nonce := Some nonce, ln_signature := Some signature,
                        ln_attempts := Suc (ln_attempts r), ln_updated := now\<rparr>))))
            (ret (if n = 0 then None
               else Some (row\<lparr>ln_status := LaneSent, ln_nonce := Some nonce, ln_signature := Some signature,
                              ln_attempts := Suc (ln_attempts row)\<rparr>))))))"

text \<open>\<open>_send\<close>: what the reply means for the row, and its refusal if it is one.\<close>

definition refusal_of :: "withdraw_reply \<Rightarrow> string option" where
  "refusal_of reply =
     (case reply of
        NoReply \<Rightarrow> None
      | ApiError code m \<Rightarrow>
          if 500 \<le> code \<or> code = API_CONFLICT then None else Some (''refused: '' @ m)
      | Accepted \<Rightarrow> None
      | Declined m \<Rightarrow> Some (''refused as '' @ m))"

definition wsend :: "wnode \<Rightarrow> lane_row \<Rightarrow> unit wact" where
  "wsend wn row =
     (case (ln_nonce row, ln_signature row) of
        (Some nonce, Some signature) \<Rightarrow>
          seqA (modifyA (\<lambda>s. s\<lparr>ws_sends := (ln_id row, nonce, signature) # ws_sends s\<rparr>))
            (bindA (await_node wn (\<lambda>t. Inr (wn_reply wn t))) (\<lambda>reply.
              case refusal_of reply of
                None \<Rightarrow> ret ()
              | Some refusal \<Rightarrow>
                  bindA (wcounter wn) (\<lambda>counter.
                    if nonce < counter then wfinish wn row LaneLanded None
                    else if 1 < ln_attempts row then ret ()
                    else modifyA (set_withdrawals (update_where (\<lambda>r. ln_id r = ln_id row)
                           (\<lambda>r. r\<lparr>ln_error := Some refusal\<rparr>))))))
      | _ \<Rightarrow> throw TypeError)"

definition has_error :: "lane_row \<Rightarrow> bool" where
  "has_error r \<longleftrightarrow> (case ln_error r of None \<Rightarrow> False | Some e \<Rightarrow> e \<noteq> [])"

text \<open>\<open>WithdrawLane.run_round\<close> on a sent row whose request was not seen to land.\<close>

definition wresend :: "wnode \<Rightarrow> lane_row \<Rightarrow> unit wact" where
  "wresend wn row =
     bindA (wwall wn) (\<lambda>now.
       if now - ln_updated row < WITHDRAW_RESEND then ret ()
       else if has_error row \<and> ln_attempts row = 1 then wfinish wn row LaneFailed (ln_error row)
       else if WITHDRAW_MAX_SENDS \<le> ln_attempts row
       then modifyA (set_withdrawals (update_where (\<lambda>r. ln_id r = ln_id row)
              (\<lambda>r. r\<lparr>ln_error := Some WITHDRAW_GIVEN_UP, ln_updated := now\<rparr>)))
       else seqA (modifyA (set_withdrawals (update_where (\<lambda>r. ln_id r = ln_id row)
              (\<lambda>r. r\<lparr>ln_attempts := Suc (ln_attempts r), ln_updated := now\<rparr>))))
            (wsend wn (row\<lparr>ln_attempts := Suc (ln_attempts row)\<rparr>)))"

definition withdraw_round :: "wnode \<Rightarrow> unit wact" where
  "withdraw_round wn =
     bindA (getA (\<lambda>s. withdraw_row (wn_signer wn) (withdrawals s))) (\<lambda>found.
       case found of
         None \<Rightarrow> ret ()
       | Some row \<Rightarrow>
           bindA (wcounter wn) (\<lambda>counter.
             if ln_status row = LaneQueued
             then bindA (wsign wn row counter) (\<lambda>signed.
               case signed of None \<Rightarrow> ret () | Some row' \<Rightarrow> wsend wn row')
             else case ln_nonce row of
               None \<Rightarrow> throw TypeError
             | Some n \<Rightarrow>
                 if n < counter then wfinish wn row LaneLanded None
                 else wresend wn row))"

text \<open>\<open>WithdrawLane.run\<close> for a number of rounds: a raise ends its round only, and the lane sleeps.\<close>

fun withdraw_rounds :: "wnode \<Rightarrow> nat \<Rightarrow> wst \<Rightarrow> wst" where
  "withdraw_rounds wn 0 s = s"
| "withdraw_rounds wn (Suc n) s = withdraw_rounds wn n (wpass wn (snd (withdraw_round wn s)))"

text \<open>\<open>lane_health\<close>: how long the oldest unsettled row of each signer has waited.\<close>

definition lane_health :: "int \<Rightarrow> lane_row list \<Rightarrow> (string \<times> int) list" where
  "lane_health now t =
     (let q = filter lane_unsettled t
      in map (\<lambda>k. (k, now - Min (set (map ln_created (filter (\<lambda>r. ln_signer r = k) q)))))
           (remdups (map ln_signer q)))"

end
