(* ===== verification/LaneInv.thy ===== *)
theory LaneInv
  imports BatcherInv PrivanaLanes
begin

text \<open>
  What the transfer lanes keep beside the sender whose rounds run them: every signing of a row has
  its own transaction, all but the last of them are dead, and a row's status agrees with its last
  one (\<open>lane_ok\<close>). \<open>lane_ok\<close> is what the locale \<open>sender\<close> asks of a neighbour of the sender, for an
  event loop that never queues a lane's own transaction again (\<open>quiet\<close>).
\<close>

section \<open>The invariant\<close>

definition lane_tx :: "db \<Rightarrow> nat \<Rightarrow> nat \<Rightarrow> evm_tx option" where
  "lane_tx d i k = find_evm_tx (lane_owner_name i k) (db_evm d)"

definition dead :: "evm_tx \<Rightarrow> bool" where
  "dead tx \<longleftrightarrow> tx_status tx = EvmFailed \<or> tx_status tx = EvmReverted"

definition dead_at :: "db \<Rightarrow> nat \<Rightarrow> nat \<Rightarrow> bool" where
  "dead_at d i k \<longleftrightarrow> (\<exists>tx. lane_tx d i k = Some tx \<and> dead tx)"

definition row_lane_ok :: "db \<Rightarrow> lane_row \<Rightarrow> bool" where
  "row_lane_ok d r \<longleftrightarrow>
     (\<forall>k. 1 \<le> k \<longrightarrow> k \<le> ln_attempts r \<longrightarrow> lane_tx d (ln_id r) k \<noteq> None)
     \<and> (\<forall>k. 1 \<le> k \<longrightarrow> k < ln_attempts r \<longrightarrow> dead_at d (ln_id r) k)
     \<and> (ln_status r = LaneQueued \<or> ln_status r = LaneFailed \<longrightarrow> 1 \<le> ln_attempts r \<longrightarrow>
          dead_at d (ln_id r) (ln_attempts r))
     \<and> (ln_status r = LaneSent \<longrightarrow> 1 \<le> ln_attempts r \<and> ln_nonce r \<noteq> None)
     \<and> (ln_status r = LaneLanded \<longrightarrow> 1 \<le> ln_attempts r \<and>
          (\<exists>tx. lane_tx d (ln_id r) (ln_attempts r) = Some tx \<and> tx_status tx = EvmMined))"

definition lane_ok :: "db \<Rightarrow> bool" where
  "lane_ok d \<longleftrightarrow>
     distinct (map ln_id (db_lanes d)) \<and> (\<forall>r\<in>set (db_lanes d). on_transfer_lane r \<longrightarrow> row_lane_ok d r)"

lemma lane_owner_name_inj: "lane_owner_name i k = lane_owner_name j m \<longleftrightarrow> i = j \<and> k = m"
  unfolding lane_owner_name_def
  using append_sep_eq [OF show_nat_no_colon show_nat_no_colon] by simp

text \<open>A transaction that left the queue stays as it is.\<close>

definition tx_kept :: "db \<Rightarrow> db \<Rightarrow> bool" where
  "tx_kept d d' \<longleftrightarrow>
     (\<forall>i k tx. lane_tx d i k = Some tx \<longrightarrow>
        (\<exists>tx'. lane_tx d' i k = Some tx' \<and> (tx_status tx \<noteq> EvmQueued \<longrightarrow> tx' = tx)))"

lemma tx_kept_refl [simp]: "tx_kept d d"
  by (simp add: tx_kept_def)

lemma tx_kept_same: "db_evm d' = db_evm d \<Longrightarrow> tx_kept d d'"
  by (simp add: tx_kept_def lane_tx_def)

lemma dead_at_kept: "tx_kept d d' \<Longrightarrow> dead_at d i k \<Longrightarrow> dead_at d' i k"
  unfolding tx_kept_def dead_at_def dead_def by (metis evm_status.distinct)

lemma row_lane_ok_kept:
  assumes kept: "tx_kept d d'" and ok: "row_lane_ok d r"
  shows "row_lane_ok d' r"
proof -
  have "lane_tx d i k \<noteq> None \<Longrightarrow> lane_tx d' i k \<noteq> None" for i k
    using kept unfolding tx_kept_def by fastforce
  moreover have "lane_tx d i k = Some tx \<Longrightarrow> tx_status tx = EvmMined \<Longrightarrow> lane_tx d' i k = Some tx" for i k tx
    using kept unfolding tx_kept_def by (metis evm_status.distinct(1))
  ultimately show ?thesis
    using ok dead_at_kept [OF kept] unfolding row_lane_ok_def by blast
qed

lemma lane_ok_kept:
  assumes "lane_ok d" and "tx_kept d d'" and "db_lanes d' = db_lanes d"
  shows "lane_ok d'"
  using assms row_lane_ok_kept [OF assms(2)] by (simp add: lane_ok_def)

section \<open>The event loop and the sender\<close>

definition lane_name :: "string \<Rightarrow> bool" where
  "lane_name x \<longleftrightarrow> prefix ''privana:'' x"

text \<open>The owners the pipelines queue again are those of swaps.\<close>

fun leaves_lanes :: "outer_op \<Rightarrow> bool" where
  "leaves_lanes (OuterRequeue now owners) = (\<forall>x\<in>set owners. \<not> lane_name x)"
| "leaves_lanes _ = True"

definition quiet :: "node \<Rightarrow> bool" where
  "quiet nd \<longleftrightarrow> (\<forall>t. \<forall>op\<in>set (nd_outer nd t). leaves_lanes op)"

lemma lane_name_owner: "lane_name (lane_owner_name i k)"
  by (simp add: lane_name_def lane_owner_name_def)

lemma tx_kept_submit: "tx_kept d (d\<lparr>db_evm := snd (submit c a now is (db_evm d))\<rparr>)"
  unfolding tx_kept_def lane_tx_def
  by (simp add: submit_eq) (metis evm_queue.insert_all_keeps)

lemma tx_kept_requeue:
  assumes "\<forall>x\<in>set owners. \<not> lane_name x"
  shows "tx_kept d (d\<lparr>db_evm := snd (requeue now owners (db_evm d))\<rparr>)"
proof -
  have "\<not> requeuable owners tx" if "lane_tx d i k = Some tx" for i k tx
  proof
    assume "requeuable owners tx"
    then have "tx_owner tx \<in> set owners" by (simp add: requeuable_def)
    moreover have "tx_owner tx = lane_owner_name i k"
      using that find_row_Some unfolding lane_tx_def find_evm_tx_def by fastforce
    ultimately show False using assms lane_name_owner by metis
  qed
  then show ?thesis
    unfolding tx_kept_def
    by (auto simp: lane_tx_def find_evm_tx_def requeue_def find_row_update_where)
qed

lemma tx_kept_row:
  assumes inv: "evm_inv (db_evm d)" and row: "row \<in> set (db_evm d)" "tx_status row = EvmQueued"
    and g: "\<And>r. tx_owner (g r) = tx_owner r"
  shows "tx_kept d (d\<lparr>db_evm := update_where (\<lambda>r. tx_id r = tx_id row) g (db_evm d)\<rparr>)"
  unfolding tx_kept_def lane_tx_def find_evm_tx_def
proof (intro allI impI)
  fix i k tx
  assume f: "find_row tx_owner (lane_owner_name i k) (db_evm d) = Some tx"
  then have "tx \<in> set (db_evm d)" using find_row_Some by metis
  then have "tx_status tx \<noteq> EvmQueued \<Longrightarrow> tx_id tx \<noteq> tx_id row"
    using evm_inv_unique [OF inv _ row(1)] row(2) by blast
  with f g show "\<exists>tx'. find_row tx_owner (lane_owner_name i k)
       (db_evm (d\<lparr>db_evm := update_where (\<lambda>r. tx_id r = tx_id row) g (db_evm d)\<rparr>)) = Some tx'
     \<and> (tx_status tx \<noteq> EvmQueued \<longrightarrow> tx' = tx)"
    by (auto simp: find_row_update_where)
qed

text \<open>A row queued, or cancelled while queued, and rows of the other kind of lane.\<close>

lemma row_lane_ok_new: "row_lane_ok d (lane_row_of signer now i t)"
  by (simp add: row_lane_ok_def lane_row_of_def)

lemma row_lane_ok_cancelled:
  "row_lane_ok d r \<Longrightarrow> ln_status r = LaneQueued \<Longrightarrow>
     row_lane_ok d (r\<lparr>ln_status := LaneFailed, ln_error := e, ln_updated := now\<rparr>)"
  by (simp add: row_lane_ok_def)

lemma row_lane_ok_evm: "db_evm d' = db_evm d \<Longrightarrow> row_lane_ok d' r = row_lane_ok d r"
  by (simp add: row_lane_ok_def dead_at_def lane_tx_def)

lemma lane_ok_update:
  assumes ok: "lane_ok d" and id: "\<And>r. ln_id (g r) = ln_id r" and kind: "\<And>r. ln_kind (g r) = ln_kind r"
    and new: "\<And>r. r \<in> set (db_lanes d) \<Longrightarrow> p r \<Longrightarrow> on_transfer_lane r \<Longrightarrow> row_lane_ok d r \<Longrightarrow> row_lane_ok d (g r)"
  shows "lane_ok (d\<lparr>db_lanes := update_where p g (db_lanes d)\<rparr>)"
proof -
  have "on_transfer_lane (g r) = on_transfer_lane r" for r by (simp add: on_transfer_lane_def kind)
  then show ?thesis
    using ok new unfolding lane_ok_def
    by (auto simp: map_update_where [of ln_id, OF id] set_update_where row_lane_ok_evm [of "d\<lparr>db_lanes := _\<rparr>" d])
qed

lemma lane_ok_insert: "lane_ok d \<Longrightarrow> lane_ok (d\<lparr>db_lanes := insert_lane signer now i (db_lanes d)\<rparr>)"
  using next_id_fresh [of ln_id "db_lanes d"] row_lane_ok_new [of d signer now i "db_lanes d"]
  by (auto simp: insert_lane_def lane_ok_def row_lane_ok_evm [of "d\<lparr>db_lanes := _\<rparr>" d] lane_row_of_def)

lemma lane_ok_inserts: "lane_ok d \<Longrightarrow> lane_ok (d\<lparr>db_lanes := fold (insert_lane signer now) is (db_lanes d)\<rparr>)"
proof (induction "is" arbitrary: d)
  case (Cons i "is")
  from Cons.IH [OF lane_ok_insert [OF Cons.prems, of signer now i]] show ?case by simp
qed simp

lemma lane_ok_step: "lane_ok d \<Longrightarrow> leaves_lanes op \<Longrightarrow> lane_ok (outer_step op d)"
proof (induction op)
  case (OuterSubmit c a now "is")
  then show ?case using lane_ok_kept [OF _ tx_kept_submit] by simp
next
  case (OuterRequeue now owners)
  then show ?case using lane_ok_kept [OF _ tx_kept_requeue] by simp
next
  case (OuterLane keys now signer "is")
  then show ?case using lane_ok_inserts by (simp add: submit_privana_def Let_def)
next
  case (OuterWithdrawal lanes now signer owner tok amount)
  then show ?case using lane_ok_insert by (simp add: submit_withdrawal_def Let_def)
next
  case (OuterCancel now owner error)
  then show ?case
    by (auto simp: cancel_queued_def Let_def intro!: lane_ok_update row_lane_ok_cancelled)
qed

lemma lane_ok_steps: "lane_ok d \<Longrightarrow> \<forall>op\<in>set ops. leaves_lanes op \<Longrightarrow> lane_ok (outer_steps ops d)"
  unfolding outer_steps_def by (induction ops arbitrary: d) (auto intro: lane_ok_step)

lemma lane_ok_other: "lane_ok d \<Longrightarrow> lane_ok (other_lane (Not \<circ> on_transfer_lane) f d)"
  unfolding other_lane_def rewrite_rows_def by (rule lane_ok_update) auto

lemma lane_ids_step: "distinct (map ln_id (db_lanes d)) \<Longrightarrow> distinct (map ln_id (db_lanes (outer_step op d)))"
proof -
  have insert: "distinct (map ln_id t) \<Longrightarrow> distinct (map ln_id (insert_lane signer now i t))" for signer now i t
    using next_id_fresh [of ln_id t] by (auto simp: insert_lane_def lane_row_of_def)
  then have "distinct (map ln_id t) \<Longrightarrow> distinct (map ln_id (fold (insert_lane signer now) is t))" for signer now "is" t
    by (induction "is" arbitrary: t) auto
  with insert show "distinct (map ln_id (db_lanes d)) \<Longrightarrow> distinct (map ln_id (db_lanes (outer_step op d)))"
    by (cases op)
      (auto simp: submit_privana_def submit_withdrawal_def cancel_queued_def map_update_where Let_def)
qed

lemma lane_ids_pass: "distinct (map ln_id (lane_table s)) \<Longrightarrow> distinct (map ln_id (lane_table (pass nd s)))"
proof -
  have "distinct (map ln_id (db_lanes d)) \<Longrightarrow> distinct (map ln_id (db_lanes (outer_steps ops d)))" for ops d
    unfolding outer_steps_def by (induction ops arbitrary: d) (auto intro: lane_ids_step)
  then show "distinct (map ln_id (lane_table s)) \<Longrightarrow> distinct (map ln_id (lane_table (pass nd s)))"
    by (simp add: pass_def other_lane_def rewrite_rows_def map_update_where)
qed

text \<open>\<open>lane_ok\<close> for a quiet event loop; one row per id for any.\<close>

definition neighbour :: "node \<Rightarrow> db \<Rightarrow> bool" where
  "neighbour nd d \<longleftrightarrow> distinct (map ln_id (db_lanes d)) \<and> (quiet nd \<longrightarrow> lane_ok d)"

interpretation sapphire: sender nd "neighbour nd" for nd
proof
  fix s :: bst
  assume "neighbour nd (bs_db s)"
  then have "distinct (map ln_id (lane_table (pass nd s)))" and q: "quiet nd \<Longrightarrow> lane_ok (bs_db s)"
    by (simp_all add: neighbour_def lane_ids_pass)
  moreover have "quiet nd \<Longrightarrow> lane_ok (bs_db (pass nd s))"
    using q by (auto simp: pass_def quiet_def intro!: lane_ok_other lane_ok_steps)
  ultimately show "neighbour nd (bs_db (pass nd s))" by (simp add: neighbour_def)
next
  fix d row and g :: "evm_tx \<Rightarrow> evm_tx"
  assume "evm_inv (db_evm d)" and "neighbour nd d" and "row \<in> set (db_evm d)"
    and "tx_status row = EvmQueued" and "\<And>r. tx_owner (g r) = tx_owner r"
  then show "neighbour nd (d\<lparr>db_evm := update_where (\<lambda>r. tx_id r = tx_id row) g (db_evm d)\<rparr>)"
    using tx_kept_row [of d row g] lane_ok_kept by (auto simp: neighbour_def)
qed

section \<open>The lane's own steps\<close>

abbreviation sapphire_ok :: "node \<Rightarrow> evm_tx set \<Rightarrow> bst \<Rightarrow> bool" where
  "sapphire_ok nd \<equiv> batcher_ok (neighbour nd) nd"

text \<open>The sent rows the lane still has to settle, as it read them.\<close>

definition settling :: "node \<Rightarrow> evm_tx set \<Rightarrow> lane_row list \<Rightarrow> bst \<Rightarrow> bool" where
  "settling nd F rows s \<longleftrightarrow>
     sapphire_ok nd F s \<and> distinct (map ln_id rows)
     \<and> (\<forall>r\<in>set rows. r \<in> set (lane_table s) \<and> on_transfer_lane r \<and> ln_status r = LaneSent)"

lemma sapphire_ok_lanes:
  "sapphire_ok nd F s \<Longrightarrow> neighbour nd ((bs_db s)\<lparr>db_lanes := f (lane_table s)\<rparr>) \<Longrightarrow> sapphire_ok nd F (set_lanes f s)"
  by (rule sapphire.batcher_ok_outer [of nd F s]) (auto simp: set_lanes_def)

lemma settling_update:
  assumes s: "settling nd F (row # rows) s"
    and id: "\<And>r. ln_id (g r) = ln_id r" and kind: "\<And>r. ln_kind (g r) = ln_kind r"
    and ok: "row_lane_ok (bs_db s) row \<Longrightarrow> row_lane_ok (bs_db s) (g row)"
  shows "settling nd F rows (set_lanes (update_where (\<lambda>r. ln_id r = ln_id row) g) s)"
proof -
  have unique: "distinct (map ln_id (lane_table s))"
    using s by (simp add: settling_def batcher_ok_def neighbour_def)
  then have sel: "r \<in> set (lane_table s) \<Longrightarrow> ln_id r = ln_id row \<longleftrightarrow> r = row" for r
    using s by (auto simp: settling_def distinct_map inj_on_def)
  have "sapphire_ok nd F (set_lanes (update_where (\<lambda>r. ln_id r = ln_id row) g) s)"
  proof (rule sapphire_ok_lanes)
    show "sapphire_ok nd F s" using s by (simp add: settling_def)
    have "lane_ok ((bs_db s)\<lparr>db_lanes := update_where (\<lambda>r. ln_id r = ln_id row) g (lane_table s)\<rparr>)"
      if "lane_ok (bs_db s)"
      using that id kind ok sel by (intro lane_ok_update) auto
    then show "neighbour nd ((bs_db s)\<lparr>db_lanes := update_where (\<lambda>r. ln_id r = ln_id row) g (lane_table s)\<rparr>)"
      using s unique by (simp add: settling_def batcher_ok_def neighbour_def map_update_where id)
  qed
  moreover have "r \<in> set (update_where (\<lambda>r. ln_id r = ln_id row) g (lane_table s))"
    if "r \<in> set rows" for r
  proof -
    have "r \<in> set (lane_table s)" "ln_id r \<noteq> ln_id row"
      using s that by (auto simp: settling_def dest: image_eqI [of "ln_id row" ln_id, OF sym])
    then show ?thesis unfolding set_update_where by force
  qed
  ultimately show ?thesis
    using s by (auto simp: settling_def set_lanes_def)
qed

lemma row_lane_ok_settled:
  assumes "row_lane_ok d row" and "lane_tx d (ln_id row) (ln_attempts row) = Some tx" and "ln_status row = LaneSent"
  shows "tx_status tx = EvmMined \<Longrightarrow>
      row_lane_ok d (row\<lparr>ln_status := LaneLanded, ln_error := e, ln_updated := now\<rparr>)"
    and "dead tx \<Longrightarrow> row_lane_ok d (row\<lparr>ln_status := LaneFailed, ln_error := e, ln_updated := now\<rparr>)"
    and "dead tx \<Longrightarrow> row_lane_ok d (row\<lparr>ln_status := LaneQueued, ln_nonce := None, ln_signature := None,
           ln_error := e, ln_updated := now\<rparr>)"
  using assms by (auto simp: row_lane_ok_def dead_at_def)

lemma settle_lane_keeps:
  "hoare (settling nd F (row # rows)) (settle_lane nd row counter) (\<lambda>_. settling nd F rows) (settling nd F [])"
proof -
  have drop: "settling nd F (row # rows) s \<Longrightarrow> settling nd F rows s \<and> settling nd F [] s" for s
    by (simp add: settling_def)
  have tx: "lane_tx (bs_db s) (ln_id row) (ln_attempts row) = Some tx \<and> ln_status row = LaneSent"
    if "settling nd F (row # rows) s" "find_evm_tx (lane_evm_owner row) (evm_table s) = Some tx" for s tx
    using that by (simp add: settling_def lane_tx_def lane_evm_owner_def)
  have landed: "hoare (\<lambda>s. settling nd F (row # rows) s \<and> find_evm_tx (lane_evm_owner row) (evm_table s) = Some tx)
      (seqA (finish_lane nd row LaneLanded e) (ret True)) (\<lambda>_. settling nd F rows) (settling nd F [])"
    if mined: "tx_status tx = EvmMined" for tx e
  proof -
    have "settling nd F rows (set_lanes (finish_rows row LaneLanded e now) s)"
      if s: "settling nd F (row # rows) s" and f: "find_evm_tx (lane_evm_owner row) (evm_table s) = Some tx" for s now
      unfolding finish_rows_def
      by (rule settling_update [OF s]) (use row_lane_ok_settled(1) [OF _ _ _ mined] tx [OF s f] in auto)
    then show ?thesis
      by (simp add: hoare_def seqA_def bindA_def wall_def getA_def modifyA_def ret_def finish_lane_def)
  qed
  have failed: "hoare (\<lambda>s. settling nd F (row # rows) s \<and> find_evm_tx (lane_evm_owner row) (evm_table s) = Some tx)
      (seqA (finish_lane nd row LaneFailed e) (ret True)) (\<lambda>_. settling nd F rows) (settling nd F [])"
    if dead: "dead tx" for tx e
  proof -
    have "settling nd F rows (set_lanes (finish_rows row LaneFailed e now) s)"
      if s: "settling nd F (row # rows) s" and f: "find_evm_tx (lane_evm_owner row) (evm_table s) = Some tx" for s now
      unfolding finish_rows_def
      by (rule settling_update [OF s]) (use row_lane_ok_settled(2) [OF _ _ _ dead] tx [OF s f] in auto)
    then show ?thesis
      by (simp add: hoare_def seqA_def bindA_def wall_def getA_def modifyA_def ret_def finish_lane_def)
  qed
  have again: "hoare (\<lambda>s. settling nd F (row # rows) s \<and> find_evm_tx (lane_evm_owner row) (evm_table s) = Some tx)
      (seqA (requeue_row nd row e) (ret True)) (\<lambda>_. settling nd F rows) (settling nd F [])"
    if dead: "dead tx" for tx e
  proof -
    have "settling nd F rows (set_lanes (update_where (\<lambda>r. ln_id r = ln_id row)
       (\<lambda>r. r\<lparr>ln_status := LaneQueued, ln_nonce := None, ln_signature := None,
              ln_error := Some e, ln_updated := now\<rparr>)) s)"
      if s: "settling nd F (row # rows) s" and f: "find_evm_tx (lane_evm_owner row) (evm_table s) = Some tx" for s now
      by (rule settling_update [OF s]) (use row_lane_ok_settled(3) [OF _ _ _ dead] tx [OF s f] in auto)
    then show ?thesis
      by (simp add: hoare_def seqA_def bindA_def wall_def getA_def modifyA_def ret_def requeue_row_def)
  qed
  have stay: "hoare (\<lambda>s. settling nd F (row # rows) s \<and> Q s) (ret b) (\<lambda>_. settling nd F rows) (settling nd F [])"
    for b :: bool and Q
    by (rule hoare_pre [OF hoare_ret]) (use drop in blast)
  have err: "hoare (\<lambda>s. settling nd F (row # rows) s \<and> Q s) (throw e) (R :: bool \<Rightarrow> bst \<Rightarrow> bool) (settling nd F [])" for e R Q
    by (rule hoare_pre [OF hoare_throw]) (use drop in blast)
  have dead: "tx_status tx \<noteq> EvmQueued \<Longrightarrow> tx_status tx \<noteq> EvmMined \<Longrightarrow> dead tx" for tx
    unfolding dead_def by (cases "tx_status tx") auto
  show ?thesis
    unfolding settle_lane_def
    apply (rule hoare_bindA [where R = "\<lambda>found s. settling nd F (row # rows) s
        \<and> find_evm_tx (lane_evm_owner row) (evm_table s) = found"])
     apply (simp add: hoare_def getA_def)
    apply (auto split: option.split intro!: stay err landed failed again hoare_if dead)
    done
qed

lemma settle_lanes_keeps:
  "hoare (settling nd F rows) (settle_lanes nd rows counter p) (\<lambda>_. sapphire_ok nd F) (sapphire_ok nd F)"
proof (induction rows arbitrary: p)
  case Nil
  show ?case
    unfolding settle_lanes.simps by (rule hoare_pre [OF hoare_ret]) (simp add: settling_def)
next
  case (Cons row rows)
  have "hoare (settling nd F (row # rows)) (settle_lane nd row counter) (\<lambda>_. settling nd F rows) (sapphire_ok nd F)"
    by (rule hoare_post [OF settle_lane_keeps]) (auto simp: settling_def)
  then show ?case
    unfolding settle_lanes.simps by (rule hoare_bindA) (rule Cons.IH)
qed

text \<open>Signing: each row with its transaction, or nothing at all.\<close>

lemma sign_rows_ok:
  assumes "sign_rows le nd now counter rows signed d = Inr (d', n)"
    and "distinct (map ln_id (db_lanes d))" and "distinct (map ln_id rows)"
    and "\<forall>r\<in>set rows. r \<in> set (db_lanes d) \<and> on_transfer_lane r \<and> ln_status r = LaneQueued"
  shows "distinct (map ln_id (db_lanes d')) \<and> outer_evm (db_evm d) (db_evm d') \<and> (lane_ok d \<longrightarrow> lane_ok d')"
  using assms
proof (induction rows arbitrary: signed d)
  case Nil
  then show ?case by simp
next
  case (Cons row rows)
  let ?mine = "\<lambda>r. ln_id r = ln_id row \<and> ln_status r = LaneQueued"
  have sel: "r \<in> set (db_lanes d) \<Longrightarrow> ?mine r \<longleftrightarrow> r = row" for r
    using Cons.prems by (auto simp: distinct_map inj_on_def)
  have row: "row \<in> set (db_lanes d)" "on_transfer_lane row" "ln_status row = LaneQueued"
    using Cons.prems(4) by auto
  then have "row_count ?mine (db_lanes d) \<noteq> 0" using sel by (auto simp: row_count_0)
  with Cons.prems(1) obtain to data gas evm where
    evm: "insert_evm_strict (nd_chain nd) (lower (nd_address nd)) now
      \<lparr>in_owner = lane_owner_name (ln_id row) (Suc (ln_attempts row)), in_to = to, in_gas = gas,
       in_data = data, in_value = 0, in_simulate = (signed = 0)\<rparr> (db_evm d) = Inr evm"
    and rest: "sign_rows le nd now counter rows (Suc signed)
      (d\<lparr>db_lanes := update_where ?mine (sent_row row (counter + signed)
            (le_sign le (ln_payload row) (counter + signed)) now) (db_lanes d), db_evm := evm\<rparr>) = Inr (d', n)"
    by (auto simp: bindE_Inr Let_def)
  let ?g = "sent_row row (counter + signed) (le_sign le (ln_payload row) (counter + signed)) now"
  let ?d = "d\<lparr>db_lanes := update_where ?mine ?g (db_lanes d), db_evm := evm\<rparr>"
  let ?i = "\<lparr>in_owner = lane_owner_name (ln_id row) (Suc (ln_attempts row)), in_to = to, in_gas = gas,
       in_data = data, in_value = 0, in_simulate = (signed = 0)\<rparr>"
  have id: "ln_id (?g r) = ln_id r" "ln_kind (?g r) = ln_kind r" for r by (simp_all add: sent_row_def)
  have none: "find_evm_tx (in_owner ?i) (db_evm d) = None"
    and ins: "evm = insert_evm (nd_chain nd) (lower (nd_address nd)) now ?i (db_evm d)"
    using evm by (auto simp: insert_evm_strict_def insert_evm_def split: if_splits)
  have outer: "outer_evm (db_evm d) evm" unfolding ins by (rule outer_evm_insert)
  have kept: "tx_kept d (d\<lparr>db_evm := evm\<rparr>)"
    unfolding tx_kept_def lane_tx_def ins by (auto dest: evm_queue.insert_keeps)
  have own: "lane_tx (d\<lparr>db_evm := evm\<rparr>) (ln_id row) (Suc (ln_attempts row)) \<noteq> None"
    using evm_queue.insert_some [of ?i] by (simp add: lane_tx_def ins)
  have ok: "lane_ok ?d" if "lane_ok d"
  proof -
    have "lane_ok (d\<lparr>db_evm := evm\<rparr>)" using lane_ok_kept [OF that kept] by simp
    moreover have "row_lane_ok (d\<lparr>db_evm := evm\<rparr>) (?g row)" if "row_lane_ok (d\<lparr>db_evm := evm\<rparr>) row"
      using that own row(3) by (auto simp: row_lane_ok_def sent_row_def le_Suc_eq less_Suc_eq_le)
    ultimately have "lane_ok ((d\<lparr>db_evm := evm\<rparr>)\<lparr>db_lanes := update_where ?mine ?g (db_lanes (d\<lparr>db_evm := evm\<rparr>))\<rparr>)"
      using id sel by (intro lane_ok_update) auto
    moreover have "(d\<lparr>db_evm := evm\<rparr>)\<lparr>db_lanes := update_where ?mine ?g (db_lanes (d\<lparr>db_evm := evm\<rparr>))\<rparr> = ?d"
      by (cases d) simp
    ultimately show ?thesis by (simp only:)
  qed
  have "distinct (map ln_id (db_lanes ?d))"
    using Cons.prems(2) by (simp add: map_update_where id)
  moreover have "\<forall>r\<in>set rows. r \<in> set (db_lanes ?d) \<and> on_transfer_lane r \<and> ln_status r = LaneQueued"
  proof
    fix r assume r: "r \<in> set rows"
    then have "r \<in> set (db_lanes d)" "ln_id r \<noteq> ln_id row" "on_transfer_lane r" "ln_status r = LaneQueued"
      using Cons.prems(3,4) by (auto dest: image_eqI [of "ln_id row" ln_id, OF sym])
    then show "r \<in> set (db_lanes ?d) \<and> on_transfer_lane r \<and> ln_status r = LaneQueued"
      by (auto simp: set_update_where image_iff)
  qed
  ultimately have ih: "distinct (map ln_id (db_lanes d')) \<and> outer_evm (db_evm ?d) (db_evm d') \<and> (lane_ok ?d \<longrightarrow> lane_ok d')"
    using Cons.IH [OF rest] Cons.prems(3) by simp
  with ok outer show ?case by (auto intro: outer_evm_trans)
qed

lemma lane_rows_props:
  assumes "distinct (map ln_id t)"
  shows "distinct (map ln_id (lane_rows signer st n t))"
    and "r \<in> set (lane_rows signer st n t) \<Longrightarrow> r \<in> set t \<and> on_transfer_lane r \<and> ln_status r = st"
proof -
  let ?q = "filter (\<lambda>r. ln_signer r = signer \<and> on_transfer_lane r \<and> ln_status r = st) t"
  let ?s = "sort_key (if st = LaneSent then nonce_key else ln_id) ?q"
  have "distinct (map ln_id ?q)" using assms by (rule distinct_map_filter)
  then have "distinct (map ln_id ?s)" by (simp add: distinct_map)
  then show "distinct (map ln_id (lane_rows signer st n t))"
    by (auto simp: lane_rows_def sql_limit_def take_map [symmetric])
  show "r \<in> set (lane_rows signer st n t) \<Longrightarrow> r \<in> set t \<and> on_transfer_lane r \<and> ln_status r = st"
    using set_sql_limit [of n ?s] by (auto simp: lane_rows_def)
qed

lemma sign_lane_keeps: "keeps (sapphire_ok nd F) (sign_lane le nd signer counter)"
proof (rule keepsI)
  fix s assume s: "sapphire_ok nd F s"
  let ?rows = "lane_rows signer LaneQueued SAPPHIRE_BATCH_SIZE (lane_table s)"
  have ids: "distinct (map ln_id (lane_table s))" using s by (simp add: batcher_ok_def neighbour_def)
  have "sapphire_ok nd F (s\<lparr>bs_db := d'\<rparr>)"
    if "sign_rows le nd now counter ?rows 0 (bs_db s) = Inr (d', n)" for now d' n
  proof -
    have "distinct (map ln_id (db_lanes d')) \<and> outer_evm (evm_table s) (db_evm d') \<and> (lane_ok (bs_db s) \<longrightarrow> lane_ok d')"
      using lane_rows_props [OF ids] by (intro sign_rows_ok [OF that ids]) auto
    then show ?thesis
      using s by (intro sapphire.batcher_ok_outer [OF s]) (auto simp: batcher_ok_def neighbour_def)
  qed
  then show "sapphire_ok nd F (snd (sign_lane le nd signer counter s))"
    using s by (auto simp: sign_lane_def bindA_def wall_def getA_def liftE_def seqA_def modifyA_def ret_def
        split: sum.split prod.split)
qed

lemma run_transfer_lanes_keeps: "keeps (sapphire_ok nd F) (run_transfer_lanes le nd)"
proof -
  have call: "hoare (sapphire_ok nd F) (call_node nd f) (\<lambda>_. sapphire_ok nd F) (sapphire_ok nd F)"
    for f :: "nat \<Rightarrow> exc + nat"
    by (rule sapphire.hoare_call) (rule sapphire.batcher_ok_pass, assumption)+
  have get: "hoare (sapphire_ok nd F) (getA f) (\<lambda>_. sapphire_ok nd F) (sapphire_ok nd F)" for f :: "bst \<Rightarrow> 'z"
    by (simp add: hoare_def getA_def)
  have rows: "hoare (sapphire_ok nd F) (getA (\<lambda>s. lane_rows signer LaneSent (-1) (lane_table s)))
     (\<lambda>rows. settling nd F rows) (sapphire_ok nd F)" for signer
  proof -
    have "settling nd F (lane_rows signer LaneSent (-1) (lane_table s)) s" if "sapphire_ok nd F s" for s
    proof -
      have "distinct (map ln_id (lane_table s))" using that by (simp add: batcher_ok_def neighbour_def)
      from lane_rows_props [OF this] that show ?thesis by (auto simp: settling_def)
    qed
    then show ?thesis by (simp add: hoare_def getA_def)
  qed
  have sign: "hoare (sapphire_ok nd F) (sign_lane le nd signer counter) (\<lambda>_. sapphire_ok nd F) (sapphire_ok nd F)"
    for signer counter
    using sign_lane_keeps [of nd F le signer counter] by (simp add: keeps_hoare)
  have "keeps (sapphire_ok nd F) (run_lane le nd signer gas)" for signer gas
    unfolding keeps_hoare run_lane_def
    by (intro hoare_bindA [OF call] hoare_bindA [OF get] hoare_bindA [OF rows] hoare_bindA [OF settle_lanes_keeps]
        hoare_if hoare_ret hoare_throw hoare_bindA [OF sign])
  then show ?thesis
    unfolding run_transfer_lanes_def wall_def Let_def by (intro wp)
qed

section \<open>Properties of a sender\<close>

text \<open>What a restart finds: tables that are well formed and no history.\<close>

definition service_ok :: "db \<Rightarrow> bool" where
  "service_ok d \<longleftrightarrow> evm_inv (db_evm d) \<and> lane_ok d"

definition started :: "bst \<Rightarrow> bool" where
  "started s \<longleftrightarrow> service_ok (bs_db s) \<and> bs_cast s = [] \<and> bs_refused s = []"

definition round_hook :: "lane_env option \<Rightarrow> node \<Rightarrow> bool bact option" where
  "round_hook lanes nd = map_option (\<lambda>le. run_transfer_lanes le nd) lanes"

lemma run_sapphire_ok:
  assumes "started s"
  shows "sapphire_ok nd {r \<in> set (evm_table s). final r} (run nd (round_hook lanes nd) n s)"
proof (rule sapphire.run_keeps)
  fix hook assume "round_hook lanes nd = Some hook"
  then obtain le where "hook = run_transfer_lanes le nd" by (auto simp: round_hook_def)
  then show "keeps (sapphire_ok nd {r \<in> set (evm_table s). final r}) hook"
    by (simp add: run_transfer_lanes_keeps)
next
  have "on_chain r \<Longrightarrow> final r" for r by (auto simp: on_chain_def final_def idle_def)
  with assms show "sapphire_ok nd {r \<in> set (evm_table s). final r} s"
    by (auto simp: started_def service_ok_def batcher_ok_def neighbour_def lane_ok_def cast_ok_def receipts_ok_def)
qed

text \<open>C5: whatever the node answers or refuses to answer, whatever the event loop queues or queues
  again meanwhile, and for as many rounds as the sender runs: all the broadcasts of one queued
  transaction, apart from those the node refused for good, carry one nonce, and each is recorded in
  its row. So at most one version of it can ever be mined.\<close>

theorem broadcasts_share_nonce:
  assumes "started s" and "s' = run nd (round_hook lanes nd) n s"
    and "(i, m, h) \<in> set (bs_cast s')" and "(i, m, h) \<notin> set (bs_refused s')"
    and "(i, m', h') \<in> set (bs_cast s')" and "(i, m', h') \<notin> set (bs_refused s')"
  shows "m = m' \<and> (\<exists>r\<in>set (evm_table s'). tx_id r = i \<and> (m, h) \<in> set (tx_attempts r)
    \<and> (m', h') \<in> set (tx_attempts r))"
proof -
  have ok: "sapphire_ok nd {r \<in> set (evm_table s). final r} s'"
    using run_sapphire_ok [OF assms(1)] assms(2) by simp
  then have cast: "cast_ok s'" and inv: "evm_inv (evm_table s')" by (simp_all add: batcher_ok_def)
  from cast assms(3,4) obtain r where r: "r \<in> set (evm_table s')" "tx_id r = i" "(m, h) \<in> set (tx_attempts r)"
    unfolding cast_ok_def by fastforce
  from cast assms(5,6) obtain q where q: "q \<in> set (evm_table s')" "tx_id q = i" "(m', h') \<in> set (tx_attempts q)"
    unfolding cast_ok_def by fastforce
  have "q = r" using evm_inv_unique [OF inv q(1) r(1)] r q by simp
  moreover have "one_nonce r" using inv r(1) by (simp add: evm_inv_def row_ok_def)
  ultimately have "m = m'" using r q unfolding one_nonce_def by fastforce
  with r q \<open>q = r\<close> show ?thesis by blast
qed

text \<open>C8: a transaction that was mined or reverted, or failed after an attempt was kept, never
  changes again; one that becomes mined or reverted does so on a receipt the node gave for one of
  its own attempts, and is recorded with that attempt's nonce and the receipt's status.\<close>

theorem settled_by_own_receipt:
  assumes "started s" and "s' = run nd (round_hook lanes nd) n s"
  shows "(\<forall>r\<in>set (evm_table s). final r \<longrightarrow> r \<in> set (evm_table s'))
    \<and> (\<forall>r\<in>set (evm_table s'). on_chain r \<longrightarrow> r \<notin> set (evm_table s) \<longrightarrow>
         (\<exists>m h t logs. tx_nonce r = Some m \<and> tx_hash r = Some h \<and> (m, h) \<in> set (tx_attempts r)
            \<and> nd_receipt nd t h = Inr (Some (tx_status r = EvmMined, logs))))"
proof -
  have ok: "sapphire_ok nd {r \<in> set (evm_table s). final r} s'"
    using run_sapphire_ok [OF assms(1)] assms(2) by simp
  have "\<exists>m h t logs. tx_nonce r = Some m \<and> tx_hash r = Some h \<and> (m, h) \<in> set (tx_attempts r)
      \<and> nd_receipt nd t h = Inr (Some (tx_status r = EvmMined, logs))"
    if r: "r \<in> set (evm_table s')" "on_chain r" "r \<notin> set (evm_table s)" for r
  proof -
    from ok r have "row_ok r" by (simp add: batcher_ok_def evm_inv_def)
    with r(2) obtain m h where "tx_nonce r = Some m" "tx_hash r = Some h" "(m, h) \<in> set (tx_attempts r)"
      by (auto simp: row_ok_def names_attempt_def)
    moreover from ok r obtain h' where "tx_hash r = Some h'" "got_receipt nd (bs_tick s') h' (tx_status r = EvmMined)"
      unfolding batcher_ok_def receipts_ok_def by blast
    ultimately show ?thesis unfolding got_receipt_def by auto
  qed
  with ok show ?thesis by (auto simp: batcher_ok_def)
qed

text \<open>C6: a row of a transfer lane lands at most once. However often it was signed, at most one of
  its transactions was mined or can still be; if the row is landed that one is its last and was
  mined, and if it is queued or failed there is none, so signing it anew or replacing it moves no
  funds twice.\<close>

theorem lane_row_lands_once:
  assumes "started s" and "quiet nd" and "s' = run nd (round_hook lanes nd) n s"
    and "r \<in> set (lane_table s')" and "on_transfer_lane r"
  shows "(\<forall>j k. 1 \<le> j \<and> j \<le> ln_attempts r \<and> 1 \<le> k \<and> k \<le> ln_attempts r
           \<and> \<not> dead_at (bs_db s') (ln_id r) j \<and> \<not> dead_at (bs_db s') (ln_id r) k \<longrightarrow> j = k)
    \<and> (ln_status r = LaneLanded \<longrightarrow>
         (\<exists>tx. lane_tx (bs_db s') (ln_id r) (ln_attempts r) = Some tx \<and> tx_status tx = EvmMined))
    \<and> (ln_status r = LaneQueued \<or> ln_status r = LaneFailed \<longrightarrow>
         (\<forall>k. 1 \<le> k \<and> k \<le> ln_attempts r \<longrightarrow> dead_at (bs_db s') (ln_id r) k))"
proof -
  have "sapphire_ok nd {r \<in> set (evm_table s). final r} s'"
    using run_sapphire_ok [OF assms(1)] assms(3) by simp
  then have ok: "row_lane_ok (bs_db s') r"
    using assms(2,4,5) by (simp add: batcher_ok_def neighbour_def lane_ok_def)
  have last: "1 \<le> j \<Longrightarrow> j \<le> ln_attempts r \<Longrightarrow> \<not> dead_at (bs_db s') (ln_id r) j \<Longrightarrow> j = ln_attempts r" for j
    using ok unfolding row_lane_ok_def by (meson le_neq_implies_less)
  have "dead_at (bs_db s') (ln_id r) k"
    if "ln_status r = LaneQueued \<or> ln_status r = LaneFailed" "1 \<le> k" "k \<le> ln_attempts r" for k
    using ok that unfolding row_lane_ok_def by (metis le_neq_implies_less)
  then show ?thesis
    using last ok unfolding row_lane_ok_def by blast
qed

section \<open>A sender at work\<close>

text \<open>A node that accepts what it is sent and serves receipts from the seventh call on.\<close>

definition good_node :: node where
  "good_node =
     \<lparr>nd_chain = 23294, nd_address = ''lp'', nd_sapphire = True,
      nd_count = (\<lambda>t. Inr 5), nd_receipt = (\<lambda>t h. Inr (if t < 6 then None else Some (True, ''[]''))),
      nd_fees = (\<lambda>t. Inr (GasPrice 100)), nd_tx = (\<lambda>t h. Inr None), nd_simulate = (\<lambda>t tx. Inr ()),
      nd_sign = (\<lambda>t tx. Inr (''h'' @ show_nat (sg_nonce tx))), nd_send = (\<lambda>t h. Inr ()),
      nd_time = (\<lambda>t. 1000 + int t), nd_lapse = (\<lambda>t. 10), nd_stop = (\<lambda>t. False),
      nd_outer = (\<lambda>t. []),
      nd_withdraw = (\<lambda>t r. r)\<rparr>"

definition good_env :: lane_env where
  "good_env =
     \<lparr>le_nonce = (\<lambda>t. Inr (if t < 7 then 3 else 4)), le_keys = {''lp''},
      le_sign = (\<lambda>p n. ''g'' @ show_nat n), le_encode = (\<lambda>k p n g. ''d''),
      le_accounting = ''a'', le_swap_manager = ''s''\<rparr>"

definition start_state :: bst where
  "start_state =
     \<lparr>bs_db = \<lparr>db_quotes = [], db_swaps = [], db_evm = [],
        db_lanes = snd (submit_privana {''lp''} 990 ''lp''
          [transfer_balance_intent ''c'' ''u'' ''t'' 42] []), db_earns = []\<rparr>,
      bs_used_since = (\<lambda>_. None), bs_tick = 0, bs_mono = 0, bs_cast = [], bs_refused = []\<rparr>"

definition at_work :: "nat \<Rightarrow> bst" where
  "at_work n = run good_node (round_hook (Some good_env) good_node) n start_state"

lemma start_state_started: "started start_state"
proof -
  let ?d = "\<lparr>db_quotes = [], db_swaps = [], db_evm = [], db_lanes = [], db_earns = []\<rparr>"
  have low: "lower ''lp'' = ''lp''" by code_simp
  have "lane_table start_state = insert_lane ''lp'' 990 (transfer_balance_intent ''c'' ''u'' ''t'' 42) []"
    by (simp add: start_state_def submit_privana_def low Let_def)
  then have "bs_db start_state
      = ?d\<lparr>db_lanes := insert_lane ''lp'' 990 (transfer_balance_intent ''c'' ''u'' ''t'' 42) (db_lanes ?d)\<rparr>"
    by (simp add: start_state_def)
  moreover have "lane_ok ?d" by (simp add: lane_ok_def)
  ultimately have "lane_ok (bs_db start_state)"
    by (simp only: lane_ok_insert)
  then show ?thesis
    by (simp add: started_def service_ok_def start_state_def evm_inv_def)
qed

lemma good_node_quiet: "quiet good_node"
  by (simp add: quiet_def good_node_def)

lemma at_work_2:
  "let s = at_work 2 in
     (bs_cast s, bs_refused s, map tx_status (evm_table s), map (\<lambda>r. (ln_status r, ln_kind r)) (lane_table s))
       = ([(1, 5, ''h5'')], [], [EvmMined], [(LaneLanded, KindTransfer)])"
  by code_simp

theorem broadcasts_share_nonce_witness:
  "bs_cast (at_work 2) = [(1, 5, ''h5'')]
    \<and> (\<exists>r\<in>set (evm_table (at_work 2)). tx_id r = 1 \<and> (5, ''h5'') \<in> set (tx_attempts r))"
proof -
  have cast: "bs_cast (at_work 2) = [(1, 5, ''h5'')]" and "bs_refused (at_work 2) = []"
    using at_work_2 unfolding Let_def by (simp_all only: prod.inject)
  then show ?thesis
    using broadcasts_share_nonce [OF start_state_started at_work_def, of 1 5 "''h5''" 2 5 "''h5''"]
    by (simp only: list.set insert_iff simp_thms empty_iff)
qed

theorem settled_by_own_receipt_witness:
  "\<exists>r\<in>set (evm_table (at_work 2)). tx_status r = EvmMined
     \<and> (\<exists>m h t logs. tx_nonce r = Some m \<and> tx_hash r = Some h \<and> (m, h) \<in> set (tx_attempts r)
          \<and> nd_receipt good_node t h = Inr (Some (True, logs)))"
proof -
  have "map tx_status (evm_table (at_work 2)) = [EvmMined]"
    using at_work_2 unfolding Let_def by (simp_all only: prod.inject)
  then obtain r where r: "r \<in> set (evm_table (at_work 2))" "tx_status r = EvmMined"
    by (auto simp: map_eq_Cons_conv)
  have "evm_table start_state = []" by (simp add: start_state_def)
  with r settled_by_own_receipt [OF start_state_started at_work_def, of 2]
  show ?thesis by (auto simp: on_chain_def)
qed

theorem lane_row_lands_once_witness:
  "\<exists>r\<in>set (lane_table (at_work 2)). ln_status r = LaneLanded
     \<and> (\<exists>tx. lane_tx (bs_db (at_work 2)) (ln_id r) (ln_attempts r) = Some tx \<and> tx_status tx = EvmMined)"
proof -
  have "map (\<lambda>r. (ln_status r, ln_kind r)) (lane_table (at_work 2)) = [(LaneLanded, KindTransfer)]"
    using at_work_2 unfolding Let_def by (simp_all only: prod.inject)
  then obtain r where r: "r \<in> set (lane_table (at_work 2))" "ln_status r = LaneLanded" "ln_kind r = KindTransfer"
    by (auto simp: map_eq_Cons_conv)
  have "on_transfer_lane r" using r by (simp add: on_transfer_lane_def)
  with r lane_row_lands_once [OF start_state_started good_node_quiet at_work_def]
  show ?thesis by blast
qed

end
