(* ===== verification/WithdrawInv.thy ===== *)
theory WithdrawInv
  imports PrivanaLanes
begin

text \<open>
  What the withdraw lane keeps while the API answers anything or nothing and the event loop and
  the transfer lanes write the same table. The invariant \<open>winv\<close> speaks of the withdrawal rows and
  of the history of requests: a row is signed at most once, every request sent for it is that one
  signed request, a row is counted as sent at least as often as it was, and one withdrawal of the
  signer is in flight at a time.
\<close>

section \<open>Rows\<close>

definition is_withdrawal :: "lane_row \<Rightarrow> bool" where
  "is_withdrawal r \<longleftrightarrow> ln_kind r = KindWithdraw"

definition wrow_ok :: "lane_row \<Rightarrow> bool" where
  "wrow_ok r \<longleftrightarrow>
     (ln_status r = LaneQueued \<longrightarrow> ln_attempts r = 0)
     \<and> (ln_status r = LaneSent \<longrightarrow>
          ln_nonce r \<noteq> None \<and> ln_signature r \<noteq> None \<and> 1 \<le> ln_attempts r \<and> ln_attempts r \<le> WITHDRAW_MAX_SENDS)
     \<and> (ln_status r = LaneFailed \<longrightarrow> ln_attempts r \<le> 1)
     \<and> (ln_status r = LaneLanded \<longrightarrow> ln_attempts r \<le> WITHDRAW_MAX_SENDS)"

definition wtable_ok :: "lane_row list \<Rightarrow> bool" where
  "wtable_ok t \<longleftrightarrow> distinct (map ln_id t) \<and> (\<forall>r\<in>set t. is_withdrawal r \<longrightarrow> wrow_ok r)"

definition same_row :: "lane_row \<Rightarrow> lane_row \<Rightarrow> bool" where
  "same_row r r' \<longleftrightarrow> ln_id r' = ln_id r \<and> ln_kind r' = ln_kind r \<and> ln_signer r' = ln_signer r"

text \<open>What others can do: signed withdrawals stay as they are, and no withdrawal gets signed.\<close>

definition wouter :: "lane_row list \<Rightarrow> lane_row list \<Rightarrow> bool" where
  "wouter t t' \<longleftrightarrow>
     (wtable_ok t \<longrightarrow> wtable_ok t'
        \<and> (\<forall>r\<in>set t. is_withdrawal r \<longrightarrow> ln_status r \<noteq> LaneQueued \<longrightarrow> r \<in> set t')
        \<and> (\<forall>r'\<in>set t'. is_withdrawal r' \<longrightarrow> r' \<in> set t \<or> ln_attempts r' = 0 \<and> ln_status r' \<in> {LaneQueued, LaneFailed})
        \<and> (\<forall>r\<in>set t. \<exists>r'\<in>set t'. same_row r r'))"

lemma wouter_refl [simp]: "wouter t t"
  by (auto simp: wouter_def same_row_def)

lemma wouter_trans: "wouter t u \<Longrightarrow> wouter u v \<Longrightarrow> wouter t v"
  unfolding wouter_def
  by (intro impI conjI ballI) (blast, blast, blast, (metis same_row_def)+)

lemma wouter_insert: "wouter t (insert_lane signer now i t)"
  using next_id_fresh [of ln_id t]
  by (auto simp: wouter_def wtable_ok_def insert_lane_def lane_row_of_def wrow_ok_def same_row_def)

lemma wouter_inserts: "wouter t (fold (insert_lane signer now) is t)"
  by (induction "is" arbitrary: t) (auto intro: wouter_trans wouter_insert)

lemma wouter_update:
  assumes id: "\<And>r. same_row r (g r)"
    and g: "\<And>r. r \<in> set t \<Longrightarrow> p r \<Longrightarrow> is_withdrawal r \<Longrightarrow> wrow_ok r \<Longrightarrow>
       ln_status r = LaneQueued \<and> ln_attempts (g r) = 0 \<and> ln_status (g r) \<in> {LaneQueued, LaneFailed}"
  shows "wouter t (update_where p g t)"
  unfolding wouter_def
proof (intro impI conjI ballI)
  assume ok: "wtable_ok t"
  have "wrow_ok (g r)" if "r \<in> set t" "p r" "is_withdrawal r" for r
    using g [of r] that ok by (auto simp: wtable_ok_def wrow_ok_def)
  moreover have w: "is_withdrawal (g r) = is_withdrawal r" for r
    using id [of r] by (simp add: same_row_def is_withdrawal_def)
  moreover have "map ln_id (update_where p g t) = map ln_id t"
    using id by (intro map_update_where) (simp add: same_row_def)
  ultimately show "wtable_ok (update_where p g t)"
    using ok by (auto simp: wtable_ok_def set_update_where)
  fix r assume r: "r \<in> set (update_where p g t)" "is_withdrawal r"
  then obtain q where q: "q \<in> set t" "r = (if p q then g q else q)" by (auto simp: set_update_where)
  then show "r \<in> set t \<or> ln_attempts r = 0 \<and> ln_status r \<in> {LaneQueued, LaneFailed}"
    using g [of q] ok r w by (auto simp: wtable_ok_def split: if_splits)
next
  fix r assume ok: "wtable_ok t" and r: "r \<in> set t" "is_withdrawal r" "ln_status r \<noteq> LaneQueued"
  then have "\<not> p r" using g by (auto simp: wtable_ok_def)
  with r show "r \<in> set (update_where p g t)" by (auto simp: set_update_where image_iff)
next
  fix r assume "r \<in> set t"
  then have "(if p r then g r else r) \<in> set (update_where p g t)" by (simp add: set_update_where)
  moreover have "same_row r (if p r then g r else r)" using id by (simp add: same_row_def)
  ultimately show "\<exists>r'\<in>set (update_where p g t). same_row r r'" by blast
qed

lemma wouter_step: "wouter (db_lanes d) (db_lanes (outer_step op d))"
proof (cases op)
  case (OuterCancel now owner error)
  then show ?thesis
    by (auto simp: cancel_queued_def Let_def same_row_def wrow_ok_def intro!: wouter_update)
qed (auto simp: submit_privana_def submit_withdrawal_def Let_def wouter_inserts wouter_insert)

lemma wouter_steps: "wouter (db_lanes d) (db_lanes (outer_steps ops d))"
  unfolding outer_steps_def by (induction ops arbitrary: d) (auto intro: wouter_trans wouter_step)

lemma wouter_pass: "wouter (withdrawals s) (withdrawals (wpass wn s))"
proof -
  have "wouter (db_lanes d) (db_lanes (other_lane on_transfer_lane f d))" for f d
    unfolding other_lane_def rewrite_rows_def
    by (auto simp: same_row_def on_transfer_lane_def is_withdrawal_def intro!: wouter_update)
  then show ?thesis unfolding wpass_def by simp (rule wouter_trans [OF wouter_steps])
qed

section \<open>The invariant\<close>

definition sends_of :: "nat \<Rightarrow> wst \<Rightarrow> (nat \<times> nat \<times> string) list" where
  "sends_of i s = filter (\<lambda>x. fst x = i) (ws_sends s)"

definition sent_as :: "lane_row \<Rightarrow> nat \<times> nat \<times> string \<Rightarrow> bool" where
  "sent_as r x \<longleftrightarrow> fst x = ln_id r \<and> ln_nonce r = Some (fst (snd x)) \<and> ln_signature r = Some (snd (snd x))"

definition sends_ok :: "wst \<Rightarrow> bool" where
  "sends_ok s \<longleftrightarrow>
     (\<forall>x\<in>set (ws_sends s). \<exists>r\<in>set (withdrawals s). is_withdrawal r \<and> ln_status r \<noteq> LaneQueued \<and> sent_as r x)
     \<and> (\<forall>r\<in>set (withdrawals s). is_withdrawal r \<longrightarrow> length (sends_of (ln_id r) s) \<le> ln_attempts r)"

definition in_flight :: "wnode \<Rightarrow> lane_row \<Rightarrow> bool" where
  "in_flight wn r \<longleftrightarrow> is_withdrawal r \<and> ln_signer r = wn_signer wn \<and> ln_status r = LaneSent"

definition one_in_flight :: "wnode \<Rightarrow> wst \<Rightarrow> bool" where
  "one_in_flight wn s \<longleftrightarrow>
     (\<forall>r\<in>set (withdrawals s). \<forall>q\<in>set (withdrawals s). in_flight wn r \<longrightarrow> in_flight wn q \<longrightarrow> r = q)"

definition winv :: "wnode \<Rightarrow> wst \<Rightarrow> bool" where
  "winv wn s \<longleftrightarrow> wtable_ok (withdrawals s) \<and> sends_ok s \<and> one_in_flight wn s"

text \<open>A signed row the lane is handling, as it knows it.\<close>

definition holding :: "wnode \<Rightarrow> lane_row \<Rightarrow> wst \<Rightarrow> bool" where
  "holding wn r s \<longleftrightarrow> winv wn s \<and> r \<in> set (withdrawals s) \<and> in_flight wn r"

lemma wtable_unique: "wtable_ok t \<Longrightarrow> r \<in> set t \<Longrightarrow> q \<in> set t \<Longrightarrow> ln_id r = ln_id q \<Longrightarrow> r = q"
  by (metis wtable_ok_def distinct_map inj_onD)

lemma winv_outer:
  assumes w: "winv wn s" and o: "wouter (withdrawals s) (withdrawals s')" and same: "ws_sends s' = ws_sends s"
  shows "winv wn s'" and "r \<in> set (withdrawals s) \<Longrightarrow> in_flight wn r \<Longrightarrow> r \<in> set (withdrawals s')"
proof -
  have ok: "wtable_ok (withdrawals s)" using w by (simp add: winv_def)
  with o have ok': "wtable_ok (withdrawals s')"
    and kept: "\<And>r. r \<in> set (withdrawals s) \<Longrightarrow> is_withdrawal r \<Longrightarrow> ln_status r \<noteq> LaneQueued \<Longrightarrow> r \<in> set (withdrawals s')"
    and new: "\<And>r. r \<in> set (withdrawals s') \<Longrightarrow> is_withdrawal r \<Longrightarrow>
       r \<in> set (withdrawals s) \<or> ln_attempts r = 0 \<and> ln_status r \<in> {LaneQueued, LaneFailed}"
    unfolding wouter_def by blast+
  have count: "length (sends_of (ln_id r) s') \<le> ln_attempts r"
    if r: "r \<in> set (withdrawals s')" "is_withdrawal r" for r
  proof (cases "r \<in> set (withdrawals s)")
    case True
    then show ?thesis using w r same by (simp add: winv_def sends_ok_def sends_of_def)
  next
    case False
    then have zero: "ln_attempts r = 0" "ln_status r \<in> {LaneQueued, LaneFailed}" using new r by blast+
    have "sends_of (ln_id r) s = []"
    proof (rule ccontr)
      assume "sends_of (ln_id r) s \<noteq> []"
      then obtain x where x: "x \<in> set (ws_sends s)" "fst x = ln_id r"
        by (auto simp: sends_of_def filter_empty_conv)
      then obtain q where q: "q \<in> set (withdrawals s)" "is_withdrawal q" "ln_status q \<noteq> LaneQueued" "sent_as q x"
        using w unfolding winv_def sends_ok_def by blast
      then have "q \<in> set (withdrawals s')" using kept by blast
      moreover have "ln_id q = ln_id r" using q(4) x(2) by (simp add: sent_as_def)
      ultimately have "q = r" using wtable_unique [OF ok'] r(1) by blast
      with q(1) False show False by simp
    qed
    then show ?thesis by (simp add: sends_of_def same)
  qed
  have "sends_ok s'"
    unfolding sends_ok_def same
    using w count kept unfolding winv_def sends_ok_def by blast
  moreover have "one_in_flight wn s'"
    unfolding one_in_flight_def
  proof (intro ballI impI)
    fix r q assume "r \<in> set (withdrawals s')" "q \<in> set (withdrawals s')" "in_flight wn r" "in_flight wn q"
    moreover from this have "r \<in> set (withdrawals s)" "q \<in> set (withdrawals s)"
      using new unfolding in_flight_def by fastforce+
    ultimately show "r = q" using w unfolding winv_def one_in_flight_def by blast
  qed
  ultimately show "winv wn s'" using ok' by (simp add: winv_def)
  show "r \<in> set (withdrawals s) \<Longrightarrow> in_flight wn r \<Longrightarrow> r \<in> set (withdrawals s')"
    using kept unfolding in_flight_def by simp
qed

lemma winv_pass: "winv wn s \<Longrightarrow> winv wn (wpass wn s)"
  by (rule winv_outer(1) [OF _ wouter_pass]) (simp_all add: wpass_def)

lemma holding_pass: "holding wn r s \<Longrightarrow> holding wn r (wpass wn s)"
  unfolding holding_def
  using winv_pass winv_outer(2) [OF _ wouter_pass, of wn s wn] by (auto simp: wpass_def)

text \<open>The row in flight rewritten by its id.\<close>

lemma holding_update:
  assumes h: "holding wn r s" and id: "\<And>q. same_row q (g q)"
    and ok: "wrow_ok r \<Longrightarrow> wrow_ok (g r)"
    and keep: "ln_nonce (g r) = ln_nonce r" "ln_signature (g r) = ln_signature r" "ln_attempts r \<le> ln_attempts (g r)"
    and st: "ln_status (g r) \<noteq> LaneQueued"
  shows "winv wn (set_withdrawals (update_where (\<lambda>q. ln_id q = ln_id r) g) s)"
    and "ln_status (g r) = LaneSent \<Longrightarrow> holding wn (g r) (set_withdrawals (update_where (\<lambda>q. ln_id q = ln_id r) g) s)"
proof -
  let ?s = "set_withdrawals (update_where (\<lambda>q. ln_id q = ln_id r) g) s"
  let ?t = "withdrawals s"
  have r: "r \<in> set ?t" "in_flight wn r" and w: "winv wn s" using h by (auto simp: holding_def)
  then have t: "wtable_ok ?t" by (simp add: winv_def)
  have sel: "q \<in> set ?t \<Longrightarrow> ln_id q = ln_id r \<longleftrightarrow> q = r" for q using wtable_unique [OF t _ r(1)] by blast
  have mem: "q \<in> set (withdrawals ?s) \<longleftrightarrow> q = g r \<or> q \<in> set ?t \<and> q \<noteq> r" for q
    using sel r(1) by (auto simp: set_withdrawals_def set_update_where image_iff)
  have gr: "is_withdrawal (g r)" "ln_id (g r) = ln_id r" "ln_signer (g r) = ln_signer r"
    using id [of r] r(2) by (auto simp: same_row_def is_withdrawal_def in_flight_def)
  have "distinct (map ln_id (withdrawals ?s))"
    using t id by (simp add: set_withdrawals_def map_update_where same_row_def wtable_ok_def)
  moreover have "\<forall>q\<in>set (withdrawals ?s). is_withdrawal q \<longrightarrow> wrow_ok q"
    using t mem ok r by (auto simp: wtable_ok_def in_flight_def)
  ultimately have "wtable_ok (withdrawals ?s)" by (simp add: wtable_ok_def)
  moreover have "sends_ok ?s"
    unfolding sends_ok_def
  proof (intro conjI ballI impI)
    fix x assume "x \<in> set (ws_sends ?s)"
    then obtain q where q: "q \<in> set ?t" "is_withdrawal q" "ln_status q \<noteq> LaneQueued" "sent_as q x"
      using w unfolding winv_def sends_ok_def set_withdrawals_def by auto
    show "\<exists>q\<in>set (withdrawals ?s). is_withdrawal q \<and> ln_status q \<noteq> LaneQueued \<and> sent_as q x"
    proof (cases "q = r")
      case True
      then have "sent_as (g r) x" using q(4) keep gr by (simp add: sent_as_def)
      then show ?thesis using mem gr st by blast
    next
      case False
      then show ?thesis using mem q by blast
    qed
  next
    fix q assume "q \<in> set (withdrawals ?s)" "is_withdrawal q"
    moreover have "length (sends_of (ln_id r) s) \<le> ln_attempts r"
      using w r by (auto simp: winv_def sends_ok_def in_flight_def)
    moreover have "sends_of i ?s = sends_of i s" for i by (simp add: sends_of_def set_withdrawals_def)
    ultimately show "length (sends_of (ln_id q) ?s) \<le> ln_attempts q"
      using mem w keep(3) gr(2) unfolding winv_def sends_ok_def by (metis le_trans)
  qed
  moreover have only: "q = g r" if "q \<in> set (withdrawals ?s)" "in_flight wn q" for q
    using mem that w r unfolding winv_def one_in_flight_def by metis
  have "one_in_flight wn ?s"
    unfolding one_in_flight_def using only by metis
  ultimately show inv: "winv wn ?s" by (simp add: winv_def)
  show "holding wn (g r) ?s" if "ln_status (g r) = LaneSent"
    using inv mem gr r that by (auto simp: holding_def in_flight_def)
qed

section \<open>Rounds\<close>

lemma hoare_await:
  assumes "\<And>s x. P s \<Longrightarrow> f (ws_tick s) = Inr x \<Longrightarrow> Q x (wpass wn s)" and "\<And>s. P s \<Longrightarrow> E (wpass wn s)"
  shows "hoare P (await_node wn f) Q E"
  unfolding hoare_def await_node_def
proof (intro allI impI)
  fix s assume "P s"
  then show "case (f (ws_tick s), wpass wn s) of (Inl e, s') \<Rightarrow> E s' | (Inr x, s') \<Rightarrow> Q x s'"
    using assms by (cases "f (ws_tick s)") auto
qed

lemma wcounter_holding: "hoare (holding wn r) (wcounter wn) (\<lambda>_. holding wn r) (winv wn)"
proof -
  have "hoare (holding wn r) (await_node wn (wn_nonce wn)) (\<lambda>_. holding wn r) (winv wn)"
    by (rule hoare_await) (erule holding_pass, auto intro: winv_pass simp: holding_def)
  then show ?thesis
    unfolding wcounter_def by (rule hoare_bindA) (rule hoare_pre [OF hoare_getA])
qed

text \<open>What the lane knows of a queued row: nothing of its signer is in flight.\<close>

definition chosen :: "wnode \<Rightarrow> lane_row \<Rightarrow> wst \<Rightarrow> bool" where
  "chosen wn row s \<longleftrightarrow>
     winv wn s \<and> is_withdrawal row \<and> ln_signer row = wn_signer wn \<and> ln_attempts row = 0
     \<and> (\<exists>r\<in>set (withdrawals s). same_row row r)
     \<and> (\<forall>r\<in>set (withdrawals s). \<not> in_flight wn r)"

lemma chosen_pass: "chosen wn row s \<Longrightarrow> chosen wn row (wpass wn s)"
proof -
  assume c: "chosen wn row s"
  then have ok: "wtable_ok (withdrawals s)" by (simp add: chosen_def winv_def)
  note o = wouter_pass [of s wn, unfolded wouter_def, rule_format, OF ok]
  from c obtain r where "r \<in> set (withdrawals s)" "same_row row r" by (auto simp: chosen_def)
  with o obtain r' where "r' \<in> set (withdrawals (wpass wn s))" "same_row row r'"
    unfolding same_row_def by metis
  moreover have "\<not> in_flight wn q" if "q \<in> set (withdrawals (wpass wn s))" for q
    using that c o unfolding chosen_def in_flight_def by fastforce
  ultimately show ?thesis using c winv_pass [of wn s] by (auto simp: chosen_def)
qed

lemma wcounter_chosen: "hoare (chosen wn row) (wcounter wn) (\<lambda>_. chosen wn row) (winv wn)"
proof -
  have "hoare (chosen wn row) (await_node wn (wn_nonce wn)) (\<lambda>_. chosen wn row) (winv wn)"
    by (rule hoare_await) (erule chosen_pass, auto intro: winv_pass simp: chosen_def)
  then show ?thesis
    unfolding wcounter_def by (rule hoare_bindA) (rule hoare_pre [OF hoare_getA])
qed

text \<open>A row about to be sent: in flight, and counted as sent once more than it was.\<close>

definition sendable :: "wnode \<Rightarrow> lane_row \<Rightarrow> wst \<Rightarrow> bool" where
  "sendable wn row s \<longleftrightarrow>
     (\<exists>r. holding wn r s \<and> ln_id r = ln_id row \<and> ln_nonce r = ln_nonce row \<and> ln_signature r = ln_signature row
        \<and> ln_attempts r = ln_attempts row \<and> length (sends_of (ln_id r) s) < ln_attempts r)"

lemma wsign_sendable:
  "hoare (chosen wn row) (wsign wn row nonce)
     (\<lambda>signed. case signed of None \<Rightarrow> winv wn | Some row' \<Rightarrow> sendable wn row') (winv wn)"
proof -
  let ?g = "\<lambda>now. \<lambda>r. r\<lparr>ln_status := LaneSent, ln_nonce := Some nonce,
      ln_signature := Some (wn_sign wn (ln_payload row) nonce), ln_attempts := Suc (ln_attempts r), ln_updated := now\<rparr>"
  let ?mine = "\<lambda>r. ln_id r = ln_id row \<and> ln_status r = LaneQueued"
  have none: "winv wn (set_withdrawals (update_where ?mine (?g now)) s)"
    if "chosen wn row s" "row_count ?mine (withdrawals s) = 0" for s now
    using that by (simp add: chosen_def set_withdrawals_def row_count_0 update_where_none)
  have some: "sendable wn (row\<lparr>ln_status := LaneSent, ln_nonce := Some nonce,
        ln_signature := Some (wn_sign wn (ln_payload row) nonce), ln_attempts := Suc (ln_attempts row)\<rparr>)
      (set_withdrawals (update_where ?mine (?g now)) s)"
    if c: "chosen wn row s" and n: "row_count ?mine (withdrawals s) \<noteq> 0" for s now
  proof -
    let ?s = "set_withdrawals (update_where ?mine (?g now)) s" and ?t = "withdrawals s"
    from n obtain r where r: "r \<in> set ?t" "ln_id r = ln_id row" "ln_status r = LaneQueued"
      by (auto simp: row_count_0)
    have t: "wtable_ok ?t" and w: "winv wn s" using c by (simp_all add: chosen_def winv_def)
    from c obtain q where q: "q \<in> set ?t" "same_row row q" by (auto simp: chosen_def)
    then have "q = r" using wtable_unique [OF t q(1) r(1)] r(2) by (simp add: same_row_def)
    then have wd: "is_withdrawal r" "ln_signer r = wn_signer wn"
      using c q(2) by (simp_all add: chosen_def same_row_def is_withdrawal_def)
    have zero: "ln_attempts r = 0" using t r wd by (simp add: wtable_ok_def wrow_ok_def)
    have sel: "x \<in> set ?t \<Longrightarrow> ?mine x \<longleftrightarrow> x = r" for x
      using wtable_unique [OF t _ r(1)] r(2,3) by metis
    have mem: "x \<in> set (withdrawals ?s) \<longleftrightarrow> x = ?g now r \<or> x \<in> set ?t \<and> x \<noteq> r" for x
      using sel r(1) by (auto simp: set_withdrawals_def set_update_where image_iff)
    have nosend: "sends_of (ln_id r) s = []"
    proof -
      have "length (sends_of (ln_id r) s) \<le> ln_attempts r"
        using w r(1) wd(1) unfolding winv_def sends_ok_def by blast
      with zero show ?thesis by simp
    qed
    have "wtable_ok (withdrawals ?s)"
      using t mem wd by (auto simp: wtable_ok_def wrow_ok_def zero WITHDRAW_MAX_SENDS_def
          set_withdrawals_def map_update_where)
    moreover have "sends_ok ?s"
      unfolding sends_ok_def
    proof (intro conjI ballI impI)
      fix x assume "x \<in> set (ws_sends ?s)"
      then have "x \<in> set (ws_sends s)" by (simp add: set_withdrawals_def)
      then obtain q where q: "q \<in> set ?t" "is_withdrawal q" "ln_status q \<noteq> LaneQueued" "sent_as q x"
        using w unfolding winv_def sends_ok_def by blast
      then have "q \<noteq> r" using r(3) by auto
      with q mem show "\<exists>q\<in>set (withdrawals ?s). is_withdrawal q \<and> ln_status q \<noteq> LaneQueued \<and> sent_as q x" by blast
    next
      fix x assume x: "x \<in> set (withdrawals ?s)" "is_withdrawal x"
      have eq: "sends_of i ?s = sends_of i s" for i by (simp add: sends_of_def set_withdrawals_def)
      show "length (sends_of (ln_id x) ?s) \<le> ln_attempts x"
        using x mem w nosend unfolding eq winv_def sends_ok_def by auto
    qed
    moreover have "one_in_flight wn ?s"
    proof -
      have only: "q \<in> set (withdrawals ?s) \<Longrightarrow> in_flight wn q \<Longrightarrow> q = ?g now r" for q
        using mem c unfolding chosen_def by blast
      show ?thesis
        unfolding one_in_flight_def
      proof (intro ballI impI)
        fix a b assume "a \<in> set (withdrawals ?s)" "b \<in> set (withdrawals ?s)" "in_flight wn a" "in_flight wn b"
        then have "a = ?g now r" "b = ?g now r" by (auto dest: only)
        then show "a = b" by (rule trans [OF _ sym])
      qed
    qed
    ultimately have "winv wn ?s" unfolding winv_def by blast
    moreover have "?g now r \<in> set (withdrawals ?s)" using mem by blast
    moreover have "in_flight wn (?g now r)" using wd by (simp add: in_flight_def is_withdrawal_def)
    ultimately have "holding wn (?g now r) ?s" by (simp only: holding_def)
    moreover have "sends_of (ln_id r) ?s = []" using nosend by (simp add: sends_of_def set_withdrawals_def)
    moreover have "ln_attempts row = 0" using c by (simp add: chosen_def)
    ultimately show ?thesis
      unfolding sendable_def using r(2) zero by (intro exI [of _ "?g now r"]) simp
  qed
  show ?thesis
    unfolding hoare_def
  proof (intro allI impI)
    fix s assume c: "chosen wn row s"
    show "case wsign wn row nonce s of (Inl e, s') \<Rightarrow> winv wn s'
      | (Inr signed, s') \<Rightarrow> (case signed of None \<Rightarrow> winv wn | Some row' \<Rightarrow> sendable wn row') s'"
      using none [OF c] some [OF c]
      by (simp add: wsign_def Let_def bindA_def wwall_def getA_def seqA_def modifyA_def ret_def)
  qed
qed

lemma sendable_send:
  assumes "sendable wn row s" and "ln_nonce row = Some n" and "ln_signature row = Some g"
  shows "\<exists>r. holding wn r (s\<lparr>ws_sends := (ln_id row, n, g) # ws_sends s\<rparr>)
    \<and> ln_id r = ln_id row \<and> ln_nonce r = Some n \<and> ln_attempts r = ln_attempts row"
proof -
  from assms(1) obtain r where r: "holding wn r s" "ln_id r = ln_id row" "ln_nonce r = ln_nonce row"
    "ln_signature r = ln_signature row" "ln_attempts r = ln_attempts row" "length (sends_of (ln_id r) s) < ln_attempts r"
    by (auto simp: sendable_def)
  let ?s = "s\<lparr>ws_sends := (ln_id row, n, g) # ws_sends s\<rparr>"
  have t: "wtable_ok (withdrawals s)" using r(1) by (simp add: holding_def winv_def)
  have "sends_ok ?s"
    unfolding sends_ok_def
  proof (intro conjI ballI impI)
    fix x assume "x \<in> set (ws_sends ?s)"
    then consider "x = (ln_id row, n, g)" | "x \<in> set (ws_sends s)" by auto
    then show "\<exists>q\<in>set (withdrawals ?s). is_withdrawal q \<and> ln_status q \<noteq> LaneQueued \<and> sent_as q x"
    proof cases
      case 1
      then have "sent_as r x" using r assms(2,3) by (simp add: sent_as_def)
      with r(1) show ?thesis by (intro bexI [of _ r]) (auto simp: holding_def in_flight_def)
    next
      case 2
      then show ?thesis using r(1) by (simp add: holding_def winv_def sends_ok_def)
    qed
  next
    fix q assume q: "q \<in> set (withdrawals ?s)" "is_withdrawal q"
    show "length (sends_of (ln_id q) ?s) \<le> ln_attempts q"
    proof (cases "q = r")
      case True
      then show ?thesis using r by (simp add: sends_of_def)
    next
      case False
      then have "ln_id q \<noteq> ln_id row"
        using q(1) r wtable_unique [OF t, of q r] by (auto simp: holding_def)
      then show ?thesis using q r(1) by (simp add: sends_of_def holding_def winv_def sends_ok_def)
    qed
  qed
  then have "winv wn ?s" using r(1) by (simp add: holding_def winv_def one_in_flight_def)
  then have "holding wn r ?s" using r(1) by (simp add: holding_def)
  with r assms(2) show ?thesis by auto
qed

lemma holding_winv: "holding wn r s \<Longrightarrow> winv wn s"
  by (simp add: holding_def)

lemma holding_write:
  assumes "ln_id r = ln_id row" and "\<And>q. same_row q (g q)" and "wrow_ok r \<Longrightarrow> wrow_ok (g r)"
    and "ln_nonce (g r) = ln_nonce r" and "ln_signature (g r) = ln_signature r" and "ln_attempts r \<le> ln_attempts (g r)"
    and "ln_status (g r) \<noteq> LaneQueued"
  shows "hoare (holding wn r) (modifyA (set_withdrawals (update_where (\<lambda>q. ln_id q = ln_id row) g)))
     (\<lambda>_. winv wn) (winv wn)"
proof (rule hoare_pre [OF hoare_modifyA])
  fix s assume "holding wn r s"
  from holding_update(1) [OF this assms(2-7)] assms(1)
  show "winv wn (set_withdrawals (update_where (\<lambda>q. ln_id q = ln_id row) g) s)" by simp
qed

lemma wfinish_landed:
  assumes "ln_id r = ln_id row" and "ln_status r = LaneSent"
  shows "hoare (holding wn r) (wfinish wn row LaneLanded e) (\<lambda>_. winv wn) (winv wn)"
  unfolding wfinish_def finish_rows_def wwall_def
proof (rule hoare_bindA [where R = "\<lambda>_. holding wn r"])
  fix now
  show "hoare (holding wn r) (modifyA (set_withdrawals (\<lambda>t. update_where (\<lambda>r. ln_id r = ln_id row)
      (\<lambda>r. r\<lparr>ln_status := LaneLanded, ln_error := e, ln_updated := now\<rparr>) t))) (\<lambda>_. winv wn) (winv wn)"
    using assms by (intro holding_write) (auto simp: same_row_def wrow_ok_def)
qed (rule hoare_pre [OF hoare_getA])

lemma wsend_winv: "hoare (sendable wn row) (wsend wn row) (\<lambda>_. winv wn) (winv wn)"
proof (cases "ln_nonce row = None \<or> ln_signature row = None")
  case True
  have w: "hoare (sendable wn row) (throw TypeError) (\<lambda>_. winv wn) (winv wn)"
    by (rule hoare_pre [OF hoare_throw]) (auto simp: sendable_def holding_def)
  have "wsend wn row = throw TypeError"
    using True by (auto simp: wsend_def split: option.split)
  with w show ?thesis by simp
next
  case False
  then obtain n g where ng: "ln_nonce row = Some n" "ln_signature row = Some g" by auto
  have ret: "hoare (holding wn r) (ret ()) (\<lambda>_. winv wn) (winv wn)" for r
    by (rule hoare_pre [OF hoare_ret]) (rule holding_winv)
  have call: "hoare (holding wn r) (await_node wn (\<lambda>t. Inr (wn_reply wn t))) (\<lambda>_. holding wn r) (winv wn)" for r
    by (rule hoare_await) (auto intro: holding_pass winv_pass dest: holding_winv)
  have rest: "hoare (\<lambda>s. (ln_id r = ln_id row \<and> ln_status r = LaneSent) \<and> holding wn r s)
     (bindA (await_node wn (\<lambda>t. Inr (wn_reply wn t))) (\<lambda>reply.
        case refusal_of reply of
          None \<Rightarrow> ret ()
        | Some refusal \<Rightarrow>
            bindA (wcounter wn) (\<lambda>counter.
              if n < counter then wfinish wn row LaneLanded None
              else if 1 < ln_attempts row then ret ()
              else modifyA (set_withdrawals (update_where (\<lambda>r. ln_id r = ln_id row)
                     (\<lambda>r. r\<lparr>ln_error := Some refusal\<rparr>))))))
     (\<lambda>_. winv wn) (winv wn)" for r
  proof (rule hoare_assume)
    assume r: "ln_id r = ln_id row \<and> ln_status r = LaneSent"
    have err: "hoare (holding wn r) (modifyA (set_withdrawals (update_where (\<lambda>r. ln_id r = ln_id row)
       (\<lambda>r. r\<lparr>ln_error := Some e\<rparr>)))) (\<lambda>_. winv wn) (winv wn)" for e
      using r by (intro holding_write) (auto simp: same_row_def wrow_ok_def)
    note land = wfinish_landed [of r row wn]
    show "hoare (holding wn r) (bindA (await_node wn (\<lambda>t. Inr (wn_reply wn t))) (\<lambda>reply.
        case refusal_of reply of
          None \<Rightarrow> ret ()
        | Some refusal \<Rightarrow>
            bindA (wcounter wn) (\<lambda>counter.
              if n < counter then wfinish wn row LaneLanded None
              else if 1 < ln_attempts row then ret ()
              else modifyA (set_withdrawals (update_where (\<lambda>r. ln_id r = ln_id row)
                     (\<lambda>r. r\<lparr>ln_error := Some refusal\<rparr>))))))
     (\<lambda>_. winv wn) (winv wn)"
      using r by (auto intro!: hoare_bindA [OF call] ret hoare_bindA [OF wcounter_holding] hoare_if land err
          split: option.split)
  qed
  show ?thesis
    unfolding wsend_def ng prod.case option.case
  proof (rule hoare_seqA [OF _ hoare_ex [OF rest]])
    show "hoare (sendable wn row) (modifyA (\<lambda>s. s\<lparr>ws_sends := (ln_id row, n, g) # ws_sends s\<rparr>))
       (\<lambda>_ s. \<exists>r. (ln_id r = ln_id row \<and> ln_status r = LaneSent) \<and> holding wn r s) (winv wn)"
    proof (rule hoare_pre [OF hoare_modifyA])
      fix s assume "sendable wn row s"
      from sendable_send [OF this ng]
      show "\<exists>r. (ln_id r = ln_id row \<and> ln_status r = LaneSent) \<and> holding wn r (s\<lparr>ws_sends := (ln_id row, n, g) # ws_sends s\<rparr>)"
        by (auto simp: holding_def in_flight_def)
    qed
  qed
qed

lemma wresend_winv: "hoare (holding wn row) (wresend wn row) (\<lambda>_. winv wn) (winv wn)"
proof -
  have get: "hoare (holding wn row) (wwall wn) (\<lambda>_. holding wn row) (winv wn)"
    unfolding wwall_def by (rule hoare_pre [OF hoare_getA])
  have ret: "hoare (holding wn row) (ret ()) (\<lambda>_. winv wn) (winv wn)"
    by (rule hoare_pre [OF hoare_ret]) (rule holding_winv)
  have fail: "hoare (holding wn row) (wfinish wn row LaneFailed e) (\<lambda>_. winv wn) (winv wn)"
    if "ln_attempts row = 1" for e
    unfolding wfinish_def finish_rows_def
    by (rule hoare_bindA [OF get], rule holding_write) (auto simp: same_row_def wrow_ok_def that)
  have give: "hoare (holding wn row) (modifyA (set_withdrawals (update_where (\<lambda>r. ln_id r = ln_id row)
       (\<lambda>r. r\<lparr>ln_error := Some e, ln_updated := now\<rparr>)))) (\<lambda>_. winv wn) (winv wn)" for e now
    unfolding hoare_def
  proof (intro allI impI)
    fix s assume h: "holding wn row s"
    have "winv wn (set_withdrawals (update_where (\<lambda>r. ln_id r = ln_id row)
       (\<lambda>r. r\<lparr>ln_error := Some e, ln_updated := now\<rparr>)) s)"
      using h by (intro holding_update(1) [OF h]) (auto simp: same_row_def wrow_ok_def holding_def in_flight_def)
    then show "case modifyA (set_withdrawals (update_where (\<lambda>r. ln_id r = ln_id row)
       (\<lambda>r. r\<lparr>ln_error := Some e, ln_updated := now\<rparr>))) s of
        (Inl e, s') \<Rightarrow> winv wn s' | (Inr x, s') \<Rightarrow> winv wn s'" by (simp add: modifyA_def)
  qed
  let ?g = "\<lambda>now r. r\<lparr>ln_attempts := Suc (ln_attempts r), ln_updated := now\<rparr>"
  have again: "hoare (holding wn row) (seqA (modifyA (set_withdrawals (update_where (\<lambda>r. ln_id r = ln_id row) (?g now))))
       (wsend wn (row\<lparr>ln_attempts := Suc (ln_attempts row)\<rparr>))) (\<lambda>_. winv wn) (winv wn)"
    if less: "ln_attempts row < WITHDRAW_MAX_SENDS" for now
  proof (rule hoare_seqA [OF _ wsend_winv], rule hoare_pre [OF hoare_modifyA])
    fix s assume h: "holding wn row s"
    let ?s = "set_withdrawals (update_where (\<lambda>r. ln_id r = ln_id row) (?g now)) s"
    have st: "ln_status row = LaneSent" using h by (simp add: holding_def in_flight_def)
    have "holding wn (?g now row) ?s"
      using less st by (intro holding_update(2) [OF h]) (auto simp: same_row_def wrow_ok_def)
    moreover have "length (sends_of (ln_id row) ?s) \<le> ln_attempts row"
    proof -
      have "length (sends_of (ln_id row) s) \<le> ln_attempts row"
        using h by (auto simp: holding_def in_flight_def winv_def sends_ok_def)
      then show ?thesis by (simp add: sends_of_def set_withdrawals_def)
    qed
    ultimately show "sendable wn (row\<lparr>ln_attempts := Suc (ln_attempts row)\<rparr>) ?s"
      unfolding sendable_def by (intro exI [of _ "?g now row"]) simp
  qed
  show ?thesis
    unfolding wresend_def
    by (intro hoare_bindA [OF get] hoare_if ret give again) (auto intro!: fail)
qed

lemma sort_key_head: "sort_key f xs = x # ys \<Longrightarrow> x \<in> set xs \<and> (\<forall>y\<in>set xs. f x \<le> f y)"
proof -
  assume e: "sort_key f xs = x # ys"
  have "sorted (map f (x # ys))" and "set (x # ys) = set xs"
    using sorted_sort_key [of f xs] set_sort [of f xs] unfolding e by auto
  then show ?thesis by auto
qed

lemma withdraw_row_props:
  assumes "withdraw_row signer t = Some row"
  shows "row \<in> set t" and "is_withdrawal row" and "ln_signer row = signer" and "lane_unsettled row"
    and "ln_status row = LaneQueued \<Longrightarrow> r \<in> set t \<Longrightarrow> is_withdrawal r \<Longrightarrow> ln_signer r = signer \<Longrightarrow> ln_status r \<noteq> LaneSent"
proof -
  let ?q = "filter (\<lambda>r. ln_signer r = signer \<and> ln_kind r = KindWithdraw \<and> lane_unsettled r) t"
  let ?f = "\<lambda>r. if ln_status r = LaneSent then 0 else 1 :: nat"
  from assms obtain rs where e: "sort_key ?f (sort_key ln_id ?q) = row # rs"
    by (auto simp: withdraw_row_def split: list.splits)
  from sort_key_head [OF e] have h: "row \<in> set ?q" "\<forall>y\<in>set ?q. ?f row \<le> ?f y" by simp_all
  then show "row \<in> set t" "is_withdrawal row" "ln_signer row = signer" "lane_unsettled row"
    by (auto simp: is_withdrawal_def)
  assume "ln_status row = LaneQueued" "r \<in> set t" "is_withdrawal r" "ln_signer r = signer"
  then show "ln_status r \<noteq> LaneSent"
    using h(2) by (auto simp: is_withdrawal_def lane_unsettled_def)
qed

lemma withdraw_round_keeps: "keeps (winv wn) (withdraw_round wn)"
proof -
  let ?R = "\<lambda>found s. winv wn s \<and> (\<forall>row. found = Some row \<longrightarrow>
     (if ln_status row = LaneQueued then chosen wn row s else holding wn row s))"
  have read: "hoare (winv wn) (getA (\<lambda>s. withdraw_row (wn_signer wn) (withdrawals s))) ?R (winv wn)"
  proof (rule hoare_pre [OF hoare_getA])
    fix s assume w: "winv wn s"
    show "?R (withdraw_row (wn_signer wn) (withdrawals s)) s"
    proof (intro conjI allI impI)
      fix row assume e: "withdraw_row (wn_signer wn) (withdrawals s) = Some row"
      note p = withdraw_row_props [OF e]
      have "wrow_ok row" using w p by (simp add: winv_def wtable_ok_def)
      then show "if ln_status row = LaneQueued then chosen wn row s else holding wn row s"
        using w p by (auto simp: chosen_def holding_def in_flight_def wrow_ok_def same_row_def lane_unsettled_def)
    qed (rule w)
  qed
  have none: "hoare (?R None) (ret ()) (\<lambda>_. winv wn) (winv wn)"
    by (rule hoare_pre [OF hoare_ret]) simp
  have sent: "hoare (holding wn row) (case ln_nonce row of
         None \<Rightarrow> throw TypeError
       | Some n \<Rightarrow> if n < counter then wfinish wn row LaneLanded None else wresend wn row)
     (\<lambda>_. winv wn) (winv wn)" if "ln_status row \<noteq> LaneQueued" for row counter
  proof (cases "ln_status row = LaneSent")
    case True
    have err: "hoare (holding wn row) (throw TypeError) (\<lambda>_. winv wn) (winv wn)"
      by (rule hoare_pre [OF hoare_throw]) (rule holding_winv)
    show ?thesis
      using True by (auto split: option.split intro!: hoare_if err wfinish_landed wresend_winv)
  next
    case False
    then show ?thesis by (simp add: hoare_def holding_def in_flight_def)
  qed
  have queued: "hoare (chosen wn row) (bindA (wsign wn row counter) (\<lambda>signed.
      case signed of None \<Rightarrow> ret () | Some row' \<Rightarrow> wsend wn row')) (\<lambda>_. winv wn) (winv wn)" for row counter
  proof (rule hoare_bindA [OF wsign_sendable])
    fix signed
    have "hoare (winv wn) (ret ()) (\<lambda>_. winv wn) (winv wn)" by (rule hoare_ret)
    then show "hoare (case signed of None \<Rightarrow> winv wn | Some row' \<Rightarrow> sendable wn row')
      (case signed of None \<Rightarrow> ret () | Some row' \<Rightarrow> wsend wn row') (\<lambda>_. winv wn) (winv wn)"
      by (cases signed) (simp_all add: wsend_winv)
  qed
  have some: "hoare (?R (Some row)) (bindA (wcounter wn) (\<lambda>counter.
       if ln_status row = LaneQueued
       then bindA (wsign wn row counter) (\<lambda>signed. case signed of None \<Rightarrow> ret () | Some row' \<Rightarrow> wsend wn row')
       else case ln_nonce row of
         None \<Rightarrow> throw TypeError
       | Some n \<Rightarrow> if n < counter then wfinish wn row LaneLanded None else wresend wn row))
     (\<lambda>_. winv wn) (winv wn)" for row
  proof (cases "ln_status row = LaneQueued")
    case True
    have "hoare (chosen wn row) (bindA (wcounter wn) (\<lambda>counter.
        bindA (wsign wn row counter) (\<lambda>signed. case signed of None \<Rightarrow> ret () | Some row' \<Rightarrow> wsend wn row')))
       (\<lambda>_. winv wn) (winv wn)"
      by (rule hoare_bindA [OF wcounter_chosen queued])
    then show ?thesis using True by (auto intro: hoare_pre)
  next
    case False
    have "hoare (holding wn row) (bindA (wcounter wn) (\<lambda>counter. case ln_nonce row of
         None \<Rightarrow> throw TypeError
       | Some n \<Rightarrow> if n < counter then wfinish wn row LaneLanded None else wresend wn row)) (\<lambda>_. winv wn) (winv wn)"
      by (rule hoare_bindA [OF wcounter_holding sent [OF False]])
    then show ?thesis using False by (auto intro: hoare_pre)
  qed
  show ?thesis
    unfolding keeps_hoare withdraw_round_def
  proof (rule hoare_bindA [OF read])
    fix found
    show "hoare (?R found) (case found of None \<Rightarrow> ret () | Some row \<Rightarrow>
        bindA (wcounter wn) (\<lambda>counter.
         if ln_status row = LaneQueued
         then bindA (wsign wn row counter) (\<lambda>signed. case signed of None \<Rightarrow> ret () | Some row' \<Rightarrow> wsend wn row')
         else case ln_nonce row of
           None \<Rightarrow> throw TypeError
         | Some n \<Rightarrow> if n < counter then wfinish wn row LaneLanded None else wresend wn row))
      (\<lambda>_. winv wn) (winv wn)"
    proof (cases found)
      case None
      then show ?thesis using none by simp
    next
      case (Some row)
      show ?thesis unfolding Some option.case by (rule some)
    qed
  qed
qed

lemma withdraw_rounds_winv: "winv wn s \<Longrightarrow> winv wn (withdraw_rounds wn n s)"
  by (induction n arbitrary: s) (auto intro!: winv_pass keepsD [OF withdraw_round_keeps])

section \<open>Properties of the withdraw lane\<close>

definition wstarted :: "wnode \<Rightarrow> wst \<Rightarrow> bool" where
  "wstarted wn s \<longleftrightarrow> wtable_ok (withdrawals s) \<and> one_in_flight wn s \<and> ws_sends s = []"

text \<open>C7: however the API answers, and however often the lane runs: every request sent for a
  withdrawal is the same signed request, at one nonce with one signature; no more requests were
  sent than the row counts, at most fifteen; a withdrawal that failed was sent at most once, so one
  that may still land is never failed; and no two withdrawals of the signer are in flight.\<close>

theorem withdrawal_resent_unchanged:
  assumes "wstarted wn s" and "s' = withdraw_rounds wn n s"
  shows "(\<forall>i a g b h. (i, a, g) \<in> set (ws_sends s') \<and> (i, b, h) \<in> set (ws_sends s') \<longrightarrow> a = b \<and> g = h)
    \<and> (\<forall>r\<in>set (withdrawals s'). ln_kind r = KindWithdraw \<longrightarrow>
         length (filter (\<lambda>x. fst x = ln_id r) (ws_sends s')) \<le> ln_attempts r \<and> ln_attempts r \<le> 15
         \<and> (ln_status r = LaneFailed \<longrightarrow> ln_attempts r \<le> 1))
    \<and> (\<forall>r\<in>set (withdrawals s'). \<forall>q\<in>set (withdrawals s'). in_flight wn r \<and> in_flight wn q \<longrightarrow> r = q)"
proof -
  have "sends_ok s" using assms(1) by (simp add: wstarted_def sends_ok_def sends_of_def)
  with assms(1) have "winv wn s" by (simp add: wstarted_def winv_def)
  then have w: "winv wn s'" unfolding assms(2) by (rule withdraw_rounds_winv)
  have t: "wtable_ok (withdrawals s')" using w by (simp add: winv_def)
  have sent: "\<exists>r\<in>set (withdrawals s'). sent_as r x" if "x \<in> set (ws_sends s')" for x
    using w that unfolding winv_def sends_ok_def by blast
  have "a = b \<and> g = h" if ag: "(i, a, g) \<in> set (ws_sends s')" and bh: "(i, b, h) \<in> set (ws_sends s')" for i a g b h
  proof -
    obtain r q where "r \<in> set (withdrawals s')" "sent_as r (i, a, g)" "q \<in> set (withdrawals s')" "sent_as q (i, b, h)"
      using sent [OF ag] sent [OF bh] by blast
    moreover from this have "r = q" using wtable_unique [OF t] by (simp add: sent_as_def)
    ultimately show ?thesis by (simp add: sent_as_def)
  qed
  moreover have "length (filter (\<lambda>x. fst x = ln_id r) (ws_sends s')) \<le> ln_attempts r \<and> ln_attempts r \<le> 15
      \<and> (ln_status r = LaneFailed \<longrightarrow> ln_attempts r \<le> 1)"
    if r: "r \<in> set (withdrawals s')" "ln_kind r = KindWithdraw" for r
  proof -
    have "wrow_ok r" and "length (sends_of (ln_id r) s') \<le> ln_attempts r"
      using w r unfolding winv_def wtable_ok_def sends_ok_def is_withdrawal_def by blast+
    then show ?thesis
      by (cases "ln_status r") (auto simp: wrow_ok_def sends_of_def WITHDRAW_MAX_SENDS_def)
  qed
  ultimately show ?thesis
    using w unfolding winv_def one_in_flight_def by blast
qed

text \<open>An API that answers the first request not at all and then nothing until the nonce moves.\<close>

definition slow_api :: wnode where
  "slow_api =
     \<lparr>wn_signer = ''lp'', wn_nonce = (\<lambda>t. Inr (if t < 8 then 4 else 5)), wn_sign = (\<lambda>p n. ''g''),
      wn_reply = (\<lambda>t. NoReply), wn_time = (\<lambda>t. 100 * int t), wn_outer = (\<lambda>t. []),
      wn_transfers = (\<lambda>t r. r)\<rparr>"

definition one_withdrawal :: wst where
  "one_withdrawal =
     \<lparr>ws_db = \<lparr>db_quotes = [], db_swaps = [], db_evm = [],
        db_lanes = [lane_row_of ''lp'' 0 (withdrawal_intent ''w'' ''t'' 42) []], db_earns = []\<rparr>,
      ws_tick = 0, ws_sends = []\<rparr>"

theorem withdrawal_resent_unchanged_witness:
  "ws_sends (withdraw_rounds slow_api 2 one_withdrawal) = [(1, 4, ''g''), (1, 4, ''g'')]
    \<and> (\<exists>r\<in>set (withdrawals (withdraw_rounds slow_api 2 one_withdrawal)). ln_attempts r = 2 \<and> ln_attempts r \<le> 15)"
proof -
  have start: "wstarted slow_api one_withdrawal"
    by (simp add: wstarted_def one_withdrawal_def wtable_ok_def lane_row_of_def wrow_ok_def one_in_flight_def)
  have e: "let s = withdraw_rounds slow_api 2 one_withdrawal in
      (ws_sends s, map (\<lambda>r. (ln_kind r, ln_attempts r)) (withdrawals s))
        = ([(1, 4, ''g''), (1, 4, ''g'')], [(KindWithdraw, 2)])"
    by code_simp
  then obtain r where "r \<in> set (withdrawals (withdraw_rounds slow_api 2 one_withdrawal))"
    "ln_kind r = KindWithdraw" "ln_attempts r = 2"
    by (auto simp: Let_def map_eq_Cons_conv)
  with e withdrawal_resent_unchanged [OF start refl, of 2] show ?thesis
    unfolding Let_def prod.inject by blast
qed

end
