(* ===== verification/SwapStage.thy ===== *)
theory SwapStage
  imports Queues
begin

text \<open>
  The swap rows every stage reads and moves on (\<open>services/swap/stage.py\<close>), the order of one
  user's queued work (\<open>services/user_queue.py\<close>) and what a user is told of a swap that failed
  (\<open>services/swap/failure.py\<close>).

  A handler of a swap is an action on the state \<open>sst\<close>: the database and the number of readings
  of the outside world so far. \<open>clock\<close> reads the time; \<open>await\<close> asks an external service, and
  while it waits the other tasks of the process and the senders' threads may write
  (\<open>sv_other\<close>). The environment answers each reading as it likes, failures included. The state
  also has \<open>_last_cleanup\<close> of the quote service.
\<close>

section \<open>The environment of a handler\<close>

record settings =
  se_lp :: string
  se_chain :: int
  se_contract :: string
  se_fee_bps :: int
  se_lifi_enabled :: bool
  se_keys :: "string set"
  se_withdraw_lanes :: "string set"

record swap_env =
  sv_settings :: settings
  sv_now :: "nat \<Rightarrow> int"
  sv_other :: "nat \<Rightarrow> db \<Rightarrow> db"
  sv_sanitize :: "string \<Rightarrow> string"
  sv_scrub :: "string \<Rightarrow> string"
  sv_encode_transfer :: "string \<Rightarrow> string \<Rightarrow> int \<Rightarrow> nat \<Rightarrow> string \<Rightarrow> string"

record sst =
  st_db :: db
  st_tick :: nat
  st_last_cleanup :: int

type_synonym 'a sact = "(sst, exc, 'a) act"

definition clock :: "'e swap_env_scheme \<Rightarrow> int sact" where
  "clock env = (\<lambda>s. (Inr (sv_now env (st_tick s)), s\<lparr>st_tick := Suc (st_tick s)\<rparr>))"

definition await :: "'e swap_env_scheme \<Rightarrow> (nat \<Rightarrow> exc + 'a) \<Rightarrow> 'a sact" where
  "await env f =
     (\<lambda>s. (f (st_tick s),
           s\<lparr>st_db := sv_other env (st_tick s) (st_db s), st_tick := Suc (st_tick s)\<rparr>))"

text \<open>Reading and writing the database between two waits.\<close>

definition query :: "(db \<Rightarrow> 'a) \<Rightarrow> 'a sact" where
  "query f = getA (\<lambda>s. f (st_db s))"

definition on_db :: "(db \<Rightarrow> (exc + 'a) \<times> db) \<Rightarrow> 'a sact" where
  "on_db f = (\<lambda>s. case f (st_db s) of (x, d) \<Rightarrow> (x, s\<lparr>st_db := d\<rparr>))"

definition on_swaps :: "(swap list \<Rightarrow> (exc + 'a) \<times> swap list) \<Rightarrow> 'a sact" where
  "on_swaps f = on_db (\<lambda>d. case f (db_swaps d) of (x, t) \<Rightarrow> (x, d\<lparr>db_swaps := t\<rparr>))"

definition on_evm :: "(evm_tx list \<Rightarrow> (exc + 'a) \<times> evm_tx list) \<Rightarrow> 'a sact" where
  "on_evm f = on_db (\<lambda>d. case f (db_evm d) of (x, t) \<Rightarrow> (x, d\<lparr>db_evm := t\<rparr>))"

definition on_lanes :: "(lane_row list \<Rightarrow> (exc + 'a) \<times> lane_row list) \<Rightarrow> 'a sact" where
  "on_lanes f = on_db (\<lambda>d. case f (db_lanes d) of (x, t) \<Rightarrow> (x, d\<lparr>db_lanes := t\<rparr>))"

section \<open>One user's queued work\<close>

definition swap_in_flight :: "swap_status \<Rightarrow> bool" where
  "swap_in_flight s \<longleftrightarrow> s = SwapExecuting"

definition earn_in_flight :: "earn_status \<Rightarrow> bool" where
  "earn_in_flight s \<longleftrightarrow> s = EarnExecuting \<or> s = EarnPending"

definition users_with_inflight_work :: "db \<Rightarrow> string list" where
  "users_with_inflight_work d =
     remdups (map lower (filter (\<lambda>u. u \<noteq> [])
       (map sw_user (filter (swap_in_flight \<circ> sw_status) (db_swaps d))
        @ map ea_user (filter (earn_in_flight \<circ> ea_status) (db_earns d)))))"

definition swap_holds_nonce :: "swap_status \<Rightarrow> bool" where
  "swap_holds_nonce s \<longleftrightarrow> s = SwapScheduled \<or> swap_in_flight s"

definition earn_holds_nonce :: "earn_status \<Rightarrow> bool" where
  "earn_holds_nonce s \<longleftrightarrow> s = EarnScheduled \<or> earn_in_flight s"

text \<open>A failed read of the current nonce lets the request through.\<close>

definition assert_nonce_unspent :: "(string \<Rightarrow> exc + nat) \<Rightarrow> string \<Rightarrow> nat \<Rightarrow> exc + unit" where
  "assert_nonce_unspent transfer_nonce user_address input_nonce =
     (case transfer_nonce user_address of
        Inl _ \<Rightarrow> Inr ()
      | Inr current \<Rightarrow>
          if input_nonce < current then Inl (StaleNonce input_nonce current) else Inr ())"

definition assert_nonce_free :: "string \<Rightarrow> nat \<Rightarrow> db \<Rightarrow> exc + unit" where
  "assert_nonce_free user_address input_nonce d =
     (let user = lower user_address;
          swaps = filter (\<lambda>r. sw_user r = user \<and> sw_input_nonce r = input_nonce
                            \<and> swap_holds_nonce (sw_status r)) (db_swaps d);
          earns = filter (\<lambda>r. ea_user r = user \<and> ea_op r = OpDeposit \<and> ea_input_nonce r = Some input_nonce
                            \<and> earn_holds_nonce (ea_status r)) (db_earns d)
      in case map (\<lambda>r. (''swap'', sw_id r)) swaps @ map (\<lambda>r. (''earn_deposit'', ea_id r)) earns of
           [] \<Rightarrow> Inr ()
         | (kind, i) # _ \<Rightarrow> Inl (OperationPending kind i))"

section \<open>The rows of swaps\<close>

definition ROUND_LIMIT :: int where
  "ROUND_LIMIT = 100"

definition owner :: "string \<Rightarrow> string \<Rightarrow> string" where
  "owner swap_id kind = ''swap:'' @ swap_id @ CHR '':'' # kind"

text \<open>The calldata of \<open>Accounting.transferBalance\<close> comes from web3 (\<open>sv_encode_transfer\<close>).\<close>

record evm_call =
  ca_to :: string
  ca_data :: string
  ca_value :: int

definition input_transfer_call :: "'e swap_env_scheme \<Rightarrow> swap \<Rightarrow> evm_call" where
  "input_transfer_call env sw =
     \<lparr>ca_to = se_contract (sv_settings env),
      ca_data = sv_encode_transfer env (se_lp (sv_settings env)) (sw_from_token sw) (sw_from_amount sw)
        (sw_input_nonce sw) (sw_input_sig sw),
      ca_value = 0\<rparr>"

definition waited :: "'e swap_env_scheme \<Rightarrow> swap \<Rightarrow> int \<Rightarrow> bool sact" where
  "waited env sw seconds = bindA (clock env) (\<lambda>now. ret (now - sw_updated sw \<ge> seconds))"

text \<open>Whether the swap is where the handler read it; subscripting a missing row raises.\<close>

definition still_at :: "swap \<Rightarrow> swap list \<Rightarrow> exc + bool" where
  "still_at sw t =
     (case find_row sw_id (sw_id sw) t of
        None \<Rightarrow> Inl TypeError
      | Some row \<Rightarrow> Inr (sw_status row = sw_status sw \<and> sw_step row = sw_step sw))"

text \<open>\<open>_update\<close>: the write is made only while the swap is where the handler read it.\<close>

definition same_place :: "swap \<Rightarrow> swap \<Rightarrow> bool" where
  "same_place sw r \<longleftrightarrow> sw_id r = sw_id sw \<and> sw_status r = sw_status sw \<and> sw_step r = sw_step sw"

definition update_swap :: "int \<Rightarrow> swap \<Rightarrow> (swap \<Rightarrow> swap) \<Rightarrow> swap list \<Rightarrow> (exc + bool) \<times> swap list" where
  "update_swap now sw cols t =
     (if row_count (same_place sw) t \<noteq> 0
      then (Inr True, update_where (same_place sw) (\<lambda>r. (cols r)\<lparr>sw_updated := now\<rparr>) t)
      else (bindE (still_at sw t) (\<lambda>_. Inr False), t))"

definition update :: "'e swap_env_scheme \<Rightarrow> swap \<Rightarrow> (swap \<Rightarrow> swap) \<Rightarrow> bool sact" where
  "update env sw cols = bindA (clock env) (\<lambda>now. on_swaps (update_swap now sw cols))"

definition advance ::
  "'e swap_env_scheme \<Rightarrow> swap \<Rightarrow> swap_step \<Rightarrow> swap_status option \<Rightarrow> (swap \<Rightarrow> swap) \<Rightarrow> bool sact" where
  "advance env sw step status cols =
     update env sw (\<lambda>r. (cols r)\<lparr>sw_status := (case status of None \<Rightarrow> sw_status sw | Some x \<Rightarrow> x),
                                   sw_step := Some step\<rparr>)"

definition finish_swap ::
  "'e swap_env_scheme \<Rightarrow> swap \<Rightarrow> swap_status \<Rightarrow> (swap \<Rightarrow> swap) \<Rightarrow> bool sact" where
  "finish_swap env sw status cols = update env sw (\<lambda>r. (cols r)\<lparr>sw_status := status\<rparr>)"

definition note_swap :: "swap \<Rightarrow> string \<Rightarrow> bool sact" where
  "note_swap sw reason =
     (if sw_error sw = Some reason then ret False
      else seqA (on_swaps (\<lambda>t. (Inr (), update_where (\<lambda>r. sw_id r = sw_id sw) (\<lambda>r. r\<lparr>sw_error := Some reason\<rparr>) t)))
        (ret True))"

definition fail :: "'e swap_env_scheme \<Rightarrow> swap \<Rightarrow> swap_step \<Rightarrow> string \<Rightarrow> bool sact" where
  "fail env sw outcome error =
     update env sw (\<lambda>r. r\<lparr>sw_status := SwapFailed, sw_step := Some outcome,
       sw_error := Some (if outcome = Parked then error @ ''; manual recovery required'' else error)\<rparr>)"

text \<open>The oldest swaps at some steps; a negative limit is none.\<close>

definition swaps_at :: "swap_step list \<Rightarrow> int \<Rightarrow> db \<Rightarrow> swap list" where
  "swaps_at steps limit d =
     sql_limit limit (sort_key sw_created
       (filter (\<lambda>r. sw_status r \<in> {SwapExecuting, SwapRefunding} \<and> sw_step r \<in> Some ` set steps) (db_swaps d)))"

fun claim_rows ::
  "'e swap_env_scheme \<Rightarrow> swap_venue \<Rightarrow> swap_step \<Rightarrow> string list \<Rightarrow> int \<Rightarrow> swap list \<Rightarrow> unit sact" where
  "claim_rows env venue step users limit [] = ret ()"
| "claim_rows env venue step users limit (sw # rows) =
     (let user = lower (sw_user sw) in
      if user \<in> set users then claim_rows env venue step users limit rows
      else if sw_venue sw \<noteq> venue then claim_rows env venue step (user # users) limit rows
      else seqA (advance env sw step (Some SwapExecuting) id)
        (if limit - 1 = 0 then ret () else claim_rows env venue step (user # users) (limit - 1) rows))"

definition scheduled_swaps :: "db \<Rightarrow> swap list" where
  "scheduled_swaps d = sort_key sw_created (filter (\<lambda>r. sw_status r = SwapScheduled) (db_swaps d))"

definition claim :: "'e swap_env_scheme \<Rightarrow> swap_venue \<Rightarrow> swap_step \<Rightarrow> int \<Rightarrow> unit sact" where
  "claim env venue step limit =
     (if limit \<le> 0 then ret ()
      else bindA (query users_with_inflight_work) (\<lambda>users.
        bindA (query scheduled_swaps) (claim_rows env venue step users limit)))"

text \<open>The swaps are handled concurrently. Here they are handled in their order; the steps of the
  others that run while one waits are among the writes of \<open>sv_other\<close>. An exception ends only the
  handling of its swap.\<close>

fun handle_each :: "swap list \<Rightarrow> (swap \<Rightarrow> unit sact) \<Rightarrow> unit sact" where
  "handle_each [] handle = ret ()"
| "handle_each (sw # swaps) handle = seqA (catchA (handle sw) (\<lambda>_. ret ())) (handle_each swaps handle)"

section \<open>What the user is told\<close>

datatype failure_reason = Refunded | NoFunds | NeedsSupport

definition swap_failure :: "string \<Rightarrow> swap_status \<Rightarrow> swap_step option \<Rightarrow> (failure_reason \<times> string) option" where
  "swap_failure swap_id status step =
     (if status = SwapRefunded
      then Some (Refunded, ''This swap did not go through, and your funds were returned.'')
      else if status \<noteq> SwapFailed then None
      else if step = Some NoFundsMoved
      then Some (NoFunds, ''This swap did not go through. No funds were moved.'')
      else Some (NeedsSupport,
        ''This swap could not be completed and your funds were not returned automatically. ''
        @ ''Contact Privana support with swap ID '' @ swap_id @ '' to get them back.''))"

section \<open>Facts about the writes\<close>

lemma update_run:
  "update env sw f s =
     (let now = sv_now env (st_tick s); t = db_swaps (st_db s)
      in (fst (update_swap now sw f t),
          s\<lparr>st_db := (st_db s)\<lparr>db_swaps := snd (update_swap now sw f t)\<rparr>, st_tick := Suc (st_tick s)\<rparr>))"
  by (simp add: update_def bindA_def clock_def on_swaps_def on_db_def Let_def split: prod.splits)

lemma query_run: "query f s = (Inr (f (st_db s)), s)"
  by (simp add: query_def getA_def)

lemma row_count_pos: "row_count p t \<noteq> 0 \<longleftrightarrow> (\<exists>r\<in>set t. p r)"
  using row_count_0 [of p t] by auto

text \<open>With one row per id, the write hits the row it was read from, or nothing.\<close>

lemma update_swap_hit:
  assumes "sw \<in> set t"
  shows "update_swap now sw f t = (Inr True, update_where (same_place sw) (\<lambda>r. (f r)\<lparr>sw_updated := now\<rparr>) t)"
  using assms row_count_pos [of "same_place sw" t] by (auto simp: update_swap_def same_place_def)

lemma same_place_unique:
  assumes "distinct (map sw_id t)" and "sw \<in> set t" and "r \<in> set t"
  shows "same_place sw r \<longleftrightarrow> r = sw"
  using assms by (metis distinct_map inj_onD same_place_def)

lemma update_where_cong:
  "(\<And>r. r \<in> set t \<Longrightarrow> p r = q r) \<Longrightarrow> (\<And>r. r \<in> set t \<Longrightarrow> q r \<Longrightarrow> f r = g r) \<Longrightarrow>
     update_where p f t = update_where q g t"
  by (simp add: update_where_def)

section \<open>One operation in flight per user\<close>

definition flights :: "string \<Rightarrow> db \<Rightarrow> nat" where
  "flights u d =
     length (filter (\<lambda>r. lower (sw_user r) = u \<and> swap_in_flight (sw_status r)) (db_swaps d))
     + length (filter (\<lambda>r. lower (ea_user r) = u \<and> earn_in_flight (ea_status r)) (db_earns d))"

lemma flights_0:
  assumes "u \<notin> set (users_with_inflight_work d)" and "u \<noteq> []"
  shows "flights u d = 0"
proof -
  have "lower x = u \<Longrightarrow> x \<noteq> []" for x using assms(2) by auto
  with assms show ?thesis
    by (fastforce simp: flights_def users_with_inflight_work_def filter_empty_conv)
qed

lemma filter_update_one:
  assumes "distinct (map k t)" and "x \<in> set t" and "\<not> P x" and "\<And>r. k (f r) = k r"
  shows "length (filter P (update_where (\<lambda>r. r = x) f t)) = length (filter P t) + (if P (f x) then 1 else 0)"
  using assms
proof (induction t)
  case (Cons a t)
  show ?case
  proof (cases "a = x")
    case True
    with Cons.prems have "\<forall>r\<in>set t. \<not> (r = x)" by auto
    then have "update_where (\<lambda>r. r = x) f t = t" by (rule update_where_none)
    with True Cons.prems show ?thesis by simp
  next
    case False
    with Cons show ?thesis by simp
  qed
qed simp

text \<open>A claimed swap, as its row is written.\<close>

definition claimed :: "int \<Rightarrow> swap_step \<Rightarrow> swap \<Rightarrow> swap" where
  "claimed now step r = r\<lparr>sw_status := SwapExecuting, sw_step := Some step, sw_updated := now\<rparr>"

lemma advance_claim:
  assumes "distinct (map sw_id (db_swaps (st_db s)))" and "sw \<in> set (db_swaps (st_db s))"
  shows "advance env sw step (Some SwapExecuting) id s =
     (Inr True, s\<lparr>st_db := (st_db s)\<lparr>db_swaps :=
          update_where (\<lambda>r. r = sw) (claimed (sv_now env (st_tick s)) step) (db_swaps (st_db s))\<rparr>,
        st_tick := Suc (st_tick s)\<rparr>)"
  using assms update_where_cong [of "db_swaps (st_db s)" "same_place sw" "\<lambda>r. r = sw"]
    same_place_unique [of "db_swaps (st_db s)" sw]
  by (simp add: advance_def update_run update_swap_hit Let_def claimed_def [abs_def])

lemma flights_claimed:
  assumes "distinct (map sw_id t)" and "sw \<in> set t" and "sw_status sw = SwapScheduled"
  shows "flights u (d\<lparr>db_swaps := update_where (\<lambda>r. r = sw) (claimed now step) t\<rparr>)
    = flights u (d\<lparr>db_swaps := t\<rparr>) + (if lower (sw_user sw) = u then 1 else 0)"
  using assms
    filter_update_one [of sw_id t sw "\<lambda>r. lower (sw_user r) = u \<and> swap_in_flight (sw_status r)" "claimed now step"]
  by (simp add: flights_def claimed_def swap_in_flight_def)

text \<open>What claiming from the rows \<open>rows\<close> does: the claimed swaps \<open>ps\<close> are at most \<open>limit\<close>, of the
  venue, each the oldest of its user's rows and of a user with nothing in flight.\<close>

definition claims ::
  "string list \<Rightarrow> int \<Rightarrow> swap_venue \<Rightarrow> swap_step \<Rightarrow> swap list \<Rightarrow> swap list \<Rightarrow> db \<Rightarrow> db \<Rightarrow> bool" where
  "claims users limit venue step rows ps d d' \<longleftrightarrow>
     (\<forall>u. u \<noteq> [] \<longrightarrow> flights u d' \<le> 1)
     \<and> set ps \<subseteq> set rows \<and> int (length ps) \<le> limit
     \<and> (\<forall>r\<in>set ps. sw_venue r = venue \<and> lower (sw_user r) \<notin> set users
          \<and> (\<forall>r2\<in>set rows. lower (sw_user r2) = lower (sw_user r) \<longrightarrow> sw_created r \<le> sw_created r2))
     \<and> (\<exists>now. d' = d\<lparr>db_swaps := map (\<lambda>r. if r \<in> set ps then claimed (now r) step r else r) (db_swaps d)\<rparr>)"

lemma claims_skip:
  assumes "claims (lower (sw_user sw) # users) limit venue step rows ps d d'"
  shows "claims users limit venue step (sw # rows) ps d d'"
  using assms unfolding claims_def by auto

lemma claims_blocked:
  assumes "claims users limit venue step rows ps d d'" and "lower (sw_user sw) \<in> set users"
  shows "claims users limit venue step (sw # rows) ps d d'"
  using assms unfolding claims_def by auto

lemma claims_none:
  assumes "\<forall>u. u \<noteq> [] \<longrightarrow> flights u d \<le> 1" and "0 \<le> limit"
  shows "claims users limit venue step rows [] d d"
  using assms unfolding claims_def by (auto intro!: exI [of _ "\<lambda>_. 0"])

lemma claims_take:
  assumes t: "distinct (map sw_id (db_swaps d))" "sw \<in> set (db_swaps d)"
    and rows: "sw_id sw \<notin> sw_id ` set rows" "\<forall>r\<in>set rows. sw_created sw \<le> sw_created r"
    and venue: "sw_venue sw = venue" and user: "lower (sw_user sw) \<notin> set users"
    and rest: "claims (lower (sw_user sw) # users) (limit - 1) venue step rows ps
      (d\<lparr>db_swaps := update_where (\<lambda>r. r = sw) (claimed now step) (db_swaps d)\<rparr>) d'"
  shows "claims users limit venue step (sw # rows) (sw # ps) d d'"
proof -
  let ?t = "update_where (\<lambda>r. r = sw) (claimed now step) (db_swaps d)"
  from rest obtain at where ps: "set ps \<subseteq> set rows"
    and d': "d' = d\<lparr>db_swaps := map (\<lambda>r. if r \<in> set ps then claimed (at r) step r else r) ?t\<rparr>"
    unfolding claims_def by auto
  have "sw_id (claimed now step sw) = sw_id sw" by (simp add: claimed_def)
  then have "claimed now step sw \<notin> set ps" and "sw \<notin> set ps"
    using ps rows(1) by (metis image_eqI subsetD)+
  then have "map (\<lambda>r. if r \<in> set ps then claimed (at r) step r else r) ?t
      = map (\<lambda>r. if r \<in> set (sw # ps) then claimed ((at(sw := now)) r) step r else r) (db_swaps d)"
    by (simp add: update_where_def)
  then have "\<exists>now. d' = d\<lparr>db_swaps := map (\<lambda>r. if r \<in> set (sw # ps) then claimed (now r) step r else r) (db_swaps d)\<rparr>"
    unfolding d' by (intro exI [of _ "at(sw := now)"]) simp
  with rest rows venue user show ?thesis
    unfolding claims_def by auto
qed

definition claimable :: "string list \<Rightarrow> swap list \<Rightarrow> db \<Rightarrow> bool" where
  "claimable users rows d \<longleftrightarrow>
     distinct (map sw_id (db_swaps d)) \<and> distinct (map sw_id rows) \<and> sorted (map sw_created rows)
     \<and> (\<forall>r\<in>set rows. r \<in> set (db_swaps d) \<and> sw_status r = SwapScheduled)
     \<and> (\<forall>u. u \<noteq> [] \<longrightarrow> flights u d \<le> 1 \<and> (u \<notin> set users \<longrightarrow> flights u d = 0))"

lemma claimable_taken:
  assumes "claimable users (sw # rows) d" and "lower (sw_user sw) \<notin> set users"
  shows "claimable (lower (sw_user sw) # users) rows
    (d\<lparr>db_swaps := update_where (\<lambda>r. r = sw) (claimed now step) (db_swaps d)\<rparr>)"
proof -
  let ?t = "update_where (\<lambda>r. r = sw) (claimed now step) (db_swaps d)"
  from assms have t: "distinct (map sw_id (db_swaps d))" "sw \<in> set (db_swaps d)" "sw_status sw = SwapScheduled"
    by (auto simp: claimable_def)
  have "flights u (d\<lparr>db_swaps := ?t\<rparr>) = flights u d + (if lower (sw_user sw) = u then 1 else 0)" for u
    using flights_claimed [OF t, where u = u and d = d and now = now and step = step] by simp
  moreover have "map sw_id ?t = map sw_id (db_swaps d)"
    by (rule map_update_where) (simp add: claimed_def)
  moreover have "r \<in> set ?t" if "r \<in> set rows" for r
  proof -
    from assms that have "r \<in> set (db_swaps d)" "r \<noteq> sw" by (auto simp: claimable_def)
    then show ?thesis by (auto simp: set_update_where image_iff)
  qed
  ultimately show ?thesis
    using assms by (auto simp: claimable_def)
qed

lemma claim_rows_claims:
  assumes "claimable users rows (st_db s)" and "0 < limit"
  shows "\<exists>ps s'. claim_rows env venue step users limit rows s = (Inr (), s')
    \<and> claims users limit venue step rows ps (st_db s) (st_db s')"
  using assms
proof (induction rows arbitrary: users limit s)
  case Nil
  have "claims users limit venue step [] [] (st_db s) (st_db s)"
    using Nil.prems by (intro claims_none) (auto simp: claimable_def)
  then show ?case by (auto simp: ret_def)
next
  case (Cons sw rows)
  let ?u = "lower (sw_user sw)"
  have tail: "claimable users' rows (st_db s)" if "set users \<subseteq> set users'" for users'
    using Cons.prems(1) that by (auto simp: claimable_def)
  consider (blocked) "?u \<in> set users" | (other) "?u \<notin> set users" "sw_venue sw \<noteq> venue"
    | (take) "?u \<notin> set users" "sw_venue sw = venue" by blast
  then show ?case
  proof cases
    case blocked
    with Cons.IH [OF tail [of users] Cons.prems(2)] show ?thesis
      by (auto simp: Let_def intro: claims_blocked)
  next
    case other
    have "set users \<subseteq> set (?u # users)" by auto
    from Cons.IH [OF tail [OF this] Cons.prems(2)] other show ?thesis
      by (auto simp: Let_def intro: claims_skip)
  next
    case take
    let ?s = "s\<lparr>st_db := (st_db s)\<lparr>db_swaps := update_where (\<lambda>r. r = sw)
        (claimed (sv_now env (st_tick s)) step) (db_swaps (st_db s))\<rparr>, st_tick := Suc (st_tick s)\<rparr>"
    from Cons.prems have t: "distinct (map sw_id (db_swaps (st_db s)))" "sw \<in> set (db_swaps (st_db s))"
      and rows: "sw_id sw \<notin> sw_id ` set rows" "\<forall>r\<in>set rows. sw_created sw \<le> sw_created r"
      by (auto simp: claimable_def)
    have step: "advance env sw step (Some SwapExecuting) id s = (Inr True, ?s)"
      by (rule advance_claim [OF t])
    have next': "claimable (?u # users) rows (st_db ?s)"
      using claimable_taken [OF Cons.prems(1) take(1)] by simp
    show ?thesis
    proof (cases "limit - 1 = 0")
      case True
      have "claims (?u # users) (limit - 1) venue step rows [] (st_db ?s) (st_db ?s)"
        using next' True by (intro claims_none) (auto simp: claimable_def)
      then have "claims users limit venue step (sw # rows) [sw] (st_db s) (st_db ?s)"
        using claims_take [OF t rows take(2,1)] by simp
      with True take step show ?thesis
        by (auto simp: Let_def seqA_eq ret_def)
    next
      case False
      with Cons.prems(2) have "0 < limit - 1" by simp
      from Cons.IH [OF next' this] obtain ps s' where
        run: "claim_rows env venue step (?u # users) (limit - 1) rows ?s = (Inr (), s')"
        and ps: "claims (?u # users) (limit - 1) venue step rows ps (st_db ?s) (st_db s')" by blast
      from ps have "claims users limit venue step (sw # rows) (sw # ps) (st_db s) (st_db s')"
        using claims_take [OF t rows take(2,1)] by simp
      with False take step run show ?thesis
        by (auto simp: Let_def seqA_eq)
    qed
  qed
qed

lemma claimable_scheduled:
  assumes "distinct (map sw_id (db_swaps d))" and "\<forall>u. u \<noteq> [] \<longrightarrow> flights u d \<le> 1"
  shows "claimable (users_with_inflight_work d) (scheduled_swaps d) d"
proof -
  have "distinct (map sw_id (scheduled_swaps d))"
    using assms(1) by (simp add: scheduled_swaps_def distinct_map inj_on_def)
  with assms show ?thesis
    by (auto simp: claimable_def scheduled_swaps_def intro: flights_0)
qed

text \<open>C3: claiming keeps at most one operation of a user in flight, swaps and earn operations
  together. It takes at most \<open>limit\<close> swaps, all of the stage's venue; each was scheduled, its user
  had nothing in flight, and none of the user's other scheduled swaps is older. Nothing else
  changes.\<close>

theorem claim_one_per_user:
  assumes "distinct (map sw_id (db_swaps (st_db s)))"
    and "\<forall>u. u \<noteq> [] \<longrightarrow> flights u (st_db s) \<le> 1"
    and "claim env venue step limit s = (r, s')"
  shows "r = Inr () \<and> (\<forall>u. u \<noteq> [] \<longrightarrow> flights u (st_db s') \<le> 1)
    \<and> (\<exists>ps now. int (length ps) \<le> max 0 limit
         \<and> (\<forall>p\<in>set ps. p \<in> set (db_swaps (st_db s)) \<and> sw_status p = SwapScheduled \<and> sw_venue p = venue
              \<and> lower (sw_user p) \<notin> set (users_with_inflight_work (st_db s))
              \<and> (\<forall>q\<in>set (db_swaps (st_db s)). sw_status q = SwapScheduled \<longrightarrow> lower (sw_user q) = lower (sw_user p)
                   \<longrightarrow> sw_created p \<le> sw_created q))
         \<and> st_db s' = (st_db s)\<lparr>db_swaps :=
              map (\<lambda>q. if q \<in> set ps then claimed (now q) step q else q) (db_swaps (st_db s))\<rparr>)"
proof (cases "limit \<le> 0")
  case True
  then have "r = Inr ()" "s' = s" using assms(3) by (simp_all add: claim_def ret_def)
  with assms(2) show ?thesis by (auto intro!: exI [of _ "[]"])
next
  case False
  let ?d = "st_db s"
  have rows: "set (scheduled_swaps ?d) = {q \<in> set (db_swaps ?d). sw_status q = SwapScheduled}"
    by (simp add: scheduled_swaps_def)
  obtain ps where "r = Inr ()"
    and ps: "claims (users_with_inflight_work ?d) limit venue step (scheduled_swaps ?d) ps ?d (st_db s')"
    using claim_rows_claims [OF claimable_scheduled [OF assms(1,2)], where limit = limit and env = env
        and venue = venue and step = step] False assms(3)
    by (auto simp: claim_def bindA_def query_run)
  from ps obtain now where "st_db s' = ?d\<lparr>db_swaps := map (\<lambda>q. if q \<in> set ps then claimed (now q) step q else q) (db_swaps ?d)\<rparr>"
    unfolding claims_def by blast
  moreover from ps rows have "\<forall>p\<in>set ps. p \<in> set (db_swaps ?d) \<and> sw_status p = SwapScheduled \<and> sw_venue p = venue
      \<and> lower (sw_user p) \<notin> set (users_with_inflight_work ?d)
      \<and> (\<forall>q\<in>set (db_swaps ?d). sw_status q = SwapScheduled \<longrightarrow> lower (sw_user q) = lower (sw_user p)
           \<longrightarrow> sw_created p \<le> sw_created q)"
    unfolding claims_def by blast
  moreover from ps have "\<forall>u. u \<noteq> [] \<longrightarrow> flights u (st_db s') \<le> 1"
    unfolding claims_def by blast
  moreover from ps False have "int (length ps) \<le> max 0 limit"
    unfolding claims_def by simp
  ultimately show ?thesis using \<open>r = Inr ()\<close> by blast
qed

definition some_env :: swap_env where
  "some_env =
     \<lparr>sv_settings = \<lparr>se_lp = ''0xlp'', se_chain = 23294, se_contract = ''0xacc'', se_fee_bps = 50,
        se_lifi_enabled = True, se_keys = {''0xlp''}, se_withdraw_lanes = {''0xlp''}\<rparr>,
      sv_now = (\<lambda>n. 100), sv_other = (\<lambda>n. id), sv_sanitize = id, sv_scrub = id, sv_encode_transfer = (\<lambda>_ _ _ _ _. ''0x'')\<rparr>"

definition new_swap :: "string \<Rightarrow> string \<Rightarrow> int \<Rightarrow> swap" where
  "new_swap swap_id user created =
     \<lparr>sw_id = swap_id, sw_quote = ''q'', sw_user = user, sw_from_token = ''A'', sw_to_token = ''B'',
      sw_from_amount = 1000, sw_estimate = 990, sw_actual = None, sw_status = SwapScheduled,
      sw_tx_hash = None, sw_error = None, sw_created = created, sw_updated = created,
      sw_venue = VenueLifi, sw_step = None, sw_lifi_tx = None, sw_deposit_tx = None,
      sw_received = None, sw_executed = None, sw_input_nonce = 0, sw_input_sig = ''s''\<rparr>"

definition three_swaps :: sst where
  "three_swaps = \<lparr>st_db = \<lparr>db_quotes = [],
      db_swaps = [new_swap ''a'' ''0xU'' 9, new_swap ''b'' ''0xu'' 7, new_swap ''c'' ''0xv'' 8],
      db_evm = [], db_lanes = [], db_earns = []\<rparr>, st_tick = 0, st_last_cleanup = 0\<rparr>"

theorem claim_one_per_user_witness:
  "fst (claim some_env VenueLifi InputSent 5 three_swaps) = Inr ()
    \<and> flights ''0xu'' (st_db (snd (claim some_env VenueLifi InputSent 5 three_swaps))) = 1"
proof -
  have "\<forall>u. u \<noteq> [] \<longrightarrow> flights u (st_db three_swaps) \<le> 1"
    by (simp add: flights_def three_swaps_def new_swap_def swap_in_flight_def)
  moreover have "distinct (map sw_id (db_swaps (st_db three_swaps)))"
    by (simp add: three_swaps_def new_swap_def)
  moreover have "flights ''0xu'' (st_db (snd (claim some_env VenueLifi InputSent 5 three_swaps))) = 1"
    by code_simp
  ultimately show ?thesis
    using claim_one_per_user [of three_swaps some_env VenueLifi InputSent 5]
    by (cases "claim some_env VenueLifi InputSent 5 three_swaps") auto
qed

end
