(* ===== verification/LifiPipeline.thy ===== *)
theory LifiPipeline
  imports SwapStage PrivanaLanes Fees
begin

text \<open>
  The stages of a swap filled through LiFi (\<open>services/swap/lifi_pipeline.py\<close>): one definition per
  handler, every branch of it. The services the handlers await (the Accounting contract, the
  wallet's node, LiFi, the Privana API) are functions of the record \<open>lifi_env\<close>; their replies are
  read as the values the code uses, and any of them may raise.
\<close>

section \<open>What the handlers ask\<close>

text \<open>A token's chain, 0 when Accounting names none, and its address there.\<close>

record token_info =
  ti_chain :: int
  ti_address :: "string option"

record quote_request =
  qr_from_chain :: int
  qr_to_chain :: int
  qr_from_token :: string
  qr_to_token :: string
  qr_amount :: string
  qr_from_address :: string
  qr_slippage :: int

text \<open>LiFi's transaction request. \<open>gasLimit\<close> and \<open>value\<close> as \<open>int(..., 16)\<close> reads them, which
  may raise.\<close>

record tx_request =
  rq_chain :: "int option"
  rq_to :: string
  rq_gas :: "exc + int"
  rq_data :: string
  rq_value :: "exc + int"

record exec_quote =
  xq_to_amount :: int
  xq_min :: int
  xq_approval :: string
  xq_request :: tx_request

text \<open>The delivery LiFi reports, and its text for an error.\<close>

record receiving =
  rc_chain :: int
  rc_token :: string
  rc_amount :: int
  rc_text :: string

record route_status =
  rs_state :: "string option"
  rs_substatus :: "string option"
  rs_receiving :: "receiving option"
  rs_to :: string

record log_entry =
  lg_address :: string
  lg_topics :: "string list"
  lg_data :: string

record lifi_env = swap_env +
  lx_nonce :: "nat \<Rightarrow> string \<Rightarrow> exc + nat"
  lx_token :: "nat \<Rightarrow> string \<Rightarrow> exc + token_info"
  lx_client :: "nat \<Rightarrow> int \<Rightarrow> exc + string"
  lx_gas_cost :: "nat \<Rightarrow> int \<Rightarrow> int \<Rightarrow> exc + int"
  lx_balance :: "nat \<Rightarrow> int \<Rightarrow> string option \<Rightarrow> exc + int"
  lx_quote :: "nat \<Rightarrow> quote_request \<Rightarrow> exc + exec_quote"
  lx_status :: "nat \<Rightarrow> string option \<Rightarrow> int \<Rightarrow> int \<Rightarrow> exc + route_status"
  lx_deposit_address :: "nat \<Rightarrow> exc + string"
  lx_check_deposit :: "nat \<Rightarrow> int \<Rightarrow> string option \<Rightarrow> int \<Rightarrow> exc + string"
  lx_encode :: "string \<Rightarrow> string list \<Rightarrow> int \<Rightarrow> string"
  lx_logs :: "string \<Rightarrow> log_entry list"
  lx_swap_topic :: string
  lx_decode :: "string \<Rightarrow> exc + (string \<times> string \<times> int)"

text \<open>A reading that does not wait: other tasks do not run.\<close>

definition ask :: "'e swap_env_scheme \<Rightarrow> (nat \<Rightarrow> exc + 'a) \<Rightarrow> 'a sact" where
  "ask env f = (\<lambda>s. (f (st_tick s), s\<lparr>st_tick := Suc (st_tick s)\<rparr>))"

definition ignore :: "'a sact \<Rightarrow> unit sact" where
  "ignore m = seqA m (ret ())"

section \<open>Constants\<close>

definition INPUT :: string where "INPUT = ''input''"
definition WITHDRAW :: string where "WITHDRAW = ''withdraw''"
definition APPROVE :: string where "APPROVE = ''approve''"
definition LIFI :: string where "LIFI = ''lifi''"
definition DEPOSIT :: string where "DEPOSIT = ''deposit''"
definition REFUND :: string where "REFUND = ''refund''"
definition CREDIT :: string where "CREDIT = ''credit''"
definition REFUND_PAYOUT :: string where "REFUND_PAYOUT = ''refund_payout''"

lemmas kind_defs = INPUT_def WITHDRAW_def APPROVE_def LIFI_def DEPOSIT_def REFUND_def CREDIT_def REFUND_PAYOUT_def

definition sent_at :: "string \<Rightarrow> swap_step" where
  "sent_at kind = (if kind = LIFI then ExecuteSent else if kind = REFUND then RefundRedeposit else DepositSent)"

definition CLAIM_LIMIT :: int where "CLAIM_LIMIT = 5"
definition WITHDRAW_QUEUE_WAIT_SEC :: int where "WITHDRAW_QUEUE_WAIT_SEC = 3600"
definition FUNDING_WAIT_SEC :: int where "FUNDING_WAIT_SEC = 1800"
definition BRIDGE_WAIT_SEC :: int where "BRIDGE_WAIT_SEC = 4320"
definition CREDITING_WAIT_SEC :: int where "CREDITING_WAIT_SEC = 3600"
definition GAS_RETRY_SEC :: int where "GAS_RETRY_SEC = 60"
definition DEFAULT_GAS_LIMIT :: int where "DEFAULT_GAS_LIMIT = 500000"
definition NATIVE_TRANSFER_GAS_LIMIT :: int where "NATIVE_TRANSFER_GAS_LIMIT = 21000"
definition LIFI_DEFAULT_SLIPPAGE_BPS :: int where "LIFI_DEFAULT_SLIPPAGE_BPS = 50"
definition DEPOSIT_CREDITED :: string where "DEPOSIT_CREDITED = ''credited''"

definition NATIVE_TOKEN :: string where
  "NATIVE_TOKEN = ''0x0000000000000000000000000000000000000000''"

definition opt_text :: "string option \<Rightarrow> string" where
  "opt_text x = (case x of None \<Rightarrow> ''None'' | Some s \<Rightarrow> s)"

text \<open>\<open>x or y\<close> on texts: an empty text counts as missing.\<close>

definition or_text :: "string option \<Rightarrow> string \<Rightarrow> string" where
  "or_text x y = (case x of None \<Rightarrow> y | Some s \<Rightarrow> if s = [] then y else s)"

definition evm_status_text :: "evm_status \<Rightarrow> string" where
  "evm_status_text s =
     (case s of EvmQueued \<Rightarrow> ''queued'' | EvmMined \<Rightarrow> ''mined'' | EvmReverted \<Rightarrow> ''reverted'' | EvmFailed \<Rightarrow> ''failed'')"

section \<open>Submitting and moving on\<close>

definition find_tx :: "swap \<Rightarrow> string \<Rightarrow> db \<Rightarrow> evm_tx option" where
  "find_tx sw kind d = find_evm_tx (owner (sw_id sw) kind) (db_evm d)"

definition find_lane :: "swap \<Rightarrow> string \<Rightarrow> db \<Rightarrow> lane_row option" where
  "find_lane sw kind d = find_privana_tx (owner (sw_id sw) kind) (db_lanes d)"

text \<open>A row that has to be there: subscripting \<open>None\<close> raises.\<close>

definition need :: "'a option \<Rightarrow> exc + 'a" where
  "need x = (case x of None \<Rightarrow> Inl TypeError | Some a \<Rightarrow> Inr a)"

definition submit_evm :: "'e swap_env_scheme \<Rightarrow> int \<Rightarrow> tx_intent list \<Rightarrow> unit sact" where
  "submit_evm env chain intents =
     bindA (clock env) (\<lambda>now. ignore (on_evm (submit chain (se_lp (sv_settings env)) now intents)))"

definition submit_lane :: "'e swap_env_scheme \<Rightarrow> privana_intent list \<Rightarrow> unit sact" where
  "submit_lane env intents =
     bindA (clock env) (\<lambda>now.
       ignore (on_lanes (submit_privana (se_keys (sv_settings env)) now (se_lp (sv_settings env)) intents)))"

definition pay :: "'e swap_env_scheme \<Rightarrow> swap \<Rightarrow> string \<Rightarrow> string \<Rightarrow> int \<Rightarrow> unit sact" where
  "pay env sw kind token_id amount =
     submit_lane env [transfer_balance_intent (owner (sw_id sw) kind) (sw_user sw) token_id amount]"

definition submit_deposit ::
  "'e lifi_env_scheme \<Rightarrow> swap \<Rightarrow> string \<Rightarrow> token_info \<Rightarrow> int \<Rightarrow> string \<Rightarrow> unit sact" where
  "submit_deposit env sw kind info amount deposit_address =
     submit_evm env (ti_chain info)
       [transfer_intent (lx_encode env) (owner (sw_id sw) kind) (ti_address info) deposit_address amount]"

definition start_refund :: "'e swap_env_scheme \<Rightarrow> swap \<Rightarrow> string \<Rightarrow> swap_step \<Rightarrow> unit sact" where
  "start_refund env sw reason step =
     ignore (advance env sw step (Some SwapRefunding) (\<lambda>r. r\<lparr>sw_error := Some reason\<rparr>))"

definition unsent_or_reverted :: "evm_tx \<Rightarrow> bool" where
  "unsent_or_reverted tx \<longleftrightarrow> tx_status tx = EvmReverted \<or> (tx_status tx = EvmFailed \<and> tx_attempts tx = [])"

definition retry_for_gas :: "'e swap_env_scheme \<Rightarrow> swap \<Rightarrow> evm_tx option list \<Rightarrow> bool sact" where
  "retry_for_gas env sw txs =
     (let unsent = filter (\<lambda>tx. tx_status tx = EvmFailed \<and> tx_attempts tx = []) (List.map_filter id txs);
          refused = filter refused_for_gas unsent
      in case refused of
           [] \<Rightarrow> ret False
         | tx # _ \<Rightarrow>
             bindA (clock env) (\<lambda>now.
               if now - Max (set (map tx_updated refused)) < GAS_RETRY_SEC
               then seqA (note_swap sw (''refused for gas on chain '' @ show_int (tx_chain tx) @ ''; retrying''))
                 (ret True)
               else bindA (clock env) (\<lambda>now'.
                 seqA (on_evm (\<lambda>t. (Inr (), snd (requeue now' (map tx_owner unsent) t)))) (ret True))))"

section \<open>The wallet\<close>

text \<open>\<open>int(row["to_amount_received"])\<close>, summed; a missing amount raises.\<close>

fun sum_needed :: "int option list \<Rightarrow> exc + int" where
  "sum_needed [] = Inr 0"
| "sum_needed (x # xs) = bindE (need x) (\<lambda>a. bindE (sum_needed xs) (\<lambda>b. Inr (a + b)))"

definition spending_row :: "evm_tx \<Rightarrow> swap \<Rightarrow> string \<Rightarrow> bool" where
  "spending_row e s kind \<longleftrightarrow>
     tx_status e = EvmQueued
     \<or> (tx_status e = EvmFailed \<and> tx_attempts e = [] \<and> sw_step s = Some (sent_at kind))"

text \<open>What the row of \<open>kind\<close> takes out of the wallet in \<open>token_id\<close>, if it is in that token.\<close>

definition spend_of :: "string \<Rightarrow> swap \<Rightarrow> string \<Rightarrow> int option list" where
  "spend_of token_id s kind =
     (if kind = DEPOSIT
      then (if sw_to_token s = token_id then [sw_received s] else [])
      else (if sw_from_token s = token_id then [Some (sw_from_amount s)] else []))"

definition queued_spend :: "string \<Rightarrow> db \<Rightarrow> exc + int" where
  "queued_spend token_id d =
     bindE (sum_needed (concat
        [spend_of token_id s kind. e \<leftarrow> db_evm d, s \<leftarrow> db_swaps d, kind \<leftarrow> [LIFI, REFUND, DEPOSIT],
           tx_owner e = owner (sw_id s) kind \<and> spending_row e s kind])) (\<lambda>spend.
     bindE (sum_needed
        [sw_received s. s \<leftarrow> db_swaps d, sw_step s = Some DepositSent \<and> sw_to_token s = token_id
           \<and> find_evm_tx (owner (sw_id s) DEPOSIT) (db_evm d) = None]) (\<lambda>awaiting.
     Inr (spend + awaiting)))"

definition holds ::
  "'e lifi_env_scheme \<Rightarrow> int \<Rightarrow> string option \<Rightarrow> string \<Rightarrow> int \<Rightarrow> int \<Rightarrow> bool sact" where
  "holds env chain token token_id amount gas =
     bindA (query (queued_spend token_id)) (\<lambda>read. bindA (liftE read) (\<lambda>spend.
     bindA (tryA
       (bindA (if gas \<noteq> 0 \<and> is_native token
               then bindA (await env (\<lambda>n. lx_gas_cost env n chain gas)) (\<lambda>cost. ret (amount + cost))
               else ret amount) (\<lambda>needed.
        bindA (await env (\<lambda>n. lx_balance env n chain token)) (\<lambda>balance. ret (needed, balance))))) (\<lambda>outcome.
     case outcome of
       Inl _ \<Rightarrow> ret False
     | Inr (needed, balance) \<Rightarrow>
         bindA (query (queued_spend token_id)) (\<lambda>read. bindA (liftE read) (\<lambda>again.
           ret (balance \<ge> needed + max spend again))))))"

definition unqueued_kind :: "swap \<Rightarrow> string \<times> string \<times> int option" where
  "unqueued_kind s =
     (if sw_step s = Some CreditSent then (CREDIT, sw_to_token s, sw_received s)
      else ((if sw_step s = Some WithdrawSent then WITHDRAW else REFUND_PAYOUT),
            sw_from_token s, Some (sw_from_amount s)))"

definition unqueued_lane_outflow :: "string \<Rightarrow> db \<Rightarrow> exc + int" where
  "unqueued_lane_outflow token_id d =
     sum_needed
       [snd (snd (unqueued_kind s)). s \<leftarrow> db_swaps d,
          sw_venue s = VenueLifi \<and> sw_status s \<in> {SwapExecuting, SwapRefunding}
          \<and> sw_step s \<in> {Some WithdrawSent, Some RefundPayout, Some CreditSent}
          \<and> fst (snd (unqueued_kind s)) = token_id
          \<and> find_privana_tx (owner (sw_id s) (fst (unqueued_kind s))) (db_lanes d) = None]"

section \<open>LiFi's replies\<close>

definition lifi_token :: "string option \<Rightarrow> string" where
  "lifi_token token_address = (if is_native token_address then NATIVE_TOKEN else the token_address)"

definition token_infos :: "'e lifi_env_scheme \<Rightarrow> swap \<Rightarrow> (token_info \<times> token_info) sact" where
  "token_infos env sw =
     bindA (await env (\<lambda>n. lx_token env n (sw_from_token sw))) (\<lambda>from_info.
     bindA (await env (\<lambda>n. lx_token env n (sw_to_token sw))) (\<lambda>to_info. ret (from_info, to_info)))"

definition below_floor :: "int \<Rightarrow> int \<Rightarrow> string" where
  "below_floor net floor =
     ''execution quote below floor: net_min='' @ show_int net @ '' floor='' @ show_int floor"

definition execution_quote ::
  "'e lifi_env_scheme \<Rightarrow> quote \<Rightarrow> token_info \<Rightarrow> token_info \<Rightarrow> string \<Rightarrow> exec_quote sact" where
  "execution_quote env q from_info to_info from_address =
     (let request = (\<lambda>bps. \<lparr>qr_from_chain = ti_chain from_info, qr_to_chain = ti_chain to_info,
            qr_from_token = lifi_token (ti_address from_info), qr_to_token = lifi_token (ti_address to_info),
            qr_amount = q_from_amount q, qr_from_address = from_address, qr_slippage = bps\<rparr>);
          fee_bps = se_fee_bps (sv_settings env);
          floor = q_min q;
          slippage_bps = (case q_slippage q of None \<Rightarrow> LIFI_DEFAULT_SLIPPAGE_BPS | Some b \<Rightarrow> b)
      in bindA (await env (\<lambda>n. lx_quote env n (request slippage_bps))) (\<lambda>first.
         bindA
           (if net_min (xq_min first) fee_bps < floor
            then bindA (liftE (slippage_bps_to_floor (xq_to_amount first) floor fee_bps)) (\<lambda>narrowed.
              case narrowed of
                None \<Rightarrow> ret first
              | Some bps \<Rightarrow> await env (\<lambda>n. lx_quote env n (request bps)))
            else ret first) (\<lambda>xq.
         if net_min (xq_min xq) fee_bps < floor
         then throw (BelowFloor (below_floor (net_min (xq_min xq) fee_bps) floor))
         else ret xq)))"

definition lifi_intent :: "string \<Rightarrow> int \<Rightarrow> tx_request \<Rightarrow> bool \<Rightarrow> exc + tx_intent" where
  "lifi_intent own chain_id request simulate =
     (case rq_chain request of
        Some c \<Rightarrow>
          if c \<noteq> chain_id
          then Inl (ValueError (''transaction built for chain '' @ show_int c @ '' cannot be sent on chain ''
                  @ show_int chain_id))
          else bindE (rq_gas request) (\<lambda>gas. bindE (rq_value request) (\<lambda>value.
                 Inr \<lparr>in_owner = own, in_to = rq_to request, in_gas = gas, in_data = rq_data request,
                      in_value = value, in_simulate = simulate\<rparr>))
      | None \<Rightarrow>
          bindE (rq_gas request) (\<lambda>gas. bindE (rq_value request) (\<lambda>value.
            Inr \<lparr>in_owner = own, in_to = rq_to request, in_gas = gas, in_data = rq_data request,
                 in_value = value, in_simulate = simulate\<rparr>)))"

fun swap_output ::
  "string \<Rightarrow> (string \<Rightarrow> exc + (string \<times> string \<times> int)) \<Rightarrow> string \<Rightarrow> log_entry list \<Rightarrow> string \<Rightarrow> string \<Rightarrow> exc + int" where
  "swap_output topic decode diamond [] recipient token =
     Inl (RuntimeError (''swap logs show no LiFi swap paying '' @ recipient @ '' in '' @ token))"
| "swap_output topic decode diamond (log # logs) recipient token =
     (if lower (lg_address log) \<noteq> lower diamond \<or> lg_topics log = [] \<or> hd (lg_topics log) \<noteq> topic
      then swap_output topic decode diamond logs recipient token
      else bindE (decode (lg_data log)) (\<lambda>(receiver, to_asset, to_amount).
        if lower receiver = lower recipient \<and> lower to_asset = lower token then Inr to_amount
        else swap_output topic decode diamond logs recipient token))"

definition delivered :: "route_status \<Rightarrow> token_info \<Rightarrow> string \<Rightarrow> exc + int option" where
  "delivered status to_info recipient =
     (if rs_state status = Some ''DONE'' \<and> rs_substatus status = Some ''COMPLETED''
      then case rs_receiving status of
          None \<Rightarrow> Inl KeyError
        | Some rc \<Rightarrow>
            if rc_chain rc \<noteq> ti_chain to_info \<or> lower (rc_token rc) \<noteq> lower (lifi_token (ti_address to_info))
               \<or> lower (rs_to status) \<noteq> lower recipient
            then Inl (RuntimeError (''delivered elsewhere: '' @ rc_text rc))
            else Inr (Some (rc_amount rc))
      else if rs_state status \<in> {Some ''DONE'', Some ''FAILED'', Some ''INVALID''}
      then Inl (RuntimeError (''ended '' @ opt_text (rs_state status) @ '' '' @ opt_text (rs_substatus status)))
      else Inr None)"

section \<open>Input and withdrawal\<close>

definition settle_input :: "'e lifi_env_scheme \<Rightarrow> swap \<Rightarrow> unit sact" where
  "settle_input env sw =
     bindA (query (find_tx sw INPUT)) (\<lambda>found.
     case found of
       None \<Rightarrow>
         (let call = input_transfer_call env sw
          in submit_evm env (se_chain (sv_settings env))
               [\<lparr>in_owner = owner (sw_id sw) INPUT, in_to = ca_to call, in_gas = DEFAULT_GAS_LIMIT,
                 in_data = ca_data call, in_value = 0, in_simulate = True\<rparr>])
     | Some tx \<Rightarrow>
         if tx_status tx = EvmMined then ignore (advance env sw WithdrawSent None id)
         else if tx_status tx = EvmQueued then ret ()
         else bindA (retry_for_gas env sw [Some tx]) (\<lambda>again.
           if again then ret ()
           else let outcome = sv_sanitize env (or_text (tx_error tx) (''reverted as '' @ opt_text (tx_hash tx)))
             in if \<not> unsent_or_reverted tx
                then ignore (fail env sw Parked (''input tx failed after a signed attempt: '' @ outcome))
                else bindA (await env (\<lambda>n. lx_nonce env n (sw_user sw))) (\<lambda>nonce.
                  if nonce \<le> sw_input_nonce sw
                  then ignore (fail env sw NoFundsMoved (''input transfer '' @ outcome))
                  else ignore (fail env sw Parked (''input transfer '' @ outcome
                         @ '', but the user's nonce is past it at '' @ show_nat nonce)))))"

definition settle_withdraw :: "'e lifi_env_scheme \<Rightarrow> swap \<Rightarrow> unit sact" where
  "settle_withdraw env sw =
     bindA (query (find_lane sw WITHDRAW)) (\<lambda>found.
     case found of
       None \<Rightarrow>
         bindA (clock env) (\<lambda>now.
           ignore (on_lanes (submit_withdrawal (se_withdraw_lanes (sv_settings env)) now
             (se_lp (sv_settings env)) (owner (sw_id sw) WITHDRAW) (sw_from_token sw) (sw_from_amount sw))))
     | Some row \<Rightarrow>
         if ln_status row = LaneLanded then ignore (advance env sw ExecuteFunding None id)
         else if ln_status row = LaneFailed
         then start_refund env sw (''withdrawal failed: '' @ opt_text (ln_error row)) RefundPayout
         else if ln_error row = Some WITHDRAW_GIVEN_UP
         then ignore (fail env sw Parked (''withdrawal '' @ show_nat (ln_id row) @ '' not landed after ''
                @ show_nat (ln_attempts row) @ '' sends''))
         else if ln_status row = LaneQueued
         then bindA (waited env sw WITHDRAW_QUEUE_WAIT_SEC) (\<lambda>late.
           if \<not> late then ret ()
           else bindA (clock env) (\<lambda>now.
             bindA (on_lanes (\<lambda>t. case cancel_queued now (owner (sw_id sw) WITHDRAW)
                                         ''cancelled: not sent in time'' t of (b, t') \<Rightarrow> (Inr b, t'))) (\<lambda>cancelled.
               if cancelled
               then start_refund env sw (''withdrawal not sent after '' @ show_int WITHDRAW_QUEUE_WAIT_SEC @ '' s'')
                 RefundPayout
               else ret ())))
         else ret ())"

section \<open>Execution\<close>

definition send_lifi_tx :: "'e lifi_env_scheme \<Rightarrow> swap \<Rightarrow> unit sact" where
  "send_lifi_tx env sw =
     bindA (query (find_tx sw LIFI)) (\<lambda>sent.
     if sent \<noteq> None then ignore (advance env sw ExecuteSent None id)
     else bindA (waited env sw FUNDING_WAIT_SEC) (\<lambda>late.
     if late
     then start_refund env sw (''input not funded after '' @ show_int FUNDING_WAIT_SEC @ '' s'') RefundRedeposit
     else
       bindA (query (\<lambda>d. need (find_row q_id (sw_quote sw) (db_quotes d)))) (\<lambda>read. bindA (liftE read) (\<lambda>q.
       bindA (token_infos env sw) (\<lambda>(from_info, to_info).
       bindA (ask env (\<lambda>n. lx_client env n (ti_chain from_info))) (\<lambda>address.
       let amount = sw_from_amount sw; token = ti_address from_info; chain = ti_chain from_info in
       bindA (holds env chain token (sw_from_token sw) amount 0) (\<lambda>funded.
       if \<not> funded then ret ()
       else bindA (tryA (execution_quote env q from_info to_info address)) (\<lambda>quoted.
         case quoted of
           Inl (BelowFloor m) \<Rightarrow> start_refund env sw m RefundRedeposit
         | Inl e \<Rightarrow> throw e
         | Inr xq \<Rightarrow>
             (case lifi_intent (owner (sw_id sw) LIFI) chain (xq_request xq) (is_native token) of
                Inl (ValueError m) \<Rightarrow> start_refund env sw m RefundRedeposit
              | Inl e \<Rightarrow> throw e
              | Inr lifi_tx \<Rightarrow>
                  bindA (holds env chain token (sw_from_token sw) amount (in_gas lifi_tx)) (\<lambda>ready.
                  if \<not> ready then ret ()
                  else bindA (query (still_at sw \<circ> db_swaps)) (\<lambda>read. bindA (liftE read) (\<lambda>here.
                    if \<not> here then ret ()
                    else seqA (submit_evm env chain
                        (if is_native token then [lifi_tx]
                         else [approve_intent (lx_encode env) (owner (sw_id sw) APPROVE) (the token)
                                 (xq_approval xq) amount, lifi_tx]))
                      (ignore (advance env sw ExecuteSent None id))))))))))))))"

definition settle_lifi_tx :: "'e lifi_env_scheme \<Rightarrow> swap \<Rightarrow> unit sact" where
  "settle_lifi_tx env sw =
     bindA (query (\<lambda>d. need (find_tx sw LIFI d))) (\<lambda>read. bindA (liftE read) (\<lambda>tx.
     if tx_status tx = EvmQueued then ret ()
     else if tx_status tx \<noteq> EvmMined
     then bindA (query (find_tx sw APPROVE)) (\<lambda>approval.
       bindA (retry_for_gas env sw [approval, Some tx]) (\<lambda>again.
         if again then ret ()
         else let outcome = sv_sanitize env (or_text (tx_error tx) (''reverted as '' @ opt_text (tx_hash tx)))
           in if unsent_or_reverted tx
              then start_refund env sw (''lifi tx '' @ outcome) RefundRedeposit
              else ignore (fail env sw Parked (''lifi tx failed after a signed attempt: '' @ outcome))))
     else bindA (token_infos env sw) (\<lambda>(from_info, to_info).
       if ti_chain from_info \<noteq> ti_chain to_info
       then ignore (advance env sw ExecuteBridging None (\<lambda>r. r\<lparr>sw_lifi_tx := tx_hash tx\<rparr>))
       else bindA (liftE (need (tx_logs tx))) (\<lambda>logs.
         case swap_output (lx_swap_topic env) (lx_decode env) (tx_to tx) (lx_logs env logs)
                (se_lp (sv_settings env)) (lifi_token (ti_address to_info)) of
           Inl (RuntimeError m) \<Rightarrow> ignore (fail env sw Parked m)
         | Inl e \<Rightarrow> throw e
         | Inr received \<Rightarrow>
             ignore (advance env sw DepositSent None
               (\<lambda>r. r\<lparr>sw_lifi_tx := tx_hash tx, sw_received := Some received\<rparr>))))))"

definition settle_bridge :: "'e lifi_env_scheme \<Rightarrow> swap \<Rightarrow> unit sact" where
  "settle_bridge env sw =
     bindA (waited env sw BRIDGE_WAIT_SEC) (\<lambda>late.
     if late
     then ignore (fail env sw Parked (''lifi route of '' @ opt_text (sw_lifi_tx sw) @ '' not done after ''
            @ show_int BRIDGE_WAIT_SEC @ '' s''))
     else bindA (token_infos env sw) (\<lambda>(from_info, to_info).
       bindA (tryA (await env (\<lambda>n. lx_status env n (sw_lifi_tx sw) (ti_chain from_info) (ti_chain to_info))))
         (\<lambda>asked.
         bindA
           (case asked of
              Inr status \<Rightarrow> ret status
            | Inl (HttpStatus code m) \<Rightarrow>
                if code \<noteq> 404 then throw (HttpStatus code m)
                else ret \<lparr>rs_state = None, rs_substatus = None, rs_receiving = None, rs_to = []\<rparr>
            | Inl e \<Rightarrow> throw e) (\<lambda>status.
         case delivered status to_info (se_lp (sv_settings env)) of
           Inl (RuntimeError m) \<Rightarrow>
             ignore (fail env sw Parked (''lifi route of '' @ opt_text (sw_lifi_tx sw) @ '': '' @ m))
         | Inl e \<Rightarrow> throw e
         | Inr None \<Rightarrow> ret ()
         | Inr (Some received) \<Rightarrow>
             ignore (advance env sw DepositSent None (\<lambda>r. r\<lparr>sw_received := Some received\<rparr>))))))"

definition execute :: "'e lifi_env_scheme \<Rightarrow> swap \<Rightarrow> unit sact" where
  "execute env sw =
     (if sw_step sw = Some ExecuteFunding then send_lifi_tx env sw
      else if sw_step sw = Some ExecuteSent then settle_lifi_tx env sw
      else settle_bridge env sw)"

section \<open>Deposit, credit and refund\<close>

definition settle_deposit :: "'e lifi_env_scheme \<Rightarrow> swap \<Rightarrow> evm_tx \<Rightarrow> swap_step \<Rightarrow> unit sact" where
  "settle_deposit env sw tx crediting =
     (if tx_status tx = EvmMined
      then ignore (advance env sw crediting None (\<lambda>r. r\<lparr>sw_deposit_tx := tx_hash tx\<rparr>))
      else if tx_status tx = EvmQueued then ret ()
      else bindA (retry_for_gas env sw [Some tx]) (\<lambda>again.
        if again then ret ()
        else ignore (fail env sw Parked (''deposit tx '' @ evm_status_text (tx_status tx) @ '': ''
               @ sv_sanitize env (or_text (tx_error tx) (opt_text (tx_hash tx)))))))"

definition check_credited ::
  "'e lifi_env_scheme \<Rightarrow> swap \<Rightarrow> string \<Rightarrow> int \<Rightarrow> swap_step \<Rightarrow> unit sact" where
  "check_credited env sw kind amount next_step =
     bindA (query (\<lambda>d. need (find_tx sw kind d))) (\<lambda>read. bindA (liftE read) (\<lambda>tx.
     bindA (tryA (await env (\<lambda>n. lx_check_deposit env n (tx_chain tx) (tx_hash tx) amount))) (\<lambda>asked.
     bindA
       (case asked of
          Inr status \<Rightarrow> ret status
        | Inl (AccountingApiError _ m) \<Rightarrow> ret (''not accepted: '' @ sv_scrub env m)
        | Inl (NetworkError m) \<Rightarrow> ret (''not accepted: '' @ sv_scrub env m)
        | Inl e \<Rightarrow> throw e) (\<lambda>status.
     if status = DEPOSIT_CREDITED then ignore (advance env sw next_step None id)
     else bindA (waited env sw CREDITING_WAIT_SEC) (\<lambda>late.
       if late
       then ignore (fail env sw Parked (''deposit '' @ opt_text (tx_hash tx) @ '' not credited after ''
              @ show_int CREDITING_WAIT_SEC @ '' s: '' @ status))
       else ret ())))))"

definition deposit_output :: "'e lifi_env_scheme \<Rightarrow> swap \<Rightarrow> unit sact" where
  "deposit_output env sw =
     bindA (liftE (need (sw_received sw))) (\<lambda>amount.
     if sw_step sw = Some DepositCrediting then check_credited env sw DEPOSIT amount CreditSent
     else bindA (query (find_tx sw DEPOSIT)) (\<lambda>found.
       case found of
         Some tx \<Rightarrow> settle_deposit env sw tx DepositCrediting
       | None \<Rightarrow>
           bindA (await env (\<lambda>n. lx_token env n (sw_to_token sw))) (\<lambda>info.
           bindA (await env (lx_deposit_address env)) (\<lambda>to.
           bindA (ask env (\<lambda>n. lx_client env n (ti_chain info))) (\<lambda>_.
           bindA (holds env (ti_chain info) (ti_address info) (sw_to_token sw) 0 NATIVE_TRANSFER_GAS_LIMIT)
             (\<lambda>ready.
             if ready
             then bindA (query (still_at sw \<circ> db_swaps)) (\<lambda>read. bindA (liftE read) (\<lambda>here.
               if here then submit_deposit env sw DEPOSIT info amount to else ret ()))
             else bindA (waited env sw FUNDING_WAIT_SEC) (\<lambda>late.
               if late
               then ignore (fail env sw Parked (''output not in the LP's wallet to deposit after ''
                      @ show_int FUNDING_WAIT_SEC @ '' s''))
               else ret ())))))))"

definition credit :: "'e lifi_env_scheme \<Rightarrow> swap \<Rightarrow> unit sact" where
  "credit env sw =
     bindA (query (find_lane sw CREDIT)) (\<lambda>found.
     case found of
       None \<Rightarrow>
         bindA (liftE (need (sw_received sw))) (\<lambda>received.
           pay env sw CREDIT (sw_to_token sw) (fst (calculate_fee received (se_fee_bps (sv_settings env)))))
     | Some row \<Rightarrow>
         if ln_status row = LaneLanded
         then ignore (finish_swap env sw SwapCompleted (\<lambda>r. r\<lparr>sw_actual := Some (p_amount (ln_payload row))\<rparr>))
         else if ln_status row = LaneFailed
         then ignore (fail env sw Parked (''credit failed: '' @ opt_text (ln_error row)))
         else ret ())"

definition settle_refund_payout :: "'e lifi_env_scheme \<Rightarrow> swap \<Rightarrow> int \<Rightarrow> unit sact" where
  "settle_refund_payout env sw amount =
     bindA (query (find_lane sw REFUND_PAYOUT)) (\<lambda>found.
     case found of
       None \<Rightarrow> pay env sw REFUND_PAYOUT (sw_from_token sw) amount
     | Some row \<Rightarrow>
         if ln_status row = LaneLanded then ignore (finish_swap env sw SwapRefunded id)
         else if ln_status row = LaneFailed
         then ignore (fail env sw Parked (''refund failed: '' @ opt_text (ln_error row)))
         else ret ())"

definition refund :: "'e lifi_env_scheme \<Rightarrow> swap \<Rightarrow> unit sact" where
  "refund env sw =
     (let amount = sw_from_amount sw in
      if sw_step sw = Some RefundCrediting then check_credited env sw REFUND amount RefundPayout
      else if sw_step sw = Some RefundPayout then settle_refund_payout env sw amount
      else bindA (query (find_tx sw REFUND)) (\<lambda>found.
        case found of
          Some tx \<Rightarrow> settle_deposit env sw tx RefundCrediting
        | None \<Rightarrow>
            bindA (waited env sw FUNDING_WAIT_SEC) (\<lambda>late.
            if late
            then ignore (fail env sw Parked (''input not in the LP's wallet to return after ''
                   @ show_int FUNDING_WAIT_SEC @ '' s''))
            else bindA (await env (\<lambda>n. lx_token env n (sw_from_token sw))) (\<lambda>info.
              bindA (await env (lx_deposit_address env)) (\<lambda>to.
              bindA (ask env (\<lambda>n. lx_client env n (ti_chain info))) (\<lambda>_.
              bindA (holds env (ti_chain info) (ti_address info) (sw_from_token sw) amount 0) (\<lambda>ready.
              if \<not> ready then ret ()
              else bindA (query (still_at sw \<circ> db_swaps)) (\<lambda>read. bindA (liftE read) (\<lambda>here.
                if here then submit_deposit env sw REFUND info amount to else ret ())))))))))"

section \<open>Rounds\<close>

fun on_chain :: "'e lifi_env_scheme \<Rightarrow> (swap \<Rightarrow> string) \<Rightarrow> int \<Rightarrow> swap list \<Rightarrow> swap list sact" where
  "on_chain env token_field chain_id [] = ret []"
| "on_chain env token_field chain_id (sw # swaps) =
     bindA (tryA (await env (\<lambda>n. lx_token env n (token_field sw)))) (\<lambda>read.
     bindA (on_chain env token_field chain_id swaps) (\<lambda>rest.
       case read of
         Inl _ \<Rightarrow> ret rest
       | Inr info \<Rightarrow> ret (if ti_chain info = chain_id then sw # rest else rest)))"

definition input_round :: "'e lifi_env_scheme \<Rightarrow> unit sact" where
  "input_round env =
     seqA (if se_lifi_enabled (sv_settings env) then claim env VenueLifi InputSent CLAIM_LIMIT else ret ())
       (bindA (query (swaps_at [InputSent] ROUND_LIMIT)) (\<lambda>swaps. handle_each swaps (settle_input env)))"

definition lifi_withdraw_round :: "'e lifi_env_scheme \<Rightarrow> unit sact" where
  "lifi_withdraw_round env =
     bindA (query (swaps_at [WithdrawSent] ROUND_LIMIT)) (\<lambda>swaps. handle_each swaps (settle_withdraw env))"

definition execute_round :: "'e lifi_env_scheme \<Rightarrow> int \<Rightarrow> unit sact" where
  "execute_round env chain_id =
     bindA (query (swaps_at [ExecuteFunding, ExecuteSent, ExecuteBridging] (-1))) (\<lambda>swaps.
     bindA (on_chain env sw_from_token chain_id swaps) (\<lambda>here.
       handle_each (take (nat ROUND_LIMIT) here) (execute env)))"

definition deposit_round :: "'e lifi_env_scheme \<Rightarrow> int \<Rightarrow> unit sact" where
  "deposit_round env chain_id =
     bindA (query (swaps_at [DepositSent, DepositCrediting] (-1))) (\<lambda>swaps.
     bindA (on_chain env sw_to_token chain_id swaps) (\<lambda>here.
       handle_each (take (nat ROUND_LIMIT) here) (deposit_output env)))"

definition credit_round :: "'e lifi_env_scheme \<Rightarrow> unit sact" where
  "credit_round env =
     bindA (query (swaps_at [CreditSent] ROUND_LIMIT)) (\<lambda>swaps. handle_each swaps (credit env))"

definition refund_round :: "'e lifi_env_scheme \<Rightarrow> unit sact" where
  "refund_round env =
     bindA (query (swaps_at [RefundRedeposit, RefundCrediting, RefundPayout] ROUND_LIMIT))
       (\<lambda>swaps. handle_each swaps (refund env))"

end
