(* ===== verification/Quotes.thy ===== *)
theory Quotes
  imports LifiPipeline FeePolicy Complex_Main
begin

text \<open>
  The quote service (\<open>services/swap/quote_service.py\<close>) and the request that schedules a swap
  (\<open>services/swap/executor.py\<close>). Prices come from LiFi's routes (\<open>qx_routes\<close>), balances and
  nonces from Accounting; the signer of a request is recovered by \<open>eth_account\<close> (\<open>qx_recover\<close>,
  \<open>None\<close> when it raises). USD amounts are read by \<open>float\<close> and compared with an integer; here they
  are rationals.
\<close>

section \<open>Routes and settings\<close>

text \<open>What the service reads of a route: \<open>toAmount\<close>, \<open>toAmountMin\<close>, the tool of its first step and
  \<open>fromAmountUSD\<close>, each of which may be missing.\<close>

record route =
  rt_to_amount :: "int option"
  rt_to_min :: "int option"
  rt_tool :: "string option"
  rt_usd :: "(exc + rat) option"

record route_request =
  rr_from_chain :: int
  rr_to_chain :: int
  rr_from_token :: string
  rr_to_token :: string
  rr_amount :: string
  rr_slippage :: int

text \<open>The testnet token map: the chain a chain's tokens are priced on, and their addresses there.\<close>

record token_mapping =
  tm_chain :: "int option"
  tm_tokens :: "(string \<times> string) list"

record quote_env = lifi_env +
  qx_routes :: "nat \<Rightarrow> route_request \<Rightarrow> exc + route list"
  qx_lp_balance :: "nat \<Rightarrow> string \<Rightarrow> exc + int"
  qx_simulate :: "nat \<Rightarrow> evm_call \<Rightarrow> exc + unit"
  qx_recover :: "string \<Rightarrow> string \<Rightarrow> int \<Rightarrow> nat \<Rightarrow> string \<Rightarrow> string option"
  qx_uuid :: "nat \<Rightarrow> string"
  qx_now_up :: "nat \<Rightarrow> int"
  qx_policies :: "fee_policy list"
  qx_token_map :: "(int \<times> token_mapping) list"
  qx_pool_tokens :: "string set"
  qx_quote_ttl :: int
  qx_swap_quote_ttl :: int
  qx_max_usd :: int
  qx_lifi_max_usd :: int

definition CLEANUP_INTERVAL :: int where "CLEANUP_INTERVAL = 60"

text \<open>The response of \<open>models/api.py\<close>.\<close>

record quote_response =
  rp_id :: string
  rp_from_token :: string
  rp_to_token :: string
  rp_from_chain :: int
  rp_to_chain :: int
  rp_from_amount :: string
  rp_gross :: int
  rp_estimate :: int
  rp_min :: int
  rp_fee_bps :: int
  rp_fee :: int
  rp_policy :: "string option"
  rp_tool :: "string option"
  rp_lp :: string
  rp_nonce :: nat
  rp_expires_at :: int
  rp_expires_in :: int
  rp_venue :: swap_venue

text \<open>\<open>max(0, int(expires_at - time.time()))\<close>: truncation rounds the time up.\<close>

definition seconds_left :: "'e quote_env_scheme \<Rightarrow> int \<Rightarrow> int sact" where
  "seconds_left env expires_at =
     bindA (ask env (\<lambda>n. Inr (qx_now_up env n))) (\<lambda>now. ret (max 0 (expires_at - now)))"

section \<open>Prices\<close>

definition or_zero_address :: "string option \<Rightarrow> string" where
  "or_zero_address a = or_text a NATIVE_TOKEN"

definition price_route ::
  "'e quote_env_scheme \<Rightarrow> token_info \<Rightarrow> token_info \<Rightarrow> string \<Rightarrow> int \<Rightarrow> route list sact" where
  "price_route env from_info to_info from_amount slippage_bps =
     (let mapped = (\<lambda>info.
            let token = or_zero_address (ti_address info) in
            case map_of (qx_token_map env) (ti_chain info) of
              None \<Rightarrow> (ti_chain info, token)
            | Some tm \<Rightarrow> (case tm_chain tm of None \<Rightarrow> ti_chain info | Some c \<Rightarrow> c,
                case map_of (tm_tokens tm) token of None \<Rightarrow> token | Some t \<Rightarrow> t))
      in await env (\<lambda>n. qx_routes env n
           \<lparr>rr_from_chain = fst (mapped from_info), rr_to_chain = fst (mapped to_info),
            rr_from_token = snd (mapped from_info), rr_to_token = snd (mapped to_info),
            rr_amount = from_amount, rr_slippage = slippage_bps\<rparr>))"

definition enforce_max_swap_size :: "int \<Rightarrow> route \<Rightarrow> exc + unit" where
  "enforce_max_swap_size cap r =
     (if cap \<le> 0 then Inr ()
      else case rt_usd r of
        None \<Rightarrow> Inr ()
      | Some usd \<Rightarrow> bindE usd (\<lambda>x.
          if x > of_int cap
          then Inl (ValueError (''Swap size exceeds the maximum of '' @ show_int cap @ '' USD''))
          else Inr ()))"

definition no_chain_error :: exc where
  "no_chain_error = ValueError ''External swaps are not available on this chain''"

definition no_liquidity :: exc where
  "no_liquidity = ValueError ''Insufficient liquidity for this swap''"

definition client_or_raise :: "'e lifi_env_scheme \<Rightarrow> int \<Rightarrow> unit sact" where
  "client_or_raise env chain_id =
     bindA (tryA (await env (\<lambda>n. lx_client env n chain_id))) (\<lambda>r.
       case r of Inr _ \<Rightarrow> ret () | Inl (ValueError _) \<Rightarrow> throw no_chain_error | Inl e \<Rightarrow> throw e)"

definition select_lifi_venue ::
  "'e quote_env_scheme \<Rightarrow> int \<Rightarrow> int \<Rightarrow> string \<Rightarrow> string \<Rightarrow> string \<Rightarrow> int \<Rightarrow> swap_venue sact" where
  "select_lifi_venue env from_chain to_chain from_token to_token from_amount slippage_bps =
     (if \<not> se_lifi_enabled (sv_settings env) then throw no_liquidity
      else seqA (client_or_raise env from_chain)
        (seqA (if to_chain = from_chain then ret () else client_or_raise env to_chain)
        (bindA (await env (\<lambda>n. qx_routes env n
           \<lparr>rr_from_chain = from_chain, rr_to_chain = to_chain, rr_from_token = from_token,
            rr_to_token = to_token, rr_amount = from_amount, rr_slippage = slippage_bps\<rparr>)) (\<lambda>routes.
         case routes of
           [] \<Rightarrow> throw no_liquidity
         | r # _ \<Rightarrow>
             (case rt_usd r of
                None \<Rightarrow> ret VenueLifi
              | Some usd \<Rightarrow>
                  if qx_lifi_max_usd env > 0
                  then bindA (liftE usd) (\<lambda>x.
                    if x > of_int (qx_lifi_max_usd env)
                    then throw (ValueError ''Swap size exceeds LiFi routing limit'') else ret VenueLifi)
                  else ret VenueLifi)))))"

section \<open>Quotes\<close>

definition swap_needs_quote :: "swap_status \<Rightarrow> bool" where
  "swap_needs_quote s \<longleftrightarrow> s = SwapScheduled \<or> s = SwapExecuting \<or> s = SwapRefunding"

definition quote_expired :: "int \<Rightarrow> db \<Rightarrow> quote \<Rightarrow> bool" where
  "quote_expired now d q \<longleftrightarrow>
     q_expires q \<le> now
     \<and> q_id q \<notin> sw_quote ` set (filter (\<lambda>r. swap_needs_quote (sw_status r)) (db_swaps d))"

definition cleanup_expired_quotes :: "'e swap_env_scheme \<Rightarrow> int sact" where
  "cleanup_expired_quotes env =
     bindA (clock env) (\<lambda>now.
     bindA (getA st_last_cleanup) (\<lambda>last_cleanup.
     if now - last_cleanup < CLEANUP_INTERVAL then ret 0
     else bindA (query (\<lambda>d. int (length (filter (quote_expired now d) (db_quotes d))))) (\<lambda>deleted.
       seqA (on_db (\<lambda>d. (Inr (), d\<lparr>db_quotes := filter (\<lambda>q. \<not> quote_expired now d q) (db_quotes d)\<rparr>)))
         (seqA (modifyA (\<lambda>s. s\<lparr>st_last_cleanup := now\<rparr>)) (ret deleted)))))"

definition reusable_quote ::
  "'e quote_env_scheme \<Rightarrow> int \<Rightarrow> string \<Rightarrow> string \<Rightarrow> string \<Rightarrow> string \<Rightarrow> int \<Rightarrow> db \<Rightarrow> quote option" where
  "reusable_quote env now user from_token to_token from_amount slippage_bps d =
     (case sort_key (\<lambda>q. - q_created q)
        (filter (\<lambda>q. q_user q = lower user \<and> q_from_token q = lower from_token \<and> q_to_token q = lower to_token
           \<and> q_from_amount q = from_amount \<and> q_slippage q = Some slippage_bps \<and> q_expires q > now
           \<and> q_created q > now - qx_quote_ttl env) (db_quotes d)) of
        [] \<Rightarrow> None
      | q # _ \<Rightarrow> Some q)"

definition quote_fee :: "'e quote_env_scheme \<Rightarrow> swap_venue \<Rightarrow> string \<Rightarrow> int \<Rightarrow> fee_decision" where
  "quote_fee env venue user now =
     (if venue = VenueInternal
      then resolve_internal_fee (qx_policies env) (se_fee_bps (sv_settings env)) user now
      else \<lparr>fd_fee_bps = se_fee_bps (sv_settings env), fd_policy = None, fd_until = None\<rparr>)"

definition quote_response_of :: "quote \<Rightarrow> fee_decision \<Rightarrow> int \<Rightarrow> nat \<Rightarrow> int \<Rightarrow> quote_response" where
  "quote_response_of q decision fee transfer_nonce left =
     \<lparr>rp_id = q_id q, rp_from_token = q_from_token q, rp_to_token = q_to_token q,
      rp_from_chain = q_from_chain q, rp_to_chain = q_to_chain q, rp_from_amount = q_from_amount q,
      rp_gross = q_gross q, rp_estimate = q_estimate q, rp_min = q_min q, rp_fee_bps = fd_fee_bps decision,
      rp_fee = fee, rp_policy = fd_policy decision, rp_tool = q_tool q, rp_lp = q_lp q,
      rp_nonce = transfer_nonce, rp_expires_at = q_expires q, rp_expires_in = left, rp_venue = q_venue q\<rparr>"

definition find_existing_quote ::
  "'e quote_env_scheme \<Rightarrow> string \<Rightarrow> string \<Rightarrow> string \<Rightarrow> string \<Rightarrow> int \<Rightarrow> quote_response option sact" where
  "find_existing_quote env user from_token to_token from_amount slippage_bps =
     bindA (clock env) (\<lambda>now.
     bindA (query (reusable_quote env now user from_token to_token from_amount slippage_bps)) (\<lambda>found.
     case found of
       None \<Rightarrow> ret None
     | Some q \<Rightarrow>
         let decision = quote_fee env (q_venue q) user now;
             fee_amount = snd (calculate_fee (q_gross q) (fd_fee_bps decision)) in
         bindA (await env (\<lambda>n. lx_nonce env n user)) (\<lambda>transfer_nonce.
         bindA (seconds_left env (q_expires q)) (\<lambda>left.
           ret (Some (quote_response_of q decision fee_amount transfer_nonce left))))))"

text \<open>The expiry a quote is issued with, given its fee decision.\<close>

definition quote_expiry :: "'e quote_env_scheme \<Rightarrow> int \<Rightarrow> fee_decision \<Rightarrow> int" where
  "quote_expiry env now decision =
     (case fd_until decision of None \<Rightarrow> now + qx_swap_quote_ttl env | Some u \<Rightarrow> min (now + qx_swap_quote_ttl env) u)"

definition get_quote ::
  "'e quote_env_scheme \<Rightarrow> string \<Rightarrow> string \<Rightarrow> string \<Rightarrow> string \<Rightarrow> int \<Rightarrow> quote_response sact" where
  "get_quote env from_token_id to_token_id from_amount user_address slippage_bps =
     seqA (cleanup_expired_quotes env)
     (seqA (liftE (validate_token_id from_token_id ''from_token_id''))
     (seqA (liftE (validate_token_id to_token_id ''to_token_id''))
     (seqA (liftE (validate_amount from_amount ''from_amount''))
     (seqA (liftE (validate_address user_address ''user_address''))
     (bindA (find_existing_quote env user_address from_token_id to_token_id from_amount slippage_bps) (\<lambda>existing.
     case existing of
       Some r \<Rightarrow> ret r
     | None \<Rightarrow>
       bindA (await env (\<lambda>n. lx_token env n from_token_id)) (\<lambda>from_info.
       bindA (await env (\<lambda>n. lx_token env n to_token_id)) (\<lambda>to_info.
       if ti_chain from_info = 0 \<or> ti_chain to_info = 0
       then throw (ValueError ''Token chain info not available'')
       else
       bindA (price_route env from_info to_info from_amount slippage_bps) (\<lambda>routes.
       case routes of
         [] \<Rightarrow> throw (ValueError ''No routes available for this swap'')
       | best # _ \<Rightarrow>
         seqA (liftE (enforce_max_swap_size (qx_max_usd env) best))
         (let to_amount = (case rt_to_amount best of None \<Rightarrow> 0 | Some a \<Rightarrow> a);
              to_min = (case rt_to_min best of None \<Rightarrow> to_amount | Some a \<Rightarrow> a) in
          bindA (clock env) (\<lambda>now.
          let internal_decision = quote_fee env VenueInternal user_address now;
              lp = se_lp (sv_settings env) in
          bindA (await env (\<lambda>n. qx_lp_balance env n to_token_id)) (\<lambda>lp_balance.
          let internal_swap = lower from_token_id \<in> qx_pool_tokens env \<and> lower to_token_id \<in> qx_pool_tokens env in
          bindA
            (if \<not> internal_swap \<or> lp_balance < fst (calculate_fee to_amount (fd_fee_bps internal_decision))
             then bindA (select_lifi_venue env (ti_chain from_info) (ti_chain to_info)
                    (or_zero_address (ti_address from_info)) (or_zero_address (ti_address to_info))
                    from_amount slippage_bps) (\<lambda>venue. ret (venue, quote_fee env VenueLifi user_address now))
             else ret (VenueInternal, internal_decision)) (\<lambda>(venue, decision).
          let (after_fee, fee_amount) = calculate_fee to_amount (fd_fee_bps decision);
              to_amount_min = to_min - fee_amount in
          bindA (await env (\<lambda>n. lx_nonce env n user_address)) (\<lambda>transfer_nonce.
          bindA (ask env (\<lambda>n. Inr (qx_uuid env n))) (\<lambda>quote_id.
          let expires_at = quote_expiry env now decision;
              q = \<lparr>q_id = quote_id, q_user = lower user_address, q_from_token = lower from_token_id,
                   q_to_token = lower to_token_id, q_from_chain = ti_chain from_info,
                   q_to_chain = ti_chain to_info, q_from_amount = from_amount, q_gross = to_amount,
                   q_estimate = after_fee, q_min = max to_amount_min 0, q_tool = rt_tool best, q_lp = lp,
                   q_expires = expires_at, q_created = now, q_venue = venue, q_slippage = Some slippage_bps\<rparr> in
          seqA (on_db (\<lambda>d. (Inr (), d\<lparr>db_quotes := db_quotes d @ [q]\<rparr>)))
          (bindA (seconds_left env expires_at) (\<lambda>left.
            ret (quote_response_of q decision fee_amount transfer_nonce left))))))))))))))))))"

definition get_stored_quote :: "string \<Rightarrow> db \<Rightarrow> quote option" where
  "get_stored_quote quote_id d = find_row q_id quote_id (db_quotes d)"

section \<open>Scheduling a swap\<close>

definition validate_quote :: "'e swap_env_scheme \<Rightarrow> string \<Rightarrow> quote sact" where
  "validate_quote env quote_id =
     bindA (query (get_stored_quote quote_id)) (\<lambda>found.
     case found of
       None \<Rightarrow> throw (ValueError ''Quote not found'')
     | Some q \<Rightarrow> bindA (clock env) (\<lambda>now.
         if now \<ge> q_expires q then throw (ValueError ''Quote has expired'') else ret q))"

definition recover_signer :: "'e quote_env_scheme \<Rightarrow> quote \<Rightarrow> nat \<Rightarrow> string \<Rightarrow> exc + string" where
  "recover_signer env q input_nonce input_signature =
     (case py_int (q_from_amount q) of
        None \<Rightarrow> Inl (ValueError ''input_signature does not match the quoted transfer'')
      | Some amount \<Rightarrow>
          (case qx_recover env (q_lp q) (q_from_token q) amount input_nonce input_signature of
             None \<Rightarrow> Inl (ValueError ''input_signature does not match the quoted transfer'')
           | Some a \<Rightarrow> Inr a))"

definition scheduled_row :: "string \<Rightarrow> int \<Rightarrow> quote \<Rightarrow> string \<Rightarrow> int \<Rightarrow> nat \<Rightarrow> string \<Rightarrow> swap" where
  "scheduled_row swap_id now q user amount input_nonce input_signature =
     \<lparr>sw_id = swap_id, sw_quote = q_id q, sw_user = user, sw_from_token = q_from_token q,
      sw_to_token = q_to_token q, sw_from_amount = amount, sw_estimate = q_estimate q, sw_actual = None,
      sw_status = SwapScheduled, sw_tx_hash = None, sw_error = None, sw_created = now, sw_updated = now,
      sw_venue = q_venue q, sw_step = None, sw_lifi_tx = None, sw_deposit_tx = None, sw_received = None,
      sw_executed = None, sw_input_nonce = input_nonce, sw_input_sig = lower input_signature\<rparr>"

definition find_request :: "string \<Rightarrow> nat \<Rightarrow> string \<Rightarrow> db \<Rightarrow> swap option" where
  "find_request quote_id input_nonce input_signature d =
     find (\<lambda>r. sw_quote r = quote_id \<and> sw_input_nonce r = input_nonce \<and> sw_input_sig r = lower input_signature)
       (db_swaps d)"

definition schedule_swap :: "'e quote_env_scheme \<Rightarrow> string \<Rightarrow> int \<Rightarrow> string \<Rightarrow> swap sact" where
  "schedule_swap env quote_id nonce input_signature =
     (if \<not> (0 \<le> nonce \<and> nonce < 2 ^ 256) then throw (ValueError ''Invalid input nonce'')
      else let input_nonce = nat nonce in
      seqA (liftE (validate_signature input_signature ''input_signature''))
      (bindA (query (find_request quote_id input_nonce input_signature)) (\<lambda>existing.
      case existing of
        Some sw \<Rightarrow> ret sw
      | None \<Rightarrow>
        bindA (validate_quote env quote_id) (\<lambda>q.
        bindA (liftE (recover_signer env q input_nonce input_signature)) (\<lambda>signer.
        let user_address = lower signer in
        if q_user q \<noteq> user_address then throw (ValueError ''Quote was not created for this user'')
        else
        bindA (query (assert_nonce_free user_address input_nonce)) (\<lambda>free. bindA (liftE free) (\<lambda>_.
        if q_venue q = VenueLifi \<and> \<not> se_lifi_enabled (sv_settings env)
        then throw (ValueError ''LiFi execution is disabled'')
        else
        bindA (ask env (\<lambda>n. Inr (qx_uuid env n))) (\<lambda>swap_id.
        bindA (clock env) (\<lambda>now.
        bindA (on_swaps (\<lambda>t.
          let sw = scheduled_row swap_id now q user_address (the (py_int (q_from_amount q))) input_nonce input_signature
          in (Inr (), t @ [sw]))) (\<lambda>_.
        bindA (query (\<lambda>d. find_row sw_id swap_id (db_swaps d))) (\<lambda>row.
          case row of
            None \<Rightarrow> throw (ValueError (''Swap '' @ swap_id @ '' not found''))
          | Some sw \<Rightarrow> ret sw)))))))))))"

section \<open>One request per nonce\<close>

text \<open>How many queued operations hold a user's transfer nonce.\<close>

definition nonce_holders :: "string \<Rightarrow> nat \<Rightarrow> db \<Rightarrow> nat" where
  "nonce_holders u n d =
     length (filter (\<lambda>r. sw_user r = u \<and> sw_input_nonce r = n \<and> swap_holds_nonce (sw_status r)) (db_swaps d))
     + length (filter (\<lambda>r. ea_user r = u \<and> ea_op r = OpDeposit \<and> ea_input_nonce r = Some n
         \<and> earn_holds_nonce (ea_status r)) (db_earns d))"

lemma assert_nonce_free_iff: "assert_nonce_free u n d = Inr x \<longleftrightarrow> nonce_holders (lower u) n d = 0"
  by (auto simp: assert_nonce_free_def nonce_holders_def Let_def split: list.splits)

text \<open>What a request that is accepted has passed.\<close>

definition accepts :: "'e quote_env_scheme \<Rightarrow> string \<Rightarrow> nat \<Rightarrow> string \<Rightarrow> swap \<Rightarrow> db \<Rightarrow> bool" where
  "accepts env quote_id n sig sw d \<longleftrightarrow>
     (\<exists>q. find_row q_id quote_id (db_quotes d) = Some q \<and> q_user q = sw_user sw
        \<and> map_option lower (qx_recover env (q_lp q) (q_from_token q) (sw_from_amount sw) n sig) = Some (sw_user sw)
        \<and> py_int (q_from_amount q) = Some (sw_from_amount sw)
        \<and> nonce_holders (sw_user sw) n d = 0
        \<and> (\<exists>k. sw = scheduled_row (qx_uuid env k) (sv_now env (Suc k)) q (sw_user sw) (sw_from_amount sw) n sig))"

lemma accepts_row:
  assumes "accepts env quote_id n sig sw d"
  shows "sw_quote sw = quote_id" "sw_input_nonce sw = n" "sw_input_sig sw = lower sig" "sw_status sw = SwapScheduled"
proof -
  from assms obtain q k where q: "find_row q_id quote_id (db_quotes d) = Some q"
    and sw: "sw = scheduled_row (qx_uuid env k) (sv_now env (Suc k)) q (sw_user sw) (sw_from_amount sw) n sig"
    unfolding accepts_def by blast
  show "sw_quote sw = quote_id" using find_row_Some [OF q] arg_cong [OF sw, of sw_quote] by (simp add: scheduled_row_def)
  show "sw_input_nonce sw = n" using arg_cong [OF sw, of sw_input_nonce] by (simp add: scheduled_row_def)
  show "sw_input_sig sw = lower sig" using arg_cong [OF sw, of sw_input_sig] by (simp add: scheduled_row_def)
  show "sw_status sw = SwapScheduled" using arg_cong [OF sw, of sw_status] by (simp add: scheduled_row_def)
qed

lemma schedule_swap_cases:
  assumes "schedule_swap env quote_id nonce sig s = (Inr sw, s')"
    and fresh: "\<forall>k. qx_uuid env k \<notin> sw_id ` set (db_swaps (st_db s))"
  shows "0 \<le> nonce \<and> nonce < 2 ^ 256 \<and> validate_signature sig ''input_signature'' = Inr ()
    \<and> (find_request quote_id (nat nonce) sig (st_db s) = Some sw \<and> s' = s
       \<or> find_request quote_id (nat nonce) sig (st_db s) = None
         \<and> accepts env quote_id (nat nonce) sig sw (st_db s)
         \<and> st_db s' = (st_db s)\<lparr>db_swaps := db_swaps (st_db s) @ [sw]\<rparr>)"
proof -
  let ?n = "nat nonce"
  from assms(1) have range: "0 \<le> nonce" "nonce < 2 ^ 256" and sig: "validate_signature sig ''input_signature'' = Inr ()"
    by (auto simp: schedule_swap_def act_eqs liftE_def Let_def split: if_splits sum.splits prod.splits)
  show ?thesis
  proof (cases "find_request quote_id ?n sig (st_db s)")
    case (Some r)
    with assms(1) range sig show ?thesis
      by (auto simp: schedule_swap_def act_eqs liftE_def Let_def query_run)
  next
    case None
    have new: "find_row sw_id (qx_uuid env k) (db_swaps (st_db s) @ [r]) = (if sw_id r = qx_uuid env k then Some r else None)" for k r
      using find_row_None [THEN iffD2, OF fresh [rule_format, of k]] by (simp add: find_row_append)
    from None assms(1) range sig show ?thesis
      by (auto simp: schedule_swap_def validate_quote_def get_stored_quote_def act_eqs liftE_def Let_def query_run clock_def
          ask_def on_swaps_def on_db_def new scheduled_row_def recover_signer_def assert_nonce_free_iff accepts_def
          split: if_splits option.splits sum.splits prod.splits)
  qed
qed

text \<open>C4: an accepted request is scheduled once. It comes from the quote's own user, whose signature
  over the quoted transfer was recovered; a new row is added only when no queued swap or earn
  deposit holds the nonce, and no other row changes, so the nonce then has exactly one holder; and
  the same request sent again, at any later time and with any other environment, returns the same
  swap and changes nothing.\<close>

theorem schedule_swap_once:
  assumes "schedule_swap env quote_id nonce sig s = (Inr sw, s')"
    and "\<forall>k. qx_uuid env k \<notin> sw_id ` set (db_swaps (st_db s))"
  shows "schedule_swap env' quote_id nonce sig s' = (Inr sw, s')
    \<and> (s' = s
       \<or> st_db s' = (st_db s)\<lparr>db_swaps := db_swaps (st_db s) @ [sw]\<rparr>
         \<and> accepts env quote_id (nat nonce) sig sw (st_db s)
         \<and> nonce_holders (sw_user sw) (nat nonce) (st_db s') = 1)"
proof -
  note c = schedule_swap_cases [OF assms]
  have found: "find_request quote_id (nat nonce) sig (st_db s') = Some sw"
  proof (cases "find_request quote_id (nat nonce) sig (st_db s)")
    case None
    with c have acc: "accepts env quote_id (nat nonce) sig sw (st_db s)"
      and t: "db_swaps (st_db s') = db_swaps (st_db s) @ [sw]" by auto
    have "sw_quote sw = quote_id \<and> sw_input_nonce sw = nat nonce \<and> sw_input_sig sw = lower sig"
      using accepts_row [OF acc] by simp
    moreover have "find P (xs @ [x]) = (case find P xs of None \<Rightarrow> if P x then Some x else None | r \<Rightarrow> r)" for P xs and x :: swap
      by (induction xs) auto
    ultimately show ?thesis using None by (simp add: find_request_def t)
  qed (use c in auto)
  have again: "schedule_swap env' quote_id nonce sig s' = (Inr sw, s')"
    using c found by (simp add: schedule_swap_def act_eqs liftE_def Let_def query_run)
  show ?thesis
  proof (cases "find_request quote_id (nat nonce) sig (st_db s)")
    case (Some r)
    with c again show ?thesis by auto
  next
    case None
    with c have acc: "accepts env quote_id (nat nonce) sig sw (st_db s)"
      and t: "st_db s' = (st_db s)\<lparr>db_swaps := db_swaps (st_db s) @ [sw]\<rparr>" by auto
    have "nonce_holders (sw_user sw) (nat nonce) (st_db s) = 0"
      and "sw_input_nonce sw = nat nonce" and "swap_holds_nonce (sw_status sw)"
      using acc accepts_row [OF acc] by (auto simp: accepts_def swap_holds_nonce_def)
    then have "nonce_holders (sw_user sw) (nat nonce) (st_db s') = 1"
      by (simp add: nonce_holders_def t)
    with again acc t show ?thesis by blast
  qed
qed

text \<open>A concrete environment: one user, one quote, an honest recovery of signers.\<close>

definition demo_env :: quote_env where
  "demo_env =
     \<lparr>sv_settings = \<lparr>se_lp = ''0xlp'', se_chain = 23294, se_contract = ''0xacc'', se_fee_bps = 50,
        se_lifi_enabled = True, se_keys = {''0xlp''}, se_withdraw_lanes = {''0xlp''}\<rparr>,
      sv_now = (\<lambda>n. 100), sv_other = (\<lambda>n. id), sv_sanitize = id, sv_scrub = id,
      sv_encode_transfer = (\<lambda>_ _ _ _ _. ''0x''),
      lx_nonce = (\<lambda>_ _. Inr 4), lx_token = (\<lambda>_ t. Inr \<lparr>ti_chain = 1, ti_address = Some t\<rparr>),
      lx_client = (\<lambda>_ _. Inr ''0xlp''), lx_gas_cost = (\<lambda>_ _ _. Inr 0), lx_balance = (\<lambda>_ _ _. Inr 1000000),
      lx_quote = (\<lambda>_ q. Inr \<lparr>xq_to_amount = 995, xq_min = 990, xq_approval = ''0xR'',
        xq_request = \<lparr>rq_chain = Some 1, rq_to = ''0xD'', rq_gas = Inr 9, rq_data = ''0x'', rq_value = Inr 0\<rparr>\<rparr>),
      lx_status = (\<lambda>_ _ _ _. Inl TypeError), lx_deposit_address = (\<lambda>_. Inr ''0xdep''),
      lx_check_deposit = (\<lambda>_ _ _ _. Inr ''credited''), lx_encode = (\<lambda>_ _ _. ''0x''),
      lx_logs = (\<lambda>_. [\<lparr>lg_address = ''0xD'', lg_topics = [''T''], lg_data = []\<rparr>]), lx_swap_topic = ''T'',
      lx_decode = (\<lambda>_. Inr (''0xlp'', ''0xB'', 992)),
      qx_routes = (\<lambda>_ _. Inr []), qx_lp_balance = (\<lambda>_ _. Inr 0), qx_simulate = (\<lambda>_ _. Inr ()),
      qx_recover = (\<lambda>_ _ _ n sig. if n = 3 then Some ''0xU'' else None), qx_uuid = (\<lambda>_. ''s1''),
      qx_now_up = (\<lambda>_. 101), qx_policies = [], qx_token_map = [], qx_pool_tokens = {}, qx_quote_ttl = 30,
      qx_swap_quote_ttl = 1800, qx_max_usd = 0, qx_lifi_max_usd = 0\<rparr>"

definition demo_quote :: quote where
  "demo_quote =
     \<lparr>q_id = ''q1'', q_user = ''0xu'', q_from_token = ''0xA'', q_to_token = ''0xB'', q_from_chain = 1,
      q_to_chain = 1, q_from_amount = ''1000'', q_gross = 995, q_estimate = 991, q_min = 980, q_tool = None,
      q_lp = ''0xlp'', q_expires = 1800, q_created = 90, q_venue = VenueLifi, q_slippage = Some 50\<rparr>"

definition demo_state :: sst where
  "demo_state = \<lparr>st_db = \<lparr>db_quotes = [demo_quote], db_swaps = [], db_evm = [], db_lanes = [], db_earns = []\<rparr>,
     st_tick = 0, st_last_cleanup = 0\<rparr>"

definition demo_sig :: string where
  "demo_sig = ''0x'' @ replicate 130 CHR ''b''"

theorem schedule_swap_once_witness:
  "\<exists>sw s'. schedule_swap demo_env ''q1'' 3 demo_sig demo_state = (Inr sw, s') \<and> sw_id sw = ''s1''
     \<and> nonce_holders ''0xu'' 3 (st_db s') = 1 \<and> schedule_swap demo_env ''q1'' 3 demo_sig s' = (Inr sw, s')"
proof -
  have run: "case schedule_swap demo_env ''q1'' 3 demo_sig demo_state of (r, s') \<Rightarrow>
      (case r of Inl _ \<Rightarrow> False | Inr sw \<Rightarrow> sw_id sw = ''s1'' \<and> sw_user sw = ''0xu'') \<and> st_tick s' = 3"
    by code_simp
  obtain r s' where eq: "schedule_swap demo_env ''q1'' 3 demo_sig demo_state = (r, s')" by fastforce
  with run obtain sw where r: "r = Inr sw" "sw_id sw = ''s1''" "sw_user sw = ''0xu''" and "st_tick s' = 3"
    by (auto split: sum.splits)
  moreover have "st_tick demo_state = 0" by (simp add: demo_state_def)
  moreover have "\<forall>k. qx_uuid demo_env k \<notin> sw_id ` set (db_swaps (st_db demo_state))"
    by (simp add: demo_state_def)
  ultimately show ?thesis
    using schedule_swap_once [of demo_env "''q1''" 3 demo_sig demo_state sw s' demo_env] eq by auto
qed



section \<open>The fee of a reused quote\<close>


definition campaign_env :: quote_env where
  "campaign_env = demo_env\<lparr>qx_policies := [\<lparr>fp_id = ''c'', fp_fee_bps = 0, fp_from = 50, fp_until = 150,
     fp_wallets = {''0x'' @ replicate 40 CHR ''a''}\<rparr>]\<rparr>"

lemma campaign_env_ok: "policies_ok (qx_policies campaign_env)"
proof -
  have "address_pattern (''0x'' @ replicate 40 CHR ''a'') \<and> lower (''0x'' @ replicate 40 CHR ''a'') = ''0x'' @ replicate 40 CHR ''a''
      \<and> \<not> blank ''c''"
    by code_simp
  then show ?thesis by (simp add: policies_ok_def policy_ok_def campaign_env_def)
qed


text \<open>A quote issued at the default fee can change its fee while it is valid: a campaign that starts
  in between applies when the quote is reused, though its amounts were computed without it.\<close>

lemma default_fee_can_change:
  "quote_fee campaign_env VenueInternal (''0x'' @ replicate 40 CHR ''a'') 49
       = \<lparr>fd_fee_bps = 50, fd_policy = None, fd_until = None\<rparr>
    \<and> 51 < quote_expiry campaign_env 49 (quote_fee campaign_env VenueInternal (''0x'' @ replicate 40 CHR ''a'') 49)
    \<and> fd_fee_bps (quote_fee campaign_env VenueInternal (''0x'' @ replicate 40 CHR ''a'') 51) = 0"
proof -
  have "lower (''0x'' @ replicate 40 CHR ''a'') = ''0x'' @ replicate 40 CHR ''a''" by code_simp
  then show ?thesis
    by (simp add: quote_fee_def resolve_internal_fee_def campaign_env_def covers_def quote_expiry_def demo_env_def)
qed

end
