(* ===== verification/InternalPipeline.thy ===== *)
theory InternalPipeline
  imports Quotes
begin

text \<open>
  The stage that fills a swap from the LP's own balance (\<open>services/swap/internal_pipeline.py\<close>):
  price the claimed swaps, check that the LP can pay them all, and queue one \<open>SwapManager.swap\<close>
  each on the LP's transfer lane.
\<close>

definition INTERNAL :: string where "INTERNAL = ''internal''"
definition INTERNAL_CLAIM_LIMIT :: int where "INTERNAL_CLAIM_LIMIT = 10"
definition PRICING_GIVE_UP_SEC :: int where "PRICING_GIVE_UP_SEC = 600"

text \<open>\<open>type(exc).__name__\<close>\<close>

definition exc_name :: "exc \<Rightarrow> string" where
  "exc_name e =
     (case e of
        ValueError _ \<Rightarrow> ''ValueError'' | RuntimeError _ \<Rightarrow> ''RuntimeError'' | KeyError \<Rightarrow> ''KeyError''
      | TypeError \<Rightarrow> ''TypeError'' | IndexError \<Rightarrow> ''IndexError'' | ZeroDivisionError \<Rightarrow> ''ZeroDivisionError''
      | TimeoutError \<Rightarrow> ''TimeoutError'' | NetworkError _ \<Rightarrow> ''NetworkError''
      | AccountingApiError _ _ \<Rightarrow> ''AccountingApiError'' | HttpStatus _ _ \<Rightarrow> ''HTTPStatusError''
      | TransportError name _ \<Rightarrow> name
      | ContractLogicError _ \<Rightarrow> ''ContractLogicError'' | _ \<Rightarrow> ''Exception'')"

definition settle_internal :: "'e swap_env_scheme \<Rightarrow> swap \<Rightarrow> unit sact" where
  "settle_internal env sw =
     bindA (query (find_lane sw INTERNAL)) (\<lambda>found.
     case found of
       None \<Rightarrow>
         bindA (liftE (need (sw_executed sw))) (\<lambda>executed.
           submit_lane env [swap_intent (owner (sw_id sw) INTERNAL) (sw_user sw) (sw_from_token sw)
             (sw_from_amount sw) (sw_input_nonce sw) (sw_input_sig sw) (sw_to_token sw) executed])
     | Some row \<Rightarrow>
         if ln_status row = LaneLanded
         then bindA (query (\<lambda>d. need (find_evm_tx (lane_evm_owner row) (db_evm d)))) (\<lambda>read. bindA (liftE read) (\<lambda>tx.
           ignore (finish_swap env sw SwapCompleted (\<lambda>r. r\<lparr>sw_actual := sw_executed sw, sw_tx_hash := tx_hash tx\<rparr>))))
         else if ln_status row = LaneFailed
         then ignore (fail env sw (if ln_error row = Some FOREIGN_SPEND then Parked else NoFundsMoved)
                (''swap failed: '' @ opt_text (ln_error row)))
         else ret ())"

definition defer_swap :: "'e swap_env_scheme \<Rightarrow> swap \<Rightarrow> string \<Rightarrow> unit sact" where
  "defer_swap env sw reason =
     bindA (waited env sw PRICING_GIVE_UP_SEC) (\<lambda>late.
       if late
       then ignore (fail env sw NoFundsMoved (reason @ '' for '' @ show_int PRICING_GIVE_UP_SEC @ '' s''))
       else ignore (note_swap sw reason))"

text \<open>An exception while pricing is \<open>PricingUnavailable\<close>; below the floor or over the cap is an error
  of the swap.\<close>

definition fresh_payout :: "'e quote_env_scheme \<Rightarrow> swap \<Rightarrow> int sact" where
  "fresh_payout env sw =
     bindA (query (get_stored_quote (sw_quote sw))) (\<lambda>found.
     case found of
       None \<Rightarrow> throw (ValueError ''Scheduled swap quote not found'')
     | Some q \<Rightarrow>
         bindA (tryA
           (bindA (await env (\<lambda>n. lx_token env n (sw_from_token sw))) (\<lambda>from_info.
            bindA (await env (\<lambda>n. lx_token env n (sw_to_token sw))) (\<lambda>to_info.
              price_route env from_info to_info (show_int (sw_from_amount sw))
                (case q_slippage q of None \<Rightarrow> LIFI_DEFAULT_SLIPPAGE_BPS
                 | Some b \<Rightarrow> if b = 0 then LIFI_DEFAULT_SLIPPAGE_BPS else b))))) (\<lambda>priced.
         case priced of
           Inl e \<Rightarrow> throw (PricingUnavailable (exc_name e))
         | Inr [] \<Rightarrow> throw (PricingUnavailable ''no route'')
         | Inr (r # _) \<Rightarrow>
             seqA (liftE (enforce_max_swap_size (qx_max_usd env) r))
             (bindA (clock env) (\<lambda>now.
              let decision = quote_fee env VenueInternal (sw_user sw) now in
              bindA (liftE (case rt_to_amount r of None \<Rightarrow> Inl KeyError | Some a \<Rightarrow> Inr a)) (\<lambda>to_amount.
              let net = fst (calculate_fee to_amount (fd_fee_bps decision)); floor = q_min q in
              if net < floor
              then throw (ValueError (''execution quote below floor: net='' @ show_int net @ '' floor='' @ show_int floor))
              else ret net)))))"

text \<open>Which of the claimed swaps' inputs would move.\<close>

fun simulate_inputs :: "'e quote_env_scheme \<Rightarrow> swap list \<Rightarrow> swap list sact" where
  "simulate_inputs env [] = ret []"
| "simulate_inputs env (sw # swaps) =
     bindA (tryA (await env (\<lambda>n. qx_simulate env n (input_transfer_call env sw)))) (\<lambda>outcome.
     bindA
       (case outcome of
          Inr _ \<Rightarrow> ret True
        | Inl (ContractLogicError m) \<Rightarrow>
            seqA (fail env sw NoFundsMoved (''input transfer would revert: '' @ sv_sanitize env m)) (ret False)
        | Inl e \<Rightarrow>
            seqA (defer_swap env sw (''input simulation unavailable: '' @ sv_sanitize env (exc_text e))) (ret False))
       (\<lambda>candidate.
     bindA (simulate_inputs env swaps) (\<lambda>rest. ret (if candidate then sw # rest else rest))))"

fun price_each :: "'e quote_env_scheme \<Rightarrow> swap list \<Rightarrow> (swap \<times> (exc + int)) list sact" where
  "price_each env [] = ret []"
| "price_each env (sw # swaps) =
     bindA (tryA (fresh_payout env sw)) (\<lambda>price.
     bindA (price_each env swaps) (\<lambda>rest. ret ((sw, price) # rest)))"

text \<open>What the LP can still pay in a token, read once a round: its balance less everything queued on
  its lanes or about to be.\<close>

definition queued_outflow :: "'e quote_env_scheme \<Rightarrow> string \<Rightarrow> db \<Rightarrow> exc + int" where
  "queued_outflow env token d =
     bindE (unqueued_lane_outflow token d) (\<lambda>unqueued.
       Inr (lane_outflow (se_lp (sv_settings env)) token (db_lanes d) + unqueued))"

fun fill_each :: "'e quote_env_scheme \<Rightarrow> (string \<times> int) list \<Rightarrow> (swap \<times> (exc + int)) list \<Rightarrow> unit sact" where
  "fill_each env available [] = ret ()"
| "fill_each env available ((sw, Inl (PricingUnavailable m)) # rest) =
     seqA (defer_swap env sw (''no price: '' @ m)) (fill_each env available rest)"
| "fill_each env available ((sw, Inl e) # rest) =
     seqA (fail env sw NoFundsMoved (sv_sanitize env (exc_text e))) (fill_each env available rest)"
| "fill_each env available ((sw, Inr price) # rest) =
     bindA
       (case map_of available (sw_to_token sw) of
          Some a \<Rightarrow> ret (Some (a, available))
        | None \<Rightarrow>
            bindA (tryA (await env (\<lambda>n. qx_lp_balance env n (sw_to_token sw)))) (\<lambda>read.
            case read of
              Inl e \<Rightarrow>
                seqA (defer_swap env sw (''LP balance unavailable: '' @ sv_sanitize env (exc_text e))) (ret None)
            | Inr balance \<Rightarrow>
                bindA (query (queued_outflow env (sw_to_token sw))) (\<lambda>out. bindA (liftE out) (\<lambda>outflow.
                  ret (Some (balance - outflow, (sw_to_token sw, balance - outflow) # available))))))
       (\<lambda>known.
     case known of
       None \<Rightarrow> fill_each env available rest
     | Some (a, available') \<Rightarrow>
         if a < price
         then seqA (fail env sw NoFundsMoved (''Insufficient liquidity for this swap: '' @ show_int a @ '' < '' @ show_int price))
           (fill_each env available' rest)
         else seqA (advance env sw InternalSwapSent None (\<lambda>r. r\<lparr>sw_executed := Some price\<rparr>))
           (fill_each env ((sw_to_token sw, a - price) # available') rest))"

definition price_swaps :: "'e quote_env_scheme \<Rightarrow> swap list \<Rightarrow> unit sact" where
  "price_swaps env swaps =
     bindA (simulate_inputs env swaps) (\<lambda>candidates.
     bindA (price_each env candidates) (fill_each env []))"

definition internal_swap_round :: "'e quote_env_scheme \<Rightarrow> unit sact" where
  "internal_swap_round env =
     bindA (query (swaps_at [InternalSwapSent] (-1))) (\<lambda>sent.
     seqA (handle_each sent (settle_internal env))
     (bindA (query (swaps_at [InternalSwapPricing] INTERNAL_CLAIM_LIMIT)) (\<lambda>pricing.
      seqA (claim env VenueInternal InternalSwapPricing (INTERNAL_CLAIM_LIMIT - int (length pricing)))
      (bindA (query (swaps_at [InternalSwapPricing] INTERNAL_CLAIM_LIMIT)) (price_swaps env)))))"

end
