(* ===== verification/LifiInv.thy ===== *)
theory LifiInv
  imports LifiPipeline
begin

text \<open>
  What holds of one swap while it goes through the LiFi pipeline, whatever the services answer and
  whatever runs between the waits of its handlers. The \<open>view\<close> of a swap is its row, its wallet
  transactions and its lane rows; \<open>vok\<close> says what each place of the swap has for evidence; \<open>vrely\<close>
  is what the other tasks and the senders may do to the view. The locale \<open>one_swap\<close> carries the
  rules of the handlers' steps; \<open>vh\<close> is the collection of rules.
\<close>

named_theorems vh \<open>rules for the steps of a handler of the swap\<close>
named_theorems quiet \<open>actions that leave the swap's view alone\<close>
named_theorems stable \<open>facts the environment keeps\<close>

section \<open>The view of a swap\<close>

record view =
  vw_row :: "swap option"
  vw_tx :: "string \<Rightarrow> evm_tx option"
  vw_lane :: "string \<Rightarrow> lane_row option"

definition view :: "string \<Rightarrow> db \<Rightarrow> view" where
  "view sid d =
     \<lparr>vw_row = find_row sw_id sid (db_swaps d),
      vw_tx = (\<lambda>k. find_evm_tx (owner sid k) (db_evm d)),
      vw_lane = (\<lambda>k. find_privana_tx (owner sid k) (db_lanes d))\<rparr>"

lemma owner_inj:
  assumes "CHR '':'' \<notin> set a" and "CHR '':'' \<notin> set b"
  shows "owner a k = owner b l \<longleftrightarrow> a = b \<and> k = l"
  using append_sep_eq [OF assms] by (simp add: owner_def)

lemma owner_same [simp]: "owner a k = owner a l \<longleftrightarrow> k = l"
  by (simp add: owner_def)

lemma kinds_distinct [simp]:
  "INPUT \<noteq> WITHDRAW" "INPUT \<noteq> APPROVE" "INPUT \<noteq> LIFI" "INPUT \<noteq> DEPOSIT" "INPUT \<noteq> REFUND"
  "INPUT \<noteq> CREDIT" "INPUT \<noteq> REFUND_PAYOUT" "WITHDRAW \<noteq> INPUT" "WITHDRAW \<noteq> APPROVE"
  "WITHDRAW \<noteq> LIFI" "WITHDRAW \<noteq> DEPOSIT" "WITHDRAW \<noteq> REFUND" "WITHDRAW \<noteq> CREDIT"
  "WITHDRAW \<noteq> REFUND_PAYOUT" "APPROVE \<noteq> INPUT" "APPROVE \<noteq> WITHDRAW" "APPROVE \<noteq> LIFI"
  "APPROVE \<noteq> DEPOSIT" "APPROVE \<noteq> REFUND" "APPROVE \<noteq> CREDIT" "APPROVE \<noteq> REFUND_PAYOUT"
  "LIFI \<noteq> INPUT" "LIFI \<noteq> WITHDRAW" "LIFI \<noteq> APPROVE" "LIFI \<noteq> DEPOSIT" "LIFI \<noteq> REFUND"
  "LIFI \<noteq> CREDIT" "LIFI \<noteq> REFUND_PAYOUT" "DEPOSIT \<noteq> INPUT" "DEPOSIT \<noteq> WITHDRAW"
  "DEPOSIT \<noteq> APPROVE" "DEPOSIT \<noteq> LIFI" "DEPOSIT \<noteq> REFUND" "DEPOSIT \<noteq> CREDIT"
  "DEPOSIT \<noteq> REFUND_PAYOUT" "REFUND \<noteq> INPUT" "REFUND \<noteq> WITHDRAW" "REFUND \<noteq> APPROVE"
  "REFUND \<noteq> LIFI" "REFUND \<noteq> DEPOSIT" "REFUND \<noteq> CREDIT" "REFUND \<noteq> REFUND_PAYOUT" "CREDIT \<noteq> INPUT"
  "CREDIT \<noteq> WITHDRAW" "CREDIT \<noteq> APPROVE" "CREDIT \<noteq> LIFI" "CREDIT \<noteq> DEPOSIT" "CREDIT \<noteq> REFUND"
  "CREDIT \<noteq> REFUND_PAYOUT" "REFUND_PAYOUT \<noteq> INPUT" "REFUND_PAYOUT \<noteq> WITHDRAW"
  "REFUND_PAYOUT \<noteq> APPROVE" "REFUND_PAYOUT \<noteq> LIFI" "REFUND_PAYOUT \<noteq> DEPOSIT"
  "REFUND_PAYOUT \<noteq> REFUND" "REFUND_PAYOUT \<noteq> CREDIT"
  by (simp_all add: kind_defs)

definition only :: "(string \<Rightarrow> 'a option) \<Rightarrow> string list \<Rightarrow> bool" where
  "only f ks \<longleftrightarrow> (\<forall>k. k \<notin> set ks \<longrightarrow> f k = None)"

definition mined :: "(string \<Rightarrow> evm_tx option) \<Rightarrow> string \<Rightarrow> bool" where
  "mined T k \<longleftrightarrow> (\<exists>tx. T k = Some tx \<and> tx_status tx = EvmMined)"

definition unspent :: "(string \<Rightarrow> evm_tx option) \<Rightarrow> string \<Rightarrow> bool" where
  "unspent T k \<longleftrightarrow> (\<forall>tx. T k = Some tx \<longrightarrow> unsent_or_reverted tx)"

definition lane_at :: "(string \<Rightarrow> lane_row option) \<Rightarrow> string \<Rightarrow> lane_status \<Rightarrow> bool" where
  "lane_at L k st \<longleftrightarrow> (\<exists>r. L k = Some r \<and> ln_status r = st)"

definition paying :: "(string \<Rightarrow> lane_row option) \<Rightarrow> string \<Rightarrow> string \<Rightarrow> string \<Rightarrow> int \<Rightarrow> bool" where
  "paying L k user token amount \<longleftrightarrow>
     (\<forall>r. L k = Some r \<longrightarrow> ln_kind r = KindTransfer
        \<and> ln_payload r = \<lparr>p_to = Some user, p_token = token, p_amount = amount, p_input = None\<rparr>)"

definition net_received :: "int \<Rightarrow> swap \<Rightarrow> int" where
  "net_received fee sw = (case sw_received sw of None \<Rightarrow> 0 | Some r \<Rightarrow> fst (calculate_fee r fee))"

definition crediting :: "int \<Rightarrow> swap \<Rightarrow> (string \<Rightarrow> lane_row option) \<Rightarrow> bool" where
  "crediting fee sw L \<longleftrightarrow> paying L CREDIT (sw_user sw) (sw_to_token sw) (net_received fee sw)"

definition refunding :: "swap \<Rightarrow> (string \<Rightarrow> lane_row option) \<Rightarrow> bool" where
  "refunding sw L \<longleftrightarrow> paying L REFUND_PAYOUT (sw_user sw) (sw_from_token sw) (sw_from_amount sw)"

text \<open>Where the input is: in the wallet, swapped, or back in the LP's Privana balance.\<close>

definition funded :: "(string \<Rightarrow> evm_tx option) \<Rightarrow> (string \<Rightarrow> lane_row option) \<Rightarrow> bool" where
  "funded T L \<longleftrightarrow> mined T INPUT \<and> lane_at L WITHDRAW LaneLanded"

definition swapped :: "swap \<Rightarrow> (string \<Rightarrow> evm_tx option) \<Rightarrow> (string \<Rightarrow> lane_row option) \<Rightarrow> bool" where
  "swapped sw T L \<longleftrightarrow>
     funded T L \<and> mined T LIFI \<and> sw_received sw \<noteq> None \<and> only T [INPUT, APPROVE, LIFI, DEPOSIT]"

definition returned :: "(string \<Rightarrow> evm_tx option) \<Rightarrow> (string \<Rightarrow> lane_row option) \<Rightarrow> bool" where
  "returned T L \<longleftrightarrow> mined T INPUT \<and>
     (only T [INPUT] \<and> lane_at L WITHDRAW LaneFailed
      \<or> only T [INPUT, APPROVE, LIFI, REFUND] \<and> lane_at L WITHDRAW LaneLanded \<and> unspent T LIFI \<and> mined T REFUND)"

definition ok_at :: "int \<Rightarrow> swap \<Rightarrow> (string \<Rightarrow> evm_tx option) \<Rightarrow> (string \<Rightarrow> lane_row option) \<Rightarrow> bool" where
  "ok_at fee sw T L =
     (case (sw_status sw, sw_step sw) of
        (SwapScheduled, _) \<Rightarrow> only T [] \<and> only L []
      | (SwapExecuting, Some InputSent) \<Rightarrow> only T [INPUT] \<and> only L []
      | (SwapExecuting, Some WithdrawSent) \<Rightarrow> only T [INPUT] \<and> mined T INPUT \<and> only L [WITHDRAW]
      | (SwapExecuting, Some ExecuteFunding) \<Rightarrow> only T [INPUT, APPROVE, LIFI] \<and> funded T L \<and> only L [WITHDRAW]
      | (SwapExecuting, Some ExecuteSent) \<Rightarrow>
          only T [INPUT, APPROVE, LIFI] \<and> funded T L \<and> only L [WITHDRAW] \<and> T LIFI \<noteq> None
      | (SwapExecuting, Some ExecuteBridging) \<Rightarrow>
          only T [INPUT, APPROVE, LIFI] \<and> funded T L \<and> only L [WITHDRAW] \<and> mined T LIFI
      | (SwapExecuting, Some DepositSent) \<Rightarrow> swapped sw T L \<and> only L [WITHDRAW]
      | (SwapExecuting, Some DepositCrediting) \<Rightarrow> swapped sw T L \<and> only L [WITHDRAW] \<and> mined T DEPOSIT
      | (SwapExecuting, Some CreditSent) \<Rightarrow>
          swapped sw T L \<and> mined T DEPOSIT \<and> only L [WITHDRAW, CREDIT] \<and> crediting fee sw L
      | (SwapCompleted, Some CreditSent) \<Rightarrow>
          swapped sw T L \<and> mined T DEPOSIT \<and> only L [WITHDRAW, CREDIT] \<and> crediting fee sw L
          \<and> lane_at L CREDIT LaneLanded \<and> sw_actual sw = Some (net_received fee sw)
      | (SwapRefunding, Some RefundRedeposit) \<Rightarrow>
          only T [INPUT, APPROVE, LIFI, REFUND] \<and> funded T L \<and> unspent T LIFI \<and> only L [WITHDRAW]
      | (SwapRefunding, Some RefundCrediting) \<Rightarrow>
          only T [INPUT, APPROVE, LIFI, REFUND] \<and> funded T L \<and> unspent T LIFI \<and> mined T REFUND \<and> only L [WITHDRAW]
      | (SwapRefunding, Some RefundPayout) \<Rightarrow> returned T L \<and> only L [WITHDRAW, REFUND_PAYOUT] \<and> refunding sw L
      | (SwapRefunded, Some RefundPayout) \<Rightarrow>
          returned T L \<and> only L [WITHDRAW, REFUND_PAYOUT] \<and> refunding sw L \<and> lane_at L REFUND_PAYOUT LaneLanded
      | (SwapFailed, Some NoFundsMoved) \<Rightarrow> only T [INPUT] \<and> unspent T INPUT \<and> only L []
      | (SwapFailed, Some Parked) \<Rightarrow>
          (L CREDIT = None \<or> L REFUND_PAYOUT = None) \<and> crediting fee sw L \<and> refunding sw L
          \<and> (L REFUND_PAYOUT \<noteq> None \<longrightarrow> returned T L)
          \<and> (L CREDIT \<noteq> None \<longrightarrow> swapped sw T L \<and> mined T DEPOSIT)
      | _ \<Rightarrow> False)"

text \<open>The evidence of each place.\<close>

lemma ok_places:
  "sw_status sw = SwapScheduled \<Longrightarrow> ok_at fee sw T L \<longleftrightarrow> only T [] \<and> only L []"
  "sw_status sw = SwapExecuting \<Longrightarrow> sw_step sw = Some InputSent \<Longrightarrow>
     ok_at fee sw T L \<longleftrightarrow> only T [INPUT] \<and> only L []"
  "sw_status sw = SwapExecuting \<Longrightarrow> sw_step sw = Some WithdrawSent \<Longrightarrow>
     ok_at fee sw T L \<longleftrightarrow> only T [INPUT] \<and> mined T INPUT \<and> only L [WITHDRAW]"
  "sw_status sw = SwapExecuting \<Longrightarrow> sw_step sw = Some ExecuteFunding \<Longrightarrow>
     ok_at fee sw T L \<longleftrightarrow> only T [INPUT, APPROVE, LIFI] \<and> funded T L \<and> only L [WITHDRAW]"
  "sw_status sw = SwapExecuting \<Longrightarrow> sw_step sw = Some ExecuteSent \<Longrightarrow>
     ok_at fee sw T L \<longleftrightarrow> only T [INPUT, APPROVE, LIFI] \<and> funded T L \<and> only L [WITHDRAW] \<and> T LIFI \<noteq> None"
  "sw_status sw = SwapExecuting \<Longrightarrow> sw_step sw = Some ExecuteBridging \<Longrightarrow>
     ok_at fee sw T L \<longleftrightarrow> only T [INPUT, APPROVE, LIFI] \<and> funded T L \<and> only L [WITHDRAW] \<and> mined T LIFI"
  "sw_status sw = SwapExecuting \<Longrightarrow> sw_step sw = Some DepositSent \<Longrightarrow>
     ok_at fee sw T L \<longleftrightarrow> swapped sw T L \<and> only L [WITHDRAW]"
  "sw_status sw = SwapExecuting \<Longrightarrow> sw_step sw = Some DepositCrediting \<Longrightarrow>
     ok_at fee sw T L \<longleftrightarrow> swapped sw T L \<and> only L [WITHDRAW] \<and> mined T DEPOSIT"
  "sw_status sw = SwapExecuting \<Longrightarrow> sw_step sw = Some CreditSent \<Longrightarrow>
     ok_at fee sw T L \<longleftrightarrow> swapped sw T L \<and> mined T DEPOSIT \<and> only L [WITHDRAW, CREDIT] \<and> crediting fee sw L"
  "sw_status sw = SwapCompleted \<Longrightarrow> sw_step sw = Some CreditSent \<Longrightarrow>
     ok_at fee sw T L \<longleftrightarrow> swapped sw T L \<and> mined T DEPOSIT \<and> only L [WITHDRAW, CREDIT] \<and> crediting fee sw L \<and> lane_at L CREDIT LaneLanded \<and> sw_actual sw = Some (net_received fee sw)"
  "sw_status sw = SwapRefunding \<Longrightarrow> sw_step sw = Some RefundRedeposit \<Longrightarrow>
     ok_at fee sw T L \<longleftrightarrow> only T [INPUT, APPROVE, LIFI, REFUND] \<and> funded T L \<and> unspent T LIFI \<and> only L [WITHDRAW]"
  "sw_status sw = SwapRefunding \<Longrightarrow> sw_step sw = Some RefundCrediting \<Longrightarrow>
     ok_at fee sw T L \<longleftrightarrow> only T [INPUT, APPROVE, LIFI, REFUND] \<and> funded T L \<and> unspent T LIFI \<and> mined T REFUND \<and> only L [WITHDRAW]"
  "sw_status sw = SwapRefunding \<Longrightarrow> sw_step sw = Some RefundPayout \<Longrightarrow>
     ok_at fee sw T L \<longleftrightarrow> returned T L \<and> only L [WITHDRAW, REFUND_PAYOUT] \<and> refunding sw L"
  "sw_status sw = SwapRefunded \<Longrightarrow> sw_step sw = Some RefundPayout \<Longrightarrow>
     ok_at fee sw T L \<longleftrightarrow> returned T L \<and> only L [WITHDRAW, REFUND_PAYOUT] \<and> refunding sw L \<and> lane_at L REFUND_PAYOUT LaneLanded"
  "sw_status sw = SwapFailed \<Longrightarrow> sw_step sw = Some NoFundsMoved \<Longrightarrow>
     ok_at fee sw T L \<longleftrightarrow> only T [INPUT] \<and> unspent T INPUT \<and> only L []"
  "sw_status sw = SwapFailed \<Longrightarrow> sw_step sw = Some Parked \<Longrightarrow>
     ok_at fee sw T L \<longleftrightarrow> (L CREDIT = None \<or> L REFUND_PAYOUT = None) \<and> crediting fee sw L \<and> refunding sw L \<and> (L REFUND_PAYOUT \<noteq> None \<longrightarrow> returned T L) \<and> (L CREDIT \<noteq> None \<longrightarrow> swapped sw T L \<and> mined T DEPOSIT)"
  by (simp_all add: ok_at_def)

definition vok :: "int \<Rightarrow> view \<Rightarrow> bool" where
  "vok fee v =
     (case vw_row v of
        None \<Rightarrow> only (vw_tx v) [] \<and> only (vw_lane v) []
      | Some sw \<Rightarrow> sw_venue sw = VenueLifi \<longrightarrow> ok_at fee sw (vw_tx v) (vw_lane v))"

lemma only_None: "only f ks \<Longrightarrow> k \<notin> set ks \<Longrightarrow> f k = None"
  by (simp add: only_def)

lemma only_mono: "only f ks \<Longrightarrow> set ks \<subseteq> set ls \<Longrightarrow> only f ls"
  by (auto simp: only_def)

lemma no_payment [simp]:
  "L CREDIT = None \<Longrightarrow> crediting fee sw L"
  "L REFUND_PAYOUT = None \<Longrightarrow> refunding sw L"
  by (simp_all add: crediting_def refunding_def paying_def)

lemma facts_of_row [simp]:
  "swapped (r\<lparr>sw_error := e\<rparr>) T L = swapped r T L" "crediting fee (r\<lparr>sw_error := e\<rparr>) L = crediting fee r L"
  "refunding (r\<lparr>sw_error := e\<rparr>) L = refunding r L"
  "swapped (r\<lparr>sw_updated := i\<rparr>) T L = swapped r T L" "crediting fee (r\<lparr>sw_updated := i\<rparr>) L = crediting fee r L"
  "refunding (r\<lparr>sw_updated := i\<rparr>) L = refunding r L"
  "swapped (r\<lparr>sw_status := st\<rparr>) T L = swapped r T L" "crediting fee (r\<lparr>sw_status := st\<rparr>) L = crediting fee r L"
  "refunding (r\<lparr>sw_status := st\<rparr>) L = refunding r L"
  "swapped (r\<lparr>sw_step := p\<rparr>) T L = swapped r T L" "crediting fee (r\<lparr>sw_step := p\<rparr>) L = crediting fee r L"
  "refunding (r\<lparr>sw_step := p\<rparr>) L = refunding r L"
  "swapped (r\<lparr>sw_deposit_tx := x\<rparr>) T L = swapped r T L" "crediting fee (r\<lparr>sw_deposit_tx := x\<rparr>) L = crediting fee r L"
  "refunding (r\<lparr>sw_deposit_tx := x\<rparr>) L = refunding r L"
  "swapped (r\<lparr>sw_actual := y\<rparr>) T L = swapped r T L" "crediting fee (r\<lparr>sw_actual := y\<rparr>) L = crediting fee r L"
  "refunding (r\<lparr>sw_actual := y\<rparr>) L = refunding r L"
  by (simp_all add: swapped_def crediting_def refunding_def net_received_def)

lemma net_received_row [simp]:
  "net_received fee (r\<lparr>sw_error := e\<rparr>) = net_received fee r"
  "net_received fee (r\<lparr>sw_updated := i\<rparr>) = net_received fee r"
  "net_received fee (r\<lparr>sw_status := st\<rparr>) = net_received fee r"
  "net_received fee (r\<lparr>sw_actual := y\<rparr>) = net_received fee r"
  by (simp_all add: net_received_def)

lemma ok_at_row [simp]:
  "ok_at fee (r\<lparr>sw_error := e\<rparr>) T L = ok_at fee r T L"
  "ok_at fee (r\<lparr>sw_updated := i\<rparr>) T L = ok_at fee r T L"
  by (auto simp: ok_at_def split: swap_status.split option.split swap_step.split)

section \<open>What the environment may do\<close>

definition tx_rely :: "evm_tx option \<Rightarrow> evm_tx option \<Rightarrow> bool" where
  "tx_rely a b =
     (case a of
        None \<Rightarrow> b = None
      | Some tx \<Rightarrow> b \<noteq> None \<and> (tx_status tx \<noteq> EvmQueued \<longrightarrow> b = Some tx))"

definition settled_lane :: "lane_row \<Rightarrow> bool" where
  "settled_lane r \<longleftrightarrow> ln_status r = LaneLanded \<or> ln_status r = LaneFailed"

definition lane_rely :: "lane_row option \<Rightarrow> lane_row option \<Rightarrow> bool" where
  "lane_rely a b =
     (case a of
        None \<Rightarrow> b = None
      | Some r \<Rightarrow> \<exists>r'. b = Some r' \<and> ln_kind r' = ln_kind r \<and> ln_payload r' = ln_payload r
                   \<and> (settled_lane r \<longrightarrow> r' = r))"

text \<open>The columns of a swap no write touches.\<close>

definition same_order :: "swap \<Rightarrow> swap \<Rightarrow> bool" where
  "same_order a b \<longleftrightarrow>
     sw_id a = sw_id b \<and> sw_user a = sw_user b \<and> sw_venue a = sw_venue b \<and> sw_from_token a = sw_from_token b
     \<and> sw_to_token a = sw_to_token b \<and> sw_from_amount a = sw_from_amount b
     \<and> sw_input_nonce a = sw_input_nonce b \<and> sw_input_sig a = sw_input_sig b"

definition vrely :: "int \<Rightarrow> view \<Rightarrow> view \<Rightarrow> bool" where
  "vrely fee v v' \<longleftrightarrow>
     (\<forall>k. tx_rely (vw_tx v k) (vw_tx v' k)) \<and> (\<forall>k. lane_rely (vw_lane v k) (vw_lane v' k))
     \<and> (\<forall>sw. vw_row v = Some sw \<longrightarrow> (\<exists>sw'. vw_row v' = Some sw' \<and> same_order sw sw'))
     \<and> (vok fee v \<longrightarrow> vok fee v')"

lemma tx_rely_refl [simp]: "tx_rely a a"
  by (simp add: tx_rely_def split: option.splits)

lemma lane_rely_refl [simp]: "lane_rely a a"
  by (simp add: lane_rely_def split: option.splits)

lemma same_order_refl [simp]: "same_order a a"
  by (simp add: same_order_def)

lemma vrely_refl [simp]: "vrely fee v v"
  by (simp add: vrely_def)

section \<open>The effect of a handler's writes on the view\<close>

lemma view_simps [simp]:
  "vw_row (view sid d) = find_row sw_id sid (db_swaps d)"
  "vw_tx (view sid d) k = find_evm_tx (owner sid k) (db_evm d)"
  "vw_lane (view sid d) k = find_privana_tx (owner sid k) (db_lanes d)"
  by (simp_all add: view_def)

lemma view_swaps:
  "view sid (d\<lparr>db_swaps := t\<rparr>) = (view sid d)\<lparr>vw_row := find_row sw_id sid t\<rparr>"
  "view sid (d\<lparr>db_evm := u\<rparr>) = (view sid d)\<lparr>vw_tx := (\<lambda>k. find_evm_tx (owner sid k) u)\<rparr>"
  "view sid (d\<lparr>db_lanes := l\<rparr>) = (view sid d)\<lparr>vw_lane := (\<lambda>k. find_privana_tx (owner sid k) l)\<rparr>"
  by (simp_all add: view_def)

lemma view_row: "(view sid d)\<lparr>vw_row := find_row sw_id sid (db_swaps d)\<rparr> = view sid d"
  by (simp add: view_def)

lemma update_swap_snd:
  "snd (update_swap now sw f t) = update_where (same_place sw) (\<lambda>r. (f r)\<lparr>sw_updated := now\<rparr>) t"
  using row_count_0 [of "same_place sw" t] update_where_none [of t "same_place sw"]
  by (auto simp: update_swap_def)

definition put_row :: "int \<Rightarrow> swap \<Rightarrow> (swap \<Rightarrow> swap) \<Rightarrow> view \<Rightarrow> view" where
  "put_row now sw cols v =
     v\<lparr>vw_row := map_option (\<lambda>r. if same_place sw r then (cols r)\<lparr>sw_updated := now\<rparr> else r) (vw_row v)\<rparr>"

lemma view_update:
  assumes "\<And>r. sw_id (cols r) = sw_id r"
  shows "view sid (d\<lparr>db_swaps := snd (update_swap now sw cols (db_swaps d))\<rparr>) = put_row now sw cols (view sid d)"
  using assms by (simp add: view_swaps put_row_def update_swap_snd find_row_update_where)

text \<open>What submitting transactions of some owners does to the transactions of the view.\<close>

definition submitted :: "(string \<Rightarrow> evm_tx option) \<Rightarrow> string list \<Rightarrow> (string \<Rightarrow> evm_tx option) \<Rightarrow> bool" where
  "submitted T ks T' \<longleftrightarrow>
     (\<forall>k. (T k \<noteq> None \<longrightarrow> T' k = T k) \<and> (k \<notin> set ks \<longrightarrow> T' k = T k) \<and> (k \<in> set ks \<longrightarrow> T' k \<noteq> None))"

lemma submit_view:
  assumes "map in_owner is = map (owner sid) ks"
  shows "submitted (vw_tx (view sid d)) ks (vw_tx (view sid (d\<lparr>db_evm := snd (submit c a now is (db_evm d))\<rparr>)))"
proof -
  let ?u = "evm_queue.insert_all c (lower a) now is (db_evm d)"
  have owners: "owner sid k \<in> in_owner ` set is \<longleftrightarrow> k \<in> set ks" for k
  proof -
    have "in_owner ` set is = owner sid ` set ks" using arg_cong [OF assms, of set] by simp
    then show ?thesis by (auto simp: image_iff)
  qed
  have "find_evm_tx (owner sid k) ?u = find_evm_tx (owner sid k) (db_evm d)" if "k \<notin> set ks" for k
    using evm_queue.insert_all_frame owners that by blast
  moreover have "find_evm_tx (owner sid k) ?u = Some tx" if "find_evm_tx (owner sid k) (db_evm d) = Some tx" for k tx
    using that by (rule evm_queue.insert_all_keeps)
  moreover have "find_evm_tx (owner sid k) ?u \<noteq> None" if "k \<in> set ks" for k
    using owners [of k] that evm_queue.insert_all_found [of _ "is"] by fastforce
  ultimately show ?thesis by (auto simp: submitted_def submit_eq)
qed

definition laned :: "(string \<Rightarrow> lane_row option) \<Rightarrow> string \<Rightarrow> lane_kind \<Rightarrow> lane_payload \<Rightarrow> (string \<Rightarrow> lane_row option) \<Rightarrow> bool"
where
  "laned L k kind payload L' \<longleftrightarrow>
     (\<forall>k'. k' \<noteq> k \<longrightarrow> L' k' = L k')
     \<and> (case L k of None \<Rightarrow> (\<exists>r. L' k = Some r \<and> ln_kind r = kind \<and> ln_payload r = payload) | Some r \<Rightarrow> L' k = Some r)"

lemma insert_lane_view:
  assumes "pi_owner i = owner sid k"
  shows "laned (vw_lane (view sid d)) k (pi_kind i) (pi_payload i)
    (vw_lane (view sid (d\<lparr>db_lanes := insert_lane a now i (db_lanes d)\<rparr>)))"
proof -
  have "find_privana_tx (owner sid k') (insert_lane a now i (db_lanes d)) = find_privana_tx (owner sid k') (db_lanes d)"
    if "k' \<noteq> k" for k'
    using that assms by (intro lane_queue.insert_frame) simp
  moreover have "find_privana_tx (owner sid k) (insert_lane a now i (db_lanes d))
      = Some (lane_row_of a now i (db_lanes d))" if "find_privana_tx (owner sid k) (db_lanes d) = None"
    using lane_queue.insert_found [of i "db_lanes d" a now] that assms by simp
  moreover have "find_privana_tx (owner sid k) (insert_lane a now i (db_lanes d)) = Some r"
    if "find_privana_tx (owner sid k) (db_lanes d) = Some r" for r
    using lane_queue.insert_keeps that by blast
  ultimately show ?thesis
    by (auto simp: laned_def lane_row_of_def split: option.splits)
qed

lemma laned_facts:
  assumes "laned L k kind p L'" and "k \<noteq> WITHDRAW"
  shows "lane_at L' WITHDRAW st \<longleftrightarrow> lane_at L WITHDRAW st"
    "funded T L' \<longleftrightarrow> funded T L" "swapped sw T L' \<longleftrightarrow> swapped sw T L" "returned T L' \<longleftrightarrow> returned T L"
proof -
  have "L' WITHDRAW = L WITHDRAW" using assms by (auto simp: laned_def)
  then show "lane_at L' WITHDRAW st \<longleftrightarrow> lane_at L WITHDRAW st"
    "funded T L' \<longleftrightarrow> funded T L" "swapped sw T L' \<longleftrightarrow> swapped sw T L" "returned T L' \<longleftrightarrow> returned T L"
    by (simp_all add: lane_at_def funded_def swapped_def returned_def)
qed

lemma laned_only: "laned L k kind p L' \<Longrightarrow> k \<in> set ks \<Longrightarrow> only L ks \<Longrightarrow> only L' ks"
  by (auto simp: laned_def only_def)

lemma laned_paying:
  "laned L k KindTransfer \<lparr>p_to = Some u, p_token = t, p_amount = n, p_input = None\<rparr> L' \<Longrightarrow> L k = None
    \<Longrightarrow> paying L' k u t n"
  by (auto simp: laned_def paying_def)

text \<open>Queueing failed transactions of some kinds again.\<close>

definition requeued :: "(string \<Rightarrow> evm_tx option) \<Rightarrow> string list \<Rightarrow> (string \<Rightarrow> evm_tx option) \<Rightarrow> bool" where
  "requeued T ks T' \<longleftrightarrow>
     (\<forall>k. (T' k = None \<longleftrightarrow> T k = None) \<and> (mined T' k \<longleftrightarrow> mined T k) \<and> (k \<notin> set ks \<longrightarrow> T' k = T k))"

lemma find_evm_tx_owner: "find_evm_tx x t = Some tx \<Longrightarrow> tx_owner tx = x"
  using find_row_Some by (fastforce simp: find_evm_tx_def)

lemma requeue_view:
  assumes "set xs \<subseteq> owner sid ` set ks"
  shows "requeued (vw_tx (view sid d)) ks (vw_tx (view sid (d\<lparr>db_evm := snd (requeue now xs (db_evm d))\<rparr>)))"
proof -
  let ?f = "\<lambda>r. r\<lparr>tx_status := EvmQueued, tx_error := None, tx_hash := None, tx_nonce := None, tx_logs := None, tx_updated := now\<rparr>"
  have eq: "find_evm_tx (owner sid k) (snd (requeue now xs (db_evm d)))
      = map_option (\<lambda>r. if requeuable xs r then ?f r else r) (find_evm_tx (owner sid k) (db_evm d))" for k
    by (simp add: requeue_def find_evm_tx_def find_row_update_where)
  have "requeuable xs tx \<Longrightarrow> k \<in> set ks" if "find_evm_tx (owner sid k) (db_evm d) = Some tx" for k tx
    using assms find_evm_tx_owner [OF that] by (auto simp: requeuable_def)
  then show ?thesis
    unfolding requeued_def mined_def
    by (intro allI, case_tac "find_evm_tx (owner sid k) (db_evm d)") (auto simp: eq requeuable_def)
qed

definition cancelled :: "(string \<Rightarrow> lane_row option) \<Rightarrow> string \<Rightarrow> (string \<Rightarrow> lane_row option) \<Rightarrow> bool" where
  "cancelled L k L' \<longleftrightarrow> (\<forall>k'. k' \<noteq> k \<longrightarrow> L' k' = L k') \<and> lane_at L' k LaneFailed"

lemma find_privana_tx_owner: "find_privana_tx x t = Some r \<Longrightarrow> ln_owner r = x"
  using find_row_Some by (fastforce simp: find_privana_tx_def)

lemma cancel_view:
  assumes "find_privana_tx (owner sid k) (db_lanes d) = Some row" and "ln_status row = LaneQueued"
  shows "cancelled (vw_lane (view sid d)) k
    (vw_lane (view sid (d\<lparr>db_lanes := snd (cancel_queued now (owner sid k) e (db_lanes d))\<rparr>)))"
proof -
  have eq: "find_privana_tx (owner sid k') (snd (cancel_queued now (owner sid k) e (db_lanes d)))
      = map_option (\<lambda>r. if ln_owner r = owner sid k \<and> ln_status r = LaneQueued
          then r\<lparr>ln_status := LaneFailed, ln_error := Some e, ln_updated := now\<rparr> else r)
        (find_privana_tx (owner sid k') (db_lanes d))" for k'
    by (simp add: cancel_queued_def find_privana_tx_def find_row_update_where Let_def)
  have "find_privana_tx (owner sid k') (snd (cancel_queued now (owner sid k) e (db_lanes d)))
      = find_privana_tx (owner sid k') (db_lanes d)" if "k' \<noteq> k" for k'
    using that find_privana_tx_owner [of "owner sid k'" "db_lanes d"]
    by (cases "find_privana_tx (owner sid k') (db_lanes d)") (auto simp: eq)
  then show ?thesis
    using assms find_privana_tx_owner [OF assms(1)] by (simp add: cancelled_def lane_at_def eq)
qed

lemma lifi_intent_owner: "lifi_intent own c rq sim = Inr i \<Longrightarrow> in_owner i = own"
  by (auto simp: lifi_intent_def bindE_Inr split: option.splits if_splits)

section \<open>Rules of one handler\<close>

definition kept :: "int \<Rightarrow> (view \<Rightarrow> bool) \<Rightarrow> bool" where
  "kept fee A \<longleftrightarrow> (\<forall>v v'. vrely fee v v' \<longrightarrow> A v \<longrightarrow> A v')"

lemma kept_True [stable]: "kept fee (\<lambda>_. True)"
  by (simp add: kept_def)

lemma kept_const [stable]: "kept fee (\<lambda>_. P)"
  by (simp add: kept_def)

lemma kept_conj [stable]: "kept fee A \<Longrightarrow> kept fee B \<Longrightarrow> kept fee (\<lambda>v. A v \<and> B v)"
  by (auto simp: kept_def)

lemma vrely_tx: "vrely fee v v' \<Longrightarrow> tx_rely (vw_tx v k) (vw_tx v' k)"
  by (simp add: vrely_def)

lemma vrely_lane: "vrely fee v v' \<Longrightarrow> lane_rely (vw_lane v k) (vw_lane v' k)"
  by (simp add: vrely_def)

lemma kept_no_tx [stable]: "kept fee (\<lambda>v. vw_tx v k = None)"
  using vrely_tx [of fee _ _ k] by (fastforce simp: kept_def tx_rely_def)

lemma kept_tx [stable]: "tx_status tx \<noteq> EvmQueued \<Longrightarrow> kept fee (\<lambda>v. vw_tx v k = Some tx)"
  using vrely_tx [of fee _ _ k] by (fastforce simp: kept_def tx_rely_def)

lemma kept_vok [stable]: "kept fee (vok fee)"
  by (simp add: kept_def vrely_def)

lemma kept_order [stable]: "kept fee (\<lambda>v. \<exists>row. vw_row v = Some row \<and> same_order sw row)"
  unfolding kept_def
proof (intro allI impI)
  fix v v' assume "vrely fee v v'" and "\<exists>row. vw_row v = Some row \<and> same_order sw row"
  then obtain row row' where "same_order sw row" "vw_row v' = Some row'" "same_order row row'"
    unfolding vrely_def by blast
  then show "\<exists>row. vw_row v' = Some row \<and> same_order sw row"
    by (intro exI [of _ row']) (simp add: same_order_def)
qed

locale one_swap =
  fixes env :: "'e lifi_env_scheme" and sid :: string and fee :: int
  assumes rely: "vrely fee (view sid d) (view sid (sv_other env n d))"
    and fee: "se_fee_bps (sv_settings env) = fee"
begin

definition vq :: "(view \<Rightarrow> bool) \<Rightarrow> 'a sact \<Rightarrow> ('a \<Rightarrow> view \<Rightarrow> bool) \<Rightarrow> bool" where
  "vq A m B \<longleftrightarrow>
     hoare (\<lambda>s. A (view sid (st_db s)) \<and> vok fee (view sid (st_db s))) m
       (\<lambda>x s. B x (view sid (st_db s)) \<and> vok fee (view sid (st_db s))) (\<lambda>s. vok fee (view sid (st_db s)))"

abbreviation vh_ok :: "(view \<Rightarrow> bool) \<Rightarrow> 'a sact \<Rightarrow> bool" where
  "vh_ok A m \<equiv> vq A m (\<lambda>_ _. True)"

lemma vq_bind: "vq A m B \<Longrightarrow> (\<And>x. vq (B x) (f x) C) \<Longrightarrow> vq A (bindA m f) C"
  unfolding vq_def by (rule hoare_bindA)

lemma vq_seq: "vq A m (\<lambda>_. B) \<Longrightarrow> vq B n C \<Longrightarrow> vq A (seqA m n) C"
  unfolding seqA_def by (rule vq_bind)

lemma vq_pre: "vq B m C \<Longrightarrow> (\<And>v. A v \<Longrightarrow> vok fee v \<Longrightarrow> B v) \<Longrightarrow> vq A m C"
  unfolding vq_def by (erule hoare_pre) blast

lemma vq_post: "vq A m B \<Longrightarrow> (\<And>x v. B x v \<Longrightarrow> C x v) \<Longrightarrow> vq A m C"
  unfolding vq_def by (erule hoare_post) auto

lemma vq_absurd: "(\<And>v. A v \<Longrightarrow> False) \<Longrightarrow> vq A m C"
  by (auto simp: vq_def hoare_def)

lemma vq_if: "(b \<Longrightarrow> vq A m B) \<Longrightarrow> (\<not> b \<Longrightarrow> vq A n B) \<Longrightarrow> vq A (if b then m else n) B"
  by simp

lemma vq_ignore [vh]: "vh_ok A m \<Longrightarrow> vh_ok A (ignore m)"
  unfolding ignore_def by (rule vq_seq, assumption) (simp add: vq_def hoare_def ret_def)

lemma vq_ret [vh]: "(\<And>v. A v \<Longrightarrow> B x v) \<Longrightarrow> vq A (ret x) B"
  by (simp add: vq_def hoare_def ret_def)

lemma vq_throw [vh]: "vq A (throw e) B"
  by (simp add: vq_def hoare_def throw_def)

lemma vq_clock [vh]: "vq A (clock e') (\<lambda>_. A)"
  by (simp add: vq_def hoare_def clock_def)

lemma vq_ask [vh]: "vq A (ask e' f) (\<lambda>_. A)"
  by (auto simp: vq_def hoare_def ask_def split: sum.splits)

lemma vq_waited [vh]: "vq A (waited e' sw n) (\<lambda>_. A)"
  unfolding waited_def by (rule vq_bind [OF vq_clock]) (rule vq_ret)

text \<open>Facts that the environment keeps, and actions that keep every such fact.\<close>

definition stays :: "(view \<Rightarrow> bool) \<Rightarrow> bool" where
  "stays A \<longleftrightarrow> (\<forall>n d. A (view sid d) \<longrightarrow> A (view sid (sv_other env n d)))"

lemma stays_kept: "kept fee A \<Longrightarrow> stays A"
  using rely by (auto simp: stays_def kept_def)

lemma stays_conj: "stays A \<Longrightarrow> stays B \<Longrightarrow> stays (\<lambda>v. A v \<and> B v)"
  by (auto simp: stays_def)

definition quiet :: "'a sact \<Rightarrow> bool" where
  "quiet m \<longleftrightarrow> (\<forall>A. stays A \<longrightarrow>
     hoare (\<lambda>s. A (view sid (st_db s))) m (\<lambda>_ s. A (view sid (st_db s))) (\<lambda>s. A (view sid (st_db s))))"

lemma quietD:
  "quiet m \<Longrightarrow> stays A \<Longrightarrow>
     hoare (\<lambda>s. A (view sid (st_db s))) m (\<lambda>_ s. A (view sid (st_db s))) (\<lambda>s. A (view sid (st_db s)))"
  by (simp add: quiet_def)

lemma quiet_bind [quiet]: "quiet m \<Longrightarrow> (\<And>x. quiet (f x)) \<Longrightarrow> quiet (bindA m f)"
  unfolding quiet_def by (blast intro: hoare_bindA)

lemma quiet_await [quiet]: "quiet (await env f)"
  by (auto simp: quiet_def hoare_def await_def stays_def split: sum.splits)

lemma quiet_try [quiet]: "quiet m \<Longrightarrow> quiet (tryA m)"
  unfolding quiet_def by (blast intro: hoare_tryA)

lemma quiet_simple [quiet]:
  "quiet (ret x)" "quiet (throw e)" "quiet (query g)" "quiet (liftE r)" "quiet (clock e')" "quiet (ask e' h)"
  by (auto simp: quiet_def hoare_def act_simps query_run liftE_def clock_def ask_def split: sum.splits)

lemma quiet_if [quiet]: "quiet m \<Longrightarrow> quiet n \<Longrightarrow> quiet (if b then m else n)"
  by simp

lemma quiet_holds [quiet]: "quiet (holds env c tok t a g)"
  unfolding holds_def by (intro quiet) (auto intro!: quiet split: sum.splits)

lemma quiet_token_infos [quiet]: "quiet (token_infos env sw)"
  unfolding token_infos_def by (intro quiet)

lemma quiet_execution_quote [quiet]: "quiet (execution_quote env q f t a)"
  unfolding execution_quote_def Let_def
  by (intro quiet) (auto intro!: quiet split: option.splits)

lemma vq_quiet':
  assumes "stays A" and "quiet m"
  shows "vq A m (\<lambda>_. A)"
proof -
  have "stays (\<lambda>v. A v \<and> vok fee v)"
    using assms(1) by (intro stays_conj stays_kept [OF kept_vok])
  from quietD [OF assms(2) this] show ?thesis
    unfolding vq_def by (rule hoare_post) auto
qed

lemma vq_quiet: "kept fee A \<Longrightarrow> quiet m \<Longrightarrow> vq A m (\<lambda>_. A)"
  by (rule vq_quiet' [OF stays_kept])

lemma vq_await: "kept fee A \<Longrightarrow> vq A (await env f) (\<lambda>_. A)"
  by (rule vq_quiet [OF _ quiet_await])

lemma vq_query: "(\<And>d. A (view sid d) \<Longrightarrow> B (f d) (view sid d)) \<Longrightarrow> vq A (query f) B"
  by (auto simp: vq_def hoare_def query_run)

lemma vq_look [vh]: "vq A (query f) (\<lambda>_. A)"
  by (rule vq_query)

lemma vq_liftE: "(\<And>x v. r = Inr x \<Longrightarrow> A v \<Longrightarrow> B x v) \<Longrightarrow> vq A (liftE r) B"
  by (auto simp: vq_def hoare_def liftE_def split: sum.splits)

lemma vq_update:
  assumes "\<And>r. sw_id (cols r) = sw_id r"
    and "\<And>v row now. A v \<Longrightarrow> vok fee v \<Longrightarrow> vw_row v = Some row \<Longrightarrow> same_place sw row \<Longrightarrow>
      vok fee (v\<lparr>vw_row := Some ((cols row)\<lparr>sw_updated := now\<rparr>)\<rparr>)"
  shows "vh_ok A (update env sw cols)"
proof -
  have "vok fee (put_row now sw cols v)" if "A v" "vok fee v" for v now
    using assms(2) [OF that] that(2)
    by (cases "vw_row v") (auto simp: put_row_def vok_def)
  then have "vok fee (view sid (d\<lparr>db_swaps := snd (update_swap now sw cols (db_swaps d))\<rparr>))"
    if "A (view sid d)" "vok fee (view sid d)" for now d
    using that view_update [where cols = cols, OF assms(1)] by simp
  then show ?thesis
    by (auto simp: vq_def hoare_def update_run Let_def split: sum.splits prod.splits)
qed

lemma vq_advance:
  assumes "\<And>r. sw_id (cols r) = sw_id r"
    and "\<And>v row now. A v \<Longrightarrow> vok fee v \<Longrightarrow> vw_row v = Some row \<Longrightarrow> same_place sw row \<Longrightarrow>
      vok fee (v\<lparr>vw_row := Some ((cols row)\<lparr>sw_status := (case status of None \<Rightarrow> sw_status sw | Some x \<Rightarrow> x),
        sw_step := Some step, sw_updated := now\<rparr>)\<rparr>)"
  shows "vh_ok A (advance env sw step status cols)"
  unfolding advance_def by (rule vq_update) (use assms in auto)

lemma vq_fail:
  assumes "\<And>v row now e. A v \<Longrightarrow> vok fee v \<Longrightarrow> vw_row v = Some row \<Longrightarrow> same_place sw row \<Longrightarrow>
      vok fee (v\<lparr>vw_row := Some (row\<lparr>sw_status := SwapFailed, sw_step := Some outcome, sw_error := e, sw_updated := now\<rparr>)\<rparr>)"
  shows "vh_ok A (fail env sw outcome error)"
  unfolding fail_def by (rule vq_update) (use assms in auto)

lemma vq_finish:
  assumes "\<And>r. sw_id (cols r) = sw_id r"
    and "\<And>v row now. A v \<Longrightarrow> vok fee v \<Longrightarrow> vw_row v = Some row \<Longrightarrow> same_place sw row \<Longrightarrow>
      vok fee (v\<lparr>vw_row := Some ((cols row)\<lparr>sw_status := status, sw_updated := now\<rparr>)\<rparr>)"
  shows "vh_ok A (finish_swap env sw status cols)"
  unfolding finish_swap_def by (rule vq_update) (use assms in auto)

lemma vq_start_refund:
  assumes "\<And>v row now e. A v \<Longrightarrow> vok fee v \<Longrightarrow> vw_row v = Some row \<Longrightarrow> same_place sw row \<Longrightarrow>
      vok fee (v\<lparr>vw_row := Some (row\<lparr>sw_error := e, sw_status := SwapRefunding, sw_step := Some step, sw_updated := now\<rparr>)\<rparr>)"
  shows "vh_ok A (start_refund env sw reason step)"
  unfolding start_refund_def by (rule vq_ignore, rule vq_advance) (use assms in auto)

lemma vok_error: "vok fee (v\<lparr>vw_row := map_option (\<lambda>r. r\<lparr>sw_error := e\<rparr>) (vw_row v)\<rparr>) = vok fee v"
  by (cases "vw_row v") (simp_all add: vok_def ok_at_row)

lemma vq_note: "vh_ok A (note_swap sw reason)"
proof -
  have "find_row sw_id sid (update_where (\<lambda>r. sw_id r = sw_id sw) (\<lambda>r. r\<lparr>sw_error := Some reason\<rparr>) t)
      = (if sid = sw_id sw then map_option (\<lambda>r. r\<lparr>sw_error := Some reason\<rparr>) (find_row sw_id sid t)
         else find_row sw_id sid t)" for t :: "swap list"
    using find_row_Some [of sw_id sid t]
    by (cases "find_row sw_id sid t") (auto simp: find_row_update_where)
  then have "vok fee (view sid (d\<lparr>db_swaps := update_where (\<lambda>r. sw_id r = sw_id sw) (\<lambda>r. r\<lparr>sw_error := Some reason\<rparr>) (db_swaps d)\<rparr>))"
    if "vok fee (view sid d)" for d
    using vok_error [where v = "view sid d" and e = "Some reason"] that by (auto simp: view_swaps view_row)
  then show ?thesis
    by (auto simp: vq_def hoare_def note_swap_def act_eqs on_swaps_def on_db_def)
qed

lemma vq_submit_evm:
  assumes "map in_owner is = map (owner sid) ks"
    and "\<And>v T'. A v \<Longrightarrow> vok fee v \<Longrightarrow> submitted (vw_tx v) ks T' \<Longrightarrow>
      B (v\<lparr>vw_tx := T'\<rparr>) \<and> vok fee (v\<lparr>vw_tx := T'\<rparr>)"
  shows "vq A (submit_evm env chain is) (\<lambda>_. B)"
proof -
  have "B (view sid (d\<lparr>db_evm := u\<rparr>)) \<and> vok fee (view sid (d\<lparr>db_evm := u\<rparr>))"
    if "A (view sid d)" "vok fee (view sid d)" "u = snd (submit c a now is (db_evm d))" for c a now d u
    using assms(2) [OF that(1,2)] submit_view [OF assms(1), where d = d and c = c and a = a and now = now] that(3)
    by (simp add: view_swaps)
  then show ?thesis
    by (auto simp: vq_def hoare_def submit_evm_def ignore_def act_eqs clock_def on_evm_def on_db_def
        split: sum.splits prod.splits) (metis snd_conv)+
qed

text \<open>Submitting a lane row: it is inserted, or the service has no key and nothing changes.\<close>

lemma vq_pay:
  assumes "sw_id sw = sid"
    and "\<And>v L'. A v \<Longrightarrow> vok fee v \<Longrightarrow>
      laned (vw_lane v) k KindTransfer \<lparr>p_to = Some (sw_user sw), p_token = tok, p_amount = n, p_input = None\<rparr> L' \<Longrightarrow>
      vok fee (v\<lparr>vw_lane := L'\<rparr>)"
  shows "vh_ok A (pay env sw k tok n)"
proof -
  let ?i = "transfer_balance_intent (owner sid k) (sw_user sw) tok n"
  have "vok fee (view sid (d\<lparr>db_lanes := u\<rparr>))"
    if "A (view sid d)" "vok fee (view sid d)" "u = snd (submit_privana K now a [?i] (db_lanes d))" for K a now d u
  proof (cases "lower a \<in> K")
    case True
    then have "u = insert_lane (lower a) now ?i (db_lanes d)" using that(3) by (simp add: submit_privana_def Let_def)
    with that assms(2) [OF that(1,2)] insert_lane_view [of ?i sid k d "lower a" now] show ?thesis
      by (simp add: view_swaps transfer_balance_intent_def)
  next
    case False
    with that show ?thesis by (simp add: submit_privana_def)
  qed
  then show ?thesis
    using assms(1)
    by (auto simp: vq_def hoare_def pay_def submit_lane_def ignore_def act_eqs clock_def on_lanes_def on_db_def
        split: sum.splits prod.splits) (metis snd_conv)+
qed

lemma vq_submit_withdrawal:
  assumes "\<And>v L'. A v \<Longrightarrow> vok fee v \<Longrightarrow>
      laned (vw_lane v) k KindWithdraw \<lparr>p_to = None, p_token = tok, p_amount = n, p_input = None\<rparr> L' \<Longrightarrow>
      vok fee (v\<lparr>vw_lane := L'\<rparr>)"
  shows "vh_ok A (on_lanes (submit_withdrawal W now a (owner sid k) tok n))"
proof -
  let ?i = "withdrawal_intent (owner sid k) tok n"
  have "vok fee (view sid (d\<lparr>db_lanes := u\<rparr>))"
    if "A (view sid d)" "vok fee (view sid d)" "u = snd (submit_withdrawal W now a (owner sid k) tok n (db_lanes d))"
    for d u
  proof (cases "lower a \<in> W")
    case True
    then have "u = insert_lane (lower a) now ?i (db_lanes d)" using that(3) by (simp add: submit_withdrawal_def Let_def)
    with that assms [OF that(1,2)] insert_lane_view [of ?i sid k d "lower a" now] show ?thesis
      by (simp add: view_swaps withdrawal_intent_def)
  next
    case False
    with that show ?thesis by (simp add: submit_withdrawal_def)
  qed
  then show ?thesis
    by (auto simp: vq_def hoare_def on_lanes_def on_db_def split: sum.splits prod.splits) (metis snd_conv)+
qed

lemma vq_cancel:
  assumes "\<And>v L'. A v \<Longrightarrow> vok fee v \<Longrightarrow> cancelled (vw_lane v) k L' \<Longrightarrow>
      B (v\<lparr>vw_lane := L'\<rparr>) \<and> vok fee (v\<lparr>vw_lane := L'\<rparr>)"
    and "\<And>v. A v \<Longrightarrow> \<exists>row. vw_lane v k = Some row \<and> ln_status row = LaneQueued"
  shows "vq A (on_lanes (\<lambda>t. case cancel_queued now (owner sid k) e t of (b, t') \<Rightarrow> (Inr b, t'))) (\<lambda>_. B)"
proof -
  have "B (view sid (d\<lparr>db_lanes := u\<rparr>)) \<and> vok fee (view sid (d\<lparr>db_lanes := u\<rparr>))"
    if "A (view sid d)" "vok fee (view sid d)" "u = snd (cancel_queued now (owner sid k) e (db_lanes d))" for d u
    using that assms(2) [OF that(1)] assms(1) [OF that(1,2)] cancel_view [of sid k d] by (auto simp: view_swaps)
  then show ?thesis
    by (auto simp: vq_def hoare_def on_lanes_def on_db_def split: sum.splits prod.splits) (metis snd_conv)+
qed

lemma vq_retry:
  assumes "\<forall>tx. Some tx \<in> set txs \<longrightarrow> tx_owner tx \<in> owner sid ` set ks"
    and "\<And>v T'. A v \<Longrightarrow> vok fee v \<Longrightarrow> requeued (vw_tx v) ks T' \<Longrightarrow> vok fee (v\<lparr>vw_tx := T'\<rparr>)"
  shows "vq A (retry_for_gas env sw txs) (\<lambda>again v. \<not> again \<longrightarrow> A v)"
proof -
  have requeue: "vq A (on_evm (\<lambda>t. (Inr (), snd (requeue now xs t)))) (\<lambda>_ _. True)"
    if "set xs \<subseteq> owner sid ` set ks" for now xs
  proof -
    have "vok fee (view sid (d\<lparr>db_evm := snd (requeue now xs (db_evm d))\<rparr>))"
      if "A (view sid d)" "vok fee (view sid d)" for d
      using assms(2) [OF that] requeue_view [OF \<open>set xs \<subseteq> owner sid ` set ks\<close>] by (simp add: view_swaps)
    then show ?thesis by (simp add: vq_def hoare_def on_evm_def on_db_def)
  qed
  let ?unsent = "filter (\<lambda>tx. tx_status tx = EvmFailed \<and> tx_attempts tx = []) (List.map_filter id txs)"
  have owners: "set (map tx_owner ?unsent) \<subseteq> owner sid ` set ks"
    using assms(1) by (auto simp: map_filter_def)
  show ?thesis
    unfolding retry_for_gas_def Let_def
    by (split list.split)
      (intro conjI impI allI vq_ret vq_bind [OF vq_clock] vq_if vq_seq [OF vq_note] vq_seq [OF requeue [OF owners]]; simp)
qed

text \<open>Looking up the swap's own rows.\<close>

lemma vq_found:
  assumes "sw_id sw = sid"
    and "\<And>x. (\<forall>tx. x = Some tx \<longrightarrow> tx_owner tx = owner sid k) \<Longrightarrow> vq (\<lambda>v. A v \<and> vw_tx v k = x) (f x) C"
  shows "vq A (bindA (query (find_tx sw k)) f) C"
proof (rule vq_bind [OF vq_query [where B = "\<lambda>x v. A v \<and> vw_tx v k = x \<and> (\<forall>tx. x = Some tx \<longrightarrow> tx_owner tx = owner sid k)"]])
  fix x
  show "vq (\<lambda>v. A v \<and> vw_tx v k = x \<and> (\<forall>tx. x = Some tx \<longrightarrow> tx_owner tx = owner sid k)) (f x) C"
  proof (cases "\<forall>tx. x = Some tx \<longrightarrow> tx_owner tx = owner sid k")
    case True
    from assms(2) [OF this] show ?thesis by (rule vq_pre) simp
  next
    case False
    then show ?thesis by (intro vq_absurd) blast
  qed
qed (auto simp: find_tx_def assms(1) find_evm_tx_owner)

lemma vq_tx:
  assumes "sw_id sw = sid"
    and "vq (\<lambda>v. A v \<and> vw_tx v k = None) n C"
    and "\<And>tx. tx_owner tx = owner sid k \<Longrightarrow> vq (\<lambda>v. A v \<and> vw_tx v k = Some tx) (f tx) C"
  shows "vq A (bindA (query (find_tx sw k)) (\<lambda>x. case x of None \<Rightarrow> n | Some tx \<Rightarrow> f tx)) C"
  using assms by (intro vq_found) (auto split: option.split)

lemma vq_lane:
  assumes "sw_id sw = sid"
    and "vq (\<lambda>v. A v \<and> vw_lane v k = None) n C"
    and "\<And>row. vq (\<lambda>v. A v \<and> vw_lane v k = Some row) (f row) C"
  shows "vq A (bindA (query (find_lane sw k)) (\<lambda>x. case x of None \<Rightarrow> n | Some row \<Rightarrow> f row)) C"
proof (rule vq_bind)
  show "vq A (query (find_lane sw k)) (\<lambda>x v. A v \<and> vw_lane v k = x)"
    using assms(1) by (intro vq_query) (simp add: find_lane_def)
  fix x show "vq (\<lambda>v. A v \<and> vw_lane v k = x) (case x of None \<Rightarrow> n | Some row \<Rightarrow> f row) C"
    using assms(2,3) by (cases x) auto
qed

lemma vq_need_tx:
  assumes "sw_id sw = sid"
    and "\<And>tx. tx_owner tx = owner sid k \<Longrightarrow> vq (\<lambda>v. A v \<and> vw_tx v k = Some tx) (f tx) C"
  shows "vq A (bindA (query (\<lambda>d. need (find_tx sw k d))) (\<lambda>read. bindA (liftE read) f)) C"
proof (rule vq_bind [OF vq_query [where B = "\<lambda>x v. A v \<and> x = need (vw_tx v k) \<and> (\<forall>tx. x = Inr tx \<longrightarrow> tx_owner tx = owner sid k)"]])
  fix x
  show "vq (\<lambda>v. A v \<and> x = need (vw_tx v k) \<and> (\<forall>tx. x = Inr tx \<longrightarrow> tx_owner tx = owner sid k)) (bindA (liftE x) f) C"
  proof (cases x)
    case (Inl e)
    then show ?thesis by (simp add: vq_def hoare_def bindA_def liftE_def)
  next
    case (Inr tx)
    show ?thesis
    proof (cases "tx_owner tx = owner sid k")
      case True
      have "bindA (liftE x) f = f tx" by (simp add: Inr bindA_def liftE_def)
      then show ?thesis
        using assms(2) [OF True] by (auto simp: Inr need_def split: option.splits intro: vq_pre)
    next
      case False
      then show ?thesis by (intro vq_absurd) (auto simp: Inr)
    qed
  qed
qed (auto simp: find_tx_def need_def assms(1) find_evm_tx_owner split: option.splits)

lemma vq_still_at:
  assumes "sw_id sw = sid"
    and "\<And>here. vq (\<lambda>v. A v \<and> (here \<longrightarrow> (\<exists>row. vw_row v = Some row \<and> same_place sw row))) (f here) C"
  shows "vq A (bindA (query (still_at sw \<circ> db_swaps)) (\<lambda>read. bindA (liftE read) f)) C"
proof (rule vq_bind [OF vq_query [where B = "\<lambda>x v. A v \<and> (x = Inr True \<longrightarrow> (\<exists>row. vw_row v = Some row \<and> same_place sw row))"]])
  fix x
  show "vq (\<lambda>v. A v \<and> (x = Inr True \<longrightarrow> (\<exists>row. vw_row v = Some row \<and> same_place sw row))) (bindA (liftE x) f) C"
  proof (cases x)
    case (Inl e)
    then show ?thesis by (simp add: vq_def hoare_def bindA_def liftE_def)
  next
    case (Inr here)
    have "bindA (liftE x) f = f here" by (simp add: Inr bindA_def liftE_def)
    with vq_pre [OF assms(2) [of here]] show ?thesis by (auto simp: Inr)
  qed
next
  fix d assume "A (view sid d)"
  then show "A (view sid d) \<and> ((still_at sw \<circ> db_swaps) d = Inr True \<longrightarrow> (\<exists>row. vw_row (view sid d) = Some row \<and> same_place sw row))"
    using assms(1) find_row_Some [of sw_id sid "db_swaps d"]
    by (auto simp: still_at_def same_place_def split: option.splits)
qed

lemmas vok_simps = vok_def ok_places same_place_def

lemmas place_simps = vok_simps only_def mined_def

text \<open>A swap can be parked from any place before it is settled.\<close>

lemma parkable:
  assumes "ok_at fee sw T L" and "sw_status sw = SwapExecuting \<or> sw_status sw = SwapRefunding"
  shows "(L CREDIT = None \<or> L REFUND_PAYOUT = None) \<and> crediting fee sw L \<and> refunding sw L
    \<and> (L REFUND_PAYOUT \<noteq> None \<longrightarrow> returned T L) \<and> (L CREDIT \<noteq> None \<longrightarrow> swapped sw T L \<and> mined T DEPOSIT)"
  using assms
  by (auto simp: ok_at_def only_def split: option.splits swap_step.splits)

lemma park_ok:
  assumes "sw_status sw = SwapExecuting \<or> sw_status sw = SwapRefunding"
  shows "vh_ok A (ignore (fail env sw Parked e))"
proof (intro vq_ignore vq_fail)
  fix v row now e
  assume v: "vok fee v" "vw_row v = Some row" and "same_place sw row"
  then have "sw_status row = SwapExecuting \<or> sw_status row = SwapRefunding"
    using assms by (simp add: same_place_def)
  with v parkable [of row "vw_tx v" "vw_lane v"]
  show "vok fee (v\<lparr>vw_row := Some (row\<lparr>sw_status := SwapFailed, sw_step := Some Parked, sw_error := e, sw_updated := now\<rparr>)\<rparr>)"
    by (simp add: vok_simps)
qed

lemma settle_input_ok:
  assumes [simp]: "sw_id sw = sid" "sw_status sw = SwapExecuting" "sw_step sw = Some InputSent"
  shows "vh_ok (\<lambda>v. vw_row v = Some sw) (settle_input env sw)"
  unfolding settle_input_def Let_def
proof (rule vq_tx, goal_cases)
  case 2
  show ?case
    by (rule vq_submit_evm [where ks = "[INPUT]"]) (auto simp: vok_simps only_def submitted_def)
next
  case (3 tx)
  let ?A = "\<lambda>v. vw_row v = Some sw \<and> vw_tx v INPUT = Some tx"
  have mined: "vh_ok ?A (ignore (advance env sw WithdrawSent None id))" if "tx_status tx = EvmMined"
    using that by (intro vq_ignore vq_advance) (auto simp: vok_simps only_def mined_def)
  have again: "vq ?A (retry_for_gas env sw [Some tx]) (\<lambda>again v. \<not> again \<longrightarrow> ?A v)"
    by (rule vq_retry [where ks = "[INPUT]"]) (auto simp: 3 vok_simps only_def requeued_def)
  have unmoved: "vh_ok (\<lambda>v. vw_tx v INPUT = Some tx) (ignore (fail env sw NoFundsMoved e))"
    if "unsent_or_reverted tx" for e
    using that by (intro vq_ignore vq_fail) (auto simp: vok_simps only_def unspent_def)
  have settled: "kept fee (\<lambda>v. vw_tx v INPUT = Some tx)" if "unsent_or_reverted tx"
    using that by (intro stable) (auto simp: unsent_or_reverted_def)
  show ?case
    by (intro vq_if mined vq_ret vq_bind [OF again] park_ok
          vq_bind [OF vq_pre [OF vq_await [OF settled]]] unmoved) auto
qed simp

lemma settle_withdraw_ok:
  assumes [simp]: "sw_id sw = sid" "sw_status sw = SwapExecuting" "sw_step sw = Some WithdrawSent"
  shows "vh_ok (\<lambda>v. vw_row v = Some sw) (settle_withdraw env sw)"
  unfolding settle_withdraw_def
proof (rule vq_lane, goal_cases)
  case 2
  show ?case
    unfolding assms(1)
    by (intro vq_bind [OF vq_clock] vq_ignore vq_submit_withdrawal) (auto simp: place_simps laned_def split: option.splits)
next
  case (3 row)
  let ?A = "\<lambda>v. vw_row v = Some sw \<and> vw_lane v WITHDRAW = Some row"
  let ?failed = "\<lambda>v. lane_at (vw_lane v) WITHDRAW LaneFailed"
  have landed: "vh_ok ?A (ignore (advance env sw ExecuteFunding None id))" if "ln_status row = LaneLanded"
    using that by (intro vq_ignore vq_advance) (auto simp: place_simps funded_def lane_at_def)
  have refund: "vh_ok ?failed (start_refund env sw e RefundPayout)" for e
    by (intro vq_start_refund) (auto simp: place_simps returned_def)
  have refund': "vh_ok ?A (start_refund env sw e RefundPayout)" if "ln_status row = LaneFailed" for e
    using that by (intro vq_pre [OF refund]) (auto simp: lane_at_def)
  have cancel: "vq ?A (on_lanes (\<lambda>t. case cancel_queued now (owner sid WITHDRAW) e t of (b, t') \<Rightarrow> (Inr b, t'))) (\<lambda>_. ?failed)"
    if "ln_status row = LaneQueued" for now e
    by (rule vq_cancel) (auto simp: place_simps cancelled_def that)
  show ?case
    unfolding assms(1)
    by (intro vq_if landed refund' vq_ret park_ok vq_bind [OF vq_waited] vq_bind [OF vq_clock]
        vq_bind [OF cancel] refund) auto
qed simp

lemma credit_ok:
  assumes [simp]: "sw_id sw = sid" "sw_status sw = SwapExecuting" "sw_step sw = Some CreditSent"
  shows "vh_ok (\<lambda>v. vw_row v = Some sw) (credit env sw)"
  unfolding credit_def
proof (rule vq_lane, goal_cases)
  case 2
  have "vh_ok (\<lambda>v. vw_row v = Some sw \<and> vw_lane v CREDIT = None) (pay env sw CREDIT (sw_to_token sw) (fst (calculate_fee x fee)))"
    if "sw_received sw = Some x" for x
    using that by (intro vq_pay)
      (auto simp: vok_simps laned_facts crediting_def net_received_def intro: laned_only laned_paying)
  then show ?case
    by (cases "sw_received sw")
      (auto simp: need_def fee bindA_def liftE_def vq_def hoare_def)
next
  case (3 row)
  have "vh_ok (\<lambda>v. vw_row v = Some sw \<and> vw_lane v CREDIT = Some row)
      (ignore (finish_swap env sw SwapCompleted (\<lambda>r. r\<lparr>sw_actual := Some (p_amount (ln_payload row))\<rparr>)))"
    if "ln_status row = LaneLanded"
    using that by (intro vq_ignore vq_finish) (auto simp: vok_simps lane_at_def crediting_def paying_def)
  moreover have "vh_ok (\<lambda>v. True) (ignore (fail env sw Parked e))" for e
    by (rule park_ok) simp
  ultimately show ?case
    by (intro vq_if vq_ret) (auto intro: vq_pre)
qed simp

lemma settle_refund_payout_ok:
  assumes [simp]: "sw_id sw = sid" "sw_status sw = SwapRefunding" "sw_step sw = Some RefundPayout"
  shows "vh_ok (\<lambda>v. vw_row v = Some sw) (settle_refund_payout env sw (sw_from_amount sw))"
  unfolding settle_refund_payout_def
proof (rule vq_lane, goal_cases)
  case 2
  show ?case
    by (intro vq_pay)
      (auto simp: vok_simps laned_facts refunding_def intro: laned_only laned_paying)
next
  case (3 row)
  have "vh_ok (\<lambda>v. vw_row v = Some sw \<and> vw_lane v REFUND_PAYOUT = Some row) (ignore (finish_swap env sw SwapRefunded id))"
    if "ln_status row = LaneLanded"
    using that by (intro vq_ignore vq_finish) (auto simp: vok_simps lane_at_def)
  moreover have "vh_ok (\<lambda>v. True) (ignore (fail env sw Parked e))" for e
    by (rule park_ok) simp
  ultimately show ?case
    by (intro vq_if vq_ret) (auto intro: vq_pre)
qed simp

lemma vq_step: "kept fee A \<Longrightarrow> quiet m \<Longrightarrow> (\<And>x. vq A (f x) C) \<Longrightarrow> vq A (bindA m f) C"
  by (rule vq_bind [OF vq_quiet])

lemma submitted_facts:
  assumes "submitted T ks T'" and "only T ls" and "set ks \<subseteq> set ls"
  shows "only T' ls"
  using assms by (auto simp: submitted_def only_def)

lemma submitted_mined: "submitted T ks T' \<Longrightarrow> mined T k \<Longrightarrow> mined T' k"
  unfolding submitted_def mined_def by (metis option.discI)

lemma submitted_there: "submitted T ks T' \<Longrightarrow> k \<in> set ks \<Longrightarrow> \<exists>tx. T' k = Some tx"
  unfolding submitted_def by (metis option.exhaust)

lemma submitted_other: "submitted T ks T' \<Longrightarrow> k \<notin> set ks \<Longrightarrow> T' k = T k"
  unfolding submitted_def by metis

text \<open>Sending the swap: guarded by \<open>still_at\<close>, so that it is queued only where no refund began.\<close>

lemma submit_swap_ok:
  assumes [simp]: "sw_id sw = sid" "sw_status sw = SwapExecuting" "sw_step sw = Some ExecuteFunding"
    and intents: "map in_owner is = map (owner sid) ks" "set ks \<subseteq> {APPROVE, LIFI}" "LIFI \<in> set ks"
  shows "vh_ok (\<lambda>v. vw_tx v LIFI = None \<and> (\<exists>row. vw_row v = Some row \<and> same_place sw row))
    (seqA (submit_evm env chain is) (ignore (advance env sw ExecuteSent None id)))"
proof (rule vq_seq)
  show "vq (\<lambda>v. vw_tx v LIFI = None \<and> (\<exists>row. vw_row v = Some row \<and> same_place sw row))
    (submit_evm env chain is) (\<lambda>_ v. vw_tx v LIFI \<noteq> None)"
  proof (rule vq_submit_evm [OF intents(1)])
    fix v T' assume row: "vw_tx v LIFI = None \<and> (\<exists>row. vw_row v = Some row \<and> same_place sw row)"
      and v: "vok fee v" and T': "submitted (vw_tx v) ks T'"
    from intents(2) have ks: "INPUT \<notin> set ks" "set ks \<subseteq> set [INPUT, APPROVE, LIFI]" by auto
    from row v have "only (vw_tx v) [INPUT, APPROVE, LIFI]" "mined (vw_tx v) INPUT"
      if "vw_row v = Some row'" "sw_venue row' = VenueLifi" for row'
      using that by (auto simp: vok_simps funded_def)
    with submitted_facts [OF T' _ ks(2)] submitted_mined [OF T', of INPUT]
    have "only T' [INPUT, APPROVE, LIFI] \<and> mined T' INPUT"
      if "vw_row v = Some row'" "sw_venue row' = VenueLifi" for row'
      using that by blast
    with row v submitted_there [OF T' intents(3)]
    show "vw_tx (v\<lparr>vw_tx := T'\<rparr>) LIFI \<noteq> None \<and> vok fee (v\<lparr>vw_tx := T'\<rparr>)"
      by (auto simp: vok_simps funded_def)
  qed
  show "vh_ok (\<lambda>v. vw_tx v LIFI \<noteq> None) (ignore (advance env sw ExecuteSent None id))"
    by (intro vq_ignore vq_advance) (auto simp: vok_simps)
qed

lemma send_lifi_tx_ok:
  assumes [simp]: "sw_id sw = sid" "sw_status sw = SwapExecuting" "sw_step sw = Some ExecuteFunding"
  shows "vh_ok (\<lambda>v. vw_row v = Some sw) (send_lifi_tx env sw)"
proof -
  let ?S = "\<lambda>v. vw_tx v LIFI = None"
  have S: "kept fee ?S" by (intro stable)
  have refund: "vh_ok ?S (start_refund env sw e RefundRedeposit)" for e
    by (intro vq_start_refund) (auto simp: vok_simps unspent_def only_def)
  have sent: "vh_ok (\<lambda>v. vw_row v = Some sw \<and> vw_tx v LIFI = x) (ignore (advance env sw ExecuteSent None id))"
    if "x \<noteq> None" for x
    using that by (intro vq_ignore vq_advance) (auto simp: vok_simps)
  have submit: "vh_ok (\<lambda>v. ?S v \<and> (here \<longrightarrow> (\<exists>row. vw_row v = Some row \<and> same_place sw row)))
      (seqA (submit_evm env chain
         (if native then [i] else [approve_intent enc (owner (sw_id sw) APPROVE) tok spender n, i]))
        (ignore (advance env sw ExecuteSent None id)))"
    if h: "\<not> \<not> here" and "lifi_intent (owner (sw_id sw) LIFI) c rq sim = Inr i"
    for here chain native i enc tok spender n c rq sim
  proof (rule vq_pre)
    show "vh_ok (\<lambda>v. ?S v \<and> (\<exists>row. vw_row v = Some row \<and> same_place sw row))
      (seqA (submit_evm env chain
         (if native then [i] else [approve_intent enc (owner (sw_id sw) APPROVE) tok spender n, i]))
        (ignore (advance env sw ExecuteSent None id)))"
      using lifi_intent_owner [OF that(2)]
      by (intro submit_swap_ok [where ks = "if native then [LIFI] else [APPROVE, LIFI]"]) (auto simp: approve_intent_def)
  qed (use h in auto)
  show ?thesis
    unfolding send_lifi_tx_def
    apply (rule vq_found, simp)
    apply (rule vq_if, rule sent, assumption)
    apply (rule vq_bind [OF vq_waited])
    apply (rule vq_pre [where B = ?S])
     apply (rule vq_if, rule refund)
     apply (rule vq_step [OF S], intro quiet)+
     apply (simp only: Let_def split: prod.split)
     apply (intro allI impI)
     apply (rule vq_step [OF S], intro quiet)+
    apply (rule vq_if, rule vq_ret, simp)
    apply (rule vq_step [OF S], intro quiet)
    apply (split sum.split)
    apply (intro conjI allI impI)
     apply (split exc.split, intro conjI allI impI vq_throw refund)
    apply (split sum.split)
    apply (intro conjI allI impI)
     apply (split exc.split, intro conjI allI impI vq_throw refund)
    apply (rule vq_step [OF S], intro quiet)
    apply (rule vq_if, rule vq_ret, simp)
    apply (rule vq_still_at, simp)
    apply (rule vq_if, rule vq_ret, simp)
    apply (rule submit, assumption+)
    apply simp
    done
qed

lemma requeued_facts:
  assumes "requeued T ks T'"
  shows "mined T' k \<longleftrightarrow> mined T k" "T' k = None \<longleftrightarrow> T k = None" "only T' ls \<longleftrightarrow> only T ls"
    "funded T' L \<longleftrightarrow> funded T L" "swapped sw T' L \<longleftrightarrow> swapped sw T L" "k \<notin> set ks \<Longrightarrow> T' k = T k"
  using assms by (simp_all add: requeued_def only_def funded_def swapped_def)

lemma requeued_unspent: "requeued T ks T' \<Longrightarrow> LIFI \<notin> set ks \<Longrightarrow> unspent T' LIFI \<longleftrightarrow> unspent T LIFI"
  by (simp add: requeued_def unspent_def)

lemma settle_lifi_tx_ok:
  assumes [simp]: "sw_id sw = sid" "sw_status sw = SwapExecuting" "sw_step sw = Some ExecuteSent"
  shows "vh_ok (\<lambda>v. vw_row v = Some sw) (settle_lifi_tx env sw)"
  unfolding settle_lifi_tx_def
proof (rule vq_need_tx, goal_cases)
  case (2 tx)
  let ?A = "\<lambda>v. vw_row v = Some sw \<and> vw_tx v LIFI = Some tx"
  let ?S = "\<lambda>v. vw_tx v LIFI = Some tx"
  have again: "vq (\<lambda>v. ?A v \<and> P v) (retry_for_gas env sw [approval, Some tx]) (\<lambda>again v. \<not> again \<longrightarrow> ?A v \<and> P v)"
    if "\<forall>tx. approval = Some tx \<longrightarrow> tx_owner tx = owner sid APPROVE" for approval P
    using that by (intro vq_retry [where ks = "[APPROVE, LIFI]"]) (auto simp: 2 vok_simps requeued_facts)
  have refund: "vh_ok ?S (start_refund env sw e RefundRedeposit)" if "unsent_or_reverted tx" for e
    using that by (intro vq_start_refund) (auto simp: vok_simps unspent_def intro: only_mono)
  have S: "kept fee ?S" if "tx_status tx = EvmMined"
    using that by (intro stable) simp
  have bridging: "vh_ok ?S (ignore (advance env sw ExecuteBridging None (\<lambda>r. r\<lparr>sw_lifi_tx := tx_hash tx\<rparr>)))"
    if "tx_status tx = EvmMined"
    using that by (intro vq_ignore vq_advance) (auto simp: vok_simps mined_def)
  have depositing: "vh_ok ?S (ignore (advance env sw DepositSent None
      (\<lambda>r. r\<lparr>sw_lifi_tx := tx_hash tx, sw_received := Some n\<rparr>)))" if "tx_status tx = EvmMined" for n
    using that by (intro vq_ignore vq_advance) (auto simp: vok_simps mined_def swapped_def intro: only_mono)
  show ?case
  proof (intro vq_if vq_ret, goal_cases)
    case 2
    then show ?case
      by (intro vq_found vq_bind [OF again] vq_if vq_ret vq_pre [OF refund] park_ok) (auto simp: Let_def intro: vq_pre [OF refund] park_ok)
  next
    case 3
    then have m: "tx_status tx = EvmMined" by simp
    show ?case
      apply (rule vq_pre [where B = ?S])
       apply (rule vq_step [OF S [OF m]], intro quiet)
       apply (simp only: split: prod.split)
       apply (intro allI impI vq_if bridging m)
       apply (rule vq_step [OF S [OF m]], intro quiet)
       apply (split sum.split, intro conjI allI impI)
        apply (split exc.split, intro conjI allI impI vq_throw park_ok)
        apply simp
       apply (rule depositing [OF m])
      apply simp
      done
  qed simp
qed simp

lemma settle_bridge_ok:
  assumes [simp]: "sw_id sw = sid" "sw_status sw = SwapExecuting" "sw_step sw = Some ExecuteBridging"
  shows "vh_ok (\<lambda>v. True) (settle_bridge env sw)"
proof -
  have S: "kept fee (\<lambda>v. True)" by (intro stable)
  have depositing: "vh_ok (\<lambda>v. True) (ignore (advance env sw DepositSent None (\<lambda>r. r\<lparr>sw_received := Some n\<rparr>)))" for n
    by (intro vq_ignore vq_advance) (auto simp: vok_simps swapped_def intro: only_mono)
  have answer: "quiet (case asked of Inr status \<Rightarrow> ret status
      | Inl (HttpStatus code m) \<Rightarrow> if code \<noteq> 404 then throw (HttpStatus code m) else ret none
      | Inl e \<Rightarrow> throw e)" for asked and none :: route_status
    by (auto intro: quiet split: sum.split exc.split)
  show ?thesis
    unfolding settle_bridge_def
    apply (rule vq_bind [OF vq_waited])
    apply (rule vq_if, rule park_ok, simp)
    apply (rule vq_step [OF S], intro quiet)
    apply (simp only: split: prod.split)
    apply (intro allI impI)
    apply (rule vq_step [OF S], intro quiet)
    apply (rule vq_step [OF S answer])
    apply (split sum.split, intro conjI allI impI)
     apply (split exc.split, intro conjI allI impI vq_throw park_ok)
     apply simp
    apply (split option.split, intro conjI allI impI vq_ret depositing)
    apply simp
    done
qed

text \<open>A deposit, of the output or of the returned input.\<close>

definition deposit_place :: "string \<Rightarrow> swap_status \<Rightarrow> swap_step \<Rightarrow> swap_step \<Rightarrow> swap_step \<Rightarrow> bool" where
  "deposit_place kind status here credited_at after \<longleftrightarrow>
     (kind, status, here, credited_at, after) \<in>
       {(DEPOSIT, SwapExecuting, DepositSent, DepositCrediting, CreditSent),
        (REFUND, SwapRefunding, RefundRedeposit, RefundCrediting, RefundPayout)}"

lemma settle_deposit_ok:
  assumes place: "deposit_place kind (sw_status sw) here credited_at after" "sw_step sw = Some here"
    and [simp]: "sw_id sw = sid" "tx_owner tx = owner sid kind"
  shows "vh_ok (\<lambda>v. vw_row v = Some sw \<and> vw_tx v kind = Some tx) (settle_deposit env sw tx credited_at)"
proof -
  let ?A = "\<lambda>v. vw_row v = Some sw \<and> vw_tx v kind = Some tx"
  have mined: "vh_ok ?A (ignore (advance env sw credited_at None (\<lambda>r. r\<lparr>sw_deposit_tx := tx_hash tx\<rparr>)))"
    if "tx_status tx = EvmMined"
    using that place by (intro vq_ignore vq_advance) (auto simp: deposit_place_def vok_simps mined_def)
  have again: "vq ?A (retry_for_gas env sw [Some tx]) (\<lambda>again v. \<not> again \<longrightarrow> ?A v)"
    using place by (intro vq_retry [where ks = "[kind]"])
      (auto simp: deposit_place_def vok_simps requeued_facts requeued_unspent)
  show ?thesis
    unfolding settle_deposit_def
    using place
    by (intro vq_if mined vq_ret vq_bind [OF again] park_ok) (auto simp: deposit_place_def)
qed

lemma check_credited_ok:
  assumes place: "deposit_place kind (sw_status sw) here credited_at after" "sw_step sw = Some credited_at"
    and [simp]: "sw_id sw = sid"
  shows "vh_ok (\<lambda>v. True) (check_credited env sw kind amount after)"
proof -
  have S: "kept fee (\<lambda>v. True)" by (intro stable)
  have credited: "vh_ok (\<lambda>v. True) (ignore (advance env sw after None id))"
    using place by (intro vq_ignore vq_advance)
      (auto simp: deposit_place_def vok_simps returned_def funded_def intro: only_mono,
       auto simp: only_def)
  have answer: "quiet (case asked of Inr status \<Rightarrow> ret status
      | Inl (AccountingApiError _ m) \<Rightarrow> ret (f m) | Inl (NetworkError m) \<Rightarrow> ret (f m) | Inl e \<Rightarrow> throw e)"
    for asked and f :: "string \<Rightarrow> string"
    by (auto intro: quiet split: sum.split exc.split)
  have park: "vh_ok A (ignore (fail env sw Parked e))" for A e
    using place by (intro park_ok) (auto simp: deposit_place_def)
  show ?thesis
    unfolding check_credited_def
    by (intro vq_step [OF S] quiet answer vq_if credited vq_bind [OF vq_waited] park vq_ret) auto
qed

lemma submit_deposit_ok:
  assumes place: "deposit_place kind (sw_status sw) here credited_at after" "sw_step sw = Some here"
    and [simp]: "sw_id sw = sid"
  shows "vh_ok (\<lambda>v. \<exists>row. vw_row v = Some row \<and> same_place sw row) (submit_deposit env sw kind info amount to)"
proof -
  have kind: "kind = DEPOSIT \<or> kind = REFUND" using place by (auto simp: deposit_place_def)
  have owners: "map in_owner [transfer_intent enc (owner (sw_id sw) kind) tok to amount] = map (owner sid) [kind]" for enc tok
    by (simp add: transfer_intent_def)
  show ?thesis
    unfolding submit_deposit_def
  proof (rule vq_submit_evm [OF owners])
    fix v T' assume row: "\<exists>row. vw_row v = Some row \<and> same_place sw row"
      and v: "vok fee v" and T': "submitted (vw_tx v) [kind] T'"
    have keep: "T' LIFI = vw_tx v LIFI" "mined (vw_tx v) INPUT \<Longrightarrow> mined T' INPUT" "mined (vw_tx v) LIFI \<Longrightarrow> mined T' LIFI"
      using submitted_other [OF T', of LIFI] submitted_mined [OF T'] kind by auto
    have "only (vw_tx v) ls \<Longrightarrow> kind \<in> set ls \<Longrightarrow> only T' ls" for ls
      using submitted_facts [OF T', of ls] by simp
    with row v place keep
    show "True \<and> vok fee (v\<lparr>vw_tx := T'\<rparr>)"
      by (auto simp: deposit_place_def vok_simps swapped_def funded_def unspent_def)
  qed
qed

lemma deposit_output_ok:
  assumes [simp]: "sw_id sw = sid" "sw_status sw = SwapExecuting"
    and step: "sw_step sw = Some DepositSent \<or> sw_step sw = Some DepositCrediting"
  shows "vh_ok (\<lambda>v. vw_row v = Some sw) (deposit_output env sw)"
proof -
  let ?S = "\<lambda>v. True"
  have S: "kept fee ?S" by (intro stable)
  have place: "deposit_place DEPOSIT (sw_status sw) DepositSent DepositCrediting CreditSent"
    by (simp add: deposit_place_def)
  note credited = check_credited_ok [OF place, simplified, THEN vq_pre]
  show ?thesis
  proof (cases "sw_step sw = Some DepositCrediting")
    case True
    then show ?thesis
      unfolding deposit_output_def
      by (intro vq_bind [OF vq_liftE [where B = "\<lambda>_ v. True"]] vq_if credited) auto
  next
    case False
    with step have here: "sw_step sw = Some DepositSent" by simp
    show ?thesis
      unfolding deposit_output_def
      apply (rule vq_bind [OF vq_liftE [where B = "\<lambda>_ v. vw_row v = Some sw"]], assumption)
      apply (rule vq_if, simp add: False)
      apply (rule vq_tx, simp)
       apply (rule vq_pre [where B = ?S])
        apply (rule vq_step [OF S], intro quiet)+
        apply (rule vq_if)
         apply (rule vq_still_at, simp)
         apply (rule vq_if)
          apply (rule vq_pre [OF submit_deposit_ok [OF place here]], simp, simp)
         apply (rule vq_ret, simp)
        apply (rule vq_bind [OF vq_waited])
        apply (intro vq_if vq_ret park_ok)
         apply simp_all
      apply (rule settle_deposit_ok [OF place here])
       apply simp_all
      done
  qed
qed

lemma refund_ok:
  assumes [simp]: "sw_id sw = sid" "sw_status sw = SwapRefunding"
    and step: "sw_step sw = Some RefundRedeposit \<or> sw_step sw = Some RefundCrediting \<or> sw_step sw = Some RefundPayout"
  shows "vh_ok (\<lambda>v. vw_row v = Some sw) (refund env sw)"
proof -
  let ?S = "\<lambda>v. True"
  have S: "kept fee ?S" by (intro stable)
  have place: "deposit_place REFUND (sw_status sw) RefundRedeposit RefundCrediting RefundPayout"
    by (simp add: deposit_place_def)
  consider (crediting) "sw_step sw = Some RefundCrediting" | (payout) "sw_step sw = Some RefundPayout"
    | (redeposit) "sw_step sw = Some RefundRedeposit" using step by blast
  then show ?thesis
  proof cases
    case crediting
    then show ?thesis
      unfolding refund_def Let_def using check_credited_ok [OF place] by (auto intro: vq_pre)
  next
    case payout
    then show ?thesis
      unfolding refund_def Let_def using settle_refund_payout_ok by auto
  next
    case redeposit
    show ?thesis
      unfolding refund_def Let_def
      apply (rule vq_if, simp add: redeposit)
      apply (rule vq_if, simp add: redeposit)
      apply (rule vq_tx, simp)
       apply (rule vq_bind [OF vq_waited])
       apply (rule vq_if, rule park_ok, simp)
       apply (rule vq_pre [where B = ?S])
        apply (rule vq_step [OF S], intro quiet)+
        apply (rule vq_if, rule vq_ret, simp)
        apply (rule vq_still_at, simp)
        apply (intro vq_if vq_ret)
         apply (rule vq_pre [OF submit_deposit_ok [OF place redeposit]])
          apply simp_all
      apply (rule settle_deposit_ok [OF place redeposit])
       apply simp_all
      done
  qed
qed

lemma execute_ok:
  assumes [simp]: "sw_id sw = sid" "sw_status sw = SwapExecuting"
    and step: "sw_step sw = Some ExecuteFunding \<or> sw_step sw = Some ExecuteSent \<or> sw_step sw = Some ExecuteBridging"
  shows "vh_ok (\<lambda>v. vw_row v = Some sw) (execute env sw)"
  using step send_lifi_tx_ok settle_lifi_tx_ok
  by (auto simp: execute_def intro: vq_pre [OF settle_bridge_ok])

end

end
