(* ===== verification/HandlerWrites.thy ===== *)
theory HandlerWrites
  imports InternalPipeline LifiInv
begin

text \<open>
  What the handling of one swap writes: its own row, transactions and lane rows of its own owners,
  and nothing else. \<open>own_writes\<close> is the interface: a predicate on the database that each of those
  writes keeps. Then every handler keeps it, whenever the environment does (\<open>steady\<close>). It has two
  uses: the columns of a swap that no write touches, and the view of another swap.
\<close>

named_theorems own \<open>actions that keep a predicate the swap's own writes keep\<close>

definition inv :: "(db \<Rightarrow> bool) \<Rightarrow> 'a sact \<Rightarrow> bool" where
  "inv J m \<longleftrightarrow> hoare (\<lambda>s. J (st_db s)) m (\<lambda>_ s. J (st_db s)) (\<lambda>s. J (st_db s))"

definition steady :: "'e swap_env_scheme \<Rightarrow> (db \<Rightarrow> bool) \<Rightarrow> bool" where
  "steady env J \<longleftrightarrow> (\<forall>n d. J d \<longrightarrow> J (sv_other env n d))"

lemma steady_conj: "steady env J \<Longrightarrow> steady env K \<Longrightarrow> steady env (\<lambda>d. J d \<and> K d)"
  by (simp add: steady_def)

lemma inv_bind [own]: "inv J m \<Longrightarrow> (\<And>x. inv J (f x)) \<Longrightarrow> inv J (bindA m f)"
  unfolding inv_def by (rule hoare_bindA)

lemma inv_seq [own]: "inv J m \<Longrightarrow> inv J n \<Longrightarrow> inv J (seqA m n)"
  unfolding seqA_def by (rule inv_bind)

lemma inv_try [own]: "inv J m \<Longrightarrow> inv J (tryA m)"
  unfolding inv_def by (blast intro: hoare_tryA)

lemma inv_catch [own]: "inv J m \<Longrightarrow> (\<And>e. inv J (h e)) \<Longrightarrow> inv J (catchA m h)"
  unfolding inv_def by (blast intro: hoare_catchA)

lemma inv_simple [own]:
  "inv J (ret x)" "inv J (throw e)" "inv J (query g)" "inv J (liftE r)" "inv J (clock e')" "inv J (ask e' h)"
  by (auto simp: inv_def hoare_def act_simps query_run liftE_def clock_def ask_def split: sum.splits)

lemma inv_await [own]: "steady env J \<Longrightarrow> inv J (await env f)"
  by (auto simp: inv_def hoare_def await_def steady_def split: sum.splits)

lemma inv_ignore [own]: "inv J m \<Longrightarrow> inv J (ignore m)"
  unfolding ignore_def by (intro own)

lemma inv_waited [own]: "inv J (waited e sw n)"
  unfolding waited_def by (intro own)

lemma inv_if [own]: "(b \<Longrightarrow> inv J m) \<Longrightarrow> (\<not> b \<Longrightarrow> inv J n) \<Longrightarrow> inv J (if b then m else n)"
  by simp

lemma inv_option [own]:
  "(o' = None \<Longrightarrow> inv J n) \<Longrightarrow> (\<And>x. o' = Some x \<Longrightarrow> inv J (f x)) \<Longrightarrow> inv J (case o' of None \<Rightarrow> n | Some x \<Rightarrow> f x)"
  by (simp split: option.split)

lemma inv_sum [own]:
  "(\<And>e. s = Inl e \<Longrightarrow> inv J (f e)) \<Longrightarrow> (\<And>x. s = Inr x \<Longrightarrow> inv J (g x)) \<Longrightarrow> inv J (case s of Inl e \<Rightarrow> f e | Inr x \<Rightarrow> g x)"
  by (simp split: sum.split)

lemma inv_prod [own]: "(\<And>a b. inv J (f a b)) \<Longrightarrow> inv J (case p of (a, b) \<Rightarrow> f a b)"
  by (simp split: prod.split)

lemma inv_list [own]: "inv J n \<Longrightarrow> (\<And>x xs. inv J (f x xs)) \<Longrightarrow> inv J (case l of [] \<Rightarrow> n | x # xs \<Rightarrow> f x xs)"
  by (simp split: list.split)

lemma inv_handle_each: "(\<And>sw. sw \<in> set swaps \<Longrightarrow> inv J (h sw)) \<Longrightarrow> inv J (handle_each swaps h)"
  by (induction swaps) (auto intro!: own)

text \<open>Readings.\<close>

lemma inv_holds [own]: "steady env J \<Longrightarrow> inv J (holds env c tok t a g)"
  unfolding holds_def by (intro own)

lemma inv_token_infos [own]: "steady env J \<Longrightarrow> inv J (token_infos env sw)"
  unfolding token_infos_def by (intro own)

lemma inv_execution_quote [own]: "steady env J \<Longrightarrow> inv J (execution_quote env q f t a)"
  unfolding execution_quote_def Let_def by (intro own)

lemma inv_on_chain: "steady env J \<Longrightarrow> inv J (on_chain env f c swaps)"
  by (induction swaps) (auto intro!: own)

section \<open>The interface\<close>

text \<open>The columns of a swap that no write touches.\<close>

definition order_of :: "swap \<Rightarrow> string \<times> swap_venue" where
  "order_of r = (sw_id r, sw_venue r)"

locale own_writes =
  fixes sw :: swap and J :: "db \<Rightarrow> bool"
  assumes row: "(\<And>r. order_of (cols r) = order_of r) \<Longrightarrow> J d \<Longrightarrow>
      J (d\<lparr>db_swaps := update_where (\<lambda>r. sw_id r = sw_id sw \<and> p r) cols (db_swaps d)\<rparr>)"
    and evm: "in_owner ` set is \<subseteq> range (owner (sw_id sw)) \<Longrightarrow> J d \<Longrightarrow>
      J (d\<lparr>db_evm := snd (submit c a now is (db_evm d))\<rparr>)"
    and again: "set xs \<subseteq> range (owner (sw_id sw)) \<Longrightarrow> J d \<Longrightarrow>
      J (d\<lparr>db_evm := snd (requeue now xs (db_evm d))\<rparr>)"
    and lane: "pi_owner i \<in> range (owner (sw_id sw)) \<Longrightarrow> J d \<Longrightarrow>
      J (d\<lparr>db_lanes := insert_lane a now i (db_lanes d)\<rparr>)"
    and cancel: "J d \<Longrightarrow> J (d\<lparr>db_lanes := snd (cancel_queued now (owner (sw_id sw) k) e (db_lanes d))\<rparr>)"
begin

lemma inv_on:
  assumes "\<And>d. J d \<Longrightarrow> J (snd (f d))"
  shows "inv J (on_db f)"
  using assms by (auto simp: inv_def hoare_def on_db_def split: prod.splits sum.splits) (metis snd_conv)+

lemma inv_update [own]:
  assumes "\<And>r. order_of (cols r) = order_of r"
  shows "inv J (update env sw cols)"
proof -
  have "J (d\<lparr>db_swaps := snd (update_swap now sw cols (db_swaps d))\<rparr>)" if "J d" for now d
    using row [of "\<lambda>r. (cols r)\<lparr>sw_updated := now\<rparr>" d "\<lambda>r. sw_status r = sw_status sw \<and> sw_step r = sw_step sw"]
      assms that by (simp add: update_swap_snd same_place_def [abs_def] order_of_def)
  then show ?thesis
    unfolding update_def on_swaps_def by (intro own inv_on) (simp split: prod.split, metis snd_conv)
qed

lemma inv_moves [own]:
  "(\<And>r. order_of (cols r) = order_of r) \<Longrightarrow> inv J (advance env sw step status cols)"
  "(\<And>r. order_of (cols r) = order_of r) \<Longrightarrow> inv J (finish_swap env sw st cols)"
  "inv J (fail env sw outcome e)" "inv J (start_refund env sw reason step)"
  by (auto intro!: own simp: advance_def finish_swap_def fail_def start_refund_def order_of_def)

lemma inv_note [own]: "inv J (note_swap sw reason)"
  using row [of "\<lambda>r. r\<lparr>sw_error := Some reason\<rparr>" _ "\<lambda>_. True"]
  unfolding note_swap_def on_swaps_def by (intro own inv_on) (simp add: order_of_def)

lemma inv_submit [own]:
  assumes "\<forall>i\<in>set is. \<exists>k. in_owner i = owner (sw_id sw) k"
  shows "inv J (submit_evm env chain is)"
proof -
  have "J (d\<lparr>db_evm := snd (submit c a now is (db_evm d))\<rparr>)" if "J d" for c a now d
    using that assms by (intro evm) auto
  then show ?thesis
    unfolding submit_evm_def on_evm_def by (intro own inv_on) (simp split: prod.split, metis snd_conv)
qed

lemma inv_lane [own]:
  assumes "pi_owner i = owner (sw_id sw) k"
  shows "inv J (submit_lane env [i])"
    and "inv J (on_lanes (submit_privana K now a [i]))"
proof -
  have "J (d\<lparr>db_lanes := snd (submit_privana K now a [i] (db_lanes d))\<rparr>)" if "J d" for K a now d
    using that lane [of i d] assms by (auto simp: submit_privana_def Let_def)
  then show "inv J (on_lanes (submit_privana K now a [i]))" for K now a
    unfolding on_lanes_def by (intro own inv_on) (simp split: prod.split, metis snd_conv)
  then show "inv J (submit_lane env [i])"
    unfolding submit_lane_def by (intro own)
qed

lemma inv_pay [own]: "inv J (pay env sw k tok n)"
  unfolding pay_def by (intro own) (simp add: transfer_balance_intent_def)

lemma inv_withdrawal [own]: "inv J (on_lanes (submit_withdrawal W now a (owner (sw_id sw) k) tok n))"
proof -
  have "J (d\<lparr>db_lanes := snd (submit_withdrawal W now a (owner (sw_id sw) k) tok n (db_lanes d))\<rparr>)" if "J d" for d
    using that lane [of "withdrawal_intent (owner (sw_id sw) k) tok n" d]
    by (auto simp: submit_withdrawal_def Let_def withdrawal_intent_def)
  then show ?thesis
    unfolding on_lanes_def by (intro inv_on) (simp split: prod.split, metis snd_conv)
qed

lemma inv_cancel [own]:
  "inv J (on_lanes (\<lambda>t. case cancel_queued now (owner (sw_id sw) k) e t of (b, t') \<Rightarrow> (Inr b, t')))"
  unfolding on_lanes_def using cancel [of _ now k e] by (intro inv_on) (simp split: prod.split, metis snd_conv)

lemma inv_retry [own]:
  assumes "\<forall>tx. Some tx \<in> set txs \<longrightarrow> tx_owner tx \<in> range (owner (sw_id sw))"
  shows "inv J (retry_for_gas env sw txs)"
proof -
  have requeue: "inv J (on_evm (\<lambda>t. (Inr (), snd (requeue now xs t))))"
    if "set xs \<subseteq> range (owner (sw_id sw))" for now xs
    using again [OF that] unfolding on_evm_def by (intro inv_on) simp
  have "set (map tx_owner (filter (\<lambda>tx. tx_status tx = EvmFailed \<and> tx_attempts tx = [])
      (List.map_filter id txs))) \<subseteq> range (owner (sw_id sw))"
    using assms by (auto simp: map_filter_def)
  then show ?thesis
    unfolding retry_for_gas_def Let_def by (intro own requeue)
qed

lemma inv_found [own]:
  assumes "\<And>x. (\<forall>tx. x = Some tx \<longrightarrow> tx_owner tx = owner (sw_id sw) k) \<Longrightarrow> inv J (f x)"
  shows "inv J (bindA (query (find_tx sw k)) f)"
proof -
  have "inv J (f (find_tx sw k d))" for d
    using assms find_evm_tx_owner by (simp add: find_tx_def)
  then show ?thesis
    unfolding inv_def hoare_def bindA_def query_run by auto
qed

lemma inv_need_found [own]:
  assumes "\<And>tx. tx_owner tx = owner (sw_id sw) k \<Longrightarrow> inv J (f tx)"
  shows "inv J (bindA (query (\<lambda>d. need (find_tx sw k d))) (\<lambda>read. bindA (liftE read) f))"
proof -
  have "inv J (bindA (liftE (need (find_tx sw k d))) f)" for d
  proof (cases "find_tx sw k d")
    case None
    then show ?thesis by (simp add: need_def inv_def hoare_def bindA_def liftE_def)
  next
    case (Some tx)
    then have "inv J (f tx)" using assms find_evm_tx_owner by (simp add: find_tx_def)
    with Some show ?thesis by (simp add: need_def inv_def hoare_def bindA_def liftE_def)
  qed
  then show ?thesis
    unfolding inv_def hoare_def bindA_def [of "query _"] query_run by auto
qed

section \<open>The handlers of the LiFi stages\<close>

lemma settle_input_inv: "steady env J \<Longrightarrow> inv J (settle_input env sw)"
  unfolding settle_input_def Let_def
  by (rule inv_found) (auto intro!: own split: option.split simp: input_transfer_call_def)

lemma settle_withdraw_inv: "steady env J \<Longrightarrow> inv J (settle_withdraw env sw)"
  unfolding settle_withdraw_def by (auto intro!: own simp: order_of_def)

lemma send_lifi_tx_inv:
  assumes "steady env J"
  shows "inv J (send_lifi_tx env sw)"
proof -
  have send: "\<exists>k. in_owner j = owner (sw_id sw) k"
    if "lifi_intent (owner (sw_id sw) LIFI) ch rq sim = Inr i"
      and "j \<in> set (if b then [i] else [approve_intent enc (owner (sw_id sw) APPROVE) tok sp n, i])"
    for b enc tok sp n i ch rq sim j
    using lifi_intent_owner [OF that(1)] that(2) by (auto simp: approve_intent_def split: if_splits)
  show ?thesis
    unfolding send_lifi_tx_def Let_def
    using assms
    by (auto intro!: own intro: send simp: order_of_def split: exc.split)
qed

lemma settle_lifi_tx_inv: "steady env J \<Longrightarrow> inv J (settle_lifi_tx env sw)"
  unfolding settle_lifi_tx_def Let_def
  by (rule inv_need_found) (auto intro!: own inv_found simp: order_of_def split: exc.split)

lemma settle_bridge_inv: "steady env J \<Longrightarrow> inv J (settle_bridge env sw)"
  unfolding settle_bridge_def
  by (auto intro!: own simp: order_of_def split: exc.split)

lemma execute_inv: "steady env J \<Longrightarrow> inv J (execute env sw)"
  by (simp add: execute_def settle_bridge_inv settle_lifi_tx_inv send_lifi_tx_inv)

lemma settle_deposit_inv:
  "tx_owner tx \<in> range (owner (sw_id sw)) \<Longrightarrow> inv J (settle_deposit env sw tx step)"
  unfolding settle_deposit_def by (auto intro!: own simp: order_of_def)

lemma settle_found_inv: "tx_owner tx = owner (sw_id sw) k \<Longrightarrow> inv J (settle_deposit env sw tx step)"
  by (simp add: settle_deposit_inv)

lemma check_credited_inv: "steady env J \<Longrightarrow> inv J (check_credited env sw k n step)"
  unfolding check_credited_def
  by (rule inv_need_found) (auto intro!: own split: exc.split)

lemma submit_deposit_inv: "inv J (submit_deposit env sw k info n to)"
  unfolding submit_deposit_def by (rule inv_submit) (auto simp: transfer_intent_def)

lemma deposit_output_inv: "steady env J \<Longrightarrow> inv J (deposit_output env sw)"
  unfolding deposit_output_def
  by (auto intro!: own check_credited_inv submit_deposit_inv settle_found_inv split: option.split)

lemma credit_inv: "inv J (credit env sw)"
  unfolding credit_def by (auto intro!: own simp: order_of_def)

lemma refund_inv: "steady env J \<Longrightarrow> inv J (refund env sw)"
  unfolding refund_def settle_refund_payout_def Let_def
  by (auto intro!: own check_credited_inv submit_deposit_inv settle_found_inv split: option.split)

section \<open>The handlers of the internal stage\<close>

lemma settle_internal_inv: "inv J (settle_internal env sw)"
  unfolding settle_internal_def
  by (auto intro!: own simp: order_of_def swap_intent_def)

lemma defer_inv [own]: "inv J (defer_swap env sw reason)"
  unfolding defer_swap_def by (intro own)

end

text \<open>The internal stage handles several swaps in one pass.\<close>

lemma inv_pricing:
  assumes "steady env J"
  shows "inv J (price_each env swaps)"
  using assms
  by (induction swaps)
    (auto intro!: own simp: fresh_payout_def price_route_def Let_def split: exc.split)

lemma simulate_inv:
  assumes "steady env J" and "\<forall>sw\<in>set swaps. own_writes sw J"
  shows "inv J (simulate_inputs env swaps)"
  using assms
  by (induction swaps)
    (auto intro!: own own_writes.inv_moves own_writes.defer_inv split: exc.split)

lemma fill_inv:
  assumes "steady env J" and "\<forall>x\<in>set priced. own_writes (fst x) J"
  shows "inv J (fill_each env available priced)"
  using assms
  by (induction env available priced rule: fill_each.induct)
    (auto intro!: own own_writes.inv_moves own_writes.defer_inv simp: order_of_def)

section \<open>The order columns\<close>

text \<open>Every write keeps every property of the identities and venues of the rows.\<close>

interpretation orders: own_writes sw "\<lambda>d. P (map order_of (db_swaps d))" for sw and P
  by unfold_locales (simp_all add: map_update_where)


end
