(* ===== verification/SwapWorker.thy ===== *)
theory SwapWorker
  imports InternalPipeline
begin

text \<open>
  The tasks that run the stages (\<open>services/swap/worker.py\<close>): one per stage, and one per stage and
  chain for the stages that ask a chain about each swap. A task repeats the rounds of its stage; an
  exception ends only the round, and the task waits before the next. \<open>service\<close> is a run of the process: rounds of the stages in any
  order, each with its own answers of the outside world.
\<close>

datatype stage =
    InternalStage
  | InputStage
  | WithdrawStage
  | CreditStage
  | RefundStage
  | ExecuteStage int
  | DepositStage int

definition round_of :: "stage \<Rightarrow> 'e quote_env_scheme \<Rightarrow> unit sact" where
  "round_of st env =
     (case st of
        InternalStage \<Rightarrow> internal_swap_round env
      | InputStage \<Rightarrow> input_round env
      | WithdrawStage \<Rightarrow> lifi_withdraw_round env
      | CreditStage \<Rightarrow> credit_round env
      | RefundStage \<Rightarrow> refund_round env
      | ExecuteStage c \<Rightarrow> execute_round env c
      | DepositStage c \<Rightarrow> deposit_round env c)"

definition steps_of :: "stage \<Rightarrow> swap_step list" where
  "steps_of st =
     (case st of
        InternalStage \<Rightarrow> [InternalSwapSent, InternalSwapPricing]
      | InputStage \<Rightarrow> [InputSent]
      | WithdrawStage \<Rightarrow> [WithdrawSent]
      | CreditStage \<Rightarrow> [CreditSent]
      | RefundStage \<Rightarrow> [RefundRedeposit, RefundCrediting, RefundPayout]
      | ExecuteStage c \<Rightarrow> [ExecuteFunding, ExecuteSent, ExecuteBridging]
      | DepositStage c \<Rightarrow> [DepositSent, DepositCrediting])"

fun service :: "(stage \<times> 'e quote_env_scheme) list \<Rightarrow> unit sact" where
  "service [] = ret ()"
| "service ((st, env) # rounds) =
     seqA (catchA (round_of st env) (\<lambda>_. ret ())) (seqA (await env (\<lambda>_. Inr ())) (service rounds))"

text \<open>A step belongs to one stage, so one task (per chain) moves a swap that is there.\<close>

definition same_stage :: "stage \<Rightarrow> stage \<Rightarrow> bool" where
  "same_stage a b \<longleftrightarrow>
     (case (a, b) of
        (ExecuteStage _, ExecuteStage _) \<Rightarrow> True
      | (DepositStage _, DepositStage _) \<Rightarrow> True
      | _ \<Rightarrow> a = b)"

lemma steps_disjoint: "\<not> same_stage a b \<Longrightarrow> set (steps_of a) \<inter> set (steps_of b) = {}"
  by (auto simp: same_stage_def steps_of_def split: stage.splits)

section \<open>The tasks of the chains\<close>

text \<open>\<open>_run_on_chain\<close>, in the order in which the RPCs answer with their chain: a second setting for
  a chain that a task already serves is not started.\<close>

type_synonym serving = "((string \<times> int) \<times> string) list"

definition run_on_chain :: "string \<Rightarrow> string \<Rightarrow> int \<Rightarrow> serving \<Rightarrow> bool \<times> serving" where
  "run_on_chain name setting chain_id serving =
     (case map_of serving (name, chain_id) of
        None \<Rightarrow> (True, ((name, chain_id), setting) # serving)
      | Some s \<Rightarrow> (s = setting, serving))"

fun started :: "(string \<times> string \<times> int) list \<Rightarrow> serving \<Rightarrow> (string \<times> string \<times> int) list" where
  "started [] serving = []"
| "started ((name, setting, chain_id) # rest) serving =
     (let (runs, serving') = run_on_chain name setting chain_id serving
      in (if runs then [(name, setting, chain_id)] else []) @ started rest serving')"

lemma run_on_chain_serves:
  "map_of (snd (run_on_chain n s c serving)) (n, c) =
     Some (case map_of serving (n, c) of None \<Rightarrow> s | Some s' \<Rightarrow> s')"
  "fst (run_on_chain n s c serving) \<longleftrightarrow> map_of (snd (run_on_chain n s c serving)) (n, c) = Some s"
  "map_of serving k = Some s' \<Longrightarrow> map_of (snd (run_on_chain n s c serving)) k = Some s'"
  by (auto simp: run_on_chain_def split: option.split)

lemma started_cons:
  "started ((n, s, c) # rest) serving =
     (if fst (run_on_chain n s c serving) then [(n, s, c)] else [])
     @ started rest (snd (run_on_chain n s c serving))"
  by (simp add: case_prod_beta Let_def)

lemma started_serves:
  "(n, s, c) \<in> set (started asked serving) \<Longrightarrow> map_of serving (n, c) = Some s' \<Longrightarrow> s = s'"
proof (induction asked arbitrary: serving)
  case (Cons a rest)
  obtain n' s2 c' where a: "a = (n', s2, c')" by (cases a) auto
  from Cons.prems(2) have "map_of (snd (run_on_chain n' s2 c' serving)) (n, c) = Some s'"
    by (rule run_on_chain_serves(3))
  with Cons.prems(1) Cons.IH show ?case
    unfolding a started_cons using run_on_chain_serves(2) [of n' s2 c' serving]
    by (auto split: if_splits)
qed simp

text \<open>Two tasks never run one stage for one chain: whatever RPC settings are configured and in
  whatever order they answer, the tasks that run a stage of a chain are those of one setting, and
  each chain that an RPC answered for is served.\<close>

theorem one_setting_per_chain:
  "((n, s, c) \<in> set (started asked []) \<longrightarrow> (n, s', c) \<in> set (started asked []) \<longrightarrow> s = s')
   \<and> ((n, s, c) \<in> set asked \<longrightarrow> (\<exists>s'. (n, s', c) \<in> set (started asked [])))"
proof -
  have "s = s'" if "(n, s, c) \<in> set (started asked serving)" "(n, s', c) \<in> set (started asked serving)" for serving
    using that
  proof (induction asked arbitrary: serving)
    case (Cons a rest)
    obtain n2 s2 c2 where a: "a = (n2, s2, c2)" by (cases a) auto
    show ?case
      using Cons run_on_chain_serves(2) [of n2 s2 c2 serving]
        started_serves [of n _ c rest "snd (run_on_chain n2 s2 c2 serving)"]
      unfolding a started_cons by (auto split: if_splits)
  qed simp
  moreover have "\<exists>s'. (n, s', c) \<in> set (started asked serving)"
    if "(n, s, c) \<in> set asked" "map_of serving (n, c) = None" for serving
    using that
  proof (induction asked arbitrary: serving)
    case (Cons a rest)
    obtain n2 s2 c2 where a: "a = (n2, s2, c2)" by (cases a) auto
    show ?case
    proof (cases "(n2, c2) = (n, c)")
      case True
      with Cons.prems(2) show ?thesis
        unfolding a started_cons using run_on_chain_serves(1,2) [of n s2 c serving] by auto
    next
      case False
      then have "map_of (snd (run_on_chain n2 s2 c2 serving)) (n, c) = map_of serving (n, c)"
        by (auto simp: run_on_chain_def split: option.split)
      moreover from Cons.prems False a have "(n, s, c) \<in> set rest" by auto
      ultimately show ?thesis
        using Cons.IH [of "snd (run_on_chain n2 s2 c2 serving)"] Cons.prems(2)
        unfolding a started_cons by auto
    qed
  qed simp
  ultimately show ?thesis by auto
qed

definition two_settings :: "(string \<times> string \<times> int) list" where
  "two_settings = [(''execute'', ''A'', 1), (''execute'', ''B'', 1), (''deposit'', ''B'', 1)]"

theorem one_setting_per_chain_witness:
  "(''execute'', ''A'', 1) \<in> set (started two_settings []) \<and> (''execute'', ''B'', 1) \<notin> set (started two_settings [])"
proof -
  have a: "(''execute'', ''A'', 1) \<in> set (started two_settings [])" by code_simp
  moreover have "''A'' \<noteq> (''B'' :: string)" by simp
  ultimately show ?thesis
    using one_setting_per_chain [of "''execute''" "''A''" 1 two_settings "''B''"] by blast
qed

end
