(* ===== verification/LifiRounds.thy ===== *)
theory LifiRounds
  imports HandlerWrites SwapWorker
begin

text \<open>
  The rounds of the swap stages over all swaps. While a stage handles one swap it leaves the view of
  every other swap alone, so a whole round keeps the evidence of each swap, and so does any run of
  rounds of the stages, in any order. The last section states what that means for the user: one
  payment, of the right amount, and a refund or a promise that nothing moved only where the queues
  show it.
\<close>

section \<open>Tables of plain ids\<close>

text \<open>The ids are uuids: no colon, so the owners of two swaps differ.\<close>

definition plain_id :: "string \<Rightarrow> bool" where
  "plain_id i \<longleftrightarrow> CHR '':'' \<notin> set i"

lemma owner_other:
  "plain_id a \<Longrightarrow> plain_id b \<Longrightarrow> a \<noteq> b \<Longrightarrow> owner a k \<noteq> owner b l"
  by (simp add: plain_id_def owner_inj)

definition table_ok :: "db \<Rightarrow> bool" where
  "table_ok d \<longleftrightarrow> distinct (map sw_id (db_swaps d)) \<and> (\<forall>r\<in>set (db_swaps d). plain_id (sw_id r))"

definition plain_orders :: "(string \<times> swap_venue) list \<Rightarrow> bool" where
  "plain_orders t \<longleftrightarrow> distinct (map fst t) \<and> (\<forall>x\<in>set t. plain_id (fst x))"

lemma table_ok_orders: "table_ok d \<longleftrightarrow> plain_orders (map order_of (db_swaps d))"
  by (simp add: table_ok_def plain_orders_def order_of_def o_def)

lemma table_ok_fun: "table_ok = (\<lambda>d. plain_orders (map order_of (db_swaps d)))"
  by (simp add: fun_eq_iff table_ok_orders)

text \<open>The view of another swap is among what the writes of a swap keep.\<close>

lemma other_view:
  assumes "plain_id sid" and "plain_id (sw_id sw)" and "sw_id sw \<noteq> sid"
  shows "own_writes sw (\<lambda>d. A (view sid d))"
proof
  have own [simp]: "owner (sw_id sw) k \<noteq> owner sid l" "owner sid l \<noteq> owner (sw_id sw) k" for k l
    using owner_other [OF assms(2,1,3)] owner_other [OF assms(1,2) assms(3) [symmetric]] by auto
  fix d :: db
  { fix cols :: "swap \<Rightarrow> swap" and p
    assume keep: "\<And>r. order_of (cols r) = order_of r" and A: "A (view sid d)"
    have "find_row sw_id sid (update_where (\<lambda>r. sw_id r = sw_id sw \<and> p r) cols (db_swaps d))
        = find_row sw_id sid (db_swaps d)"
      using find_row_Some [of sw_id sid "db_swaps d"] assms(3) keep
      by (cases "find_row sw_id sid (db_swaps d)") (auto simp: find_row_update_where order_of_def)
    with A show "A (view sid (d\<lparr>db_swaps := update_where (\<lambda>r. sw_id r = sw_id sw \<and> p r) cols (db_swaps d)\<rparr>))"
      by (simp add: view_swaps view_row) }
  { fix c a now and "is" :: "tx_intent list" assume "in_owner ` set is \<subseteq> range (owner (sw_id sw))" and A: "A (view sid d)"
    then have "owner sid k \<notin> in_owner ` set is" for k by auto
    then have "view sid (d\<lparr>db_evm := snd (submit c a now is (db_evm d))\<rparr>) = view sid d"
      by (simp add: view_swaps submit_eq evm_queue.insert_all_frame) (simp add: view_def)
    with A show "A (view sid (d\<lparr>db_evm := snd (submit c a now is (db_evm d))\<rparr>))" by simp }
  { fix now xs assume xs: "set xs \<subseteq> range (owner (sw_id sw))" and A: "A (view sid d)"
    have "find_evm_tx (owner sid k) (snd (requeue now xs (db_evm d))) = find_evm_tx (owner sid k) (db_evm d)" for k
      using xs find_evm_tx_owner [of "owner sid k" "db_evm d"]
      by (cases "find_evm_tx (owner sid k) (db_evm d)")
        (auto simp: requeue_def find_evm_tx_def find_row_update_where requeuable_def)
    with A show "A (view sid (d\<lparr>db_evm := snd (requeue now xs (db_evm d))\<rparr>))" by (simp add: view_def) }
  { fix i :: privana_intent and a now assume "pi_owner i \<in> range (owner (sw_id sw))" and A: "A (view sid d)"
    then have "owner sid k \<noteq> pi_owner i" for k by auto
    then have "view sid (d\<lparr>db_lanes := insert_lane a now i (db_lanes d)\<rparr>) = view sid d"
      by (simp add: view_swaps lane_queue.insert_frame) (simp add: view_def)
    with A show "A (view sid (d\<lparr>db_lanes := insert_lane a now i (db_lanes d)\<rparr>))" by simp }
  { fix now k e assume A: "A (view sid d)"
    have "find_privana_tx (owner sid l) (snd (cancel_queued now (owner (sw_id sw) k) e (db_lanes d)))
        = find_privana_tx (owner sid l) (db_lanes d)" for l
      using find_privana_tx_owner [of "owner sid l" "db_lanes d"]
      by (cases "find_privana_tx (owner sid l) (db_lanes d)")
        (auto simp: cancel_queued_def Let_def find_privana_tx_def find_row_update_where)
    with A show "A (view sid (d\<lparr>db_lanes := snd (cancel_queued now (owner (sw_id sw) k) e (db_lanes d))\<rparr>))"
      by (simp add: view_def) }
qed

section \<open>Handling a list of swaps\<close>

definition at_steps :: "swap_step list \<Rightarrow> swap \<Rightarrow> bool" where
  "at_steps steps r \<longleftrightarrow> sw_status r \<in> {SwapExecuting, SwapRefunding} \<and> sw_step r \<in> Some ` set steps"

text \<open>What the rounds keep of one swap.\<close>

definition good :: "int \<Rightarrow> string \<Rightarrow> db \<Rightarrow> bool" where
  "good fee sid d \<longleftrightarrow> table_ok d \<and> vok fee (view sid d)"

definition internal_row :: "string \<Rightarrow> db \<Rightarrow> bool" where
  "internal_row sid d \<longleftrightarrow> table_ok d \<and> (sid, VenueInternal) \<in> set (map order_of (db_swaps d))"

lemma internal_row_fun:
  "internal_row sid = (\<lambda>d. (\<lambda>t. plain_orders t \<and> (sid, VenueInternal) \<in> set t) (map order_of (db_swaps d)))"
  by (simp add: fun_eq_iff internal_row_def table_ok_orders)

lemma internal_row_found:
  assumes "table_ok d"
  shows "internal_row sid d \<longleftrightarrow> (\<exists>r. find_row sw_id sid (db_swaps d) = Some r \<and> sw_venue r = VenueInternal)"
  using assms find_row_distinct [of sw_id "db_swaps d"]
  by (fastforce simp: internal_row_def table_ok_def order_of_def dest: find_row_Some)

lemma internal_row_good: "internal_row sid d \<Longrightarrow> good fee sid d"
  using internal_row_found [of d sid] by (auto simp: good_def vok_def internal_row_def)

lemma hoare_query_bind:
  "(\<And>d. P d \<Longrightarrow> hoare (\<lambda>s. st_db s = d) (g (f d)) Q E) \<Longrightarrow> hoare (\<lambda>s. P (st_db s)) (bindA (query f) g) Q E"
  by (auto simp: hoare_def bindA_def query_run)

lemma inv_at: "inv J m \<Longrightarrow> J d \<Longrightarrow> hoare (\<lambda>s. st_db s = d) m (\<lambda>_ s. J (st_db s)) (\<lambda>s. J (st_db s))"
  unfolding inv_def by (rule hoare_pre, assumption) simp

lemma hoare_and:
  "hoare P m Q E \<Longrightarrow> hoare P m Q' E' \<Longrightarrow> hoare P m (\<lambda>x s. Q x s \<and> Q' x s) (\<lambda>s. E s \<and> E' s)"
  by (fastforce simp: hoare_def split: prod.splits sum.splits)

context one_swap
begin

lemma steady_stays: "stays A \<longleftrightarrow> steady env (\<lambda>d. A (view sid d))"
  by (simp add: steady_def stays_def)

lemma quiet_other:
  assumes "plain_id sid" "plain_id (sw_id sw)" "sw_id sw \<noteq> sid"
    and "\<And>J. own_writes sw J \<Longrightarrow> steady env J \<Longrightarrow> inv J m"
  shows "quiet m"
  using assms(4) [OF other_view [OF assms(1-3)]] unfolding quiet_def steady_stays inv_def by blast

lemma vq_catch: "vh_ok A m \<Longrightarrow> vh_ok A (catchA m (\<lambda>_. ret ()))"
  by (fastforce simp: vq_def hoare_def catchA_def ret_def split: prod.splits sum.splits)

lemma vqD:
  "vq A m B \<Longrightarrow> A (view sid d) \<Longrightarrow> vok fee (view sid d) \<Longrightarrow>
     hoare (\<lambda>s. st_db s = d) m (\<lambda>_ s. vok fee (view sid (st_db s))) (\<lambda>s. vok fee (view sid (st_db s)))"
  unfolding vq_def by (rule hoare_post, erule hoare_pre) auto

lemma vq_inv: "inv (\<lambda>d. A (view sid d) \<and> vok fee (view sid d)) m \<Longrightarrow> vq A m (\<lambda>_. A)"
  unfolding vq_def inv_def by (rule hoare_post, assumption) auto

text \<open>The swap's snapshot in a list of swaps is its row.\<close>

definition fresh :: "swap list \<Rightarrow> view \<Rightarrow> bool" where
  "fresh swaps v \<longleftrightarrow> (\<forall>sw\<in>set swaps. sw_id sw = sid \<longrightarrow> vw_row v = Some sw)"

lemma fresh_stays:
  assumes "\<And>sw. sw \<in> set swaps \<Longrightarrow> sw_id sw = sid \<Longrightarrow> stays (\<lambda>v. vw_row v = Some sw)"
  shows "stays (fresh swaps)"
  using assms by (fastforce simp: stays_def fresh_def)

lemma handle_each_ok:
  assumes "distinct (map sw_id swaps)"
    and "\<And>sw. sw \<in> set swaps \<Longrightarrow> sw_id sw \<noteq> sid \<Longrightarrow> quiet (h sw)"
    and "\<And>sw. sw \<in> set swaps \<Longrightarrow> sw_id sw = sid \<Longrightarrow>
      stays (\<lambda>v. vw_row v = Some sw) \<and> vh_ok (\<lambda>v. vw_row v = Some sw) (h sw)"
  shows "vh_ok (fresh swaps) (handle_each swaps h)"
  using assms
proof (induction swaps)
  case Nil
  show ?case by (simp only: handle_each.simps) (rule vq_ret, simp)
next
  case (Cons sw swaps)
  have quiet_catch: "quiet (catchA m (\<lambda>_. ret ()))" if "quiet m" for m
    unfolding quiet_def
  proof (intro allI impI)
    fix A assume "stays A"
    from hoare_catchA [OF quietD [OF that this] hoare_ret]
    show "hoare (\<lambda>s. A (view sid (st_db s))) (catchA m (\<lambda>_. ret ())) (\<lambda>_ s. A (view sid (st_db s)))
        (\<lambda>s. A (view sid (st_db s)))" .
  qed
  show ?case
  proof (cases "sw_id sw = sid")
    case True
    then have "sid \<notin> sw_id ` set swaps" using Cons.prems(1) by auto
    then have rest: "fresh swaps v" for v by (auto simp: fresh_def)
    have "vh_ok (fresh (sw # swaps)) (catchA (h sw) (\<lambda>_. ret ()))"
      by (rule vq_catch, rule vq_pre [where B = "\<lambda>v. vw_row v = Some sw"])
        (use True Cons.prems(3) [of sw] in \<open>auto simp: fresh_def\<close>)
    moreover have "vh_ok (\<lambda>_. True) (handle_each swaps h)"
      by (rule vq_pre [OF Cons.IH]) (use Cons.prems rest in auto)
    ultimately show ?thesis by (auto intro: vq_seq)
  next
    case False
    have "stays (fresh swaps)"
      by (rule fresh_stays) (use Cons.prems(3) in auto)
    then have "vq (fresh swaps) (catchA (h sw) (\<lambda>_. ret ())) (\<lambda>_. fresh swaps)"
      using False Cons.prems(2) by (intro vq_quiet' quiet_catch) auto
    then have "vh_ok (fresh swaps) (handle_each (sw # swaps) h)"
      using Cons by (auto intro!: vq_seq)
    then show ?thesis by (rule vq_pre) (simp add: fresh_def)
  qed
qed

lemma on_chain_ok:
  assumes "stays A"
  shows "vq A (on_chain env field c swaps) (\<lambda>here v. A v \<and> subseq here swaps)"
proof (induction swaps)
  case Nil
  show ?case by (simp only: on_chain.simps) (rule vq_ret, simp)
next
  case (Cons sw swaps)
  show ?case
    unfolding on_chain.simps
  proof (rule vq_bind [OF vq_quiet' [OF assms]], intro quiet)
    fix read
    show "vq A (bindA (on_chain env field c swaps) (\<lambda>rest. case read of Inl x \<Rightarrow> ret rest
        | Inr info \<Rightarrow> ret (if ti_chain info = c then sw # rest else rest)))
        (\<lambda>here v. A v \<and> subseq here (sw # swaps))"
      by (rule vq_bind [OF Cons]) (auto intro!: vq_ret split: sum.split)
  qed
qed

end


section \<open>One round of a stage\<close>

text \<open>What a stage's handler gives: it writes only what belongs to its swap, and keeps the evidence of
  a swap of the LiFi venue at the stage's steps.\<close>

definition handler_ok ::
  "'e lifi_env_scheme \<Rightarrow> int \<Rightarrow> swap_step list \<Rightarrow> (swap \<Rightarrow> unit sact) \<Rightarrow> bool" where
  "handler_ok env fee steps h \<longleftrightarrow>
     (\<forall>sw J. own_writes sw J \<longrightarrow> steady env J \<longrightarrow> inv J (h sw))
     \<and> (\<forall>sw T L. at_steps steps sw \<longrightarrow> ok_at fee sw T L \<longrightarrow> one_swap env (sw_id sw) fee \<longrightarrow>
          one_swap.vq (sw_id sw) fee (\<lambda>v. vw_row v = Some sw) (h sw) (\<lambda>_ _. True))"

text \<open>The rely condition of a stage: each wait keeps the evidence of every swap, what the queues
  already show, and the table; the rows at the stage's own steps are written by the stage only.\<close>

definition calm :: "int \<Rightarrow> swap_step list \<Rightarrow> 'e lifi_env_scheme \<Rightarrow> bool" where
  "calm fee steps env \<longleftrightarrow>
     se_fee_bps (sv_settings env) = fee \<and> steady env table_ok
     \<and> (\<forall>sid n d. vrely fee (view sid d) (view sid (sv_other env n d)))
     \<and> (\<forall>sid n d sw. find_row sw_id sid (db_swaps d) = Some sw \<longrightarrow> at_steps steps sw \<longrightarrow>
          find_row sw_id sid (db_swaps (sv_other env n d)) = Some sw)"

lemma calm_one: "calm fee steps env \<Longrightarrow> one_swap env sid fee"
  by unfold_locales (auto simp: calm_def)

lemma steady_internal:
  assumes "calm fee steps env"
  shows "steady env (internal_row sid)"
  unfolding steady_def
proof (intro allI impI)
  fix n d assume d: "internal_row sid d"
  then have t: "table_ok d" "table_ok (sv_other env n d)"
    using assms by (auto simp: calm_def steady_def internal_row_def)
  from d obtain r where r: "find_row sw_id sid (db_swaps d) = Some r" "sw_venue r = VenueInternal"
    using internal_row_found [OF t(1)] by blast
  from assms have "vrely fee (view sid d) (view sid (sv_other env n d))" by (simp add: calm_def)
  with r(1) obtain r' where "find_row sw_id sid (db_swaps (sv_other env n d)) = Some r'" "same_order r r'"
    unfolding vrely_def by auto
  with r(2) show "internal_row sid (sv_other env n d)"
    using internal_row_found [OF t(2)] by (auto simp: same_order_def)
qed

lemma table_own: "own_writes sw table_ok" and internal_own: "own_writes sw (internal_row sid)"
  unfolding table_ok_fun internal_row_fun by (rule orders.own_writes_axioms)+

text \<open>A list of rows read from the database, and what is done to (some of) them.\<close>

definition read_at :: "swap_step list \<Rightarrow> swap list \<Rightarrow> db \<Rightarrow> bool" where
  "read_at steps swaps d \<longleftrightarrow>
     distinct (map sw_id swaps) \<and> (\<forall>sw\<in>set swaps. sw \<in> set (db_swaps d) \<and> at_steps steps sw)"

lemma read_at_sub: "read_at steps swaps d \<Longrightarrow> subseq ls swaps \<Longrightarrow> read_at steps ls d"
  unfolding read_at_def subseq_conv_nths
  by (auto simp: nths_map [symmetric] dest: in_set_nthsD intro: distinct_nthsI)

lemma inv_handle_some:
  assumes "handler_ok env fee steps h" and "steady env J" and "\<And>sw. own_writes sw J"
  shows "inv J (handle_each swaps h)"
    and "inv J (bindA (on_chain env f c swaps) (\<lambda>here. handle_each (take n here) h))"
  using assms inv_on_chain [OF assms(2)]
  by (auto simp: handler_ok_def intro!: inv_handle_each inv_bind)

lemma handled:
  assumes calm: "calm fee steps env" and plain: "plain_id sid" and h: "handler_ok env fee steps h"
    and swaps: "read_at steps swaps d" and d: "good fee sid d"
  shows "hoare (\<lambda>s. st_db s = d) (handle_each swaps h) (\<lambda>_ s. good fee sid (st_db s)) (\<lambda>s. good fee sid (st_db s))" (is ?plain)
    and "hoare (\<lambda>s. st_db s = d) (bindA (on_chain env f c swaps) (\<lambda>here. handle_each (take n here) h))
      (\<lambda>_ s. good fee sid (st_db s)) (\<lambda>s. good fee sid (st_db s))" (is ?chain)
proof -
  note one = calm_one [OF calm]
  have t: "table_ok d" and steady: "steady env table_ok"
    using d calm by (simp_all add: good_def calm_def)
  have table: "hoare (\<lambda>s. st_db s = d) m (\<lambda>_ s. table_ok (st_db s)) (\<lambda>s. table_ok (st_db s))"
    if "inv table_ok m" for m :: "unit sact"
    using inv_at [OF that t] .
  note inv = inv_handle_some [OF h]
  have "?plain \<and> ?chain"
  proof (cases "internal_row sid d")
    case True
    have "hoare (\<lambda>s. st_db s = d) m (\<lambda>_ s. good fee sid (st_db s)) (\<lambda>s. good fee sid (st_db s))"
      if "inv (internal_row sid) m" for m :: "unit sact"
      using inv_at [OF that True] by (rule hoare_post) (simp_all add: internal_row_good)
    with inv [OF steady_internal [OF calm] internal_own] show ?thesis by blast
  next
    case False
    have row: "find_row sw_id (sw_id sw) (db_swaps d) = Some sw" if "sw \<in> set swaps" for sw
      using that swaps t find_row_distinct [of sw_id "db_swaps d" sw] by (auto simp: read_at_def table_ok_def)
    have focus: "one_swap.stays env sid (\<lambda>v. vw_row v = Some sw)
        \<and> one_swap.vq sid fee (\<lambda>v. vw_row v = Some sw) (h sw) (\<lambda>_ _. True)"
      if "sw \<in> set swaps" "sw_id sw = sid" for sw
    proof -
      have at: "at_steps steps sw" using that(1) swaps by (simp add: read_at_def)
      have "sw_venue sw = VenueLifi"
        using False row [OF that(1)] internal_row_found [OF t] that(2) by (cases "sw_venue sw") auto
      then have "ok_at fee sw (vw_tx (view sid d)) (vw_lane (view sid d))"
        using d row [OF that(1)] that(2) by (simp add: good_def vok_def)
      with at h one that(2) show ?thesis
        using calm row [OF that(1)]
        by (fastforce simp: handler_ok_def one_swap.stays_def [OF one] calm_def)
    qed
    have other: "one_swap.quiet env sid (h sw)" if "sw \<in> set swaps" "sw_id sw \<noteq> sid" for sw
    proof (rule one_swap.quiet_other [OF one plain _ that(2)])
      show "plain_id (sw_id sw)" using that(1) swaps t by (auto simp: read_at_def table_ok_def)
    qed (use h in \<open>simp add: handler_ok_def\<close>)
    let ?fresh = "one_swap.fresh sid"
    have each: "one_swap.vq sid fee (?fresh ls) (handle_each ls h) (\<lambda>_ _. True)" if "subseq ls swaps" for ls
      using that read_at_sub [OF swaps that] focus other
      by (intro one_swap.handle_each_ok [OF one]) (auto simp: read_at_def subseq_conv_nths dest: in_set_nthsD)
    have "one_swap.stays env sid (?fresh swaps)"
      using focus by (intro one_swap.fresh_stays [OF one]) auto
    from one_swap.on_chain_ok [OF one this]
    have chain: "one_swap.vq sid fee (?fresh swaps)
        (bindA (on_chain env f c swaps) (\<lambda>here. handle_each (take n here) h)) (\<lambda>_ _. True)"
    proof (rule one_swap.vq_bind [OF one])
      fix here
      show "one_swap.vq sid fee (\<lambda>v. ?fresh swaps v \<and> subseq here swaps) (handle_each (take n here) h) (\<lambda>_ _. True)"
      proof (cases "subseq here swaps")
        case True
        have "subseq (take n here) here" by (simp add: prefix_imp_subseq take_is_prefix)
        with True have sub: "subseq (take n here) swaps" by (rule subseq_order.order_trans [rotated])
        then have "set (take n here) \<subseteq> set swaps" by (auto simp: subseq_conv_nths dest: in_set_nthsD)
        then show ?thesis
          by (intro one_swap.vq_pre [OF one each [OF sub]]) (auto simp: one_swap.fresh_def [OF one])
      next
        case False
        then show ?thesis by (intro one_swap.vq_absurd [OF one]) blast
      qed
    qed
    have now: "?fresh swaps (view sid d)" and vok: "vok fee (view sid d)"
      using row d by (auto simp: one_swap.fresh_def [OF one] good_def)
    show ?thesis
      unfolding good_def
      using hoare_and [OF table [OF inv(1) [OF steady table_own]] one_swap.vqD [OF one each now vok]]
        hoare_and [OF table [OF inv(2) [OF steady table_own]] one_swap.vqD [OF one chain now vok]]
      by simp
  qed
  then show ?plain and ?chain by blast+
qed

section \<open>The stages\<close>

lemma at_places:
  assumes "ok_at fee sw T L" and "at_steps steps sw"
  shows "steps = [InputSent] \<Longrightarrow> sw_status sw = SwapExecuting \<and> sw_step sw = Some InputSent"
    and "steps = [WithdrawSent] \<Longrightarrow> sw_status sw = SwapExecuting \<and> sw_step sw = Some WithdrawSent"
    and "steps = [CreditSent] \<Longrightarrow> sw_status sw = SwapExecuting \<and> sw_step sw = Some CreditSent"
    and "steps = [ExecuteFunding, ExecuteSent, ExecuteBridging] \<Longrightarrow> sw_status sw = SwapExecuting
      \<and> (sw_step sw = Some ExecuteFunding \<or> sw_step sw = Some ExecuteSent \<or> sw_step sw = Some ExecuteBridging)"
    and "steps = [DepositSent, DepositCrediting] \<Longrightarrow> sw_status sw = SwapExecuting
      \<and> (sw_step sw = Some DepositSent \<or> sw_step sw = Some DepositCrediting)"
    and "steps = [RefundRedeposit, RefundCrediting, RefundPayout] \<Longrightarrow> sw_status sw = SwapRefunding
      \<and> (sw_step sw = Some RefundRedeposit \<or> sw_step sw = Some RefundCrediting \<or> sw_step sw = Some RefundPayout)"
    and "\<not> set steps \<subseteq> {InternalSwapSent, InternalSwapPricing}"
  using assms by (auto simp: at_steps_def ok_at_def)

lemma handler_okI:
  assumes "\<And>sw J. own_writes sw J \<Longrightarrow> steady env J \<Longrightarrow> inv J (h sw)"
    and "\<And>sw T L. at_steps steps sw \<Longrightarrow> ok_at fee sw T L \<Longrightarrow> one_swap env (sw_id sw) fee \<Longrightarrow>
      one_swap.vq (sw_id sw) fee (\<lambda>v. vw_row v = Some sw) (h sw) (\<lambda>_ _. True)"
  shows "handler_ok env fee steps h"
  using assms by (simp add: handler_ok_def)

lemma settle_input_handler: "handler_ok env fee [InputSent] (settle_input env)"
proof (rule handler_okI)
  fix sw T L assume at: "at_steps [InputSent] sw" "ok_at fee sw T L" and one: "one_swap env (sw_id sw) fee"
  show "one_swap.vq (sw_id sw) fee (\<lambda>v. vw_row v = Some sw) (settle_input env sw) (\<lambda>_ _. True)"
    using at_places(1) [OF at(2,1) refl] by (intro one_swap.settle_input_ok [OF one]) auto
qed (rule own_writes.settle_input_inv)

lemma settle_withdraw_handler: "handler_ok env fee [WithdrawSent] (settle_withdraw env)"
proof (rule handler_okI)
  fix sw T L assume at: "at_steps [WithdrawSent] sw" "ok_at fee sw T L" and one: "one_swap env (sw_id sw) fee"
  show "one_swap.vq (sw_id sw) fee (\<lambda>v. vw_row v = Some sw) (settle_withdraw env sw) (\<lambda>_ _. True)"
    using at_places(2) [OF at(2,1) refl] by (intro one_swap.settle_withdraw_ok [OF one]) auto
qed (rule own_writes.settle_withdraw_inv)

lemma credit_handler: "handler_ok env fee [CreditSent] (credit env)"
proof (rule handler_okI)
  fix sw T L assume at: "at_steps [CreditSent] sw" "ok_at fee sw T L" and one: "one_swap env (sw_id sw) fee"
  show "one_swap.vq (sw_id sw) fee (\<lambda>v. vw_row v = Some sw) (credit env sw) (\<lambda>_ _. True)"
    using at_places(3) [OF at(2,1) refl] by (intro one_swap.credit_ok [OF one]) auto
qed (rule own_writes.credit_inv)

lemma execute_handler: "handler_ok env fee [ExecuteFunding, ExecuteSent, ExecuteBridging] (execute env)"
proof (rule handler_okI)
  fix sw T L assume at: "at_steps [ExecuteFunding, ExecuteSent, ExecuteBridging] sw" "ok_at fee sw T L" and one: "one_swap env (sw_id sw) fee"
  show "one_swap.vq (sw_id sw) fee (\<lambda>v. vw_row v = Some sw) (execute env sw) (\<lambda>_ _. True)"
    using at_places(4) [OF at(2,1) refl] by (intro one_swap.execute_ok [OF one]) auto
qed (rule own_writes.execute_inv)

lemma deposit_output_handler: "handler_ok env fee [DepositSent, DepositCrediting] (deposit_output env)"
proof (rule handler_okI)
  fix sw T L assume at: "at_steps [DepositSent, DepositCrediting] sw" "ok_at fee sw T L" and one: "one_swap env (sw_id sw) fee"
  show "one_swap.vq (sw_id sw) fee (\<lambda>v. vw_row v = Some sw) (deposit_output env sw) (\<lambda>_ _. True)"
    using at_places(5) [OF at(2,1) refl] by (intro one_swap.deposit_output_ok [OF one]) auto
qed (rule own_writes.deposit_output_inv)

lemma refund_handler: "handler_ok env fee [RefundRedeposit, RefundCrediting, RefundPayout] (refund env)"
proof (rule handler_okI)
  fix sw T L assume at: "at_steps [RefundRedeposit, RefundCrediting, RefundPayout] sw" "ok_at fee sw T L" and one: "one_swap env (sw_id sw) fee"
  show "one_swap.vq (sw_id sw) fee (\<lambda>v. vw_row v = Some sw) (refund env sw) (\<lambda>_ _. True)"
    using at_places(6) [OF at(2,1) refl] by (intro one_swap.refund_ok [OF one]) auto
qed (rule own_writes.refund_inv)

lemma settle_internal_handler: "handler_ok env fee [InternalSwapSent] (settle_internal env)"
proof (rule handler_okI)
  fix sw T L assume "at_steps [InternalSwapSent] sw" and "ok_at fee sw T L"
  then have False using at_places(7) by fastforce
  then show "one_swap.vq (sw_id sw) fee (\<lambda>v. vw_row v = Some sw) (settle_internal env sw) (\<lambda>_ _. True)" ..
qed (rule own_writes.settle_internal_inv)

text \<open>Claiming: a swap of the LiFi venue starts at its input, the other venue's claims leave it alone.\<close>

context one_swap
begin

lemma claim_rows_ok:
  assumes "plain_id sid" and "\<forall>r\<in>set rows. plain_id (sw_id r) \<and> sw_status r = SwapScheduled"
    and "step = InputSent \<or> (\<forall>r\<in>set rows. sw_id r = sid \<longrightarrow> sw_venue r \<noteq> V)"
  shows "vh_ok (\<lambda>_. True) (claim_rows env V step users limit rows)"
  using assms
proof (induction rows arbitrary: users limit)
  case Nil
  show ?case by (simp only: claim_rows.simps) (rule vq_ret, simp)
next
  case (Cons sw rows)
  have take: "vh_ok (\<lambda>_. True) (advance env sw step (Some SwapExecuting) id)" if "sw_venue sw = V"
  proof (cases "sw_id sw = sid")
    case True
    with Cons.prems that have "step = InputSent" "sw_status sw = SwapScheduled" by auto
    then show ?thesis by (intro vq_advance) (auto simp: vok_simps only_def)
  next
    case False
    then show ?thesis
      using Cons.prems(2) by (intro vq_inv own_writes.inv_moves(1) [OF other_view [OF Cons.prems(1)]]) auto
  qed
  have rest: "vh_ok (\<lambda>_. True) (claim_rows env V step users' limit' rows)" for users' limit'
    using Cons.prems by (intro Cons.IH) auto
  show ?case
    unfolding claim_rows.simps Let_def
    by (intro vq_if rest vq_seq [OF take]) (auto intro: vq_ret)
qed

end

lemma own_conj: "own_writes sw J \<Longrightarrow> own_writes sw K \<Longrightarrow> own_writes sw (\<lambda>d. J d \<and> K d)"
  unfolding own_writes_def by simp

lemma good_own:
  assumes "plain_id sid" "plain_id (sw_id sw)" "sw_id sw \<noteq> sid"
  shows "own_writes sw (good fee sid)"
  unfolding good_def [abs_def] by (rule own_conj [OF table_own other_view [OF assms]])

lemma steady_good: "calm fee steps env \<Longrightarrow> steady env (good fee sid)"
  by (auto simp: calm_def steady_def good_def vrely_def)

lemma inv_claim_rows: "(\<And>sw. own_writes sw J) \<Longrightarrow> inv J (claim_rows env V step users limit rows)"
  by (induction rows arbitrary: users limit) (auto simp: Let_def intro!: own own_writes.inv_moves(1))

text \<open>A step that reads the database and goes on with what it read keeps \<open>good\<close> if it does so from
  each state, where the swap is not one of the other venue.\<close>

lemma good_query:
  assumes "\<And>d. good fee sid d \<Longrightarrow> \<not> internal_row sid d \<Longrightarrow>
      hoare (\<lambda>s. st_db s = d) (g (f d)) (\<lambda>_ s. good fee sid (st_db s)) (\<lambda>s. good fee sid (st_db s))"
    and "\<And>d. inv (internal_row sid) (g (f d))"
  shows "inv (good fee sid) (bindA (query f) g)"
  unfolding inv_def
proof (rule hoare_query_bind)
  fix d assume d: "good fee sid d"
  show "hoare (\<lambda>s. st_db s = d) (g (f d)) (\<lambda>_ s. good fee sid (st_db s)) (\<lambda>s. good fee sid (st_db s))"
  proof (cases "internal_row sid d")
    case True
    from inv_at [OF assms(2) this] show ?thesis
      by (rule hoare_post) (simp_all add: internal_row_good)
  qed (rule assms(1) [OF d])
qed

lemma claim_good:
  assumes calm: "calm fee steps env" and plain: "plain_id sid" and "step = InputSent \<or> V = VenueInternal"
  shows "inv (good fee sid) (claim env V step limit)"
proof -
  note one = calm_one [OF calm]
  have "inv (good fee sid) (bindA (query scheduled_swaps) (claim_rows env V step users limit))" for users
  proof (rule good_query)
    fix d assume d: "good fee sid d" and venue: "\<not> internal_row sid d"
    then have t: "table_ok d" and vok: "vok fee (view sid d)" by (simp_all add: good_def)
    have row: "find_row sw_id (sw_id r) (db_swaps d) = Some r" if "r \<in> set (db_swaps d)" for r
      using t that find_row_distinct [of sw_id "db_swaps d" r] by (simp add: table_ok_def)
    have "sw_venue r \<noteq> V" if "r \<in> set (scheduled_swaps d)" "sw_id r = sid" "V = VenueInternal" for r
      using that venue internal_row_found [OF t, of sid] row [of r] by (auto simp: scheduled_swaps_def)
    then have "one_swap.vq sid fee (\<lambda>_. True) (claim_rows env V step users limit (scheduled_swaps d)) (\<lambda>_ _. True)"
      using t assms(3) by (intro one_swap.claim_rows_ok [OF one plain]) (auto simp: scheduled_swaps_def table_ok_def)
    from hoare_and [OF inv_at [OF inv_claim_rows [OF table_own] t] one_swap.vqD [OF one this TrueI vok]]
    show "hoare (\<lambda>s. st_db s = d) (claim_rows env V step users limit (scheduled_swaps d))
        (\<lambda>_ s. good fee sid (st_db s)) (\<lambda>s. good fee sid (st_db s))"
      unfolding good_def .
  qed (rule inv_claim_rows [OF internal_own])
  then show ?thesis
    unfolding claim_def by (auto intro: inv_bind [OF inv_simple(3)] inv_simple)
qed

lemma swaps_at_read:
  assumes "table_ok d"
  shows "read_at steps (swaps_at steps n d) d"
proof -
  have "set (swaps_at steps n d) \<subseteq> {r \<in> set (db_swaps d). at_steps steps r}"
    unfolding swaps_at_def using set_sql_limit by (fastforce simp: at_steps_def)
  moreover have "distinct (map sw_id (sort_key sw_created (filter P (db_swaps d))))" for P
    using assms by (simp add: table_ok_def distinct_map inj_on_def)
  then have "distinct (map sw_id (swaps_at steps n d))"
    unfolding swaps_at_def sql_limit_def by (simp add: take_map [symmetric])
  ultimately show ?thesis by (auto simp: read_at_def)
qed

lemma good_table: "good fee sid d \<Longrightarrow> table_ok d"
  by (simp add: good_def)

lemma stage_good:
  assumes "calm fee steps env" and "plain_id sid" and h: "handler_ok env fee steps h"
  shows "inv (good fee sid) (bindA (query (swaps_at steps n)) (\<lambda>swaps. handle_each swaps h))"
    and "inv (good fee sid) (bindA (query (swaps_at steps n)) (\<lambda>swaps.
      bindA (on_chain env f c swaps) (\<lambda>here. handle_each (take k here) h)))"
  by (intro good_query handled [OF assms] inv_handle_some [OF h steady_internal [OF assms(1)] internal_own]
      swaps_at_read good_table; assumption)+



section \<open>The internal stage\<close>

lemma inv_bind_returns:
  assumes "inv J m" and "\<And>s x s'. m s = (Inr x, s') \<Longrightarrow> inv J (f x)"
  shows "inv J (bindA m f)"
  using assms by (fastforce simp: inv_def hoare_def bindA_def split: prod.splits sum.splits)

lemma simulate_subset:
  "simulate_inputs env swaps s = (Inr cs, s') \<Longrightarrow> set cs \<subseteq> set swaps"
  by (induction swaps arbitrary: s cs)
    (fastforce simp: ret_def bindA_def split: prod.splits sum.splits if_splits)+

lemma price_each_swaps:
  "price_each env swaps s = (Inr ps, s') \<Longrightarrow> map fst ps = swaps"
  by (induction swaps arbitrary: s ps)
    (fastforce simp: ret_def bindA_def split: prod.splits sum.splits)+

lemma price_swaps_inv:
  assumes "steady env J" and "\<forall>sw\<in>set swaps. own_writes sw J"
  shows "inv J (price_swaps env swaps)"
  unfolding price_swaps_def
proof (intro inv_bind_returns simulate_inv [OF assms] inv_pricing [OF assms(1)] fill_inv [OF assms(1)])
  fix s cs s' s2 ps s3
  assume "simulate_inputs env swaps s = (Inr cs, s')" and "price_each env cs s2 = (Inr ps, s3)"
  then have "fst ` set ps \<subseteq> set swaps"
    using simulate_subset price_each_swaps by (metis list.set_map)
  with assms(2) show "\<forall>x\<in>set ps. own_writes (fst x) J" by blast
qed

lemma pricing_good:
  assumes calm: "calm fee steps env" and plain: "plain_id sid"
  shows "inv (good fee sid) (bindA (query (swaps_at [InternalSwapPricing] n)) (price_swaps env))"
proof (rule good_query)
  fix d assume d: "good fee sid d" and venue: "\<not> internal_row sid d"
  then have t: "table_ok d" and vok: "vok fee (view sid d)" by (simp_all add: good_def)
  note swaps = swaps_at_read [OF t, of "[InternalSwapPricing]" n]
  have "sw_id r \<noteq> sid" if r: "r \<in> set (swaps_at [InternalSwapPricing] n d)" for r
  proof
    assume id: "sw_id r = sid"
    from r swaps have "r \<in> set (db_swaps d)" and at: "at_steps [InternalSwapPricing] r"
      by (auto simp: read_at_def)
    then have row: "find_row sw_id sid (db_swaps d) = Some r"
      using t id find_row_distinct [of sw_id "db_swaps d" r] by (simp add: table_ok_def)
    then have "sw_venue r = VenueLifi"
      using venue internal_row_found [OF t, of sid] by (cases "sw_venue r") auto
    with row vok have "ok_at fee r (vw_tx (view sid d)) (vw_lane (view sid d))" by (simp add: vok_def)
    from at_places(7) [OF this at] show False by simp
  qed
  then have "\<forall>sw\<in>set (swaps_at [InternalSwapPricing] n d). own_writes sw (good fee sid)"
    using swaps t good_own [OF plain] by (auto simp: read_at_def table_ok_def)
  from inv_at [OF price_swaps_inv [OF steady_good [OF calm] this] d]
  show "hoare (\<lambda>s. st_db s = d) (price_swaps env (swaps_at [InternalSwapPricing] n d))
      (\<lambda>_ s. good fee sid (st_db s)) (\<lambda>s. good fee sid (st_db s))" .
qed (intro price_swaps_inv steady_internal [OF calm] ballI internal_own)

section \<open>The service\<close>

lemma calm_sub: "calm fee steps env \<Longrightarrow> set steps' \<subseteq> set steps \<Longrightarrow> calm fee steps' env"
  unfolding calm_def at_steps_def by blast

lemma round_good:
  assumes calm: "calm fee (steps_of st) env" and plain: "plain_id sid"
  shows "inv (good fee sid) (round_of st env)"
proof (cases st)
  case InternalStage
  then have sent: "calm fee [InternalSwapSent] env"
    using calm_sub [OF calm, of "[InternalSwapSent]"] by (simp add: steps_of_def)
  have assoc: "bindA m (\<lambda>x. seqA (f x) n) = seqA (bindA m f) n" for m :: "swap list sact" and f and n :: "unit sact"
    by (rule ext) (simp add: seqA_def bindA_def split: prod.split sum.split)
  show ?thesis
    unfolding InternalStage round_of_def stage.case internal_swap_round_def assoc
    by (intro inv_seq [OF stage_good(1) [OF sent plain settle_internal_handler]]
        inv_seq [OF inv_bind [OF inv_simple(3) claim_good [OF calm plain disjI2 [OF refl]]] pricing_good [OF calm plain]])
next
  case InputStage
  then have calm': "calm fee [InputSent] env" using calm by (simp add: steps_of_def)
  show ?thesis
    unfolding InputStage round_of_def stage.case input_round_def
    by (intro inv_seq inv_if inv_simple claim_good [OF calm' plain] stage_good(1) [OF calm' plain settle_input_handler]) simp
qed (use calm stage_good(1) [OF _ plain settle_withdraw_handler] stage_good(1) [OF _ plain credit_handler]
    stage_good(1) [OF _ plain refund_handler] stage_good(2) [OF _ plain execute_handler]
    stage_good(2) [OF _ plain deposit_output_handler]
  in \<open>auto simp: round_of_def steps_of_def lifi_withdraw_round_def credit_round_def refund_round_def
    execute_round_def deposit_round_def\<close>)

definition calm_rounds :: "int \<Rightarrow> (stage \<times> 'e quote_env_scheme) list \<Rightarrow> bool" where
  "calm_rounds fee rounds \<longleftrightarrow> (\<forall>(st, env) \<in> set rounds. calm fee (steps_of st) env)"

lemma service_good:
  assumes "calm_rounds fee rounds" and "plain_id sid"
  shows "inv (good fee sid) (service rounds)"
  using assms(1)
proof (induction rounds)
  case (Cons a rounds)
  obtain st env where a: "a = (st, env)" by (cases a)
  have "calm fee (steps_of st) env" "calm_rounds fee rounds"
    using Cons.prems by (auto simp: a calm_rounds_def)
  with Cons.IH round_good [OF _ assms(2)] steady_good show ?case
    unfolding a service.simps by (intro inv_seq inv_catch inv_simple inv_await) auto
qed (simp add: inv_simple)

end
