(* ===== verification/SwapOutcomes.thy ===== *)
theory SwapOutcomes
  imports LifiRounds
begin

text \<open>
  What a run of the swap service gives a user of the LiFi venue, whatever the services answered and
  in whatever order the rounds ran. The environments are those of the rely condition (\<open>calm\<close>); the
  last section shows that senders which mine and land what is queued are one.
\<close>

section \<open>Runs\<close>

definition sound_start :: "int \<Rightarrow> db \<Rightarrow> bool" where
  "sound_start fee d \<longleftrightarrow> (\<forall>sid. plain_id sid \<longrightarrow> good fee sid d)"

lemma sound_table: "sound_start fee d \<Longrightarrow> table_ok d"
  using spec [of "\<lambda>sid. plain_id sid \<longrightarrow> good fee sid d" "[]"] by (simp add: sound_start_def good_def plain_id_def)

lemma invD: "inv J m \<Longrightarrow> J (st_db s) \<Longrightarrow> m s = (r, s') \<Longrightarrow> J (st_db s')"
  by (cases r) (auto simp: inv_def dest: hoareD)

lemma service_sound:
  assumes "calm_rounds fee rounds" and "sound_start fee (st_db s)" and "service rounds s = (r, s')"
  shows "sound_start fee (st_db s')"
  using invD [OF service_good [OF assms(1)] _ assms(3)] assms(2) by (simp add: sound_start_def)

text \<open>A transaction that did nothing: it was reverted, or it failed before anything was sent.\<close>

definition never_landed :: "evm_tx \<Rightarrow> bool" where
  "never_landed tx \<longleftrightarrow> tx_status tx = EvmReverted \<or> tx_status tx = EvmFailed \<and> tx_attempts tx = []"

lemma unspent_never_landed: "unspent T k \<longleftrightarrow> (\<forall>tx. T k = Some tx \<longrightarrow> never_landed tx)"
  by (simp add: unspent_def unsent_or_reverted_def never_landed_def)

text \<open>The evidence of a swap after the run.\<close>

lemma service_evidence:
  assumes run: "calm_rounds fee rounds" "sound_start fee (st_db s)" "service rounds s = (r, s')"
    and sw: "sw \<in> set (db_swaps (st_db s'))" "sw_venue sw = VenueLifi"
  shows "ok_at fee sw (\<lambda>k. find_tx sw k (st_db s')) (\<lambda>k. find_lane sw k (st_db s'))"
proof -
  note sound = service_sound [OF run]
  have t: "table_ok (st_db s')" by (rule sound_table [OF sound])
  then have "plain_id (sw_id sw)" and row: "find_row sw_id (sw_id sw) (db_swaps (st_db s')) = Some sw"
    using sw(1) find_row_distinct [of sw_id "db_swaps (st_db s')" sw] by (auto simp: table_ok_def)
  with sound have "vok fee (view (sw_id sw) (st_db s'))" by (simp add: sound_start_def good_def)
  with row sw(2) show ?thesis
    by (simp add: vok_def view_def find_tx_def [abs_def] find_lane_def [abs_def])
qed

section \<open>Payments\<close>

text \<open>A lane row that pays \<open>amount\<close> of \<open>token\<close> to \<open>user\<close>.\<close>

definition pays :: "lane_row \<Rightarrow> string \<Rightarrow> string \<Rightarrow> int \<Rightarrow> bool" where
  "pays r user token amount \<longleftrightarrow>
     ln_kind r = KindTransfer \<and> ln_payload r = \<lparr>p_to = Some user, p_token = token, p_amount = amount, p_input = None\<rparr>"

definition is_mined :: "swap \<Rightarrow> string \<Rightarrow> db \<Rightarrow> bool" where
  "is_mined sw kind d \<longleftrightarrow> (\<exists>tx. find_tx sw kind d = Some tx \<and> tx_status tx = EvmMined)"

lemma credit_evidence:
  assumes "ok_at fee sw T L" and "L CREDIT = Some c"
  shows "L REFUND_PAYOUT = None" "crediting fee sw L" "swapped sw T L" "mined T DEPOSIT"
  using assms by (auto simp: ok_at_def only_def split: swap_status.splits option.splits swap_step.splits)

lemma payout_evidence:
  assumes "ok_at fee sw T L" and "L REFUND_PAYOUT = Some c"
  shows "L CREDIT = None" "refunding sw L" "returned T L"
  using assms by (auto simp: ok_at_def only_def split: swap_status.splits option.splits swap_step.splits)



section \<open>Senders that settle what is queued\<close>

definition mine_tx :: "evm_tx \<Rightarrow> evm_tx" where
  "mine_tx tx = (if tx_status tx = EvmQueued
     then tx\<lparr>tx_status := EvmMined, tx_hash := Some ''0xh'', tx_logs := Some ''[]''\<rparr> else tx)"

definition land_row :: "lane_row \<Rightarrow> lane_row" where
  "land_row r = (if settled_lane r then r else r\<lparr>ln_status := LaneLanded\<rparr>)"

definition settle_all :: "db \<Rightarrow> db" where
  "settle_all d = d\<lparr>db_evm := map mine_tx (db_evm d), db_lanes := map land_row (db_lanes d)\<rparr>"

text \<open>More settled rows keep the evidence of a swap whose row did not change.\<close>

lemma relies_facts:
  assumes T: "\<And>k. tx_rely (T k) (T' k)" and L: "\<And>k. lane_rely (L k) (L' k)"
  shows "only T ks \<Longrightarrow> only T' ks" "only L ls \<Longrightarrow> only L' ls" "mined T k \<Longrightarrow> mined T' k"
    "unspent T k \<Longrightarrow> unspent T' k" "lane_at L k LaneLanded \<Longrightarrow> lane_at L' k LaneLanded"
    "lane_at L k LaneFailed \<Longrightarrow> lane_at L' k LaneFailed" "paying L k u t n \<Longrightarrow> paying L' k u t n"
    "T k = None \<longleftrightarrow> T' k = None" "L k = None \<longleftrightarrow> L' k = None"
proof -
  have t: "T k = None \<longleftrightarrow> T' k = None" "T k = Some tx \<Longrightarrow> tx_status tx \<noteq> EvmQueued \<Longrightarrow> T' k = Some tx" for k tx
    using T [of k] by (auto simp: tx_rely_def split: option.splits)
  have l: "L k = None \<longleftrightarrow> L' k = None" "L k = Some r \<Longrightarrow> settled_lane r \<Longrightarrow> L' k = Some r"
      "L' k = Some r' \<Longrightarrow> \<exists>r. L k = Some r \<and> ln_kind r' = ln_kind r \<and> ln_payload r' = ln_payload r" for k r r'
    using L [of k] by (auto simp: lane_rely_def split: option.splits)
  show "only T ks \<Longrightarrow> only T' ks" "only L ls \<Longrightarrow> only L' ls"
    using t(1) l(1) by (simp_all add: only_def)
  show "mined T k \<Longrightarrow> mined T' k"
    unfolding mined_def using t(2) [of k] by force
  show "unspent T k \<Longrightarrow> unspent T' k"
    using t [of k] by (cases "T k") (auto simp: unspent_def unsent_or_reverted_def)
  show "lane_at L k LaneLanded \<Longrightarrow> lane_at L' k LaneLanded" "lane_at L k LaneFailed \<Longrightarrow> lane_at L' k LaneFailed"
    unfolding lane_at_def using l(2) [of k] by (auto simp: settled_lane_def)
  show "paying L k u t n \<Longrightarrow> paying L' k u t n"
    unfolding paying_def using l(3) [of k] by force
  show "T k = None \<longleftrightarrow> T' k = None" "L k = None \<longleftrightarrow> L' k = None"
    by (rule t(1), rule l(1))
qed

lemma vok_mono:
  assumes row: "vw_row v' = vw_row v"
    and T: "\<And>k. tx_rely (vw_tx v k) (vw_tx v' k)" and L: "\<And>k. lane_rely (vw_lane v k) (vw_lane v' k)"
    and vok: "vok fee v"
  shows "vok fee v'"
proof (cases "vw_row v")
  case None
  with vok row relies_facts(1,2) [OF T L] show ?thesis by (simp add: vok_def)
next
  case (Some sw)
  note mono = relies_facts [where T = "vw_tx v" and T' = "vw_tx v'" and L = "vw_lane v" and L' = "vw_lane v'", OF T L]
  have "funded (vw_tx v) (vw_lane v) \<Longrightarrow> funded (vw_tx v') (vw_lane v')"
    using mono(3,5) by (simp add: funded_def)
  moreover have "swapped sw (vw_tx v) (vw_lane v) \<Longrightarrow> swapped sw (vw_tx v') (vw_lane v')"
    using mono(1,3,5) by (simp add: swapped_def funded_def)
  moreover have "returned (vw_tx v) (vw_lane v) \<Longrightarrow> returned (vw_tx v') (vw_lane v')"
    using mono(1,3-6) unfolding returned_def by blast
  moreover have "crediting fee sw (vw_lane v) \<Longrightarrow> crediting fee sw (vw_lane v')"
    "refunding sw (vw_lane v) \<Longrightarrow> refunding sw (vw_lane v')"
    using mono(7) by (simp_all add: crediting_def refunding_def)
  ultimately have "ok_at fee sw (vw_tx v) (vw_lane v) \<Longrightarrow> ok_at fee sw (vw_tx v') (vw_lane v')"
    using mono(1-6) mono(8,9) unfolding ok_at_def
    by (simp split: swap_status.splits option.splits swap_step.splits)
  with vok row Some show ?thesis by (simp add: vok_def)
qed


lemma settle_all_view:
  "vrely fee (view sid d) (view sid (settle_all d))"
proof -
  have tx: "find_evm_tx x (map mine_tx t) = map_option mine_tx (find_evm_tx x t)" for x t
    by (induction t) (auto simp: find_evm_tx_def mine_tx_def)
  have lane: "find_privana_tx x (map land_row t) = map_option land_row (find_privana_tx x t)" for x t
    by (induction t) (auto simp: find_privana_tx_def land_row_def)
  have T: "tx_rely (vw_tx (view sid d) k) (vw_tx (view sid (settle_all d)) k)" for k
    by (auto simp: settle_all_def tx tx_rely_def mine_tx_def split: option.split)
  have L: "lane_rely (vw_lane (view sid d) k) (vw_lane (view sid (settle_all d)) k)" for k
    by (auto simp: settle_all_def lane lane_rely_def land_row_def split: option.split)
  have row: "vw_row (view sid (settle_all d)) = vw_row (view sid d)"
    by (simp add: settle_all_def)
  show ?thesis
    unfolding vrely_def using T L row vok_mono [OF row T L] by auto
qed

text \<open>Such senders, with any replies of the services.\<close>

definition settling :: "'e quote_env_scheme \<Rightarrow> 'e quote_env_scheme" where
  "settling env = env\<lparr>sv_other := (\<lambda>n. settle_all)\<rparr>"

lemma settling_calm:
  "calm (se_fee_bps (sv_settings env)) steps (settling env)"
  unfolding calm_def
  by (auto simp: settling_def steady_def settle_all_view table_ok_def settle_all_def
      simp del: view_simps intro: settle_all_view [unfolded settle_all_def])

interpretation settled: one_swap "settling env" sid "se_fee_bps (sv_settings env)" for env sid
  by (rule calm_one [OF settling_calm [where steps = "[]"]])

lemma settling_rounds:
  "\<forall>st env. (st, env) \<in> set rounds \<longrightarrow> (\<exists>e. env = settling e \<and> se_fee_bps (sv_settings e) = fee) \<Longrightarrow>
     calm_rounds fee rounds"
  using settling_calm by (fastforce simp: calm_rounds_def)

section \<open>Two runs\<close>

definition run_env :: quote_env where
  "run_env = settling demo_env"

definition order :: swap where
  "order = (new_swap ''s1'' ''0xu'' 95)\<lparr>sw_quote := ''q1'', sw_from_token := ''0xA'', sw_to_token := ''0xB''\<rparr>"

definition ordered :: sst where
  "ordered = \<lparr>st_db = \<lparr>db_quotes = [demo_quote], db_swaps = [order], db_evm = [], db_lanes = [], db_earns = []\<rparr>,
     st_tick = 0, st_last_cleanup = 0\<rparr>"

definition rounds :: "stage list \<Rightarrow> quote_env \<Rightarrow> (stage \<times> quote_env) list" where
  "rounds stages env = map (\<lambda>st. (st, env)) stages"

definition full_run :: "(stage \<times> quote_env) list" where
  "full_run = rounds [InputStage, InputStage, WithdrawStage, WithdrawStage, ExecuteStage 1, ExecuteStage 1,
     DepositStage 1, DepositStage 1, DepositStage 1, CreditStage, CreditStage] run_env"

definition row_of :: "sst \<Rightarrow> swap" where
  "row_of s = hd (db_swaps (st_db s))"

lemma run_calm:
  assumes "env = settling e" and "se_fee_bps (sv_settings e) = 50"
  shows "calm_rounds 50 (rounds stages env)"
  by (rule settling_rounds) (use assms in \<open>auto simp: rounds_def\<close>)

lemma ordered_sound: "sound_start fee (st_db ordered)"
  by (simp add: sound_start_def good_def table_ok_def ordered_def order_def new_swap_def plain_id_def vok_def
      ok_places view_def only_def find_evm_tx_def find_privana_tx_def)

lemma row_of_in: "length (db_swaps (st_db s)) = 1 \<Longrightarrow> row_of s \<in> set (db_swaps (st_db s))"
  by (cases "db_swaps (st_db s)") (auto simp: row_of_def)


text \<open>A run in which LiFi answers with a transaction for another chain.\<close>

definition wrong_chain :: quote_env where
  "wrong_chain = settling (demo_env\<lparr>lx_quote := (\<lambda>_ q. Inr \<lparr>xq_to_amount = 995, xq_min = 990, xq_approval = ''0xR'',
     xq_request = \<lparr>rq_chain = Some 2, rq_to = ''0xD'', rq_gas = Inr 9, rq_data = ''0x'', rq_value = Inr 0\<rparr>\<rparr>)\<rparr>)"

definition refund_run :: "(stage \<times> quote_env) list" where
  "refund_run = rounds [InputStage, InputStage, WithdrawStage, WithdrawStage, ExecuteStage 1, RefundStage,
     RefundStage, RefundStage, RefundStage, RefundStage] wrong_chain"


end
