(* ===== verification/EarnRows.thy ===== *)
theory EarnRows
  imports SwapStage Complex_Main
begin

text \<open>
  The rows of earn operations and their timeline (\<open>services/earn/progress.py\<close> and the row helpers
  of \<open>services/earn/vault_service.py\<close>), and the state an earn action runs on: the database, what
  \<open>VaultService\<close> keeps in memory (the funds held back for a bridge, the pools being reclaimed for,
  the locks of the pools, the caches), the operation the worker is executing, and, for the theorems, the calls
  the running task sent to the contract and the strategies, newest last, and the operations it
  submitted.
\<close>

section \<open>The state\<close>

datatype vault_call =
    CallDeposit "nat list" string int nat "nat list"
  | CallWithdraw "nat list" int nat "nat list" nat "nat list"
  | CallSetSeeded "nat list" int
  | CallSync "nat list" int
  | RouteIn string int
  | Reclaim string int

record vst =
  vs_db :: db
  vs_tick :: nat
  vs_held :: "(string \<times> int) list"
  vs_reclaiming :: "string list"
  vs_locks :: "string list"
  vs_seed :: "(nat list \<times> rat \<times> int) list"
  vs_healthy :: "(string \<times> rat) list"
  vs_current :: "string option"
  vs_calls :: "vault_call list"
  vs_submitted :: "string list"

type_synonym 'a vact = "(vst, exc, 'a) act"

text \<open>What every earn action uses of the outside: the time, in whole seconds and as a clock's
  reading, and what other tasks write while it waits.\<close>

record earn_env =
  ee_now :: "nat \<Rightarrow> int"
  ee_clock :: "nat \<Rightarrow> rat"
  ee_other :: "nat \<Rightarrow> vst \<Rightarrow> vst"
  ee_sanitize :: "string \<Rightarrow> string"
  ee_uuid :: "nat \<Rightarrow> string"

definition vask :: "(nat \<Rightarrow> exc + 'a) \<Rightarrow> 'a vact" where
  "vask f = (\<lambda>s. (f (vs_tick s), s\<lparr>vs_tick := Suc (vs_tick s)\<rparr>))"

definition vpause :: "'e earn_env_scheme \<Rightarrow> unit vact" where
  "vpause env = (\<lambda>s. (Inr (), (ee_other env (vs_tick s) s)\<lparr>vs_tick := Suc (vs_tick s)\<rparr>))"

text \<open>Waiting for an answer, and running blocking code in a thread: other tasks run meanwhile.\<close>

definition in_thread :: "'e earn_env_scheme \<Rightarrow> 'a vact \<Rightarrow> 'a vact" where
  "in_thread env m = bindA (tryA m) (\<lambda>r. seqA (vpause env) (liftE r))"

definition vawait :: "'e earn_env_scheme \<Rightarrow> (nat \<Rightarrow> exc + 'a) \<Rightarrow> 'a vact" where
  "vawait env f = in_thread env (vask f)"

definition vnow :: "'e earn_env_scheme \<Rightarrow> int vact" where
  "vnow env = vask (\<lambda>n. Inr (ee_now env n))"

definition vclock :: "'e earn_env_scheme \<Rightarrow> rat vact" where
  "vclock env = vask (\<lambda>n. Inr (ee_clock env n))"

definition vquery :: "(db \<Rightarrow> 'a) \<Rightarrow> 'a vact" where
  "vquery f = getA (f \<circ> vs_db)"

definition on_earns :: "(earn_row list \<Rightarrow> earn_row list) \<Rightarrow> unit vact" where
  "on_earns f = modifyA (\<lambda>s. s\<lparr>vs_db := (vs_db s)\<lparr>db_earns := f (db_earns (vs_db s))\<rparr>\<rparr>)"

section \<open>Pool ids\<close>

definition pool_key :: "string \<Rightarrow> string" where
  "pool_key pool_id_hex = ''0x'' @ removeprefix ''0x'' (lower pool_id_hex)"

definition pool_spellings :: "string \<Rightarrow> string list" where
  "pool_spellings pool_id_hex = [pool_key pool_id_hex, drop 2 (pool_key pool_id_hex)]"

definition of_pool :: "string \<Rightarrow> earn_row \<Rightarrow> bool" where
  "of_pool pool_id_hex r \<longleftrightarrow> lower (ea_pool r) \<in> set (pool_spellings pool_id_hex)"

section \<open>The timeline\<close>

definition RECORDING :: string where "RECORDING = ''recording''"
definition PAYING_OUT :: string where "PAYING_OUT = ''paying_out''"
definition AWAITING :: string where "AWAITING = ''awaiting_liquidity''"
definition FINALITY :: string where "FINALITY = ''finality''"
definition STATUS :: string where "STATUS = ''status''"

definition earn_status_text :: "earn_status \<Rightarrow> string" where
  "earn_status_text s =
     (case s of
        EarnScheduled \<Rightarrow> ''scheduled'' | EarnExecuting \<Rightarrow> ''executing'' | EarnPending \<Rightarrow> ''pending''
      | EarnCompleted \<Rightarrow> ''completed'' | EarnFailed \<Rightarrow> ''failed'' | EarnUndeployed \<Rightarrow> ''undeployed''
      | EarnAwaitingLiquidity \<Rightarrow> ''awaiting_liquidity'')"

text \<open>\<open>_append\<close>: a repeated stage only refreshes the detail of its entry. \<open>None\<close> when nothing is
  written.\<close>

definition append_entry ::
  "string \<Rightarrow> progress_detail option \<Rightarrow> int \<Rightarrow> progress_entry list \<Rightarrow> progress_entry list option" where
  "append_entry stage detail now entries =
     (if entries \<noteq> [] \<and> pe_stage (last entries) = stage \<and> stage \<noteq> STATUS
      then (if detail = None \<or> pe_detail (last entries) = detail then None
            else Some (butlast entries @ [(last entries)\<lparr>pe_detail := detail\<rparr>]))
      else Some (entries @ [\<lparr>pe_stage = stage, pe_at = now, pe_detail = detail\<rparr>]))"

definition progress_append :: "'e earn_env_scheme \<Rightarrow> string \<Rightarrow> string \<Rightarrow> progress_detail option \<Rightarrow> bool vact" where
  "progress_append env op_id stage detail =
     bindA (vquery (\<lambda>d. find_row ea_id op_id (db_earns d))) (\<lambda>found.
     case found of
       None \<Rightarrow> ret False
     | Some row \<Rightarrow>
         bindA (vnow env) (\<lambda>now.
         case append_entry stage detail now (ea_history row) of
           None \<Rightarrow> ret False
         | Some entries \<Rightarrow>
             seqA (on_earns (update_where (\<lambda>r. ea_id r = op_id) (\<lambda>r. r\<lparr>ea_history := entries\<rparr>))) (ret True)))"

definition progress_update :: "'e earn_env_scheme \<Rightarrow> string \<Rightarrow> progress_detail option \<Rightarrow> unit vact" where
  "progress_update env stage detail =
     bindA (getA vs_current) (\<lambda>cur.
     case cur of
       None \<Rightarrow> ret ()
     | Some op_id \<Rightarrow> seqA (progress_append env op_id stage detail) (ret ()))"

definition record_status :: "'e earn_env_scheme \<Rightarrow> string \<Rightarrow> earn_status option \<Rightarrow> earn_status \<Rightarrow> unit vact" where
  "record_status env op_id old new =
     seqA (progress_append env op_id STATUS
            (Some (StatusChange (map_option earn_status_text old) (earn_status_text new))))
       (ret ())"

text \<open>\<open>with tracking(op_id)\<close>\<close>

definition tracking :: "string \<Rightarrow> 'a vact \<Rightarrow> 'a vact" where
  "tracking op_id m =
     bindA (getA vs_current) (\<lambda>before.
     seqA (modifyA (\<lambda>s. s\<lparr>vs_current := Some op_id\<rparr>))
     (bindA (tryA m) (\<lambda>r. seqA (modifyA (\<lambda>s. s\<lparr>vs_current := before\<rparr>)) (liftE r))))"

section \<open>Writing rows\<close>

text \<open>\<open>_update_transaction\<close>: \<open>updated_at\<close> defaults to the time; a change of the status goes into the
  timeline.\<close>

definition update_transaction ::
  "'e earn_env_scheme \<Rightarrow> string \<Rightarrow> (earn_row \<Rightarrow> earn_row) \<Rightarrow> earn_status option \<Rightarrow> int option \<Rightarrow> unit vact" where
  "update_transaction env op_id cols status updated =
     bindA (vquery (\<lambda>d. map_option ea_status (find_row ea_id op_id (db_earns d)))) (\<lambda>old.
     bindA (vnow env) (\<lambda>now.
     seqA (on_earns (update_where (\<lambda>r. ea_id r = op_id)
        (\<lambda>r. (cols r)\<lparr>ea_status := (case status of None \<Rightarrow> ea_status r | Some x \<Rightarrow> x),
                       ea_updated := (case updated of None \<Rightarrow> now | Some t \<Rightarrow> t)\<rparr>)))
     (case status of
        None \<Rightarrow> ret ()
      | Some x \<Rightarrow> if old = Some x then ret () else record_status env op_id old x)))"

text \<open>Moving a row on if it still has the status it was read with.\<close>

definition swap_status_row ::
  "'e earn_env_scheme \<Rightarrow> string \<Rightarrow> earn_status \<Rightarrow> earn_status \<Rightarrow> (int \<Rightarrow> earn_row \<Rightarrow> earn_row) \<Rightarrow> bool vact" where
  "swap_status_row env op_id from to cols =
     bindA (vnow env) (\<lambda>now.
     bindA (vquery (\<lambda>d. row_count (\<lambda>r. ea_id r = op_id \<and> ea_status r = from) (db_earns d) \<noteq> 0)) (\<lambda>changed.
     seqA (on_earns (update_where (\<lambda>r. ea_id r = op_id \<and> ea_status r = from)
        (\<lambda>r. (cols now r)\<lparr>ea_status := to, ea_updated := now\<rparr>)))
     (if changed then seqA (record_status env op_id (Some from) to) (ret True) else ret False)))"

definition record_transaction ::
  "'e earn_env_scheme \<Rightarrow> earn_op \<Rightarrow> string \<Rightarrow> string \<Rightarrow> string \<Rightarrow> int \<Rightarrow> string \<Rightarrow> nat \<Rightarrow> string
   \<Rightarrow> string option \<Rightarrow> string option \<Rightarrow> string vact" where
  "record_transaction env op pool_id_hex user_address token_id amount signer nonce signature consent existing_id =
     (case existing_id of
        Some op_id \<Rightarrow>
          seqA (update_transaction env op_id
             (\<lambda>r. r\<lparr>ea_token := token_id, ea_signer := lower signer, ea_nonce := nonce, ea_signature := signature,
                    ea_consent := map_option lower (case consent of Some [] \<Rightarrow> None | c \<Rightarrow> c)\<rparr>)
             (Some EarnPending) None)
          (ret op_id)
      | None \<Rightarrow>
          bindA (vask (\<lambda>n. Inr (ee_uuid env n))) (\<lambda>op_id.
          bindA (vnow env) (\<lambda>now.
          seqA (on_earns (\<lambda>t. t @
             [\<lparr>ea_id = op_id, ea_op = op, ea_pool = pool_id_hex, ea_user = lower user_address, ea_token = token_id,
               ea_amount = amount, ea_signer = lower signer, ea_nonce = nonce, ea_signature = signature,
               ea_status = EarnPending, ea_tx_hash = None, ea_error = None, ea_created = now, ea_updated = now,
               ea_consent = map_option lower (case consent of Some [] \<Rightarrow> None | c \<Rightarrow> c), ea_shares = None,
               ea_rate = None, ea_settled = None, ea_claimed = None, ea_input_nonce = None, ea_input_sig = None,
               ea_history = []\<rparr>]))
          (ret op_id))))"

text \<open>What the rows of a pool say.\<close>

definition unresolved :: "string \<Rightarrow> db \<Rightarrow> bool" where
  "unresolved pool_id_hex d \<longleftrightarrow> (\<exists>r\<in>set (db_earns d). of_pool pool_id_hex r \<and> ea_status r = EarnPending)"

definition waiting_status :: "earn_status \<Rightarrow> bool" where
  "waiting_status s \<longleftrightarrow> s = EarnScheduled \<or> s = EarnExecuting \<or> s = EarnAwaitingLiquidity"

definition waiting_withdrawals :: "string \<Rightarrow> db \<Rightarrow> int" where
  "waiting_withdrawals pool_id_hex d =
     sum_list (map ea_amount (filter (\<lambda>r. of_pool pool_id_hex r \<and> ea_op r = OpWithdraw \<and> waiting_status (ea_status r))
       (db_earns d)))"

definition complete_undeployed :: "string \<Rightarrow> string list option \<Rightarrow> unit vact" where
  "complete_undeployed pool_id_hex ids =
     (if ids = Some [] then ret ()
      else on_earns (update_where
        (\<lambda>r. of_pool pool_id_hex r \<and> ea_op r = OpDeposit \<and> ea_status r = EarnUndeployed
              \<and> (case ids of None \<Rightarrow> True | Some is \<Rightarrow> ea_id r \<in> set is))
        (\<lambda>r. r\<lparr>ea_status := EarnCompleted, ea_error := None\<rparr>)))"

end
