(* ===== verification/Vault.thy ===== *)
theory Vault
  imports EarnRows Validation
begin

text \<open>
  The vault service (\<open>services/earn/vault_service.py\<close>): pools, their valuation, deposits and
  withdrawals, and the netting of a pool's account against its strategy. A strategy is a record of
  functions, what it answers at each reading; so are the contract, Accounting and the Privana API.
\<close>

section \<open>The outside\<close>

text \<open>The dict of \<open>get_pool\<close>.\<close>

record pool_state =
  ps_token :: string
  ps_address :: string
  ps_shares :: int
  ps_assets :: int
  ps_active :: bool

text \<open>The interface of a yield source, \<open>BaseStrategy\<close>.\<close>

record strategy =
  st_name :: string
  st_apy :: "nat \<Rightarrow> exc + int"
  st_total :: "nat \<Rightarrow> exc + int"
  st_idle :: "nat \<Rightarrow> exc + int"
  st_in_flight :: "nat \<Rightarrow> exc + int"
  st_stranded :: "nat \<Rightarrow> exc + int"
  st_min_deploy :: "nat \<Rightarrow> exc + int"
  st_ready :: "nat \<Rightarrow> int \<Rightarrow> exc + bool"
  st_healthy :: "nat \<Rightarrow> exc + bool"
  st_deposit :: "nat \<Rightarrow> int \<Rightarrow> exc + unit"
  st_withdraw :: "nat \<Rightarrow> int \<Rightarrow> exc + unit"

record vault_settings =
  es_chain :: int
  es_accounting :: string
  es_manager :: string
  es_pool_address :: string
  es_max_pending :: int
  es_quote_ttl :: int
  es_buffer_min :: int
  es_buffer_bps :: int

record vault_env = earn_env +
  ve_settings :: vault_settings
  ve_strategy :: "string \<Rightarrow> strategy"
  ve_pool :: "nat \<Rightarrow> nat list \<Rightarrow> exc + pool_state"
  ve_pool_count :: "nat \<Rightarrow> exc + nat"
  ve_pool_id :: "nat \<Rightarrow> nat \<Rightarrow> exc + nat list"
  ve_seeded :: "nat \<Rightarrow> nat list \<Rightarrow> exc + int"
  ve_to_shares :: "nat \<Rightarrow> nat list \<Rightarrow> int \<Rightarrow> exc + int"
  ve_to_assets :: "nat \<Rightarrow> nat list \<Rightarrow> int \<Rightarrow> exc + int"
  ve_user_shares :: "nat \<Rightarrow> nat list \<Rightarrow> nat list \<Rightarrow> exc + int"
  ve_transfer_nonce :: "nat \<Rightarrow> string \<Rightarrow> exc + nat"
  ve_submit :: "nat \<Rightarrow> vault_call \<Rightarrow> exc + string"
  ve_receipt :: "nat \<Rightarrow> string \<Rightarrow> exc + bool"
  ve_execute :: "nat \<Rightarrow> vault_call \<Rightarrow> exc + unit"
  ve_sign :: "string \<Rightarrow> string \<Rightarrow> int \<Rightarrow> nat \<Rightarrow> string"
  ve_withdraw_signer :: "string \<Rightarrow> int \<Rightarrow> nat \<Rightarrow> string \<Rightarrow> exc + string"
  ve_transfer_signer :: "string \<Rightarrow> string \<Rightarrow> int \<Rightarrow> nat \<Rightarrow> string \<Rightarrow> exc + string"

definition SYNC_MAX_DROP_BPS :: int where "SYNC_MAX_DROP_BPS = 100"
definition READ_RETRY_ATTEMPTS :: nat where "READ_RETRY_ATTEMPTS = 5"
definition SEED_CACHE_TTL_SEC :: rat where "SEED_CACHE_TTL_SEC = 30"
definition HEALTH_CACHE_SEC :: rat where "HEALTH_CACHE_SEC = 30"
definition TRANSIENT_READ_ATTEMPTS :: nat where "TRANSIENT_READ_ATTEMPTS = 10"

definition ZERO_POOL :: string where
  "ZERO_POOL = ''0x0000000000000000000000000000000000000000''"

text \<open>A contract read, tried again while the node answers with a stale signed query.\<close>

definition stale_query :: "exc \<Rightarrow> bool" where
  "stale_query e \<longleftrightarrow>
     (case e of
        RpcError _ m \<Rightarrow> contains ''base block not found'' m \<or> contains ''stale nonce'' m
      | _ \<Rightarrow> False)"

fun read_retry :: "nat \<Rightarrow> (nat \<Rightarrow> exc + 'a) \<Rightarrow> 'a vact" where
  "read_retry 0 f = vask f"
| "read_retry (Suc k) f =
     bindA (tryA (vask f)) (\<lambda>r.
     case r of
       Inr x \<Rightarrow> ret x
     | Inl e \<Rightarrow> if stale_query e then read_retry k f else throw e)"

definition read_with_retry :: "(nat \<Rightarrow> exc + 'a) \<Rightarrow> 'a vact" where
  "read_with_retry f = read_retry (READ_RETRY_ATTEMPTS - 1) f"

text \<open>\<open>call_with_transient_retry\<close>: a read tried ten times unless the contract refused it; other tasks run
  during the back-off.\<close>

definition contract_error :: "exc \<Rightarrow> bool" where
  "contract_error e \<longleftrightarrow> (case e of ContractLogicError _ \<Rightarrow> True | _ \<Rightarrow> False)"

fun transient_retry :: "nat \<Rightarrow> 'e earn_env_scheme \<Rightarrow> 'a vact \<Rightarrow> 'a vact" where
  "transient_retry 0 env m = m"
| "transient_retry (Suc k) env m =
     bindA (tryA m) (\<lambda>r.
     case r of
       Inr x \<Rightarrow> ret x
     | Inl e \<Rightarrow> if contract_error e then throw e else seqA (vpause env) (transient_retry k env m))"

definition call_with_transient_retry :: "'e earn_env_scheme \<Rightarrow> 'a vact \<Rightarrow> 'a vact" where
  "call_with_transient_retry env m = transient_retry (TRANSIENT_READ_ATTEMPTS - 1) env m"

text \<open>\<open>bytes.fromhex(pool_id_hex.removeprefix("0x"))\<close>\<close>

definition pool_bytes :: "string \<Rightarrow> exc + nat list" where
  "pool_bytes pool_id_hex =
     (case fromhex (removeprefix ''0x'' pool_id_hex) of
        None \<Rightarrow> Inl (ValueError ''non-hexadecimal number found in fromhex() arg'')
      | Some bs \<Rightarrow> Inr bs)"

section \<open>Reading pools\<close>

definition get_pool :: "'e vault_env_scheme \<Rightarrow> nat list \<Rightarrow> pool_state vact" where
  "get_pool env pool_id = read_with_retry (\<lambda>n. ve_pool env n pool_id)"

text \<open>The pools from index \<open>i\<close> on.\<close>

fun pools_of :: "'e vault_env_scheme \<Rightarrow> nat \<Rightarrow> nat \<Rightarrow> (nat list \<times> pool_state) list vact" where
  "pools_of env i 0 = ret []"
| "pools_of env i (Suc k) =
     bindA (read_with_retry (\<lambda>n. ve_pool_id env n i)) (\<lambda>pool_id.
     bindA (get_pool env pool_id) (\<lambda>pool.
     bindA (pools_of env (Suc i) k) (\<lambda>rest. ret ((pool_id, pool) # rest))))"

definition list_pools :: "'e vault_env_scheme \<Rightarrow> (nat list \<times> pool_state) list vact" where
  "list_pools env = bindA (read_with_retry (ve_pool_count env)) (pools_of env 0)"

definition pool_lock :: "'e earn_env_scheme \<Rightarrow> string \<Rightarrow> 'a vact \<Rightarrow> 'a vact" where
  "pool_lock env pool_id_hex m =
     seqA (vpause env)
     (seqA (modifyA (\<lambda>s. s\<lparr>vs_locks := pool_key pool_id_hex # vs_locks s\<rparr>))
     (bindA (tryA m) (\<lambda>r.
      seqA (modifyA (\<lambda>s. s\<lparr>vs_locks := removeAll (pool_key pool_id_hex) (vs_locks s)\<rparr>)) (liftE r))))"

definition held_of :: "string \<Rightarrow> vst \<Rightarrow> int" where
  "held_of pool_id_hex s = (case map_of (vs_held s) (pool_key pool_id_hex) of None \<Rightarrow> 0 | Some h \<Rightarrow> h)"

definition moving :: "string \<Rightarrow> vst \<Rightarrow> bool" where
  "moving pool_id_hex s \<longleftrightarrow>
     map_of (vs_held s) (pool_key pool_id_hex) \<noteq> None \<or> pool_key pool_id_hex \<in> set (vs_reclaiming s)"

definition withdrawal_impossible :: "'e vault_env_scheme \<Rightarrow> string \<Rightarrow> int \<Rightarrow> bool vact" where
  "withdrawal_impossible env pool_id_hex amount =
     bindA (liftE (pool_bytes (pool_key pool_id_hex))) (\<lambda>pool_id.
     bindA (get_pool env pool_id) (\<lambda>pool. ret (amount > ps_assets pool)))"

definition payout_capacity :: "'e vault_env_scheme \<Rightarrow> string \<Rightarrow> int vact" where
  "payout_capacity env pool_id_hex =
     (let strategy = ve_strategy env pool_id_hex in
      if st_name strategy = ''manual'' then ret (2 ^ 256)
      else bindA (tryA (vawait env (st_idle strategy))) (\<lambda>read.
        case read of
          Inl _ \<Rightarrow> ret 0
        | Inr idle \<Rightarrow> bindA (getA (held_of pool_id_hex)) (\<lambda>held. ret (idle - held))))"

definition withdrawal_payable :: "'e vault_env_scheme \<Rightarrow> string \<Rightarrow> int \<Rightarrow> bool vact" where
  "withdrawal_payable env pool_id_hex amount =
     bindA (payout_capacity env pool_id_hex) (\<lambda>capacity. ret (capacity \<ge> amount))"

text \<open>Moving funds in and out of the strategy.\<close>

definition note_call :: "vault_call \<Rightarrow> unit vact" where
  "note_call c = modifyA (\<lambda>s. s\<lparr>vs_calls := vs_calls s @ [c]\<rparr>)"

definition route_to_strategy :: "'e vault_env_scheme \<Rightarrow> string \<Rightarrow> int \<Rightarrow> unit vact" where
  "route_to_strategy env pool_id_hex amount =
     (let strategy = ve_strategy env pool_id_hex in
      if st_name strategy = ''manual'' then ret ()
      else seqA (note_call (RouteIn pool_id_hex amount)) (vawait env (\<lambda>n. st_deposit strategy n amount)))"

definition reclaim_from_strategy :: "'e vault_env_scheme \<Rightarrow> string \<Rightarrow> int \<Rightarrow> unit vact" where
  "reclaim_from_strategy env pool_id_hex amount =
     (let strategy = ve_strategy env pool_id_hex in
      if st_name strategy = ''manual'' then ret ()
      else seqA (note_call (Reclaim pool_id_hex amount)) (vawait env (\<lambda>n. st_withdraw strategy n amount)))"

definition assert_pool_custody :: "'e vault_env_scheme \<Rightarrow> pool_state \<Rightarrow> exc + unit" where
  "assert_pool_custody env pool =
     (let expected = lower (es_pool_address (ve_settings env)); actual = lower (ps_address pool)
      in if expected = [] \<or> actual \<noteq> expected
         then Inl (ValueError (''Pool is not served by this deployment: its account is '' @ ps_address pool
                @ '' but this service signs for '' @ es_pool_address (ve_settings env)))
         else Inr ())"

section \<open>Valuation\<close>

text \<open>The rate shown for a pool: \<open>1.0\<close> without shares, else the quotient.\<close>

datatype shown_rate = UnitRate | Quotient int int

definition exchange_rate :: "int \<Rightarrow> int \<Rightarrow> shown_rate" where
  "exchange_rate total_assets total_shares =
     (if total_shares = 0 then UnitRate else Quotient total_assets total_shares)"

text \<open>A contract without the function, or a caller that is not its admin, reverts: no seed.\<close>

definition get_seeded_assets :: "'e vault_env_scheme \<Rightarrow> nat list \<Rightarrow> bool \<Rightarrow> int vact" where
  "get_seeded_assets env pool_id fresh =
     bindA (getA (\<lambda>s. map_of (vs_seed s) pool_id)) (\<lambda>cached.
     bindA (case cached of
        None \<Rightarrow> ret None
      | Some (stamp, value) \<Rightarrow>
          if fresh then ret None
          else bindA (vclock env) (\<lambda>now. ret (if now - stamp < SEED_CACHE_TTL_SEC then Some value else None))) (\<lambda>hit.
     case hit of
       Some value \<Rightarrow> ret value
     | None \<Rightarrow>
         bindA (tryA (read_with_retry (\<lambda>n. ve_seeded env n pool_id))) (\<lambda>read.
         bindA (case read of
            Inr value \<Rightarrow> ret value
          | Inl (ContractLogicError _) \<Rightarrow> ret 0
          | Inl e \<Rightarrow> throw e) (\<lambda>value.
         bindA (vclock env) (\<lambda>now.
         seqA (modifyA (\<lambda>s. s\<lparr>vs_seed := (pool_id, now, value) # vs_seed s\<rparr>)) (ret value))))))"

definition net_of_seed :: "int \<Rightarrow> int \<Rightarrow> int \<Rightarrow> int" where
  "net_of_seed gross seeded total_shares =
     (if seeded = 0 then gross else if total_shares = 0 then 0 else max (gross - seeded) 0)"

definition convert_to_shares :: "'e vault_env_scheme \<Rightarrow> nat list \<Rightarrow> int \<Rightarrow> int vact" where
  "convert_to_shares env pool_id assets = read_with_retry (\<lambda>n. ve_to_shares env n pool_id assets)"

definition convert_to_assets :: "'e vault_env_scheme \<Rightarrow> nat list \<Rightarrow> int \<Rightarrow> int vact" where
  "convert_to_assets env pool_id shares = read_with_retry (\<lambda>n. ve_to_assets env n pool_id shares)"

definition get_user_shares :: "'e vault_env_scheme \<Rightarrow> nat list \<Rightarrow> string \<Rightarrow> int vact" where
  "get_user_shares env pool_id token_hex =
     bindA (liftE (pool_bytes token_hex)) (\<lambda>token.
       read_with_retry (\<lambda>n. ve_user_shares env n pool_id token))"

definition strategy_total_safe :: "'e vault_env_scheme \<Rightarrow> string \<Rightarrow> int option vact" where
  "strategy_total_safe env pool_id_hex =
     (let strategy = ve_strategy env pool_id_hex in
      if st_name strategy = ''manual'' then ret None
      else bindA (tryA (vawait env (st_total strategy))) (\<lambda>r.
        ret (case r of Inl _ \<Rightarrow> None | Inr x \<Rightarrow> Some x)))"

definition strategy_idle_safe :: "'e vault_env_scheme \<Rightarrow> string \<Rightarrow> int option vact" where
  "strategy_idle_safe env pool_id_hex =
     (let strategy = ve_strategy env pool_id_hex in
      if st_name strategy = ''manual'' then ret None
      else bindA (tryA (vawait env (st_idle strategy))) (\<lambda>r.
        ret (case r of Inl _ \<Rightarrow> None | Inr x \<Rightarrow> Some x)))"

definition strategy_apy_safe :: "'e vault_env_scheme \<Rightarrow> string \<Rightarrow> int vact" where
  "strategy_apy_safe env pool_id_hex =
     bindA (tryA (vawait env (st_apy (ve_strategy env pool_id_hex)))) (\<lambda>r.
       ret (case r of Inl _ \<Rightarrow> 0 | Inr x \<Rightarrow> x))"

text \<open>What a pool's external and idle funds are, read together.\<close>

definition external_and_idle :: "'e vault_env_scheme \<Rightarrow> strategy \<Rightarrow> int vact" where
  "external_and_idle env strategy =
     bindA (vawait env (st_total strategy)) (\<lambda>external.
     bindA (vawait env (st_idle strategy)) (\<lambda>idle. ret (external + idle)))"

definition effective_total_assets :: "'e vault_env_scheme \<Rightarrow> string \<Rightarrow> int \<Rightarrow> int vact" where
  "effective_total_assets env pool_id_hex on_chain_total =
     (let strategy = ve_strategy env pool_id_hex in
      if st_name strategy = ''manual'' then ret on_chain_total
      else bindA (tryA (external_and_idle env strategy)) (\<lambda>read.
        case read of
          Inl _ \<Rightarrow> ret on_chain_total
        | Inr gross \<Rightarrow>
            if gross = 0 then ret on_chain_total
            else bindA (liftE (pool_bytes pool_id_hex)) (\<lambda>pool_id.
              bindA (tryA
                (bindA (call_with_transient_retry env (in_thread env (get_seeded_assets env pool_id False))) (\<lambda>seeded.
                 bindA (get_pool env pool_id) (\<lambda>pool. ret (seeded, ps_shares pool))))) (\<lambda>read.
              case read of
                Inl _ \<Rightarrow> ret on_chain_total
              | Inr (seeded, shares) \<Rightarrow> ret (net_of_seed gross seeded shares)))))"

definition strict_total_assets :: "'e vault_env_scheme \<Rightarrow> string \<Rightarrow> int \<Rightarrow> int option \<Rightarrow> int option vact" where
  "strict_total_assets env pool_id_hex on_chain_total total_shares =
     (let strategy = ve_strategy env pool_id_hex in
      if st_name strategy = ''manual'' then ret (Some on_chain_total)
      else bindA (getA (moving pool_id_hex)) (\<lambda>busy.
        if busy then ret None
        else bindA (tryA (external_and_idle env strategy)) (\<lambda>read.
          case read of
            Inl _ \<Rightarrow> ret None
          | Inr gross \<Rightarrow>
              if gross = 0 then ret (Some on_chain_total)
              else bindA (liftE (pool_bytes pool_id_hex)) (\<lambda>pool_id.
                bindA (tryA
                  (bindA (call_with_transient_retry env (in_thread env (get_seeded_assets env pool_id False))) (\<lambda>seeded.
                   bindA (case total_shares of
                      Some n \<Rightarrow> ret n
                    | None \<Rightarrow> bindA (get_pool env pool_id) (\<lambda>pool. ret (ps_shares pool))) (\<lambda>shares.
                   ret (seeded, shares))))) (\<lambda>read.
                case read of
                  Inl _ \<Rightarrow> ret None
                | Inr (seeded, shares) \<Rightarrow> ret (Some (net_of_seed gross seeded shares)))))))"

text \<open>A coherent pair of assets and shares: the shares did not move while the assets were read.\<close>

definition rate_snapshot :: "'e vault_env_scheme \<Rightarrow> string \<Rightarrow> (int \<times> int) option vact" where
  "rate_snapshot env pool_id_hex =
     bindA (liftE (pool_bytes pool_id_hex)) (\<lambda>pool_id.
     bindA (in_thread env (get_pool env pool_id)) (\<lambda>before.
     bindA (strict_total_assets env pool_id_hex (ps_assets before) (Some (ps_shares before))) (\<lambda>assets.
     case assets of
       None \<Rightarrow> ret None
     | Some a \<Rightarrow>
         bindA (in_thread env (get_pool env pool_id)) (\<lambda>after.
           ret (if ps_shares after \<noteq> ps_shares before then None else Some (a, ps_shares before))))))"

definition execute_call :: "'e vault_env_scheme \<Rightarrow> vault_call \<Rightarrow> unit vact" where
  "execute_call env c = seqA (note_call c) (vask (\<lambda>n. ve_execute env n c))"

definition write_total_assets :: "'e vault_env_scheme \<Rightarrow> nat list \<Rightarrow> int \<Rightarrow> int option vact" where
  "write_total_assets env pool_id target =
     bindA (tryA (in_thread env (execute_call env (CallSync pool_id target)))) (\<lambda>r.
       ret (case r of Inl _ \<Rightarrow> None | Inr _ \<Rightarrow> Some target))"

definition sync_total_assets :: "'e vault_env_scheme \<Rightarrow> string \<Rightarrow> int option vact" where
  "sync_total_assets env pool_id_hex =
     (let strategy = ve_strategy env pool_id_hex in
      bindA (liftE (pool_bytes pool_id_hex)) (\<lambda>pool_id.
      bindA (get_pool env pool_id) (\<lambda>snapshot.
      let on_chain = ps_assets snapshot in
      if st_name strategy = ''manual'' then ret (Some on_chain)
      else bindA (tryA (external_and_idle env strategy)) (\<lambda>read.
        case read of
          Inl _ \<Rightarrow> ret None
        | Inr gross \<Rightarrow>
            bindA (get_pool env pool_id) (\<lambda>pool.
            bindA (in_thread env (get_seeded_assets env pool_id True)) (\<lambda>seeded.
            if seeded > 0 \<and> ps_shares pool = 0
            then bindA
              (if gross = seeded then ret True
               else bindA (tryA (in_thread env (execute_call env (CallSetSeeded pool_id gross)))) (\<lambda>r.
                 ret (case r of Inl _ \<Rightarrow> False | Inr _ \<Rightarrow> True))) (\<lambda>rolled.
              if \<not> rolled then ret None
              else if on_chain = 0 then ret (Some 0) else write_total_assets env pool_id 0)
            else
              let backing = net_of_seed gross seeded (ps_shares pool) in
              if backing = on_chain then ret (Some on_chain)
              else if backing < on_chain \<and> (on_chain - backing) * 10000 > on_chain * SYNC_MAX_DROP_BPS
              then ret None
              else write_total_assets env pool_id backing))))))"

end
