(* ===== verification/VaultOps.thy ===== *)
theory VaultOps
  imports Vault
begin

text \<open>
  The operations of the vault service: scheduling a request, executing a deposit or a withdrawal, and
  netting a pool's account against its strategy (\<open>services/earn/vault_service.py\<close>).
\<close>

section \<open>Requests\<close>

record deposit_quote =
  dq_id :: string
  dq_pool :: string
  dq_token :: string
  dq_amount :: string
  dq_shares :: int
  dq_rate :: shown_rate
  dq_address :: string
  dq_nonce :: nat
  dq_expires :: int

text \<open>The amount of a request, which \<open>validate_amount\<close> has accepted.\<close>

definition amount_of :: "string \<Rightarrow> exc + int" where
  "amount_of amount =
     (case py_int amount of None \<Rightarrow> Inl (ValueError ''invalid literal for int()'') | Some n \<Rightarrow> Inr n)"

definition open_pool :: "pool_state \<Rightarrow> exc + unit" where
  "open_pool pool =
     (if ps_address pool = ZERO_POOL then Inl (ValueError ''Pool not found'')
      else if \<not> ps_active pool then Inl (ValueError ''Pool is not active'') else Inr ())"

definition get_deposit_quote ::
  "'e vault_env_scheme \<Rightarrow> string \<Rightarrow> string \<Rightarrow> string \<Rightarrow> deposit_quote vact" where
  "get_deposit_quote env pool_id_hex amount user_address =
     seqA (liftE (validate_address user_address ''user_address''))
     (seqA (liftE (validate_amount amount ''amount''))
     (bindA (liftE (pool_bytes pool_id_hex)) (\<lambda>pool_id.
      bindA (liftE (amount_of amount)) (\<lambda>amount_int.
      bindA (in_thread env (get_pool env pool_id)) (\<lambda>pool.
      bindA (in_thread env (convert_to_shares env pool_id amount_int)) (\<lambda>shares_estimate.
      bindA (strategy_total_safe env pool_id_hex) (\<lambda>strategy_aum.
      bindA (strategy_idle_safe env pool_id_hex) (\<lambda>idle.
      bindA (in_thread env (get_seeded_assets env pool_id False)) (\<lambda>seeded.
      bindA (vawait env (\<lambda>n. ve_transfer_nonce env n user_address)) (\<lambda>transfer_nonce.
      seqA (liftE (open_pool pool))
      (bindA (getA (moving pool_id_hex)) (\<lambda>busy.
       let gross = (case strategy_aum of None \<Rightarrow> 0 | Some a \<Rightarrow> a) + (case idle of None \<Rightarrow> 0 | Some i \<Rightarrow> i);
           effective = (if gross \<noteq> 0 \<and> \<not> busy then net_of_seed gross seeded (ps_shares pool) else ps_assets pool) in
       bindA (vnow env) (\<lambda>now.
       bindA (vask (\<lambda>n. Inr (ee_uuid env n))) (\<lambda>quote_id.
         ret \<lparr>dq_id = quote_id, dq_pool = pool_id_hex, dq_token = ps_token pool, dq_amount = amount,
              dq_shares = shares_estimate, dq_rate = exchange_rate effective (ps_shares pool),
              dq_address = ps_address pool, dq_nonce = transfer_nonce,
              dq_expires = now + es_quote_ttl (ve_settings env)\<rparr>))))))))))))))"

text \<open>\<open>_schedule\<close>\<close>

definition earn_op_text :: "earn_op \<Rightarrow> string" where
  "earn_op_text op = (case op of OpDeposit \<Rightarrow> ''deposit'' | OpWithdraw \<Rightarrow> ''withdraw'')"

definition unsettled :: "earn_status \<Rightarrow> bool" where
  "unsettled s \<longleftrightarrow> s = EarnScheduled \<or> s = EarnExecuting \<or> s = EarnPending \<or> s = EarnAwaitingLiquidity"

definition unsettled_of :: "string \<Rightarrow> db \<Rightarrow> nat" where
  "unsettled_of user d = length (filter (\<lambda>r. ea_user r = user \<and> unsettled (ea_status r)) (db_earns d))"

definition same_request :: "earn_op \<Rightarrow> string \<Rightarrow> string \<Rightarrow> nat \<Rightarrow> string \<Rightarrow> earn_row \<Rightarrow> bool" where
  "same_request op pool user nonce signature r \<longleftrightarrow>
     ea_op r = op \<and> lower (ea_pool r) = lower pool \<and> ea_user r = lower user \<and> ea_input_nonce r = Some nonce
     \<and> map_option lower (ea_input_sig r) = Some (lower signature)"

definition scheduled_earn :: "string \<Rightarrow> int \<Rightarrow> earn_op \<Rightarrow> string \<Rightarrow> string \<Rightarrow> string \<Rightarrow> int \<Rightarrow> nat \<Rightarrow> string \<Rightarrow> earn_row" where
  "scheduled_earn op_id now op pool user token_id amount nonce signature =
     \<lparr>ea_id = op_id, ea_op = op, ea_pool = pool, ea_user = lower user, ea_token = token_id, ea_amount = amount,
      ea_signer = lower user, ea_nonce = nonce, ea_signature = signature, ea_status = EarnScheduled,
      ea_tx_hash = None, ea_error = None, ea_created = now, ea_updated = now, ea_consent = None, ea_shares = None,
      ea_rate = None, ea_settled = None, ea_claimed = None, ea_input_nonce = Some nonce,
      ea_input_sig = Some signature, ea_history = []\<rparr>"

definition schedule_earn ::
  "'e vault_env_scheme \<Rightarrow> earn_op \<Rightarrow> string \<Rightarrow> string \<Rightarrow> string \<Rightarrow> nat \<Rightarrow> string \<Rightarrow> (string \<times> earn_status) vact" where
  "schedule_earn env op pool_id_hex user_address amount nonce signature =
     seqA (liftE (validate_address user_address ''user_address''))
     (seqA (liftE (validate_amount amount ''amount''))
     (seqA (liftE (validate_signature signature ''signature''))
     (let pool = pool_key pool_id_hex in
      bindA (liftE (pool_bytes pool)) (\<lambda>pool_id.
      bindA (vquery (\<lambda>d. List.find (same_request op pool user_address nonce signature) (db_earns d))) (\<lambda>existing.
      case existing of
        Some r \<Rightarrow> ret (ea_id r, ea_status r)
      | None \<Rightarrow>
        bindA (vquery (unsettled_of (lower user_address))) (\<lambda>held.
        if int held \<ge> es_max_pending (ve_settings env) then throw (PendingLimitReached held)
        else
        bindA (get_pool env pool_id) (\<lambda>p.
        seqA (liftE (open_pool p))
        (seqA (liftE (assert_pool_custody env p))
        (bindA (liftE (amount_of amount)) (\<lambda>n.
         bindA (liftE
           (if op = OpWithdraw then ve_withdraw_signer env pool n nonce signature
            else ve_transfer_signer env (ps_address p) (ps_token p) n nonce signature)) (\<lambda>recovered.
         if lower recovered \<noteq> lower user_address
         then throw (ValueError (earn_op_text op @ '' was not signed by user_address''))
         else
         seqA (if op = OpDeposit
               then bindA (vquery (assert_nonce_free user_address nonce)) (\<lambda>free. seqA (liftE free)
                 (vask (\<lambda>k. assert_nonce_unspent (ve_transfer_nonce env k) user_address nonce)))
               else ret ())
         (bindA (vask (\<lambda>k. Inr (ee_uuid env k))) (\<lambda>op_id.
          bindA (vnow env) (\<lambda>now.
          seqA (on_earns (\<lambda>t. t @ [scheduled_earn op_id now op pool user_address (ps_token p) n nonce signature]))
          (ret (op_id, EarnScheduled))))))))))))))))"

definition schedule_deposit ::
  "'e vault_env_scheme \<Rightarrow> string \<Rightarrow> string \<Rightarrow> string \<Rightarrow> nat \<Rightarrow> string \<Rightarrow> (string \<times> earn_status) vact" where
  "schedule_deposit env pool_id_hex user_address amount nonce signature =
     schedule_earn env OpDeposit pool_id_hex user_address amount nonce signature"

definition schedule_withdraw ::
  "'e vault_env_scheme \<Rightarrow> string \<Rightarrow> string \<Rightarrow> string \<Rightarrow> nat \<Rightarrow> string \<Rightarrow> (string \<times> earn_status) vact" where
  "schedule_withdraw env pool_id_hex user_address amount nonce signature =
     schedule_earn env OpWithdraw pool_id_hex user_address amount nonce signature"

section \<open>Executing\<close>

text \<open>Broadcast, record the hash, then wait for the receipt. A receipt that could not be read leaves the
  hash behind.\<close>

definition note_submission :: "string \<Rightarrow> vault_call \<Rightarrow> unit vact" where
  "note_submission op_id c =
     seqA (note_call c) (modifyA (\<lambda>s. s\<lparr>vs_submitted := vs_submitted s @ [op_id]\<rparr>))"

definition submit_and_settle :: "'e vault_env_scheme \<Rightarrow> string \<Rightarrow> vault_call \<Rightarrow> string vact" where
  "submit_and_settle env op_id c =
     bindA (in_thread env (seqA (note_submission op_id c) (vask (\<lambda>n. ve_submit env n c)))) (\<lambda>hash.
     seqA (update_transaction env op_id (\<lambda>r. r\<lparr>ea_tx_hash := Some hash\<rparr>) None None)
     (bindA (tryA (vawait env (\<lambda>n. ve_receipt env n hash))) (\<lambda>read.
      case read of
        Inl _ \<Rightarrow> throw (ReceiptUnknown hash)
      | Inr landed \<Rightarrow>
          if landed then ret hash else throw (RuntimeError (''Transaction reverted: '' @ hash)))))"

text \<open>The dict both operations return.\<close>

record earn_result =
  er_id :: string
  er_pool :: string
  er_amount :: int
  er_rate :: "shown_rate option"
  er_tx_hash :: "string option"
  er_status :: earn_status
  er_error :: "string option"

text \<open>How the contract call ended: what it returns to the caller when it did not complete.\<close>

definition receipt_unknown :: "exc \<Rightarrow> string option" where
  "receipt_unknown e = (case e of ReceiptUnknown hash \<Rightarrow> Some hash | _ \<Rightarrow> None)"

definition settle_call ::
  "'e vault_env_scheme \<Rightarrow> string \<Rightarrow> string \<Rightarrow> int \<Rightarrow> vault_call \<Rightarrow> (earn_result + string) vact" where
  "settle_call env op_id pool_id_hex amount c =
     bindA (tryA (submit_and_settle env op_id c)) (\<lambda>outcome.
     case outcome of
       Inr hash \<Rightarrow> ret (Inr hash)
     | Inl e \<Rightarrow>
         (case receipt_unknown e of
            Some hash \<Rightarrow>
              ret (Inl \<lparr>er_id = op_id, er_pool = pool_id_hex, er_amount = amount, er_rate = None,
                er_tx_hash = Some hash, er_status = EarnPending, er_error = None\<rparr>)
          | None \<Rightarrow>
              let msg = ee_sanitize env (exc_text e) in
              seqA (update_transaction env op_id (\<lambda>r. r\<lparr>ea_error := Some msg\<rparr>) (Some EarnFailed) None)
              (ret (Inl \<lparr>er_id = op_id, er_pool = pool_id_hex, er_amount = amount, er_rate = None,
                er_tx_hash = None, er_status = EarnFailed, er_error = Some msg\<rparr>))))"

text \<open>The answer of a completed operation; a read that fails only leaves the rate out.\<close>

definition completed_result :: "'e vault_env_scheme \<Rightarrow> string \<Rightarrow> string \<Rightarrow> nat list \<Rightarrow> int \<Rightarrow> string \<Rightarrow> earn_result vact" where
  "completed_result env op_id pool_id_hex pool_id amount hash =
     bindA (tryA
       (bindA (get_pool env pool_id) (\<lambda>after.
        bindA (effective_total_assets env pool_id_hex (ps_assets after)) (\<lambda>effective.
          ret (exchange_rate effective (ps_shares after)))))) (\<lambda>rate.
     ret \<lparr>er_id = op_id, er_pool = pool_id_hex, er_amount = amount,
          er_rate = (case rate of Inl _ \<Rightarrow> None | Inr x \<Rightarrow> Some x), er_tx_hash = Some hash,
          er_status = EarnCompleted, er_error = None\<rparr>)"

definition strategy_healthy :: "'e vault_env_scheme \<Rightarrow> string \<Rightarrow> bool vact" where
  "strategy_healthy env pool_id_hex =
     bindA (vclock env) (\<lambda>now.
     bindA (getA (\<lambda>s. map_of (vs_healthy s) (pool_key pool_id_hex))) (\<lambda>until.
     if now < (case until of None \<Rightarrow> 0 | Some t \<Rightarrow> t) then ret True
     else bindA (vawait env (st_healthy (ve_strategy env pool_id_hex))) (\<lambda>healthy.
       if healthy
       then bindA (vclock env) (\<lambda>again.
         seqA (modifyA (\<lambda>s. s\<lparr>vs_healthy := (pool_key pool_id_hex, again + HEALTH_CACHE_SEC) # vs_healthy s\<rparr>))
           (ret True))
       else seqA (modifyA (\<lambda>s. s\<lparr>vs_healthy := filter (\<lambda>x. fst x \<noteq> pool_key pool_id_hex) (vs_healthy s)\<rparr>))
           (ret False))))"

definition sig_bytes :: "string \<Rightarrow> exc + nat list" where
  "sig_bytes signature = pool_bytes signature"

definition deposit ::
  "'e vault_env_scheme \<Rightarrow> string \<Rightarrow> string \<Rightarrow> string \<Rightarrow> nat \<Rightarrow> string \<Rightarrow> string option \<Rightarrow> earn_result vact" where
  "deposit env pool_id_hex user_address amount nonce signature scheduled_id =
     seqA (liftE (validate_address user_address ''user_address''))
     (seqA (liftE (validate_amount amount ''amount''))
     (seqA (liftE (validate_signature signature ''signature''))
     (bindA (liftE (pool_bytes pool_id_hex)) (\<lambda>pool_id.
      bindA (get_pool env pool_id) (\<lambda>pool.
      seqA (liftE (open_pool pool))
      (seqA (liftE (assert_pool_custody env pool))
      (bindA (strategy_healthy env pool_id_hex) (\<lambda>healthy.
       if \<not> healthy
       then throw (ValueError ''Pool strategy is unhealthy; deposits are temporarily refused'')
       else
       bindA (liftE (sig_bytes signature)) (\<lambda>sig.
       bindA (liftE (amount_of amount)) (\<lambda>n.
       bindA (pool_lock env pool_id_hex
         (bindA (getA (moving pool_id_hex)) (\<lambda>busy.
          bindA (if busy then ret (Some 0) else sync_total_assets env pool_id_hex) (\<lambda>synced.
          if synced = None
          then throw (ValueError ''Pool valuation could not be confirmed; deposit refused. Retry shortly.'')
          else
          bindA (record_transaction env OpDeposit pool_id_hex user_address (ps_token pool) n user_address nonce
             signature None scheduled_id) (\<lambda>op_id.
          seqA (progress_update env RECORDING None)
          (bindA (settle_call env op_id pool_id_hex n (CallDeposit pool_id user_address n nonce sig)) (\<lambda>outcome.
           case outcome of
             Inl answer \<Rightarrow> ret (Inl answer)
           | Inr hash \<Rightarrow>
               seqA (update_transaction env op_id (\<lambda>r. r\<lparr>ea_tx_hash := Some hash\<rparr>) (Some EarnCompleted) None)
               (ret (Inr (op_id, hash)))))))))) (\<lambda>outcome.
       case outcome of
         Inl answer \<Rightarrow> ret answer
       | Inr (op_id, hash) \<Rightarrow> completed_result env op_id pool_id_hex pool_id n hash)))))))))))"

text \<open>Whether a withdrawal may go on without a confirmed valuation: not when the pool is seeded.\<close>

definition withdraw_valued :: "'e vault_env_scheme \<Rightarrow> string \<Rightarrow> nat list \<Rightarrow> unit vact" where
  "withdraw_valued env pool_id_hex pool_id =
     bindA (getA (moving pool_id_hex)) (\<lambda>busy.
     bindA (if busy then ret None else sync_total_assets env pool_id_hex) (\<lambda>synced.
     if synced = None \<and> \<not> busy
     then bindA (in_thread env (get_seeded_assets env pool_id True)) (\<lambda>seeded.
       if seeded \<noteq> 0
       then throw (ValueError ''Pool valuation could not be confirmed; withdraw refused. Retry shortly.'')
       else ret ())
     else ret ()))"

text \<open>Paid from the pool account only.\<close>

definition withdraw_covered :: "'e vault_env_scheme \<Rightarrow> string \<Rightarrow> int \<Rightarrow> unit vact" where
  "withdraw_covered env pool_id_hex amount =
     bindA (withdrawal_payable env pool_id_hex amount) (\<lambda>payable.
     if payable then ret ()
     else bindA (in_thread env (withdrawal_impossible env pool_id_hex amount)) (\<lambda>impossible.
       if impossible then throw (ValueError ''Withdrawal is larger than the whole pool'')
       else throw (LiquidityUnavailable ''The pool cannot pay this withdrawal out right now'')))"

definition withdraw ::
  "'e vault_env_scheme \<Rightarrow> string \<Rightarrow> string \<Rightarrow> string \<Rightarrow> nat \<Rightarrow> string \<Rightarrow> string option \<Rightarrow> earn_result vact" where
  "withdraw env pool_id_hex user_address amount nonce signature scheduled_id =
     seqA (liftE (validate_address user_address ''user_address''))
     (seqA (liftE (validate_amount amount ''amount''))
     (seqA (liftE (validate_signature signature ''signature''))
     (bindA (liftE (pool_bytes pool_id_hex)) (\<lambda>pool_id.
      bindA (get_pool env pool_id) (\<lambda>pool.
      if ps_address pool = ZERO_POOL then throw (ValueError ''Pool not found'')
      else
      seqA (liftE (assert_pool_custody env pool))
      (bindA (liftE (amount_of amount)) (\<lambda>n.
       bindA (pool_lock env pool_id_hex
         (seqA (withdraw_valued env pool_id_hex pool_id)
         (seqA (withdraw_covered env pool_id_hex n)
         (bindA (vawait env (\<lambda>k. ve_transfer_nonce env k (ps_address pool))) (\<lambda>pool_nonce.
          let pool_signature = ve_sign env user_address (ps_token pool) n pool_nonce in
          bindA (liftE (sig_bytes pool_signature)) (\<lambda>pool_sig.
          bindA (liftE (sig_bytes signature)) (\<lambda>user_sig.
          let consent = (case ve_withdraw_signer env pool_id_hex n nonce signature of
                Inl _ \<Rightarrow> None | Inr signer \<Rightarrow> Some signer) in
          bindA (record_transaction env OpWithdraw pool_id_hex user_address (ps_token pool) n (ps_address pool)
             pool_nonce pool_signature consent scheduled_id) (\<lambda>op_id.
          seqA (progress_update env PAYING_OUT None)
          (bindA (settle_call env op_id pool_id_hex n
             (CallWithdraw pool_id n nonce user_sig pool_nonce pool_sig)) (\<lambda>outcome.
           ret (case outcome of Inl answer \<Rightarrow> Inl answer | Inr hash \<Rightarrow> Inr (op_id, hash)))))))))))) (\<lambda>outcome.
       case outcome of
         Inl answer \<Rightarrow> ret answer
       | Inr (op_id, hash) \<Rightarrow>
           seqA (update_transaction env op_id (\<lambda>r. r\<lparr>ea_tx_hash := Some hash\<rparr>) (Some EarnCompleted) None)
           (completed_result env op_id pool_id_hex pool_id n hash)))))))))"

section \<open>Netting a pool against its strategy\<close>

definition buffer_target :: "'e vault_env_scheme \<Rightarrow> int \<Rightarrow> int" where
  "buffer_target env pool_assets =
     max (es_buffer_min (ve_settings env)) (pool_assets * es_buffer_bps (ve_settings env) div 10000)"

definition hold :: "string \<Rightarrow> int \<Rightarrow> unit vact" where
  "hold pool_id_hex amount = modifyA (\<lambda>s. s\<lparr>vs_held := (pool_key pool_id_hex, amount) # vs_held s\<rparr>)"

definition unhold :: "string \<Rightarrow> unit vact" where
  "unhold pool_id_hex = modifyA (\<lambda>s. s\<lparr>vs_held := filter (\<lambda>x. fst x \<noteq> pool_key pool_id_hex) (vs_held s)\<rparr>)"

text \<open>Reclaiming with the pool marked as reclaimed for; a refusal moves nothing.\<close>

definition reclaiming :: "string \<Rightarrow> bool vact \<Rightarrow> bool vact" where
  "reclaiming pool_id_hex m =
     seqA (modifyA (\<lambda>s. s\<lparr>vs_reclaiming := pool_key pool_id_hex # vs_reclaiming s\<rparr>))
     (bindA (tryA m) (\<lambda>r.
      seqA (modifyA (\<lambda>s. s\<lparr>vs_reclaiming := removeAll (pool_key pool_id_hex) (vs_reclaiming s)\<rparr>)) (liftE r)))"

definition reclaim_waiting :: "'e vault_env_scheme \<Rightarrow> string \<Rightarrow> int \<Rightarrow> int \<Rightarrow> int vact" where
  "reclaim_waiting env pool_id_hex amount stranded =
     (if amount \<le> 0
      then seqA (if stranded = 0 then complete_undeployed pool_id_hex None else ret ()) (ret 0)
      else bindA (vawait env (\<lambda>n. st_ready (ve_strategy env pool_id_hex) n amount)) (\<lambda>ready.
        if \<not> ready then ret 0
        else bindA (reclaiming pool_id_hex
            (bindA (tryA (reclaim_from_strategy env pool_id_hex amount)) (\<lambda>r.
              ret (case r of Inl _ \<Rightarrow> False | Inr _ \<Rightarrow> True)))) (\<lambda>moved.
          if \<not> moved then ret 0
          else seqA (sync_total_assets env pool_id_hex) (ret (- amount)))))"

text \<open>The locked part of a round: either it is over, or an amount is to be deployed, with the rows it
  was sized from.\<close>

definition plan_round ::
  "'e vault_env_scheme \<Rightarrow> string \<Rightarrow> bool \<Rightarrow> (int + int \<times> string list) vact" where
  "plan_round env pool_id_hex allow_deploy =
     (let strategy = ve_strategy env pool_id_hex in
      bindA (vquery (unresolved pool_id_hex)) (\<lambda>pending.
      if pending then ret (Inl 0)
      else bindA (vawait env (st_in_flight strategy)) (\<lambda>in_flight.
      if in_flight > 0 then ret (Inl 0)
      else
      bindA (getA (\<lambda>s. map_of (vs_held s) (pool_key pool_id_hex) \<noteq> None)) (\<lambda>left_over.
      seqA (if left_over then seqA (unhold pool_id_hex) (seqA (sync_total_assets env pool_id_hex) (ret ())) else ret ())
      (bindA (vawait env (st_idle strategy)) (\<lambda>idle.
       bindA (vawait env (st_stranded strategy)) (\<lambda>stranded.
       bindA (vawait env (st_total strategy)) (\<lambda>deployed.
       bindA (vquery (waiting_withdrawals pool_id_hex)) (\<lambda>waiting.
       let spare = idle - waiting - buffer_target env (deployed + idle) in
       if spare < 0
       then bindA (reclaim_waiting env pool_id_hex (min (waiting - idle) deployed) stranded) (\<lambda>n. ret (Inl n))
       else if \<not> allow_deploy then ret (Inl 0)
       else
       bindA (vawait env (st_min_deploy strategy)) (\<lambda>minimum.
       let amount = spare + stranded in
       if amount \<le> 0 \<or> amount < minimum
       then seqA (if stranded = 0 then complete_undeployed pool_id_hex None else ret ()) (ret (Inl 0))
       else bindA (vawait env (st_healthy strategy)) (\<lambda>healthy.
       if \<not> healthy then ret (Inl 0)
       else bindA (sync_total_assets env pool_id_hex) (\<lambda>synced.
       if synced = None then ret (Inl 0)
       else
       bindA (vquery (\<lambda>d. map ea_id (filter (\<lambda>r. of_pool pool_id_hex r \<and> ea_op r = OpDeposit
           \<and> ea_status r = EarnUndeployed) (db_earns d)))) (\<lambda>settled.
       seqA (hold pool_id_hex spare) (ret (Inr (amount, settled))))))))))))))))"

definition deploy_reclaim :: "'e vault_env_scheme \<Rightarrow> string \<Rightarrow> bool \<Rightarrow> int vact" where
  "deploy_reclaim env pool_id_hex allow_deploy =
     (if st_name (ve_strategy env pool_id_hex) = ''manual'' then ret 0
      else bindA (pool_lock env pool_id_hex (plan_round env pool_id_hex allow_deploy)) (\<lambda>plan.
        case plan of
          Inl moved \<Rightarrow> ret moved
        | Inr (amount, settled) \<Rightarrow>
            seqA (route_to_strategy env pool_id_hex amount)
            (seqA (pool_lock env pool_id_hex
               (seqA (unhold pool_id_hex)
               (bindA (vquery (unresolved pool_id_hex)) (\<lambda>pending.
                  if pending then ret () else seqA (sync_total_assets env pool_id_hex) (ret ())))))
            (seqA (complete_undeployed pool_id_hex (Some settled)) (ret amount)))))"

text \<open>\<open>IdleDeployer.deploy_once\<close>: a failing pool does not stop the round.\<close>

fun deploy_pools :: "'e vault_env_scheme \<Rightarrow> (string \<times> bool) list \<Rightarrow> int vact" where
  "deploy_pools env [] = ret 0"
| "deploy_pools env ((pool_id_hex, active) # pools) =
     bindA (tryA (deploy_reclaim env pool_id_hex active)) (\<lambda>r.
     bindA (deploy_pools env pools) (\<lambda>rest.
       ret ((case r of Inl _ \<Rightarrow> 0 | Inr moved \<Rightarrow> moved) + rest)))"

definition pool_hex :: "nat list \<Rightarrow> string" where
  "pool_hex pool_id = ''0x'' @ hex_of_bytes pool_id"

definition deploy_once :: "'e vault_env_scheme \<Rightarrow> int vact" where
  "deploy_once env =
     bindA (tryA (in_thread env (list_pools env))) (\<lambda>read.
     case read of
       Inl _ \<Rightarrow> ret 0
     | Inr pools \<Rightarrow> deploy_pools env (map (\<lambda>(i, p). (pool_hex i, ps_active p)) pools))"

end
