(* ===== verification/EarnWorker.thy ===== *)
theory EarnWorker
  imports VaultOps
begin

text \<open>
  The worker of the earn queue (\<open>services/earn/worker.py\<close>) and the share metadata of a settled
  operation (\<open>services/earn/settlement.py\<close>). A round first reconciles what is in flight, then
  puts back what waited for liquidity, then executes at most one request.
\<close>

section \<open>What the worker reads\<close>

record chain_receipt =
  cr_landed :: bool
  cr_block :: int
  cr_to :: "string option"

text \<open>A pool's shares and assets at a block.\<close>

record worker_env = vault_env +
  ew_receipt :: "nat \<Rightarrow> string \<Rightarrow> exc + chain_receipt option"
  ew_block_time :: "nat \<Rightarrow> int \<Rightarrow> exc + int"
  ew_contract :: string
  ew_pool_at :: "nat \<Rightarrow> nat list \<Rightarrow> int \<Rightarrow> exc + int \<times> int"

definition LIQUIDITY_RECHECK_SEC :: rat where "LIQUIDITY_RECHECK_SEC = 30"

definition RETRY_MESSAGE :: string where
  "RETRY_MESSAGE = ''Operation could not be completed; please retry''"

text \<open>What a caller may see of a failure: a \<open>ValueError\<close> and a revert, scrubbed; of the rest nothing.\<close>

definition public_error :: "(string \<Rightarrow> string) \<Rightarrow> exc \<Rightarrow> string" where
  "public_error sanitize e =
     (case e of
        ValueError m \<Rightarrow> sanitize m
      | _ \<Rightarrow> if contains ''revert'' (lower (exc_text e)) then sanitize (exc_text e) else RETRY_MESSAGE)"

definition key_of :: "string option \<Rightarrow> string option \<Rightarrow> string option" where
  "key_of admin lp = (case admin of Some (c # cs) \<Rightarrow> Some (c # cs) | _ \<Rightarrow> lp)"

definition earn_signs_as_lp :: "(string \<Rightarrow> string) \<Rightarrow> string option \<Rightarrow> string option \<Rightarrow> string \<Rightarrow> bool" where
  "earn_signs_as_lp address_of admin_key lp_key lp_address =
     (case key_of admin_key lp_key of
        Some (c # cs) \<Rightarrow> lower (address_of (c # cs)) = lower lp_address
      | _ \<Rightarrow> False)"

text \<open>Whether \<open>start\<close> starts the loop.\<close>

definition may_start :: "string \<Rightarrow> string \<Rightarrow> bool" where
  "may_start earn_pool_address lp_address \<longleftrightarrow>
     earn_pool_address \<noteq> [] \<and> lower earn_pool_address \<noteq> lower lp_address"

section \<open>Share metadata\<close>

text \<open>The shares an operation minted or burned, when the pool's assets changed by exactly its amount
  in its block, and the rate it got, as a quotient.\<close>

definition read_share_settlement ::
  "'e worker_env_scheme \<Rightarrow> nat list \<Rightarrow> int \<Rightarrow> earn_op \<Rightarrow> int \<Rightarrow> (int option \<times> (int \<times> int) option) vact" where
  "read_share_settlement env pool_id block op amount =
     bindA (vask (\<lambda>n. ew_pool_at env n pool_id block)) (\<lambda>after.
     bindA (vask (\<lambda>n. ew_pool_at env n pool_id (block - 1))) (\<lambda>before.
     let expected = (if op = OpDeposit then amount else - amount);
         change = fst after - fst before;
         delta = (if snd after - snd before \<noteq> expected then None else Some change) in
     ret (delta,
          case delta of
            None \<Rightarrow> None
          | Some d \<Rightarrow> if d = 0 then None else Some (amount, \<bar>d\<bar>))))"

section \<open>Settling\<close>

definition settled_status :: "earn_op \<Rightarrow> earn_status" where
  "settled_status op = (if op = OpDeposit then EarnUndeployed else EarnCompleted)"

definition reverted_text :: "string \<Rightarrow> string" where
  "reverted_text hash = ''Transaction reverted: '' @ hash"

definition record_outcome :: "'e worker_env_scheme \<Rightarrow> earn_row \<Rightarrow> string \<Rightarrow> bool \<Rightarrow> int \<Rightarrow> unit vact" where
  "record_outcome env row hash landed settled_at =
     (if \<not> landed
      then update_transaction env (ea_id row) (\<lambda>r. r\<lparr>ea_error := Some (reverted_text hash)\<rparr>) (Some EarnFailed)
             (Some (ea_updated row))
      else if ea_status row = EarnCompleted \<or> ea_status row = EarnUndeployed then ret ()
      else update_transaction env (ea_id row) (\<lambda>r. r\<lparr>ea_error := None\<rparr>) (Some (settled_status (ea_op row)))
             (Some settled_at))"

definition record_shares :: "string \<Rightarrow> int option \<times> (int \<times> int) option \<Rightarrow> int \<Rightarrow> unit vact" where
  "record_shares op_id meta settled_at =
     on_earns (update_where (\<lambda>r. ea_id r = op_id \<and> ea_settled r = None)
       (\<lambda>r. r\<lparr>ea_shares := fst meta, ea_rate := snd meta, ea_settled := Some settled_at\<rparr>))"

text \<open>\<open>_settle\<close>: no receipt at this node is no evidence of anything.\<close>

definition settle_earn :: "'e worker_env_scheme \<Rightarrow> earn_row \<Rightarrow> string \<Rightarrow> unit vact" where
  "settle_earn env row hash =
     bindA (vawait env (\<lambda>n. ew_receipt env n hash)) (\<lambda>found.
     case found of
       None \<Rightarrow> ret ()
     | Some receipt \<Rightarrow>
         bindA (vawait env (\<lambda>n. ew_block_time env n (cr_block receipt))) (\<lambda>settled_at.
         seqA (record_outcome env row hash (cr_landed receipt) settled_at)
         (if ea_settled row \<noteq> None then ret ()
          else
          let ours = (lower (case cr_to receipt of None \<Rightarrow> [] | Some t \<Rightarrow> t) = lower (ew_contract env)) in
          bindA (if cr_landed receipt \<and> ours
                 then bindA (liftE (pool_bytes (ea_pool row))) (\<lambda>pool_id.
                   in_thread env (read_share_settlement env pool_id (cr_block receipt) (ea_op row) (ea_amount row)))
                 else ret (None, None)) (\<lambda>meta.
          record_shares (ea_id row) meta settled_at))))"

section \<open>Recovering\<close>

definition mid_flight :: "earn_status \<Rightarrow> bool" where
  "mid_flight s \<longleftrightarrow> s = EarnExecuting \<or> s = EarnPending"

definition to_recover :: "earn_row \<Rightarrow> bool" where
  "to_recover r \<longleftrightarrow> mid_flight (ea_status r) \<or> ea_tx_hash r \<noteq> None \<and> ea_settled r = None"

definition UNKNOWN_OUTCOME :: string where
  "UNKNOWN_OUTCOME = ''Submission outcome unknown; manual recovery required''"

text \<open>A recorded hash is never the empty string, so \<open>if row["tx_hash"]\<close> asks whether there is one.\<close>

definition recover_row :: "'e worker_env_scheme \<Rightarrow> earn_row \<Rightarrow> unit vact" where
  "recover_row env row =
     (case ea_tx_hash row of
        Some hash \<Rightarrow> bindA (tryA (settle_earn env row hash)) (\<lambda>_. ret ())
      | None \<Rightarrow>
          if ea_status row = EarnPending
          then update_transaction env (ea_id row) (\<lambda>r. r\<lparr>ea_error := Some UNKNOWN_OUTCOME\<rparr>) (Some EarnFailed) None
          else update_transaction env (ea_id row) id (Some EarnScheduled) None)"

fun recover_rows :: "'e worker_env_scheme \<Rightarrow> earn_row list \<Rightarrow> unit vact" where
  "recover_rows env [] = ret ()"
| "recover_rows env (row # rows) = seqA (recover_row env row) (recover_rows env rows)"

definition in_flight_left :: "db \<Rightarrow> bool" where
  "in_flight_left d \<longleftrightarrow> (\<exists>r\<in>set (db_earns d). mid_flight (ea_status r))"

definition recover :: "'e worker_env_scheme \<Rightarrow> bool vact" where
  "recover env =
     bindA (vquery (\<lambda>d. sort_key ea_created (filter to_recover (db_earns d)))) (\<lambda>rows.
     if rows = [] then ret False
     else seqA (recover_rows env rows) (vquery in_flight_left))"

section \<open>Claiming\<close>

definition claim_row :: "'e worker_env_scheme \<Rightarrow> earn_row \<Rightarrow> bool vact" where
  "claim_row env row =
     swap_status_row env (ea_id row) EarnScheduled EarnExecuting (\<lambda>now r. r\<lparr>ea_claimed := Some now\<rparr>)"

fun claim_each :: "'e worker_env_scheme \<Rightarrow> string list \<Rightarrow> earn_row list \<Rightarrow> earn_row list vact" where
  "claim_each env seen [] = ret []"
| "claim_each env seen (row # rows) =
     (if ea_user row \<in> set seen then claim_each env seen rows
      else bindA (claim_row env row) (\<lambda>changed.
        if changed
        then bindA (claim_each env (lower (ea_user row) # seen) rows) (\<lambda>rest. ret (row # rest))
        else claim_each env seen rows))"

definition scheduled_rows :: "int \<Rightarrow> string list \<Rightarrow> db \<Rightarrow> earn_row list" where
  "scheduled_rows limit busy d =
     sql_limit limit (sort_key ea_created
       (filter (\<lambda>r. ea_status r = EarnScheduled \<and> lower (ea_pool r) \<notin> set (concat (map pool_spellings busy)))
         (db_earns d)))"

definition claim_earns :: "'e worker_env_scheme \<Rightarrow> int \<Rightarrow> string list \<Rightarrow> earn_row list vact" where
  "claim_earns env limit busy =
     bindA (vquery (scheduled_rows limit busy)) (\<lambda>rows.
     bindA (vquery users_with_inflight_work) (\<lambda>seen. claim_each env seen rows))"

section \<open>Waiting for liquidity\<close>

definition await_liquidity :: "'e worker_env_scheme \<Rightarrow> string \<Rightarrow> unit vact" where
  "await_liquidity env op_id =
     bindA (swap_status_row env op_id EarnExecuting EarnAwaitingLiquidity (\<lambda>now r. r\<lparr>ea_error := None\<rparr>)) (\<lambda>changed.
     if changed then tracking op_id (progress_update env AWAITING None) else ret ())"

definition capacity_for ::
  "'e worker_env_scheme \<Rightarrow> string \<Rightarrow> (string \<times> int) list \<Rightarrow> (int \<times> (string \<times> int) list) vact" where
  "capacity_for env pool capacity =
     (case map_of capacity pool of
        Some c \<Rightarrow> ret (c, capacity)
      | None \<Rightarrow> bindA (payout_capacity env pool) (\<lambda>c. ret (c, (pool, c) # capacity)))"

fun release_each ::
  "'e worker_env_scheme \<Rightarrow> (string \<times> int) list \<Rightarrow> earn_row list \<Rightarrow> unit vact" where
  "release_each env capacity [] = ret ()"
| "release_each env capacity (row # rows) =
     (let pool = pool_key (ea_pool row); amount = ea_amount row;
          put_back = swap_status_row env (ea_id row) EarnAwaitingLiquidity EarnScheduled (\<lambda>now r. r) in
      bindA (capacity_for env pool capacity) (\<lambda>(c, known).
      if amount \<le> c
      then seqA put_back (release_each env ((pool, c - amount) # known) rows)
      else bindA (tryA (in_thread env (withdrawal_impossible env pool amount))) (\<lambda>impossible.
        if impossible = Inr True then seqA put_back (release_each env known rows)
        else release_each env known rows)))"

definition awaiting_rows :: "db \<Rightarrow> earn_row list" where
  "awaiting_rows d = sort_key ea_created (filter (\<lambda>r. ea_status r = EarnAwaitingLiquidity) (db_earns d))"

text \<open>The time of the last check, and the time of this one when it is due.\<close>

definition release_awaiting_liquidity :: "'e worker_env_scheme \<Rightarrow> rat option \<Rightarrow> rat option vact" where
  "release_awaiting_liquidity env checked_at =
     bindA (vclock env) (\<lambda>now.
     if (case checked_at of None \<Rightarrow> False | Some t \<Rightarrow> now - t < LIQUIDITY_RECHECK_SEC) then ret checked_at
     else bindA (vquery awaiting_rows) (\<lambda>rows.
       if rows = [] then ret (Some now)
       else seqA (release_each env [] rows) (ret (Some now))))"

section \<open>A round\<close>

definition fail_if_unsettled :: "'e worker_env_scheme \<Rightarrow> string \<Rightarrow> string \<Rightarrow> unit vact" where
  "fail_if_unsettled env op_id error =
     bindA (swap_status_row env op_id EarnExecuting EarnFailed (\<lambda>now r. r\<lparr>ea_error := Some error\<rparr>)) (\<lambda>_. ret ())"

definition liquidity_error :: "exc \<Rightarrow> bool" where
  "liquidity_error e \<longleftrightarrow>
     (case e of LiquidityUnavailable _ \<Rightarrow> True | MidasLiquidityUnavailable _ \<Rightarrow> True | _ \<Rightarrow> False)"

definition call_of :: "'e worker_env_scheme \<Rightarrow> earn_row \<Rightarrow> earn_result vact" where
  "call_of env row =
     (if ea_op row = OpDeposit
      then deposit env (ea_pool row) (ea_user row) (show_int (ea_amount row)) (ea_nonce row) (ea_signature row)
             (Some (ea_id row))
      else withdraw env (ea_pool row) (ea_user row) (show_int (ea_amount row)) (ea_nonce row) (ea_signature row)
             (Some (ea_id row)))"

definition execute_row :: "'e worker_env_scheme \<Rightarrow> earn_row \<Rightarrow> unit vact" where
  "execute_row env row =
     bindA (tryA (tracking (ea_id row) (call_of env row))) (\<lambda>outcome.
     case outcome of
       Inr _ \<Rightarrow> ret ()
     | Inl e \<Rightarrow>
         if liquidity_error e then await_liquidity env (ea_id row)
         else fail_if_unsettled env (ea_id row) (public_error (ee_sanitize env) e))"

fun execute_rows :: "'e worker_env_scheme \<Rightarrow> earn_row list \<Rightarrow> unit vact" where
  "execute_rows env [] = ret ()"
| "execute_rows env (row # rows) = seqA (execute_row env row) (execute_rows env rows)"

definition run_once :: "'e worker_env_scheme \<Rightarrow> rat option \<Rightarrow> rat option vact" where
  "run_once env checked_at =
     bindA (recover env) (\<lambda>busy.
     if busy then ret checked_at
     else bindA (release_awaiting_liquidity env checked_at) (\<lambda>checked.
       bindA (getA vs_reclaiming) (\<lambda>pools.
       bindA (claim_earns env 1 pools) (\<lambda>rows.
       seqA (execute_rows env rows) (ret checked)))))"

text \<open>\<open>_loop\<close>, for a number of iterations: one that fails is only logged, and other tasks run between
  two.\<close>

fun worker_loop :: "'e worker_env_scheme \<Rightarrow> nat \<Rightarrow> rat option \<Rightarrow> rat option vact" where
  "worker_loop env 0 checked_at = ret checked_at"
| "worker_loop env (Suc k) checked_at =
     bindA (tryA (run_once env checked_at)) (\<lambda>r.
     seqA (vpause env) (worker_loop env k (case r of Inl _ \<Rightarrow> checked_at | Inr checked \<Rightarrow> checked)))"

end
