(* ===== verification/EarnInv.thy ===== *)
theory EarnInv
  imports EarnWorker
begin

text \<open>
  What the actions of the earn service keep. \<open>own_state\<close> is the interface of an invariant that the
  readings of the service cannot break: it speaks neither of the clock nor of what the service keeps
  in memory nor of the timelines, and the other tasks keep it. Its lemmas are proved once and used
  with several invariants.
\<close>

named_theorems kept \<open>actions that keep an invariant\<close>

lemma keeps_option [kept]: "keeps I m \<Longrightarrow> (\<And>x. keeps I (f x)) \<Longrightarrow> keeps I (case_option m f y)"
  by (cases y) auto

lemma keeps_sum [kept]: "(\<And>x. keeps I (f x)) \<Longrightarrow> (\<And>x. keeps I (g x)) \<Longrightarrow> keeps I (case_sum f g y)"
  by (cases y) auto

lemma keeps_prod [kept]: "(\<And>x y. keeps I (f x y)) \<Longrightarrow> keeps I (case_prod f p)"
  by (cases p) auto

lemma keeps_Let [kept]: "(\<And>x. keeps I (f x)) \<Longrightarrow> keeps I (Let y f)"
  by (simp add: Let_def)

lemmas keeps_exc = exc.split [of "keeps I" for I, THEN iffD2]

lemmas [kept] = keeps_ret keeps_throw keeps_getA keeps_bindA keeps_seqA keeps_liftE keeps_tryA keeps_if

section \<open>What an action returns\<close>

text \<open>\<open>gives m A\<close>: whatever state it starts from, a value that \<open>m\<close> returns satisfies \<open>A\<close>.\<close>

definition gives :: "('s, 'e, 'a) act \<Rightarrow> ('a \<Rightarrow> bool) \<Rightarrow> bool" where
  "gives m A \<longleftrightarrow> (\<forall>s x s'. m s = (Inr x, s') \<longrightarrow> A x)"

lemma givesI: "(\<And>s x s'. m s = (Inr x, s') \<Longrightarrow> A x) \<Longrightarrow> gives m A"
  by (simp add: gives_def)

lemma givesD: "gives m A \<Longrightarrow> m s = (Inr x, s') \<Longrightarrow> A x"
  unfolding gives_def by blast

lemma gives_mono: "gives m A \<Longrightarrow> (\<And>x. A x \<Longrightarrow> B x) \<Longrightarrow> gives m B"
  unfolding gives_def by blast

lemma gives_ret: "A x \<Longrightarrow> gives (ret x) A"
  by (simp add: gives_def ret_def)

lemma gives_throw: "gives (throw e) A"
  by (simp add: gives_def throw_def)

lemma gives_bindA: "gives m A \<Longrightarrow> (\<And>x. A x \<Longrightarrow> gives (f x) B) \<Longrightarrow> gives (bindA m f) B"
  unfolding gives_def bindA_def by (auto split: prod.splits sum.splits) blast

lemma gives_seqA: "gives n B \<Longrightarrow> gives (seqA m n) B"
  unfolding seqA_def by (rule gives_bindA [where A = "\<lambda>_. True"]) (simp_all add: gives_def)

lemma gives_liftE: "(\<And>a. x = Inr a \<Longrightarrow> A a) \<Longrightarrow> gives (liftE x) A"
  by (simp add: gives_def liftE_def)

lemma gives_tryA: "gives m A \<Longrightarrow> gives (tryA m) (\<lambda>r. \<forall>x. r = Inr x \<longrightarrow> A x)"
  unfolding gives_def tryA_def by (auto split: prod.splits)

lemma gives_vask: "gives (vask f) (\<lambda>x. \<exists>n. f n = Inr x)"
  by (auto simp: gives_def vask_def)

lemma gives_in_thread:
  assumes "gives m A"
  shows "gives (in_thread env m) A"
  unfolding in_thread_def
  by (rule gives_bindA [OF gives_tryA [OF assms]]) (auto intro: gives_seqA gives_liftE)

lemma gives_vawait: "gives (vawait env f) (\<lambda>x. \<exists>n. f n = Inr x)"
  unfolding vawait_def by (intro gives_in_thread gives_vask)

lemma read_retry_from: "read_retry k f s = (r, s') \<Longrightarrow> \<exists>n. f n = r"
proof (induction k arbitrary: s)
  case 0
  then show ?case by (auto simp: vask_def)
next
  case (Suc k)
  then show ?case
    by (auto simp: bindA_def tryA_def vask_def act_simps split: prod.splits sum.splits if_splits)
qed

lemma gives_try_read: "gives (tryA (read_with_retry f)) (\<lambda>r. \<exists>n. f n = r)"
  unfolding gives_def tryA_def read_with_retry_def
  by (auto split: prod.splits dest: read_retry_from)

lemma gives_read: "gives (read_with_retry f) (\<lambda>x. \<exists>n. f n = Inr x)"
  unfolding gives_def read_with_retry_def by (auto dest: read_retry_from)

lemma gives_get_pool: "gives (get_pool env i) (\<lambda>p. \<exists>n. ve_pool env n i = Inr p)"
  unfolding get_pool_def by (rule gives_read)

text \<open>A read whose value is known, before the rest.\<close>

lemma read_then:
  assumes "keeps J m" and "gives m A" and "\<And>x. A x \<Longrightarrow> hoare J (f x) Q E" and "\<And>s. J s \<Longrightarrow> E s"
  shows "hoare J (bindA m f) Q E"
proof (rule hoare_bindA)
  show "hoare J m (\<lambda>x s. A x \<and> J s) E"
    unfolding hoare_def
  proof (intro allI impI)
    fix s assume "J s"
    then have "J (snd (m s))" by (rule keepsD [OF assms(1)])
    then show "case m s of (Inl e, s') \<Rightarrow> E s' | (Inr x, s') \<Rightarrow> A x \<and> J s'"
      using assms(4) by (auto split: prod.splits sum.splits dest: givesD [OF assms(2)])
  qed
  show "hoare (\<lambda>s. A x \<and> J s) (f x) Q E" for x
    by (rule hoare_assume) (rule assms(3))
qed

lemma hoare_sum:
  "(\<And>e. r = Inl e \<Longrightarrow> hoare P (f e) Q E) \<Longrightarrow> (\<And>x. r = Inr x \<Longrightarrow> hoare P (g x) Q E) \<Longrightarrow> hoare P (case_sum f g r) Q E"
  by (cases r) auto

lemma keeps_read:
  assumes "keeps J m" and "gives m A" and "\<And>x. A x \<Longrightarrow> keeps J (f x)"
  shows "keeps J (bindA m f)"
  using read_then [OF assms(1,2), of f "\<lambda>_. J" J] assms(3) by (simp add: keeps_hoare)

section \<open>Invariants that the readings keep\<close>

text \<open>An entry of the cache of healthy strategies comes from a strategy's answer.\<close>

definition healthy_once :: "'e vault_env_scheme \<Rightarrow> string \<Rightarrow> bool" where
  "healthy_once env key \<longleftrightarrow> (\<exists>p n. pool_key p = key \<and> st_healthy (ve_strategy env p) n = Inr True)"

locale own_state =
  fixes env :: "'e vault_env_scheme" and J :: "vst \<Rightarrow> bool"
  assumes tick: "J s \<Longrightarrow> J (s\<lparr>vs_tick := n\<rparr>)"
    and other: "J s \<Longrightarrow> J (ee_other env n s)"
    and locks: "J s \<Longrightarrow> J (s\<lparr>vs_locks := ps\<rparr>)"
    and seed: "J s \<Longrightarrow> J (s\<lparr>vs_seed := sd\<rparr>)"
    and healthy: "J s \<Longrightarrow> \<forall>x\<in>set hs. x \<in> set (vs_healthy s) \<or> healthy_once env (fst x) \<Longrightarrow> J (s\<lparr>vs_healthy := hs\<rparr>)"
    and current: "J s \<Longrightarrow> J (s\<lparr>vs_current := c\<rparr>)"
    and timeline: "J s \<Longrightarrow> J (s\<lparr>vs_db := (vs_db s)\<lparr>db_earns :=
      update_where (\<lambda>r. ea_id r = op) (\<lambda>r. r\<lparr>ea_history := es\<rparr>) (db_earns (vs_db s))\<rparr>\<rparr>)"
begin

lemma ask [kept]: "keeps J (vask f)"
  by (rule keepsI) (simp add: vask_def tick)

lemma pause [kept]: "keeps J (vpause env)"
  by (rule keepsI) (simp add: vpause_def tick other)

lemma query [kept]: "keeps J (vquery f)"
  by (simp add: vquery_def keeps_getA)

lemma thread [kept]: "keeps J m \<Longrightarrow> keeps J (in_thread env m)"
  unfolding in_thread_def by (intro kept)

lemma awaits [kept]: "keeps J (vawait env f)"
  unfolding vawait_def by (intro kept)

lemma clocks [kept]: "keeps J (vnow env)" "keeps J (vclock env)"
  unfolding vnow_def vclock_def by (intro kept)+

lemma memory [kept]:
  "keeps J (modifyA (\<lambda>s. s\<lparr>vs_locks := fl s\<rparr>))"
  "keeps J (modifyA (\<lambda>s. s\<lparr>vs_seed := fs s\<rparr>))"
  "keeps J (modifyA (\<lambda>s. s\<lparr>vs_current := fc s\<rparr>))"
  by (intro keeps_modifyA, erule locks seed current)+

lemma progress [kept]: "keeps J (progress_append env op stage detail)"
  unfolding progress_append_def on_earns_def by (intro kept keeps_modifyA timeline; assumption)

lemma progress_steps [kept]:
  "keeps J (progress_update env stage detail)" "keeps J (record_status env op old new)"
  unfolding progress_update_def record_status_def by (intro kept)+

lemma tracked [kept]: "keeps J m \<Longrightarrow> keeps J (tracking op m)"
  unfolding tracking_def by (intro kept)

lemma locked [kept]: "keeps J m \<Longrightarrow> keeps J (pool_lock env p m)"
  unfolding pool_lock_def by (intro kept)

lemma reads_again [kept]: "keeps J (read_retry k f)"
  by (induction k) (simp_all, (intro kept; assumption)+)

lemma reads [kept]: "keeps J (read_with_retry f)"
  unfolding read_with_retry_def by (intro kept)

lemma transient [kept]: "keeps J m \<Longrightarrow> keeps J (transient_retry k env m)"
  by (induction k) (simp_all only: transient_retry.simps, (intro kept; blast)+)

lemma transients [kept]: "keeps J m \<Longrightarrow> keeps J (call_with_transient_retry env m)"
  unfolding call_with_transient_retry_def by (intro kept)

lemma pool_reads [kept]:
  "keeps J (get_pool env i)" "keeps J (convert_to_shares env i a)" "keeps J (convert_to_assets env i a)"
  "keeps J (get_user_shares env i t)"
  unfolding get_pool_def convert_to_shares_def convert_to_assets_def get_user_shares_def by (intro kept)+

lemma pools_read [kept]: "keeps J (pools_of env i k)" "keeps J (list_pools env)"
proof -
  show pools: "keeps J (pools_of env i k)" for i k
    by (induction k arbitrary: i) (simp_all, (intro kept; assumption)+)
  show "keeps J (list_pools env)"
    unfolding list_pools_def by (intro kept pools)
qed

lemma seeded_read [kept]: "keeps J (get_seeded_assets env i fresh)"
  unfolding get_seeded_assets_def by (intro kept keeps_exc conjI allI impI)

lemma strategy_reads [kept]:
  "keeps J (strategy_total_safe env p)" "keeps J (strategy_idle_safe env p)" "keeps J (strategy_apy_safe env p)"
  "keeps J (external_and_idle env st)" "keeps J (payout_capacity env p)" "keeps J (withdrawal_payable env p a)"
  "keeps J (withdrawal_impossible env p a)"
  unfolding strategy_total_safe_def strategy_idle_safe_def strategy_apy_safe_def external_and_idle_def
    payout_capacity_def withdrawal_payable_def withdrawal_impossible_def
  by (intro kept)+

lemma health_read [kept]: "keeps J (strategy_healthy env p)"
proof -
  have "keeps J (modifyA (\<lambda>s. s\<lparr>vs_healthy := (pool_key p, t) # vs_healthy s\<rparr>))"
    if "st_healthy (ve_strategy env p) n = Inr True" for t n
    using that by (intro keeps_modifyA healthy) (auto simp: healthy_once_def)
  moreover have "keeps J (modifyA (\<lambda>s. s\<lparr>vs_healthy := filter (\<lambda>x. fst x \<noteq> pool_key p) (vs_healthy s)\<rparr>))"
    by (intro keeps_modifyA healthy) auto
  ultimately have "keeps J (if h
       then bindA (vclock env) (\<lambda>again.
         seqA (modifyA (\<lambda>s. s\<lparr>vs_healthy := (pool_key p, again + HEALTH_CACHE_SEC) # vs_healthy s\<rparr>)) (ret True))
       else seqA (modifyA (\<lambda>s. s\<lparr>vs_healthy := filter (\<lambda>x. fst x \<noteq> pool_key p) (vs_healthy s)\<rparr>)) (ret False))"
    if "\<exists>n. st_healthy (ve_strategy env p) n = Inr h" for h
    using that by (auto intro!: kept)
  then have tail: "keeps J (bindA (vawait env (st_healthy (ve_strategy env p))) (\<lambda>healthy. if healthy
       then bindA (vclock env) (\<lambda>again.
         seqA (modifyA (\<lambda>s. s\<lparr>vs_healthy := (pool_key p, again + HEALTH_CACHE_SEC) # vs_healthy s\<rparr>)) (ret True))
       else seqA (modifyA (\<lambda>s. s\<lparr>vs_healthy := filter (\<lambda>x. fst x \<noteq> pool_key p) (vs_healthy s)\<rparr>)) (ret False)))"
    by (rule keeps_read [OF awaits gives_vawait])
  show ?thesis
    unfolding strategy_healthy_def
    by (intro keeps_bindA [OF clocks(2)] keeps_bindA [OF keeps_getA] keeps_if keeps_ret tail)
qed

lemma valuations [kept]:
  "keeps J (effective_total_assets env p n)" "keeps J (strict_total_assets env p n k)" "keeps J (rate_snapshot env p)"
  unfolding effective_total_assets_def strict_total_assets_def rate_snapshot_def by (intro kept)+

lemma answers [kept]:
  "keeps J (completed_result env op p i a h)" "keeps J (get_deposit_quote env p am u)"
  unfolding completed_result_def get_deposit_quote_def by (intro kept)+

end

text \<open>An invariant that does not speak of the calls the task sent either.\<close>

locale own_calls = own_state env J
  for env :: "'e vault_env_scheme" and J :: "vst \<Rightarrow> bool" +
  assumes calls: "J s \<Longrightarrow> J (s\<lparr>vs_calls := cs\<rparr>)"
begin

lemma noted [kept]: "keeps J (note_call c)"
  unfolding note_call_def by (intro keeps_modifyA calls)

lemma moves [kept]: "keeps J (route_to_strategy env p a)" "keeps J (reclaim_from_strategy env p a)"
  unfolding route_to_strategy_def reclaim_from_strategy_def by (intro kept)+

lemma executes [kept]: "keeps J (execute_call env c)"
  unfolding execute_call_def by (intro kept)

lemma writes_total [kept]: "keeps J (write_total_assets env i t)"
  unfolding write_total_assets_def by (intro kept)

lemma syncs [kept]: "keeps J (sync_total_assets env p)"
  unfolding sync_total_assets_def by (intro kept)

lemma withdraw_checks [kept]: "keeps J (withdraw_valued env p i)" "keeps J (withdraw_covered env p a)"
  unfolding withdraw_valued_def withdraw_covered_def by (intro kept)+

end

text \<open>An invariant that completing the rows a deploy settled keeps: the whole idle deployer does.\<close>

locale own_deploys = own_calls env J
  for env :: "'e vault_env_scheme" and J :: "vst \<Rightarrow> bool" +
  assumes completes: "J s \<Longrightarrow> J (snd (complete_undeployed p ids s))"
    and held: "J s \<Longrightarrow> J (s\<lparr>vs_held := h\<rparr>)"
    and reclaims: "J s \<Longrightarrow> J (s\<lparr>vs_reclaiming := ps\<rparr>)"
begin

lemma completed [kept]: "keeps J (complete_undeployed p ids)"
  by (rule keepsI) (rule completes)

lemma holds [kept]: "keeps J (hold p a)" "keeps J (unhold p)"
  unfolding hold_def unhold_def by (rule keeps_modifyA, erule held)+

lemma reclaiming_kept [kept]: "keeps J m \<Longrightarrow> keeps J (reclaiming p m)"
  unfolding reclaiming_def by (intro kept keeps_modifyA reclaims)

lemma reclaims_waiting [kept]: "keeps J (reclaim_waiting env p a st)"
  unfolding reclaim_waiting_def by (intro kept)

lemma plans [kept]: "keeps J (plan_round env p allow)"
  unfolding plan_round_def by (intro kept)

lemma deploys_or_reclaims [kept]: "keeps J (deploy_reclaim env p allow)"
  unfolding deploy_reclaim_def by (intro kept)

lemma deploys_pools [kept]: "keeps J (deploy_pools env ps)"
  by (induction ps) (auto intro!: kept)

lemma deploys [kept]: "keeps J (deploy_once env)"
  unfolding deploy_once_def by (intro kept)

end

end
