(* ===== verification/EarnDemo.thy ===== *)
theory EarnDemo
  imports EarnWorker
begin

text \<open>A concrete pool, its strategy and one user's deposit: the inputs of the witnesses of the earn
  theories.\<close>

definition demo_strategy :: strategy where
  "demo_strategy =
     \<lparr>st_name = ''aave'', st_apy = (\<lambda>_. Inr 400), st_total = (\<lambda>_. Inr 600), st_idle = (\<lambda>_. Inr 400),
      st_in_flight = (\<lambda>_. Inr 0), st_stranded = (\<lambda>_. Inr 0), st_min_deploy = (\<lambda>_. Inr 10),
      st_ready = (\<lambda>_ _. Inr True), st_healthy = (\<lambda>_. Inr True), st_deposit = (\<lambda>_ _. Inr ()),
      st_withdraw = (\<lambda>_ _. Inr ())\<rparr>"

definition demo_account :: string where
  "demo_account = ''0x'' @ replicate 40 CHR ''e''"

definition demo_user :: string where
  "demo_user = ''0x'' @ replicate 40 CHR ''1''"

definition earn_sig :: string where
  "earn_sig = ''0x'' @ replicate 130 CHR ''b''"

definition demo_pool :: pool_state where
  "demo_pool = \<lparr>ps_token = ''T'', ps_address = demo_account, ps_shares = 1000, ps_assets = 1000, ps_active = True\<rparr>"

definition demo_worker :: worker_env where
  "demo_worker =
     \<lparr>ee_now = (\<lambda>n. int n), ee_clock = (\<lambda>n. of_nat n), ee_other = (\<lambda>_ s. s), ee_sanitize = id, ee_uuid = (\<lambda>_. ''u1''),
      ve_settings = \<lparr>es_chain = 1, es_accounting = ''0xacc'', es_manager = ''0xem'', es_pool_address = demo_account,
        es_max_pending = 3, es_quote_ttl = 60, es_buffer_min = 100, es_buffer_bps = 500\<rparr>,
      ve_strategy = (\<lambda>_. demo_strategy), ve_pool = (\<lambda>_ _. Inr demo_pool), ve_pool_count = (\<lambda>_. Inr 1),
      ve_pool_id = (\<lambda>_ _. Inr [1]), ve_seeded = (\<lambda>_ _. Inr 0), ve_to_shares = (\<lambda>_ _ a. Inr a),
      ve_to_assets = (\<lambda>_ _ a. Inr a), ve_user_shares = (\<lambda>_ _ _. Inr 0), ve_transfer_nonce = (\<lambda>_ _. Inr 5),
      ve_submit = (\<lambda>_ _. Inr ''0xh''), ve_receipt = (\<lambda>_ _. Inr True), ve_execute = (\<lambda>_ _. Inr ()),
      ve_sign = (\<lambda>_ _ _ _. earn_sig), ve_withdraw_signer = (\<lambda>_ _ _ _. Inr demo_user),
      ve_transfer_signer = (\<lambda>_ _ _ _ _. Inr demo_user), ew_receipt = (\<lambda>_ _. Inr None),
      ew_block_time = (\<lambda>_ _. Inr 7), ew_contract = ''0xem'', ew_pool_at = (\<lambda>_ _ _. Inr (1000, 1000))\<rparr>"

definition demo_earn :: "string \<Rightarrow> earn_op \<Rightarrow> int \<Rightarrow> int \<Rightarrow> earn_row" where
  "demo_earn op_id op amount created =
     (scheduled_earn op_id created op ''0x01'' demo_user ''T'' amount 4 earn_sig)"

definition demo_vst :: "earn_row list \<Rightarrow> vst" where
  "demo_vst rows =
     \<lparr>vs_db = \<lparr>db_quotes = [], db_swaps = [], db_evm = [], db_lanes = [], db_earns = rows\<rparr>, vs_tick = 0,
      vs_held = [], vs_reclaiming = [], vs_locks = [], vs_seed = [], vs_healthy = [], vs_current = None,
      vs_calls = [], vs_submitted = []\<rparr>"

section \<open>Running an action\<close>

text \<open>Equations that run an action on a state, innermost step first; what comes after a step is not
  looked into before the step has its outcome.\<close>

lemma lazy_steps:
  "s = s' \<Longrightarrow> bindA m f s = bindA m f s'"
  "s = s' \<Longrightarrow> seqA m n s = seqA m n s'"
  "s = s' \<Longrightarrow> tryA m s = tryA m s'"
  "s = s' \<Longrightarrow> in_thread env m s = in_thread env m s'"
  "s = s' \<Longrightarrow> pool_lock env p m s = pool_lock env p m s'"
  "s = s' \<Longrightarrow> call_with_transient_retry env m s = call_with_transient_retry env m s'"
  "s = s' \<Longrightarrow> transient_retry k env m s = transient_retry k env m s'"
  "s = s' \<Longrightarrow> read_with_retry g s = read_with_retry g s'"
  "s = s' \<Longrightarrow> vquery h s = vquery h s'"
  "s = s' \<Longrightarrow> vask g s = vask g s'"
  by simp_all

lemma run_steps:
  "liftE x s = (x, s)"
  "tryA m s = (case m s of (x, s') \<Rightarrow> (Inr x, s'))"
  "vask f s = (f (vs_tick s), s\<lparr>vs_tick := Suc (vs_tick s)\<rparr>)"
  "vpause env s = (Inr (), (ee_other env (vs_tick s) s)\<lparr>vs_tick := Suc (vs_tick s)\<rparr>)"
  "in_thread env m s = (case m s of (x, s') \<Rightarrow> (x, (ee_other env (vs_tick s') s')\<lparr>vs_tick := Suc (vs_tick s')\<rparr>))"
  "vquery g s = (Inr (g (vs_db s)), s)"
  "on_earns h s = (Inr (), s\<lparr>vs_db := (vs_db s)\<lparr>db_earns := h (db_earns (vs_db s))\<rparr>\<rparr>)"
  by (simp_all add: liftE_def tryA_def vask_def vpause_def in_thread_def vquery_def on_earns_def act_eqs split: prod.splits)

lemma run_read: "f (vs_tick s) = Inr x \<Longrightarrow> read_with_retry f s = (Inr x, s\<lparr>vs_tick := Suc (vs_tick s)\<rparr>)"
  by (simp add: read_with_retry_def READ_RETRY_ATTEMPTS_def eval_nat_numeral run_steps act_eqs)

lemma run_transient:
  "call_with_transient_retry env m s =
     (case m s of
        (Inr x, s') \<Rightarrow> (Inr x, s')
      | (Inl e, s') \<Rightarrow> if contract_error e then (Inl e, s') else seqA (vpause env) (transient_retry 8 env m) s')"
proof -
  have "call_with_transient_retry env m s = transient_retry (Suc 8) env m s"
    by (simp add: call_with_transient_retry_def TRANSIENT_READ_ATTEMPTS_def)
  also have "\<dots> = (case m s of
        (Inr x, s') \<Rightarrow> (Inr x, s')
      | (Inl e, s') \<Rightarrow> if contract_error e then (Inl e, s') else seqA (vpause env) (transient_retry 8 env m) s')"
    by (simp only: transient_retry.simps) (simp add: run_steps act_eqs split: prod.splits sum.splits)
  finally show ?thesis .
qed

lemma demo_checks:
  "validate_address demo_user x = Inr ()" "validate_signature earn_sig x = Inr ()"
  "validate_amount ''50'' x = Inr ()" "pool_bytes ''0x01'' = Inr [1]" "amount_of ''50'' = Inr 50"
  "pool_key ''0x01'' = ''0x01''" "sig_bytes earn_sig = Inr (replicate 65 187)" "open_pool demo_pool = Inr ()"
  "assert_pool_custody demo_worker demo_pool = Inr ()" "ps_address demo_pool \<noteq> ZERO_POOL"
  by code_simp+

lemma demo_fields:
  "ve_pool demo_worker = (\<lambda>_ _. Inr demo_pool)" "ve_strategy demo_worker = (\<lambda>_. demo_strategy)"
  "ee_other demo_worker = (\<lambda>_ s. s)" "ee_clock demo_worker = of_nat" "ee_now demo_worker = int"
  "ve_seeded demo_worker = (\<lambda>_ _. Inr 0)" "ve_submit demo_worker = (\<lambda>_ _. Inr ''0xh'')"
  "ve_receipt demo_worker = (\<lambda>_ _. Inr True)" "ee_uuid demo_worker = (\<lambda>_. ''u1'')"
  "ve_transfer_nonce demo_worker = (\<lambda>_ _. Inr 5)" "ve_sign demo_worker = (\<lambda>_ _ _ _. earn_sig)"
  "ve_withdraw_signer demo_worker = (\<lambda>_ _ _ _. Inr demo_user)" "ve_execute demo_worker = (\<lambda>_ _. Inr ())"
  "st_name demo_strategy = ''aave''" "st_healthy demo_strategy = (\<lambda>_. Inr True)"
  "st_total demo_strategy = (\<lambda>_. Inr 600)" "st_idle demo_strategy = (\<lambda>_. Inr 400)"
  "ps_assets demo_pool = 1000" "ps_shares demo_pool = 1000"
  by (simp_all add: demo_worker_def demo_strategy_def demo_pool_def fun_eq_iff)

lemmas run_vault = act_eqs run_steps run_read run_transient demo_checks demo_fields get_pool_def vclock_def vnow_def
  vawait_def strategy_healthy_def sync_total_assets_def execute_call_def write_total_assets_def get_seeded_assets_def
  external_and_idle_def pool_lock_def moving_def held_of_def record_transaction_def progress_update_def settle_call_def
  submit_and_settle_def note_submission_def note_call_def update_transaction_def completed_result_def
  effective_total_assets_def net_of_seed_def record_status_def progress_append_def find_row_def append_entry_def
  withdraw_valued_def withdraw_covered_def withdrawal_payable_def payout_capacity_def

lemma demo_deposit:
  "vs_calls (snd (deposit demo_worker ''0x01'' demo_user ''50'' 4 earn_sig None (demo_vst [])))
   = [CallDeposit [1] demo_user 50 4 (replicate 65 187)]"
  by (simp add: deposit_def run_vault demo_vst_def cong: lazy_steps)

lemma demo_withdraw:
  "vs_calls (snd (withdraw demo_worker ''0x01'' demo_user ''50'' 4 earn_sig None (demo_vst [])))
   = [CallWithdraw [1] 50 4 (replicate 65 187) 5 (replicate 65 187)]"
  by (simp add: withdraw_def Let_def run_vault demo_vst_def cong: lazy_steps)

end
