(* ===== verification/EarnOnce.thy ===== *)
theory EarnOnce
  imports EarnInv EarnDemo
begin

text \<open>
  An earn operation is submitted to the contract at most once, whatever the worker's rounds find:
  before its call is sent the row says that the outcome is pending, and no later write takes it back
  to a status that the worker executes from.
\<close>

section \<open>The invariant\<close>

text \<open>The statuses an operation can have once it was submitted.\<close>

definition launched :: "earn_status \<Rightarrow> bool" where
  "launched s \<longleftrightarrow> s = EarnPending \<or> s = EarnCompleted \<or> s = EarnFailed \<or> s = EarnUndeployed"

definition launched_op :: "string \<Rightarrow> db \<Rightarrow> bool" where
  "launched_op op d \<longleftrightarrow> (\<exists>r\<in>set (db_earns d). ea_id r = op \<and> launched (ea_status r))"

text \<open>Nothing was submitted twice, what was submitted stays launched, the operations \<open>N\<close> were not
  submitted, and the operations \<open>K\<close> are launched.\<close>

definition earns_ok :: "string set \<Rightarrow> string set \<Rightarrow> vst \<Rightarrow> bool" where
  "earns_ok N K s \<longleftrightarrow>
     distinct (map ea_id (db_earns (vs_db s))) \<and> distinct (vs_submitted s)
     \<and> (\<forall>op\<in>set (vs_submitted s) \<union> K. launched_op op (vs_db s))
     \<and> (\<forall>op\<in>N. op \<notin> set (vs_submitted s) \<and> op \<in> ea_id ` set (db_earns (vs_db s)))"

text \<open>What the other tasks of the service may do: the API appends requests, the idle deployer
  completes deposits; neither takes a launched row back, deletes one, or writes what records the
  calls of this task.\<close>

definition calm_db :: "db \<Rightarrow> db \<Rightarrow> bool" where
  "calm_db d d' \<longleftrightarrow>
     (distinct (map ea_id (db_earns d)) \<longrightarrow> distinct (map ea_id (db_earns d')))
     \<and> ea_id ` set (db_earns d) \<subseteq> ea_id ` set (db_earns d')
     \<and> (\<forall>op. launched_op op d \<longrightarrow> launched_op op d')"

definition calm_earn :: "'e earn_env_scheme \<Rightarrow> bool" where
  "calm_earn env \<longleftrightarrow>
     (\<forall>n s. vs_submitted (ee_other env n s) = vs_submitted s \<and> vs_calls (ee_other env n s) = vs_calls s
        \<and> calm_db (vs_db s) (vs_db (ee_other env n s)))"

lemma calm_dbI:
  assumes "map ea_id (db_earns d') = map ea_id (db_earns d)"
    and "\<And>op. launched_op op d \<Longrightarrow> launched_op op d'"
  shows "calm_db d d'"
  using assms by (metis calm_db_def image_set subset_refl)

lemma earns_ok_calm:
  assumes "earns_ok N K s" and "calm_db (vs_db s) (vs_db s')" and "vs_submitted s' = vs_submitted s"
  shows "earns_ok N K s'"
  using assms unfolding earns_ok_def calm_db_def by (metis subsetD)

lemma earns_ok_mono: "earns_ok N K s \<Longrightarrow> N' \<subseteq> N \<Longrightarrow> K' \<subseteq> K \<Longrightarrow> earns_ok N' K' s"
  unfolding earns_ok_def by (meson Un_iff in_mono)

text \<open>A write of rows that keeps the ids, and keeps launched rows launched.\<close>

lemma launched_update:
  assumes "\<And>r. p r \<Longrightarrow> ea_id (f r) = ea_id r"
    and "\<And>r. p r \<Longrightarrow> launched (ea_status r) \<Longrightarrow> launched (ea_status (f r))"
    and "launched_op op d"
  shows "launched_op op (d\<lparr>db_earns := update_where p f (db_earns d)\<rparr>)"
proof -
  obtain r where r: "r \<in> set (db_earns d)" "ea_id r = op" "launched (ea_status r)"
    using assms(3) unfolding launched_op_def by blast
  then have "(if p r then f r else r) \<in> set (update_where p f (db_earns d))"
    by (auto simp: set_update_where)
  moreover have "ea_id (if p r then f r else r) = op \<and> launched (ea_status (if p r then f r else r))"
    using r assms(1,2) by simp
  ultimately show ?thesis unfolding launched_op_def by fastforce
qed

lemma ids_update:
  assumes "\<And>r. p r \<Longrightarrow> ea_id (f r) = ea_id r"
  shows "map ea_id (update_where p f t) = map ea_id t"
  using assms by (induction t) auto

lemma calm_update:
  assumes "\<And>r. p r \<Longrightarrow> ea_id (f r) = ea_id r"
    and "\<And>r. p r \<Longrightarrow> launched (ea_status r) \<Longrightarrow> launched (ea_status (f r))"
  shows "calm_db d (d\<lparr>db_earns := update_where p f (db_earns d)\<rparr>)"
  by (rule calm_dbI) (simp_all add: ids_update assms launched_update)

lemma complete_undeployed_calm: "calm_db (vs_db s) (vs_db (snd (complete_undeployed p ids s)))"
proof (cases "ids = Some []")
  case True
  then show ?thesis by (simp add: complete_undeployed_def act_simps calm_db_def)
next
  case False
  then show ?thesis
    by (simp add: complete_undeployed_def on_earns_def act_simps)
      (rule calm_update; simp add: launched_def)
qed

lemma complete_undeployed_ghost: "vs_submitted (snd (complete_undeployed p ids s)) = vs_submitted s"
  by (simp add: complete_undeployed_def on_earns_def act_simps)

lemma deploys_earns_ok:
  assumes calm: "calm_earn env"
  shows "own_deploys env (earns_ok N K)"
proof
  fix s n assume "earns_ok N K s"
  then show "earns_ok N K (ee_other env n s)"
    using calm unfolding calm_earn_def by (meson earns_ok_calm)
next
  fix s op es assume "earns_ok N K s"
  then show "earns_ok N K (s\<lparr>vs_db := (vs_db s)\<lparr>db_earns :=
      update_where (\<lambda>r. ea_id r = op) (\<lambda>r. r\<lparr>ea_history := es\<rparr>) (db_earns (vs_db s))\<rparr>\<rparr>)"
    by (rule earns_ok_calm) (auto intro!: calm_update)
next
  fix s p ids assume "earns_ok N K s"
  then show "earns_ok N K (snd (complete_undeployed p ids s))"
    by (rule earns_ok_calm) (rule complete_undeployed_calm complete_undeployed_ghost)+
qed (simp_all add: earns_ok_def)

text \<open>The environment with every write of the other tasks that is not calm left out: an environment
  that is calm is its own tamed one.\<close>

definition tamed :: "'e earn_env_scheme \<Rightarrow> 'e earn_env_scheme" where
  "tamed env = env\<lparr>ee_other := (\<lambda>n s. let s' = ee_other env n s in
     if vs_submitted s' = vs_submitted s \<and> vs_calls s' = vs_calls s \<and> calm_db (vs_db s) (vs_db s') then s' else s)\<rparr>"

lemma calm_tamed: "calm_earn (tamed env)"
  by (simp add: calm_earn_def tamed_def Let_def calm_db_def)

lemma tamed_calm: "calm_earn env \<Longrightarrow> tamed env = env"
  by (simp add: calm_earn_def tamed_def Let_def)

interpretation once: own_deploys "tamed env" "earns_ok N K" for env N K
  by (rule deploys_earns_ok) (rule calm_tamed)

section \<open>Writes of a row\<close>

text \<open>A row's status may be written unless that takes a launched operation back.\<close>

lemma keeps_on_earns:
  assumes "\<And>r. p r \<Longrightarrow> ea_id (f r) = ea_id r"
    and "\<And>s r. earns_ok N K s \<Longrightarrow> r \<in> set (db_earns (vs_db s)) \<Longrightarrow> p r \<Longrightarrow> launched (ea_status r)
      \<Longrightarrow> launched (ea_status (f r)) \<or> ea_id r \<in> N \<and> ea_id r \<notin> K"
  shows "keeps (earns_ok N K) (on_earns (update_where p f))"
proof (rule keepsI)
  fix s assume ok: "earns_ok N K s"
  let ?d = "vs_db s" and ?t = "update_where p f (db_earns (vs_db s))"
  have ids: "map ea_id ?t = map ea_id (db_earns ?d)" using assms(1) by (rule ids_update)
  have "launched_op op (?d\<lparr>db_earns := ?t\<rparr>)" if op: "op \<in> set (vs_submitted s) \<union> K" for op
  proof -
    from ok op obtain r where r: "r \<in> set (db_earns ?d)" "ea_id r = op" "launched (ea_status r)"
      unfolding earns_ok_def launched_op_def by blast
    have "\<not> (op \<in> N \<and> op \<notin> K)" using ok op unfolding earns_ok_def by blast
    with assms(2) [OF ok r(1) _ r(3)] r(2,3)
    have "launched (ea_status (if p r then f r else r))" by auto
    moreover have "(if p r then f r else r) \<in> set ?t" using r(1) by (auto simp: set_update_where)
    moreover have "ea_id (if p r then f r else r) = op" using r(2) assms(1) by simp
    ultimately show ?thesis unfolding launched_op_def by fastforce
  qed
  then show "earns_ok N K (snd (on_earns (update_where p f) s))"
    using ok ids by (simp add: earns_ok_def on_earns_def act_simps flip: set_map)
qed

lemma keeps_update_transaction [kept]:
  fixes env :: "'e vault_env_scheme"
  assumes "\<And>r. ea_id (cols r) = ea_id r"
    and "\<And>x. status = Some x \<Longrightarrow> launched x \<or> op \<in> N \<and> op \<notin> K"
  shows "keeps (earns_ok N K) (update_transaction (tamed env) op cols status updated)"
  unfolding update_transaction_def
proof (intro kept once.query once.clocks once.progress_steps keeps_on_earns)
  fix old now s and r :: earn_row
  assume "ea_id r = op" and "launched (ea_status r)"
  with assms(2) show "launched (ea_status ((cols r)\<lparr>ea_status := case status of None \<Rightarrow> ea_status r | Some x \<Rightarrow> x,
      ea_updated := case updated of None \<Rightarrow> now | Some t \<Rightarrow> t\<rparr>)) \<or> ea_id r \<in> N \<and> ea_id r \<notin> K"
    by (cases status) auto
qed (simp_all add: assms(1))

lemma keeps_swap_status_row [kept]:
  fixes env :: "'e vault_env_scheme"
  assumes "\<And>now r. ea_id (cols now r) = ea_id r"
    and "launched from \<Longrightarrow> launched to"
  shows "keeps (earns_ok N K) (swap_status_row (tamed env) op from to cols)"
  unfolding swap_status_row_def
  by (intro kept once.query once.clocks once.progress_steps keeps_on_earns) (use assms in auto)

section \<open>Submitting\<close>

lemma keeps_then:
  assumes "keeps J m" and "\<And>x. hoare J (f x) Q E" and "\<And>s. J s \<Longrightarrow> E s"
  shows "hoare J (bindA m f) Q E"
  using hoare_bindA [of J m "\<lambda>_. J" E f Q] assms
  by (metis (no_types, lifting) hoare_post keeps_hoare)

lemma keeps_then': "keeps J m \<Longrightarrow> hoare J n Q E \<Longrightarrow> (\<And>s. J s \<Longrightarrow> E s) \<Longrightarrow> hoare J (seqA m n) Q E"
  unfolding seqA_def by (rule keeps_then)

lemma then_keeps:
  assumes "hoare P m (\<lambda>_. J) J" and "\<And>x. keeps J (f x)"
  shows "hoare P (bindA m f) (\<lambda>_. J) J"
  using assms by (auto intro: hoare_bindA simp: keeps_hoare)

abbreviation unsent :: "string \<Rightarrow> vst \<Rightarrow> bool" where
  "unsent op \<equiv> earns_ok {op} {}"

abbreviation sent_ok :: "vst \<Rightarrow> bool" where
  "sent_ok \<equiv> earns_ok {} {}"

lemma unsent_ok: "earns_ok N K s \<Longrightarrow> sent_ok s"
  by (rule earns_ok_mono) auto

lemma launched_now:
  assumes "op \<in> ea_id ` set (db_earns d)"
    and "\<And>r. ea_id (f r) = ea_id r" and "\<And>r. launched (ea_status (f r))"
  shows "launched_op op (d\<lparr>db_earns := update_where (\<lambda>r. ea_id r = op) f (db_earns d)\<rparr>)"
proof -
  obtain r where "r \<in> set (db_earns d)" "ea_id r = op" using assms(1) by auto
  then have "f r \<in> set (update_where (\<lambda>r. ea_id r = op) f (db_earns d)) \<and> ea_id (f r) = op"
    using assms(2) by (auto simp: set_update_where)
  then show ?thesis using assms(3) unfolding launched_op_def by fastforce
qed

text \<open>Before its call is sent the operation's row is pending.\<close>

lemma recorded:
  fixes env :: "'e vault_env_scheme"
  shows "hoare (unsent op) (record_transaction (tamed env) oper p u t a sg n sig c (Some op))
     (\<lambda>x s. x = op \<and> earns_ok {op} {op} s) sent_ok"
proof -
  let ?cols = "\<lambda>now r. r\<lparr>ea_token := t, ea_signer := lower sg, ea_nonce := n, ea_signature := sig,
     ea_consent := map_option lower (case c of Some [] \<Rightarrow> None | c \<Rightarrow> c), ea_status := EarnPending, ea_updated := now\<rparr>"
  have wrote: "hoare (unsent op) (on_earns (update_where (\<lambda>r. ea_id r = op) (?cols now)))
      (\<lambda>_. earns_ok {op} {op}) sent_ok" for now
    unfolding hoare_def
  proof (intro allI impI)
    fix s assume ok: "unsent op s"
    have "keeps (unsent op) (on_earns (update_where (\<lambda>r. ea_id r = op) (?cols now)))"
      by (rule keeps_on_earns) (auto simp: launched_def)
    from keepsD [OF this ok] have ok': "unsent op (snd (on_earns (update_where (\<lambda>r. ea_id r = op) (?cols now)) s))" .
    have "launched_op op (vs_db (snd (on_earns (update_where (\<lambda>r. ea_id r = op) (?cols now)) s)))"
      unfolding on_earns_def modifyA_def snd_conv
      by simp (rule launched_now, use ok in \<open>auto simp: earns_ok_def launched_def\<close>)
    with ok' show "case on_earns (update_where (\<lambda>r. ea_id r = op) (?cols now)) s of
        (Inl e, s') \<Rightarrow> sent_ok s' | (Inr x, s') \<Rightarrow> earns_ok {op} {op} s'"
      by (auto simp: on_earns_def act_simps earns_ok_def)
  qed
  have status: "hoare (earns_ok {op} {op}) (if b then ret () else record_status (tamed env) op old EarnPending)
      (\<lambda>_. earns_ok {op} {op}) sent_ok" for b old
    by (rule hoare_post [of "earns_ok {op} {op}" _ "\<lambda>_. earns_ok {op} {op}" "earns_ok {op} {op}"],
        unfold keeps_hoare [symmetric]) (intro kept once.progress_steps, auto intro: unsent_ok)
  have "hoare (unsent op) (update_transaction (tamed env) op
      (\<lambda>r. r\<lparr>ea_token := t, ea_signer := lower sg, ea_nonce := n, ea_signature := sig,
         ea_consent := map_option lower (case c of Some [] \<Rightarrow> None | c \<Rightarrow> c)\<rparr>) (Some EarnPending) None)
      (\<lambda>_. earns_ok {op} {op}) sent_ok"
    unfolding update_transaction_def option.case
    by (intro keeps_then once.query once.clocks hoare_seqA [OF wrote status]) (auto intro: unsent_ok)
  then show ?thesis
    unfolding record_transaction_def option.case
    by (rule hoare_seqA) (rule hoare_pre [OF hoare_ret], simp)
qed

lemma submitted:
  "hoare (earns_ok {op} {op}) (note_submission op c) (\<lambda>_. earns_ok {} {op}) (earns_ok {} {op})"
  by (auto simp: hoare_def note_submission_def note_call_def act_eqs earns_ok_def)

lemma thread_hoare:
  fixes env :: "'e vault_env_scheme"
  assumes "hoare P m (\<lambda>_. earns_ok N K) (earns_ok N K)"
  shows "hoare P (in_thread (tamed env) m) (\<lambda>_. earns_ok N K) (earns_ok N K)"
  unfolding in_thread_def
  by (rule then_keeps) (auto intro!: kept once.pause hoare_tryA [OF assms])

lemma settled_call:
  fixes env :: "'e vault_env_scheme"
  shows "hoare (earns_ok {op} {op}) (settle_call (tamed env) op p a c) (\<lambda>_. earns_ok {} {op}) (earns_ok {} {op})"
proof -
  have send: "hoare (earns_ok {op} {op}) (in_thread (tamed env) (seqA (note_submission op c) (vask f)))
      (\<lambda>_. earns_ok {} {op}) (earns_ok {} {op})" for f :: "nat \<Rightarrow> exc + string"
    unfolding seqA_def by (intro thread_hoare then_keeps [OF submitted] once.ask)
  have "hoare (earns_ok {op} {op}) (submit_and_settle (tamed env) op c) (\<lambda>_. earns_ok {} {op}) (earns_ok {} {op})"
    unfolding submit_and_settle_def
    by (rule then_keeps [OF send]) (intro kept once.awaits; simp)
  then have "hoare (earns_ok {op} {op}) (tryA (submit_and_settle (tamed env) op c))
      (\<lambda>_. earns_ok {} {op}) (earns_ok {} {op})"
    by (rule hoare_tryA)
  then show ?thesis
    unfolding settle_call_def
    by (rule then_keeps) (intro kept; simp add: launched_def)
qed

section \<open>Executing a request\<close>

lemmas task_keeps = once.query once.clocks once.awaits once.thread once.memory once.pool_reads once.strategy_reads once.health_read
  once.syncs once.seeded_read once.withdraw_checks once.answers once.progress_steps once.locked

lemma locked_hoare:
  fixes env :: "'e vault_env_scheme"
  assumes "hoare (earns_ok N K) m (\<lambda>_. earns_ok N' K') (earns_ok N' K')" and "N' \<subseteq> N" and "K' \<subseteq> K"
  shows "hoare (earns_ok N K) (pool_lock (tamed env) p m) (\<lambda>_. earns_ok N' K') (earns_ok N' K')"
  unfolding pool_lock_def
  by (intro keeps_then' once.pause once.memory then_keeps [OF hoare_tryA [OF assms(1)]] kept)
    (auto intro: earns_ok_mono [OF _ assms(2,3)])

lemma locked_then:
  fixes env :: "'e vault_env_scheme"
  assumes "hoare (unsent op) m (\<lambda>_. sent_ok) sent_ok" and "\<And>x. keeps sent_ok (f x)"
  shows "hoare (unsent op) (bindA (pool_lock (tamed env) p m) f) (\<lambda>_. sent_ok) sent_ok"
  by (rule then_keeps [OF locked_hoare [OF assms(1)] assms(2)]) simp_all

text \<open>From recording the operation to its outcome.\<close>

lemma recorded_call:
  fixes env :: "'e vault_env_scheme"
  assumes "\<And>x. keeps (earns_ok {} {op}) (f op x)"
  shows "hoare (unsent op)
    (bindA (record_transaction (tamed env) oper p u t a sg n sig c (Some op)) (\<lambda>op_id.
       seqA (progress_update (tamed env) stage d) (bindA (settle_call (tamed env) op_id q k (vc op_id)) (f op_id))))
    (\<lambda>_. sent_ok) sent_ok"
proof (rule hoare_bindA [OF recorded])
  fix x
  have "hoare (earns_ok {op} {op}) (bindA (settle_call (tamed env) op q k (vc op)) (f op)) (\<lambda>_. sent_ok) sent_ok"
    by (rule hoare_post [OF then_keeps [OF settled_call assms]]) (rule unsent_ok; assumption)+
  then have "hoare (earns_ok {op} {op}) (seqA (progress_update (tamed env) stage d)
      (bindA (settle_call (tamed env) op q k (vc op)) (f op))) (\<lambda>_. sent_ok) sent_ok"
    by (rule keeps_then' [OF once.progress_steps(1)]) (rule unsent_ok)
  then show "hoare (\<lambda>s. x = op \<and> earns_ok {op} {op} s)
      (seqA (progress_update (tamed env) stage d) (bindA (settle_call (tamed env) x q k (vc x)) (f x)))
      (\<lambda>_. sent_ok) sent_ok"
    by (intro hoare_assume) simp
qed

lemma gives_up: "hoare (unsent op) (throw e) Q sent_ok"
  by (rule hoare_pre [OF hoare_throw]) (rule unsent_ok)

lemma unsent_sent: "unsent op s \<Longrightarrow> sent_ok s"
  by (rule unsent_ok)

lemma deposit_hoare:
  fixes env :: "'e vault_env_scheme"
  shows "hoare (unsent op) (deposit (tamed env) p u a n sig (Some op)) (\<lambda>_. sent_ok) sent_ok"
  unfolding deposit_def
  by (rule recorded_call locked_then gives_up hoare_if keeps_then keeps_then' | (intro kept task_keeps)[1])+
    (auto simp: launched_def intro!: kept task_keeps intro: unsent_sent)

lemma withdraw_hoare:
  fixes env :: "'e vault_env_scheme"
  shows "hoare (unsent op) (withdraw (tamed env) p u a n sig (Some op)) (\<lambda>_. sent_ok) sent_ok"
  unfolding withdraw_def Let_def
  by (rule recorded_call locked_then gives_up hoare_if keeps_then keeps_then' | (intro kept task_keeps)[1])+
    (auto simp: launched_def intro!: kept task_keeps intro: unsent_sent)

section \<open>The worker\<close>

lemma tracked_hoare:
  fixes env :: "'e worker_env_scheme"
  assumes "hoare (unsent op) m (\<lambda>_. sent_ok) sent_ok"
  shows "hoare (unsent op) (tracking i m) (\<lambda>_. sent_ok) sent_ok"
  unfolding tracking_def
  by (intro keeps_then keeps_then' once.memory then_keeps [OF hoare_tryA [OF assms]] kept) (auto intro: unsent_sent)

lemma keeps_await [kept]:
  fixes env :: "'e worker_env_scheme"
  shows "keeps (earns_ok N K) (await_liquidity (tamed env) op)"
    and "keeps (earns_ok N K) (fail_if_unsettled (tamed env) op e)"
  unfolding await_liquidity_def fail_if_unsettled_def
  by (intro kept once.tracked once.progress_steps; simp add: launched_def)+

lemma execute_row_hoare:
  fixes env :: "'e worker_env_scheme"
  shows "hoare (unsent (ea_id row)) (execute_row (tamed env) row) (\<lambda>_. sent_ok) sent_ok"
  unfolding execute_row_def call_of_def
  by (intro then_keeps [OF hoare_tryA [OF tracked_hoare [OF hoare_if]]] deposit_hoare withdraw_hoare kept)

text \<open>Recovery takes back only rows that were executing, and none of those was submitted.\<close>

lemma keeps_settle_earn [kept]:
  fixes env :: "'e worker_env_scheme"
  shows "keeps (earns_ok N K) (settle_earn (tamed env) row hash)"
  unfolding settle_earn_def record_outcome_def record_shares_def read_share_settlement_def Let_def
  by (intro kept task_keeps once.ask keeps_on_earns; auto simp: launched_def settled_status_def split: if_splits)

lemma keeps_recover_row:
  fixes env :: "'e worker_env_scheme"
  assumes "to_recover row" and "ea_status row = EarnExecuting \<Longrightarrow> ea_id row \<in> N"
  shows "keeps (earns_ok N {}) (recover_row (tamed env) row)"
proof (cases "ea_tx_hash row")
  case None
  then have "ea_status row \<noteq> EarnPending \<Longrightarrow> ea_id row \<in> N"
    using assms by (auto simp: to_recover_def mid_flight_def)
  with None show ?thesis
    unfolding recover_row_def by (auto intro!: kept simp: launched_def)
next
  case (Some hash)
  then show ?thesis
    unfolding recover_row_def by (auto intro!: kept)
qed

lemma keeps_recover_rows:
  fixes env :: "'e worker_env_scheme"
  assumes "\<forall>r\<in>set rows. to_recover r \<and> (ea_status r = EarnExecuting \<longrightarrow> ea_id r \<in> N)"
  shows "keeps (earns_ok N {}) (recover_rows (tamed env) rows)"
  using assms by (induction rows) (auto intro!: kept keeps_recover_row)

lemma not_launched_unsent:
  assumes "earns_ok N {} s" and "r \<in> set (db_earns (vs_db s))" and "\<not> launched (ea_status r)"
  shows "earns_ok (insert (ea_id r) N) {} s"
proof -
  have "ea_id r \<notin> set (vs_submitted s)"
  proof
    assume "ea_id r \<in> set (vs_submitted s)"
    then obtain q where "q \<in> set (db_earns (vs_db s))" "ea_id q = ea_id r" "launched (ea_status q)"
      using assms(1) unfolding earns_ok_def launched_op_def by blast
    with assms show False
      unfolding earns_ok_def by (metis distinct_map inj_onD)
  qed
  with assms show ?thesis by (auto simp: earns_ok_def)
qed

lemma recover_hoare:
  fixes env :: "'e worker_env_scheme"
  shows "keeps sent_ok (recover (tamed env))"
proof -
  let ?rows = "\<lambda>s. sort_key ea_created (filter to_recover (db_earns (vs_db s)))"
  let ?N = "\<lambda>rows. ea_id ` {r \<in> set rows. ea_status r = EarnExecuting}"
  have "earns_ok (?N rows) {} s" if ok: "sent_ok s" and rows: "rows = ?rows s" for s rows
  proof -
    have "earns_ok {ea_id r} {} s" if "r \<in> set rows" "ea_status r = EarnExecuting" for r
      using not_launched_unsent [OF ok, of r] that rows by (simp add: launched_def)
    with ok show ?thesis unfolding earns_ok_def by blast
  qed
  then have "hoare sent_ok (vquery (\<lambda>d. sort_key ea_created (filter to_recover (db_earns d))))
      (\<lambda>rows s. (\<forall>r\<in>set rows. to_recover r) \<and> earns_ok (?N rows) {} s) sent_ok"
    by (auto simp: hoare_def vquery_def act_simps)
  moreover have "hoare (\<lambda>s. (\<forall>r\<in>set rows. to_recover r) \<and> earns_ok (?N rows) {} s)
      (if rows = [] then ret False else seqA (recover_rows (tamed env) rows) (vquery in_flight_left))
      (\<lambda>_. sent_ok) sent_ok" for rows
  proof (rule hoare_assume)
    assume "\<forall>r\<in>set rows. to_recover r"
    then have "keeps (earns_ok (?N rows) {}) (recover_rows (tamed env) rows)"
      by (intro keeps_recover_rows) auto
    then have "keeps (earns_ok (?N rows) {})
        (if rows = [] then ret False else seqA (recover_rows (tamed env) rows) (vquery in_flight_left))"
      by (intro kept once.query)
    then show "hoare (earns_ok (?N rows) {})
        (if rows = [] then ret False else seqA (recover_rows (tamed env) rows) (vquery in_flight_left))
        (\<lambda>_. sent_ok) sent_ok"
      unfolding keeps_hoare by (rule hoare_post) (rule unsent_ok, assumption)+
  qed
  ultimately show ?thesis
    unfolding recover_def keeps_hoare by (rule hoare_bindA)
qed

text \<open>Claiming: what is claimed was scheduled, so it was not submitted.\<close>

lemma claim_row_hoare:
  fixes env :: "'e worker_env_scheme"
  shows "hoare (earns_ok N {}) (claim_row (tamed env) row)
    (\<lambda>changed s. earns_ok (if changed then insert (ea_id row) N else N) {} s) sent_ok"
  unfolding claim_row_def swap_status_row_def
proof (rule keeps_then [OF once.clocks(1)])
  fix now
  let ?p = "\<lambda>r. ea_id r = ea_id row \<and> ea_status r = EarnScheduled"
  let ?N = "\<lambda>changed. if changed then insert (ea_id row) N else N"
  have read: "hoare (earns_ok N {}) (vquery (\<lambda>d. row_count ?p (db_earns d) \<noteq> 0))
      (\<lambda>changed. earns_ok (?N changed) {}) sent_ok"
  proof -
    have "earns_ok (insert (ea_id row) N) {} s"
      if ok: "earns_ok N {} s" and c: "row_count ?p (db_earns (vs_db s)) \<noteq> 0" for s
    proof -
      from c obtain r where "r \<in> set (db_earns (vs_db s))" "ea_id r = ea_id row" "ea_status r = EarnScheduled"
        using row_count_pos [of ?p "db_earns (vs_db s)"] by auto
      then show ?thesis
        using not_launched_unsent [OF ok, of r] by (simp add: launched_def)
    qed
    then show ?thesis by (simp add: hoare_def vquery_def act_simps)
  qed
  show "hoare (earns_ok N {})
      (bindA (vquery (\<lambda>d. row_count ?p (db_earns d) \<noteq> 0)) (\<lambda>changed.
       seqA (on_earns (update_where ?p (\<lambda>r. (r\<lparr>ea_claimed := Some now\<rparr>)\<lparr>ea_status := EarnExecuting, ea_updated := now\<rparr>)))
        (if changed
         then seqA (record_status (tamed env) (ea_id row) (Some EarnScheduled) EarnExecuting) (ret True)
         else ret False)))
      (\<lambda>changed s. earns_ok (?N changed) {} s) sent_ok"
  proof (rule hoare_bindA [OF read])
    fix changed
    let ?m = "on_earns (update_where ?p (\<lambda>r. (r\<lparr>ea_claimed := Some now\<rparr>)\<lparr>ea_status := EarnExecuting, ea_updated := now\<rparr>))"
    have w: "keeps (earns_ok (?N changed) {}) ?m"
      by (rule keeps_on_earns) (auto simp: launched_def)
    have t: "hoare (earns_ok (?N changed) {})
        (if changed then seqA (record_status (tamed env) (ea_id row) (Some EarnScheduled) EarnExecuting) (ret True)
         else ret False) (\<lambda>changed. earns_ok (?N changed) {}) sent_ok"
      by (cases changed)
        (auto intro!: keeps_then' once.progress_steps hoare_pre [OF hoare_ret] intro: unsent_ok)
    show "hoare (earns_ok (?N changed) {})
        (seqA ?m (if changed then seqA (record_status (tamed env) (ea_id row) (Some EarnScheduled) EarnExecuting) (ret True)
         else ret False)) (\<lambda>changed s. earns_ok (?N changed) {} s) sent_ok"
      by (rule keeps_then' [OF w t]) (rule unsent_ok)
  qed
qed (rule unsent_ok)

lemma claim_each_hoare:
  fixes env :: "'e worker_env_scheme"
  shows "hoare (earns_ok N {}) (claim_each (tamed env) seen rows)
    (\<lambda>cs s. length cs \<le> length rows \<and> earns_ok (N \<union> ea_id ` set cs) {} s) sent_ok"
proof (induction rows arbitrary: N seen)
  case Nil
  then show ?case by (auto intro: hoare_pre [OF hoare_ret])
next
  case (Cons row rows)
  have skip: "hoare (earns_ok M {}) (claim_each (tamed env) seen' rows)
      (\<lambda>cs s. length cs \<le> length (row # rows) \<and> earns_ok (M \<union> ea_id ` set cs) {} s) sent_ok" for M seen'
    by (rule hoare_post [OF Cons.IH]) auto
  have take: "hoare (earns_ok (insert (ea_id row) N) {})
      (bindA (claim_each (tamed env) seen' rows) (\<lambda>rest. ret (row # rest)))
      (\<lambda>cs s. length cs \<le> length (row # rows) \<and> earns_ok (N \<union> ea_id ` set cs) {} s) sent_ok" for seen'
    by (rule hoare_bindA [OF Cons.IH]) (rule hoare_pre [OF hoare_ret], simp)
  show ?case
  proof (cases "ea_user row \<in> set seen")
    case True
    then show ?thesis using skip by simp
  next
    case False
    have "hoare (earns_ok (if changed then insert (ea_id row) N else N) {})
        (if changed then bindA (claim_each (tamed env) (lower (ea_user row) # seen) rows) (\<lambda>rest. ret (row # rest))
         else claim_each (tamed env) seen rows)
        (\<lambda>cs s. length cs \<le> length (row # rows) \<and> earns_ok (N \<union> ea_id ` set cs) {} s) sent_ok" for changed
      using skip take by (cases changed) simp_all
    then show ?thesis
      unfolding claim_each.simps if_not_P [OF False] by (rule hoare_bindA [OF claim_row_hoare])
  qed
qed

lemma claim_earns_hoare:
  fixes env :: "'e worker_env_scheme"
  shows "hoare sent_ok (claim_earns (tamed env) 1 busy)
    (\<lambda>cs s. length cs \<le> 1 \<and> earns_ok (ea_id ` set cs) {} s) sent_ok"
proof -
  have one: "length (scheduled_rows 1 busy d) \<le> 1" for d
    by (simp add: scheduled_rows_def sql_limit_def)
  have "hoare sent_ok (vquery (scheduled_rows 1 busy)) (\<lambda>rows s. length rows \<le> 1 \<and> sent_ok s) sent_ok"
    using one by (simp add: hoare_def vquery_def act_simps)
  moreover have "hoare (\<lambda>s. length rows \<le> 1 \<and> sent_ok s)
      (bindA (vquery users_with_inflight_work) (\<lambda>seen. claim_each (tamed env) seen rows))
      (\<lambda>cs s. length cs \<le> 1 \<and> earns_ok (ea_id ` set cs) {} s) sent_ok" for rows
    by (intro hoare_assume keeps_then once.query hoare_post [OF claim_each_hoare]) auto
  ultimately show ?thesis
    unfolding claim_earns_def by (rule hoare_bindA)
qed

section \<open>Rounds\<close>

lemma keeps_execute_rows:
  fixes env :: "'e worker_env_scheme"
  assumes "length rows \<le> 1"
  shows "hoare (earns_ok (ea_id ` set rows) {}) (execute_rows (tamed env) rows) (\<lambda>_. sent_ok) sent_ok"
proof (cases rows)
  case Nil
  then show ?thesis by (auto intro: hoare_pre [OF hoare_ret])
next
  case (Cons row rest)
  with assms have "rest = []" by simp
  have "hoare (unsent (ea_id row)) (seqA (execute_row (tamed env) row) (ret ())) (\<lambda>_. sent_ok) sent_ok"
    unfolding seqA_def by (rule then_keeps [OF execute_row_hoare]) (rule keeps_ret)
  with Cons \<open>rest = []\<close> show ?thesis by simp
qed

lemma keeps_release_each:
  fixes env :: "'e worker_env_scheme"
  shows "keeps (earns_ok N K) (release_each (tamed env) capacity rows)"
  by (induction rows arbitrary: capacity)
    (auto simp: capacity_for_def Let_def launched_def intro!: kept task_keeps)

lemma keeps_run_once:
  fixes env :: "'e worker_env_scheme"
  shows "keeps sent_ok (run_once (tamed env) checked_at)"
proof -
  have run: "hoare sent_ok (bindA (claim_earns (tamed env) 1 pools) (\<lambda>rows. seqA (execute_rows (tamed env) rows) (ret c)))
      (\<lambda>_. sent_ok) sent_ok" for pools c
    by (rule hoare_bindA [OF claim_earns_hoare], rule hoare_assume, unfold seqA_def)
      (rule then_keeps [OF keeps_execute_rows]; simp add: keeps_ret)
  have release: "keeps sent_ok (release_awaiting_liquidity (tamed env) checked_at)"
    unfolding release_awaiting_liquidity_def by (intro kept task_keeps keeps_release_each)
  have tail: "keeps sent_ok (bindA (getA vs_reclaiming) (\<lambda>pools. bindA (claim_earns (tamed env) 1 pools) (\<lambda>rows.
      seqA (execute_rows (tamed env) rows) (ret c))))" for c
    by (rule keeps_bindA [OF keeps_getA]) (simp add: keeps_hoare run)
  show ?thesis
    unfolding run_once_def
    by (intro keeps_bindA [OF recover_hoare] keeps_if keeps_ret keeps_bindA [OF release] tail)
qed

lemma keeps_worker_loop:
  fixes env :: "'e worker_env_scheme"
  shows "keeps sent_ok (worker_loop (tamed env) k checked_at)"
  by (induction k arbitrary: checked_at) (auto intro!: kept keeps_run_once once.pause)

text \<open>C15: starting with distinct rows and nothing submitted, and with other tasks that neither delete
  a row nor take a launched one back, the worker submits no operation twice however many rounds it
  takes and whatever the node answers; an operation that was submitted never becomes scheduled,
  executing or waiting for liquidity again.\<close>

theorem earn_submitted_once:
  fixes env :: "'e worker_env_scheme"
  assumes "calm_earn env" and "distinct (map ea_id (db_earns (vs_db s)))" and "vs_submitted s = []"
    and "worker_loop env k checked_at s = (r, s')"
  shows "distinct (vs_submitted s')
    \<and> (\<forall>op\<in>set (vs_submitted s'). \<exists>row\<in>set (db_earns (vs_db s')). ea_id row = op \<and> launched (ea_status row))"
proof -
  have "sent_ok s" using assms(2,3) by (simp add: earns_ok_def)
  then have "sent_ok (snd (worker_loop env k checked_at s))"
    using keeps_worker_loop [of env k checked_at] tamed_calm [OF assms(1)] by (simp add: keeps_def)
  with assms(4) show ?thesis
    by (simp add: earns_ok_def launched_op_def)
qed

theorem earn_submitted_once_witness:
  "let s = demo_vst [demo_earn ''a'' OpDeposit 50 1, demo_earn ''b'' OpWithdraw 20 2];
       s' = snd (worker_loop demo_worker 5 None s)
   in distinct (vs_submitted s')
     \<and> (\<forall>op\<in>set (vs_submitted s'). \<exists>row\<in>set (db_earns (vs_db s')). ea_id row = op \<and> launched (ea_status row))"
proof -
  have "calm_earn demo_worker"
    by (simp add: calm_earn_def demo_worker_def calm_db_def)
  moreover have "distinct (map ea_id (db_earns (vs_db (demo_vst [demo_earn ''a'' OpDeposit 50 1, demo_earn ''b'' OpWithdraw 20 2]))))"
    and "vs_submitted (demo_vst [demo_earn ''a'' OpDeposit 50 1, demo_earn ''b'' OpWithdraw 20 2]) = []"
    by (simp_all add: demo_vst_def demo_earn_def scheduled_earn_def)
  ultimately show ?thesis
    unfolding Let_def by (rule earn_submitted_once) (rule surjective_pairing)
qed

end
