(* ===== verification/VaultInv.thy ===== *)
theory VaultInv
  imports EarnOnce
begin

text \<open>
  What the vault service sends to the contract and the strategies. The valuation a pool is synced to,
  the conditions under which a deposit or a withdrawal reaches the contract, and the amounts that
  netting a pool moves are stated against what the chain, the strategy and the rows said.
\<close>

section \<open>The valuation\<close>

text \<open>What a pool's readings say: its total and its shares at two readings of the contract, its seed,
  and what the strategy holds with the idle funds.\<close>

definition pool_read :: "'e vault_env_scheme \<Rightarrow> nat list \<Rightarrow> pool_state \<Rightarrow> bool" where
  "pool_read env i p \<longleftrightarrow> (\<exists>n. ve_pool env n i = Inr p)"

definition gross_read :: "strategy \<Rightarrow> int \<Rightarrow> bool" where
  "gross_read st gross \<longleftrightarrow> (\<exists>m n a b. st_total st m = Inr a \<and> st_idle st n = Inr b \<and> gross = a + b)"

definition seed_read :: "'e vault_env_scheme \<Rightarrow> nat list \<Rightarrow> int \<Rightarrow> bool" where
  "seed_read env i seeded \<longleftrightarrow>
     (\<exists>n. ve_seeded env n i = Inr seeded) \<or> seeded = 0 \<and> (\<exists>n t. ve_seeded env n i = Inl (ContractLogicError t))"

text \<open>The reference: the calls that bring the contract's figure in line with the readings, and the
  figure; \<open>None\<close> when the readings are not to be trusted.\<close>

definition sync_plan :: "nat list \<Rightarrow> int \<Rightarrow> int \<Rightarrow> int \<Rightarrow> int \<Rightarrow> (vault_call list \<times> int) option" where
  "sync_plan i on_chain gross seeded shares =
     (if seeded > 0 \<and> shares = 0
      then Some ((if gross = seeded then [] else [CallSetSeeded i gross])
                 @ (if on_chain = 0 then [] else [CallSync i 0]), 0)
      else let v = net_of_seed gross seeded shares in
        if v = on_chain then Some ([], v)
        else if v < on_chain \<and> (on_chain - v) * 10000 > on_chain * SYNC_MAX_DROP_BPS then None
        else Some ([CallSync i v], v))"

text \<open>The outcome \<open>r\<close> of a sync that sent the calls \<open>new\<close>.\<close>

definition synced_as ::
  "'e vault_env_scheme \<Rightarrow> string \<Rightarrow> int option \<Rightarrow> vault_call list \<Rightarrow> bool" where
  "synced_as env p r new \<longleftrightarrow>
     (\<exists>i before. pool_bytes p = Inr i \<and> pool_read env i before
      \<and> (if st_name (ve_strategy env p) = ''manual'' then r = Some (ps_assets before) \<and> new = []
         else r = None \<and> new = []
           \<or> (\<exists>after gross seeded. pool_read env i after \<and> gross_read (ve_strategy env p) gross
                \<and> seed_read env i seeded
                \<and> (case sync_plan i (ps_assets before) gross seeded (ps_shares after) of
                     None \<Rightarrow> r = None \<and> new = []
                   | Some (cs, v) \<Rightarrow> prefix new cs \<and> (r = None \<or> r = Some v \<and> new = cs)))))"

text \<open>Readings send nothing.\<close>

abbreviation sent :: "vault_call list \<Rightarrow> vst \<Rightarrow> bool" where
  "sent cs s \<equiv> vs_calls s = cs"

lemma silent_reads: "calm_earn env \<Longrightarrow> own_state env (sent cs)"
  by unfold_locales (simp_all add: calm_earn_def)

interpretation silent: own_state "tamed env" "sent cs" for env cs
  by (rule silent_reads) (rule calm_tamed)

lemmas silent_keeps = silent.query silent.clocks silent.awaits silent.thread silent.memory silent.pool_reads
  silent.strategy_reads silent.health_read silent.seeded_read silent.valuations silent.answers silent.progress_steps silent.locked
  silent.ask silent.pause

lemma tamed_fields [simp]:
  "ve_strategy (tamed env) = ve_strategy env" "ve_pool (tamed env) = ve_pool env"
  "ve_seeded (tamed env) = ve_seeded env" "ve_settings (tamed env) = ve_settings env"
  by (simp_all add: tamed_def)

lemma executed:
  fixes env :: "'e vault_env_scheme"
  shows "hoare (sent cs) (tryA (in_thread (tamed env) (execute_call (tamed env) c))) (\<lambda>_. sent (cs @ [c])) (\<lambda>_. False)"
proof -
  have noted: "hoare (sent cs) (execute_call (tamed env) c) (\<lambda>_. sent (cs @ [c])) (sent (cs @ [c]))"
    by (auto simp: hoare_def execute_call_def note_call_def act_eqs vask_def split: sum.splits)
  have "hoare (sent cs) (in_thread (tamed env) (execute_call (tamed env) c)) (\<lambda>_. sent (cs @ [c])) (sent (cs @ [c]))"
    unfolding in_thread_def
    by (rule then_keeps) (auto intro!: hoare_tryA [OF noted] kept silent.pause)
  then show ?thesis by (rule hoare_tryA)
qed

lemma gives_external_and_idle: "gives (external_and_idle env st) (gross_read st)"
  unfolding external_and_idle_def gross_read_def
  by (intro gives_bindA [OF gives_vawait] gives_ret) blast

lemma gives_seeded: "gives (get_seeded_assets env i True) (seed_read env i)"
  unfolding get_seeded_assets_def
proof (rule gives_bindA [where A = "\<lambda>_. True"])
  show "gives (getA f) (\<lambda>_. True)" for f :: "vst \<Rightarrow> (rat \<times> int) option"
    by (simp add: gives_def)
  fix cached :: "(rat \<times> int) option"
  let ?rest = "bindA (tryA (read_with_retry (\<lambda>n. ve_seeded env n i))) (\<lambda>read.
     bindA (case read of Inr value \<Rightarrow> ret value | Inl (ContractLogicError _) \<Rightarrow> ret 0 | Inl e \<Rightarrow> throw e) (\<lambda>value.
     bindA (vclock env) (\<lambda>now.
     seqA (modifyA (\<lambda>s. s\<lparr>vs_seed := (i, now, value) # vs_seed s\<rparr>)) (ret value))))"
  have answer: "gives (case read of Inr value \<Rightarrow> ret value | Inl (ContractLogicError _) \<Rightarrow> ret 0 | Inl e \<Rightarrow> throw e)
      (seed_read env i)" if "\<exists>n. ve_seeded env n i = read" for read
    using that by (auto intro!: gives_ret gives_throw simp: seed_read_def split: sum.splits exc.splits)
  have rest: "gives ?rest (seed_read env i)"
    by (intro gives_bindA [OF gives_try_read] gives_bindA [OF answer] gives_bindA [where A = "\<lambda>_. True"]
        gives_seqA gives_ret) (simp_all add: gives_def)
  have "gives (case cached of None \<Rightarrow> ret None
      | Some (stamp, value) \<Rightarrow>
          if True then ret None
          else bindA (vclock env) (\<lambda>now. ret (if now - stamp < SEED_CACHE_TTL_SEC then Some value else None)))
      (\<lambda>hit. hit = None)"
    by (auto intro: gives_ret split: option.splits)
  then show "gives (bindA (case cached of None \<Rightarrow> ret None
      | Some (stamp, value) \<Rightarrow>
          if True then ret None
          else bindA (vclock env) (\<lambda>now. ret (if now - stamp < SEED_CACHE_TTL_SEC then Some value else None)))
      (\<lambda>hit. case hit of Some value \<Rightarrow> ret value | None \<Rightarrow> ?rest)) (seed_read env i)"
    by (rule gives_bindA) (simp add: rest)
qed

lemma write_total_sent:
  fixes env :: "'e vault_env_scheme"
  shows "hoare (sent cs) (write_total_assets (tamed env) i v)
    (\<lambda>r s. vs_calls s = cs @ [CallSync i v] \<and> (r = None \<or> r = Some v)) E"
  unfolding write_total_assets_def
proof (rule hoare_bindA [where R = "\<lambda>_. sent (cs @ [CallSync i v])"])
  show "hoare (sent cs) (tryA (in_thread (tamed env) (execute_call (tamed env) (CallSync i v))))
      (\<lambda>_. sent (cs @ [CallSync i v])) E"
    by (rule hoare_post [OF executed]) auto
  show "hoare (sent (cs @ [CallSync i v])) (ret (case r of Inl _ \<Rightarrow> None | Inr _ \<Rightarrow> Some v))
      (\<lambda>r s. vs_calls s = cs @ [CallSync i v] \<and> (r = None \<or> r = Some v)) E" for r :: "exc + unit"
    by (rule hoare_pre [OF hoare_ret]) (auto split: sum.splits)
qed

definition sync_post ::
  "'e vault_env_scheme \<Rightarrow> string \<Rightarrow> vault_call list \<Rightarrow> int option \<Rightarrow> vst \<Rightarrow> bool" where
  "sync_post env p cs r s \<longleftrightarrow> (\<exists>new. vs_calls s = cs @ new \<and> synced_as env p r new)"

text \<open>The writes, once every reading is known, follow the plan.\<close>

lemma synced_writes:
  fixes env :: "'e vault_env_scheme"
  assumes p: "pool_bytes p = Inr i" "pool_read env i before" "st_name (ve_strategy env p) \<noteq> ''manual''"
    and after: "pool_read env i after" and gross: "gross_read (ve_strategy env p) gross"
    and seed: "seed_read env i seeded" and on_chain: "on_chain = ps_assets before"
  shows "hoare (sent cs)
     (if seeded > 0 \<and> ps_shares after = 0
      then bindA
        (if gross = seeded then ret True
         else bindA (tryA (in_thread (tamed env) (execute_call (tamed env) (CallSetSeeded i gross)))) (\<lambda>r.
           ret (case r of Inl _ \<Rightarrow> False | Inr _ \<Rightarrow> True))) (\<lambda>rolled.
        if \<not> rolled then ret None
        else if on_chain = 0 then ret (Some 0) else write_total_assets (tamed env) i 0)
      else
        let backing = net_of_seed gross seeded (ps_shares after) in
        if backing = on_chain then ret (Some on_chain)
        else if backing < on_chain \<and> (on_chain - backing) * 10000 > on_chain * SYNC_MAX_DROP_BPS then ret None
        else write_total_assets (tamed env) i backing)
     (sync_post env p cs) (sent cs)"
proof -
  have fits: "sync_post env p cs r s"
    if "vs_calls s = cs @ new" and "case sync_plan i on_chain gross seeded (ps_shares after) of
         None \<Rightarrow> r = None \<and> new = [] | Some (cs, v) \<Rightarrow> prefix new cs \<and> (r = None \<or> r = Some v \<and> new = cs)"
    for r s new
    using that p after gross seed on_chain unfolding sync_post_def synced_as_def by auto
  let ?roll = "if gross = seeded then [] else [CallSetSeeded i gross]"
  show ?thesis
  proof (cases "seeded > 0 \<and> ps_shares after = 0")
    case True
    have roll: "hoare (sent cs)
        (if gross = seeded then ret True
         else bindA (tryA (in_thread (tamed env) (execute_call (tamed env) (CallSetSeeded i gross)))) (\<lambda>r.
           ret (case r of Inl _ \<Rightarrow> False | Inr _ \<Rightarrow> True)))
        (\<lambda>_. sent (cs @ ?roll)) (sent cs)"
    proof (rule hoare_if)
      show "hoare (sent cs) (bindA (tryA (in_thread (tamed env) (execute_call (tamed env) (CallSetSeeded i gross))))
          (\<lambda>r. ret (case r of Inl _ \<Rightarrow> False | Inr _ \<Rightarrow> True))) (\<lambda>_. sent (cs @ ?roll)) (sent cs)"
        if "gross \<noteq> seeded"
        by (rule hoare_bindA [where R = "\<lambda>_. sent (cs @ [CallSetSeeded i gross])"])
          (use that in \<open>auto intro: hoare_post [OF executed] hoare_pre [OF hoare_ret]\<close>)
    qed (auto intro: hoare_pre [OF hoare_ret])
    have zero: "hoare (sent (cs @ ?roll)) (write_total_assets (tamed env) i 0) (sync_post env p cs) (sent cs)"
      if "on_chain \<noteq> 0"
      by (rule hoare_post [OF write_total_sent])
        (use that True in \<open>auto intro!: fits simp: sync_plan_def\<close>)
    have "hoare (sent (cs @ ?roll)) (if \<not> rolled then ret None
        else if on_chain = 0 then ret (Some 0) else write_total_assets (tamed env) i 0) (sync_post env p cs) (sent cs)"
      for rolled
      by (intro hoare_if zero hoare_pre [OF hoare_ret])
        (use True in \<open>auto intro!: fits simp: sync_plan_def\<close>)
    with True show ?thesis
      by (simp only: True if_True simp_thms) (rule hoare_bindA [OF roll])
  next
    case False
    let ?v = "net_of_seed gross seeded (ps_shares after)"
    have w: "hoare (sent cs) (write_total_assets (tamed env) i ?v) (sync_post env p cs) (sent cs)"
      if "?v \<noteq> on_chain" "\<not> (?v < on_chain \<and> (on_chain - ?v) * 10000 > on_chain * SYNC_MAX_DROP_BPS)"
      by (rule hoare_post [OF write_total_sent])
        (use that False in \<open>auto intro!: fits simp: sync_plan_def Let_def\<close>)
    have quiet: "hoare (sent cs) (ret r) (sync_post env p cs) (sent cs)"
      if "sync_plan i on_chain gross seeded (ps_shares after) = None \<and> r = None
        \<or> sync_plan i on_chain gross seeded (ps_shares after) = Some ([], the r) \<and> r \<noteq> None" for r
    proof (rule hoare_pre [OF hoare_ret])
      fix s assume "sent cs s"
      with that show "sync_post env p cs r s"
        by (intro fits [where new = "[]"]) auto
    qed
    show ?thesis
      unfolding if_not_P [OF False] Let_def
      by (intro hoare_if w quiet) (use False in \<open>auto simp: sync_plan_def Let_def\<close>)
  qed
qed

lemma sync_hoare:
  fixes env :: "'e vault_env_scheme"
  shows "hoare (sent cs) (sync_total_assets (tamed env) p) (sync_post env p cs) (sent cs)"
proof -
  have quiet: "hoare (sent cs) (ret r) (sync_post env p cs) (sent cs)" if "synced_as env p r []" for r
  proof (rule hoare_pre [OF hoare_ret])
    fix s assume "sent cs s"
    with that show "sync_post env p cs r s" by (auto simp: sync_post_def intro!: exI [of _ "[]"])
  qed
  have pool: "gives (get_pool (tamed env) i) (pool_read env i)" for i
    by (rule gives_mono [OF gives_get_pool]) (simp add: pool_read_def)
  have bytes: "gives (liftE (pool_bytes p)) (\<lambda>i. pool_bytes p = Inr i)"
    by (rule gives_liftE)
  have seed: "gives (in_thread (tamed env) (get_seeded_assets (tamed env) i True)) (seed_read env i)" for i
    by (rule gives_in_thread [OF gives_mono [OF gives_seeded]]) (simp add: seed_read_def)
  have gross: "gives (external_and_idle (tamed env) st) (gross_read st)" for st
    by (rule gives_external_and_idle)
  show ?thesis
    unfolding sync_total_assets_def tamed_fields Let_def
    by (rule synced_writes [unfolded Let_def] read_then [OF keeps_liftE bytes] read_then [OF silent.pool_reads(1) pool]
        read_then [OF keeps_tryA [OF silent.strategy_reads(4)] gives_tryA [OF gross]]
        read_then [OF silent.thread [OF silent.seeded_read] seed] hoare_if hoare_sum refl | assumption
        | (rule quiet, auto simp: synced_as_def)[1] | (simp; fail))+
qed

lemma sync_run:
  fixes env :: "'e vault_env_scheme"
  assumes "calm_earn env" and "sync_total_assets env p s = (r, s')"
  shows "(\<exists>e. r = Inl e \<and> vs_calls s' = vs_calls s)
    \<or> (\<exists>v new. r = Inr v \<and> vs_calls s' = vs_calls s @ new \<and> synced_as env p v new)"
  using sync_hoare [of "vs_calls s" env p] tamed_calm [OF assms(1)] assms(2)
  unfolding hoare_def sync_post_def by (cases r) auto

text \<open>C18: syncing a pool refines the plan of its readings. Without an error it sends a prefix of the
  plan's calls, and it confirms a figure only after all of them, the figure of the plan; when the
  readings say that the pool lost more than a hundredth, nothing is sent and nothing confirmed. An
  error leaves the contract alone.\<close>

theorem sync_refines_plan:
  fixes env :: "'e vault_env_scheme"
  assumes "calm_earn env" and "sync_total_assets env p s = (r, s')"
  shows "case r of
      Inl _ \<Rightarrow> vs_calls s' = vs_calls s
    | Inr v \<Rightarrow> \<exists>new. vs_calls s' = vs_calls s @ new \<and> synced_as env p v new"
  using sync_run [OF assms] by auto

lemma sync_plan_bounds:
  assumes "sync_plan i on_chain gross seeded shares = Some (cs, v)" and "CallSync j t \<in> set cs"
  shows "j = i \<and> (t = 0 \<and> 0 < seeded \<and> shares = 0
    \<or> t = net_of_seed gross seeded shares \<and> (on_chain \<le> t \<or> 99 * on_chain \<le> 100 * t))"
  using assms by (auto simp: sync_plan_def Let_def SYNC_MAX_DROP_BPS_def split: if_splits)

text \<open>C19: whatever the strategy and the node answer, a sync never writes a figure more than a
  hundredth below what the contract had, unless the pool has no shares and only its seed is left; a
  figure is what the strategy and the pool account held less the seed, and never negative in a
  seeded pool.\<close>

theorem sync_drop_bounded:
  fixes env :: "'e vault_env_scheme"
  assumes "calm_earn env" and "sync_total_assets env p s = (r, s')"
    and "vs_calls s' = vs_calls s @ new" and "CallSync i t \<in> set new"
  shows "\<exists>before after gross seeded. pool_read env i before \<and> pool_read env i after
    \<and> gross_read (ve_strategy env p) gross \<and> seed_read env i seeded
    \<and> (t = 0 \<and> 0 < seeded \<and> ps_shares after = 0
       \<or> t = net_of_seed gross seeded (ps_shares after)
         \<and> (ps_assets before \<le> t \<or> 99 * ps_assets before \<le> 100 * t))
    \<and> (seeded \<noteq> 0 \<longrightarrow> 0 \<le> t)"
proof -
  obtain v where r: "r = Inr v" and "synced_as env p v new"
    using sync_run [OF assms(1,2)] assms(3,4) by auto
  then obtain j before after gross seeded cs w
    where ev: "pool_read env j before" "pool_read env j after" "gross_read (ve_strategy env p) gross"
      "seed_read env j seeded"
    and plan: "sync_plan j (ps_assets before) gross seeded (ps_shares after) = Some (cs, w)" and "prefix new cs"
    using assms(4) unfolding synced_as_def by (auto split: if_splits option.splits)
  then have "CallSync i t \<in> set cs" using assms(4) set_mono_prefix by blast
  from sync_plan_bounds [OF plan this]
  have "i = j" and t: "t = 0 \<and> 0 < seeded \<and> ps_shares after = 0
       \<or> t = net_of_seed gross seeded (ps_shares after)
         \<and> (ps_assets before \<le> t \<or> 99 * ps_assets before \<le> 100 * t)" by auto
  moreover have "seeded \<noteq> 0 \<longrightarrow> 0 \<le> t" using t by (auto simp: net_of_seed_def)
  ultimately show ?thesis using ev by blast
qed

text \<open>A pool that grew by fifty, and one that lost a tenth.\<close>

definition grown :: worker_env where
  "grown = demo_worker\<lparr>ve_strategy := (\<lambda>_. demo_strategy\<lparr>st_total := (\<lambda>_. Inr 650)\<rparr>)\<rparr>"

lemma grown_run:
  "fst (sync_total_assets grown ''0x01'' (demo_vst [])) = Inr (Some 1050)"
  "vs_calls (snd (sync_total_assets grown ''0x01'' (demo_vst []))) = [CallSync [1] 1050]"
  by (simp_all add: grown_def Let_def run_vault demo_vst_def cong: lazy_steps)

lemma grown_calm: "calm_earn grown"
  by (simp add: grown_def calm_earn_def demo_fields calm_db_def)

theorem sync_refines_plan_witness:
  "synced_as grown ''0x01'' (Some 1050) [CallSync [1] 1050]"
proof -
  obtain r s' where run: "sync_total_assets grown ''0x01'' (demo_vst []) = (r, s')" by fastforce
  with grown_run have "r = Inr (Some 1050)" "vs_calls s' = vs_calls (demo_vst []) @ [CallSync [1] 1050]"
    by (simp_all add: demo_vst_def)
  with sync_refines_plan [OF grown_calm run] show ?thesis by auto
qed

theorem sync_drop_bounded_witness:
  "\<exists>before. pool_read grown [1] before \<and> (ps_assets before \<le> 1050 \<or> 99 * ps_assets before \<le> 100 * 1050)"
proof -
  obtain r s' where run: "sync_total_assets grown ''0x01'' (demo_vst []) = (r, s')" by fastforce
  with grown_run have "vs_calls s' = vs_calls (demo_vst []) @ [CallSync [1] 1050]"
    by (simp_all add: demo_vst_def)
  from sync_drop_bounded [OF grown_calm run this, of "[1]" 1050] show ?thesis by auto
qed

end
