(* ===== verification/VaultCalls.thy ===== *)
theory VaultCalls
  imports VaultInv
begin

text \<open>
  When a deposit or a withdrawal reaches the contract, and what netting a pool moves.
\<close>

section \<open>A pool that is not being moved\<close>

text \<open>While an operation holds its pool's lock the idle deployer does not start moving the pool: the
  other tasks leave the pool's funds in place, and what they put in the cache of healthy strategies
  comes from an answer. A monotonic clock is never negative.\<close>

definition sound_cache :: "'e vault_env_scheme \<Rightarrow> vst \<Rightarrow> bool" where
  "sound_cache env s \<longleftrightarrow> (\<forall>x\<in>set (vs_healthy s). healthy_once env (fst x))"

definition still :: "'e vault_env_scheme \<Rightarrow> string \<Rightarrow> vault_call list \<Rightarrow> vst \<Rightarrow> bool" where
  "still env p cs s \<longleftrightarrow> vs_calls s = cs \<and> \<not> moving p s \<and> sound_cache env s"

definition calm_pool :: "'e vault_env_scheme \<Rightarrow> string \<Rightarrow> bool" where
  "calm_pool env p \<longleftrightarrow> calm_earn env \<and> (\<forall>n. 0 \<le> ee_clock env n)
     \<and> (\<forall>n s. \<not> moving p s \<longrightarrow> \<not> moving p (ee_other env n s))
     \<and> (\<forall>n s. sound_cache env s \<longrightarrow> sound_cache env (ee_other env n s))"

text \<open>The environment with the writes that are not calm left out.\<close>

definition stilled :: "string \<Rightarrow> 'e vault_env_scheme \<Rightarrow> 'e vault_env_scheme" where
  "stilled p env = tamed env\<lparr>ee_other := (\<lambda>n s. let s' = ee_other (tamed env) n s in
     if (moving p s' \<longrightarrow> moving p s) \<and> (sound_cache env s \<longrightarrow> sound_cache env s') then s' else s),
     ee_clock := (\<lambda>n. max 0 (ee_clock env n))\<rparr>"

lemma stilled_fields [simp]:
  "ve_strategy (stilled p env) = ve_strategy env" "ve_pool (stilled p env) = ve_pool env"
  "ve_seeded (stilled p env) = ve_seeded env" "ve_settings (stilled p env) = ve_settings env"
  by (simp_all add: stilled_def)

lemma sound_cache_stilled [simp]: "sound_cache (stilled p env) = sound_cache env"
  by (simp add: sound_cache_def healthy_once_def fun_eq_iff)

lemma stilled_calm: "calm_pool env p \<Longrightarrow> stilled p env = env"
proof -
  assume calm: "calm_pool env p"
  then have "(\<lambda>n s. let s' = ee_other (tamed env) n s in
      if (moving p s' \<longrightarrow> moving p s) \<and> (sound_cache env s \<longrightarrow> sound_cache env s') then s' else s) = ee_other env"
    by (auto simp: calm_pool_def tamed_calm Let_def fun_eq_iff)
  moreover have "(\<lambda>n. max 0 (ee_clock env n)) = ee_clock env"
    using calm by (auto simp: calm_pool_def fun_eq_iff max_def)
  ultimately show ?thesis
    using calm by (simp add: stilled_def calm_pool_def tamed_calm)
qed

lemma calm_stilled: "calm_pool (stilled p env) p"
proof -
  have "calm_earn (tamed env)" by (rule calm_tamed)
  then show ?thesis
    by (auto simp: calm_pool_def calm_earn_def stilled_def Let_def calm_db_def sound_cache_def healthy_once_def)
qed

text \<open>A pool that is still stays still, whatever is read, written in rows or sent.\<close>

lemma moving_writes [simp]:
  "moving p (s\<lparr>vs_tick := n\<rparr>) = moving p s" "moving p (s\<lparr>vs_locks := ps\<rparr>) = moving p s"
  "moving p (s\<lparr>vs_seed := sd\<rparr>) = moving p s" "moving p (s\<lparr>vs_healthy := hs\<rparr>) = moving p s"
  "moving p (s\<lparr>vs_current := c\<rparr>) = moving p s" "moving p (s\<lparr>vs_db := d\<rparr>) = moving p s"
  "moving p (s\<lparr>vs_calls := cs\<rparr>) = moving p s" "moving p (s\<lparr>vs_submitted := os\<rparr>) = moving p s"
  by (simp_all add: moving_def)

lemma sound_cache_writes [simp]:
  "sound_cache env (s\<lparr>vs_tick := n\<rparr>) = sound_cache env s" "sound_cache env (s\<lparr>vs_locks := ps\<rparr>) = sound_cache env s"
  "sound_cache env (s\<lparr>vs_seed := sd\<rparr>) = sound_cache env s"
  "sound_cache env (s\<lparr>vs_current := c\<rparr>) = sound_cache env s" "sound_cache env (s\<lparr>vs_db := d\<rparr>) = sound_cache env s"
  "sound_cache env (s\<lparr>vs_calls := cs\<rparr>) = sound_cache env s"
  "sound_cache env (s\<lparr>vs_submitted := os\<rparr>) = sound_cache env s"
  by (simp_all add: sound_cache_def)

lemma sound_cache_healthy:
  "sound_cache env s \<Longrightarrow> \<forall>x\<in>set hs. x \<in> set (vs_healthy s) \<or> healthy_once env (fst x) \<Longrightarrow>
   sound_cache env (s\<lparr>vs_healthy := hs\<rparr>)"
  by (auto simp: sound_cache_def)

lemma still_pool: "calm_pool env p \<Longrightarrow> own_calls env (\<lambda>s. \<not> moving p s \<and> sound_cache env s)"
  by unfold_locales (auto simp: calm_pool_def intro: sound_cache_healthy)

lemma still_reads: "calm_pool env p \<Longrightarrow> own_state env (still env p cs)"
  by unfold_locales (auto simp: calm_pool_def calm_earn_def still_def intro: sound_cache_healthy)

interpretation quiet: own_calls "stilled p env" "\<lambda>s. \<not> moving p s \<and> sound_cache (stilled p env) s" for p env
  by (rule still_pool) (rule calm_stilled)

interpretation still: own_state "stilled p env" "still (stilled p env) p cs" for p env cs
  by (rule still_reads) (rule calm_stilled)

lemmas still_keeps = still.query still.clocks still.awaits still.thread still.memory still.pool_reads
  still.strategy_reads still.health_read still.seeded_read still.valuations still.answers still.progress_steps
  still.ask still.pause

lemma still_rows: "keeps (still env p cs) (on_earns f)"
  by (rule keepsI) (simp add: on_earns_def act_simps still_def)

lemma still_updates:
  fixes env :: "'e vault_env_scheme"
  shows "keeps (still (stilled p env) p cs) (update_transaction (stilled p env) op f st up)"
    and "keeps (still (stilled p env) p cs) (record_transaction (stilled p env) oper q u t a sg n sig c sid)"
proof -
  show *: "keeps (still (stilled p env) p cs) (update_transaction (stilled p env) op f st up)" for op f st up
    unfolding update_transaction_def by (intro kept still_keeps still_rows)
  show "keeps (still (stilled p env) p cs) (record_transaction (stilled p env) oper q u t a sg n sig c sid)"
    unfolding record_transaction_def by (intro kept still_keeps still_rows *)
qed

lemma still_sync:
  fixes env :: "'e vault_env_scheme"
  shows "hoare (still (stilled p env) p cs) (sync_total_assets (stilled p env) p)
     (\<lambda>r s. \<exists>new. synced_as env p r new \<and> still (stilled p env) p (cs @ new) s) (still (stilled p env) p cs)"
  unfolding hoare_def
proof (intro allI impI)
  fix s assume s: "still (stilled p env) p cs s"
  obtain r s' where run: "sync_total_assets (stilled p env) p s = (r, s')" by fastforce
  have "\<not> moving p s' \<and> sound_cache (stilled p env) s'"
    using keepsD [OF quiet.syncs, of p s env p] s run by (simp add: still_def)
  moreover have "calm_earn (stilled p env)"
    using calm_stilled [of p env] by (simp add: calm_pool_def)
  from sync_run [OF this run]
  have "(\<exists>e. r = Inl e \<and> vs_calls s' = vs_calls s)
      \<or> (\<exists>v new. r = Inr v \<and> vs_calls s' = vs_calls s @ new \<and> synced_as env p v new)"
    by (simp add: synced_as_def pool_read_def seed_read_def cong: if_cong)
  ultimately show "case sync_total_assets (stilled p env) p s of
      (Inl e, s') \<Rightarrow> still (stilled p env) p cs s'
    | (Inr r, s') \<Rightarrow> \<exists>new. synced_as env p r new \<and> still (stilled p env) p (cs @ new) s'"
    using run s by (auto simp: still_def)
qed

lemma still_submits:
  fixes env :: "'e vault_env_scheme"
  shows "hoare (still (stilled p env) p cs) (settle_call (stilled p env) op q a c)
     (\<lambda>_. still (stilled p env) p (cs @ [c])) (still (stilled p env) p (cs @ [c]))"
proof -
  have noted: "hoare (still (stilled p env) p cs) (seqA (note_submission op c) (vask f))
      (\<lambda>_. still (stilled p env) p (cs @ [c])) (still (stilled p env) p (cs @ [c]))" for f :: "nat \<Rightarrow> exc + string"
    by (auto simp: hoare_def note_submission_def note_call_def act_eqs vask_def still_def
        split: sum.splits)
  have "hoare (still (stilled p env) p cs) (in_thread (stilled p env) (seqA (note_submission op c) (vask f)))
      (\<lambda>_. still (stilled p env) p (cs @ [c])) (still (stilled p env) p (cs @ [c]))" for f :: "nat \<Rightarrow> exc + string"
    unfolding in_thread_def by (rule then_keeps [OF hoare_tryA [OF noted]]) (auto intro!: kept still.pause)
  then have "hoare (still (stilled p env) p cs) (submit_and_settle (stilled p env) op c)
      (\<lambda>_. still (stilled p env) p (cs @ [c])) (still (stilled p env) p (cs @ [c]))"
    unfolding submit_and_settle_def by (rule then_keeps) (intro kept still_keeps still_updates)
  then show ?thesis
    unfolding settle_call_def
    by (intro then_keeps [OF hoare_tryA] kept still_updates)
qed

section \<open>Deposits fail closed\<close>

lemma gives_healthy:
  fixes env :: "'e vault_env_scheme"
  shows "hoare (still (stilled p env) p cs) (strategy_healthy (stilled p env) p)
    (\<lambda>h s. (h \<longrightarrow> healthy_once env (pool_key p)) \<and> still (stilled p env) p cs s) (still (stilled p env) p cs)"
proof -
  let ?J = "still (stilled p env) p cs"
  have cached: "hoare ?J (getA (\<lambda>s. map_of (vs_healthy s) (pool_key p)))
      (\<lambda>c s. (c \<noteq> None \<longrightarrow> healthy_once env (pool_key p)) \<and> ?J s) ?J"
    by (rule hoare_pre [OF hoare_getA])
      (auto simp: still_def sound_cache_def healthy_once_def dest!: map_of_SomeD, fastforce)
  have answered: "hoare ?J (if h
       then bindA (vclock (stilled p env)) (\<lambda>again.
         seqA (modifyA (\<lambda>s. s\<lparr>vs_healthy := (pool_key p, again + HEALTH_CACHE_SEC) # vs_healthy s\<rparr>)) (ret True))
       else seqA (modifyA (\<lambda>s. s\<lparr>vs_healthy := filter (\<lambda>x. fst x \<noteq> pool_key p) (vs_healthy s)\<rparr>)) (ret False))
      (\<lambda>h s. (h \<longrightarrow> healthy_once env (pool_key p)) \<and> ?J s) ?J"
    if h: "\<exists>n. st_healthy (ve_strategy env p) n = Inr h" for h
  proof (cases h)
    case True
    with h have once: "healthy_once (stilled p env) (pool_key p)" "healthy_once env (pool_key p)"
      by (auto simp: healthy_once_def)
    have "hoare ?J (modifyA (\<lambda>s. s\<lparr>vs_healthy := (pool_key p, t) # vs_healthy s\<rparr>)) (\<lambda>_. ?J) ?J" for t
      unfolding keeps_hoare [symmetric] using once
      by (intro keeps_modifyA) (auto simp: still_def intro!: sound_cache_healthy)
    with True once show ?thesis
      by (auto intro!: keeps_then still.clocks hoare_seqA [where R = ?J] hoare_pre [OF hoare_ret])
  next
    case False
    have "hoare ?J (modifyA (\<lambda>s. s\<lparr>vs_healthy := filter (\<lambda>x. fst x \<noteq> pool_key p) (vs_healthy s)\<rparr>)) (\<lambda>_. ?J) ?J"
      unfolding keeps_hoare [symmetric]
      by (intro keeps_modifyA) (auto simp: still_def intro!: sound_cache_healthy)
    with False show ?thesis
      by (auto intro!: hoare_seqA [where R = ?J] hoare_pre [OF hoare_ret])
  qed
  have ask: "hoare ?J (bindA (vawait (stilled p env) (st_healthy (ve_strategy env p))) (\<lambda>healthy. if healthy
       then bindA (vclock (stilled p env)) (\<lambda>again.
         seqA (modifyA (\<lambda>s. s\<lparr>vs_healthy := (pool_key p, again + HEALTH_CACHE_SEC) # vs_healthy s\<rparr>)) (ret True))
       else seqA (modifyA (\<lambda>s. s\<lparr>vs_healthy := filter (\<lambda>x. fst x \<noteq> pool_key p) (vs_healthy s)\<rparr>)) (ret False)))
      (\<lambda>h s. (h \<longrightarrow> healthy_once env (pool_key p)) \<and> ?J s) ?J"
    by (rule read_then [OF still.awaits gives_vawait answered])
  have clock: "gives (vclock (stilled p env)) (\<lambda>now. 0 \<le> now)"
    by (simp add: gives_def vclock_def vask_def stilled_def)
  show ?thesis
    unfolding strategy_healthy_def stilled_fields
  proof (rule read_then [OF still.clocks(2) clock], rule hoare_bindA [OF cached], rule hoare_assume)
    fix now :: rat and c :: "rat option"
    assume "0 \<le> now" and "c \<noteq> None \<longrightarrow> healthy_once env (pool_key p)"
    then show "hoare ?J (if now < (case c of None \<Rightarrow> 0 | Some t \<Rightarrow> t) then ret True
        else bindA (vawait (stilled p env) (st_healthy (ve_strategy env p))) (\<lambda>healthy. if healthy
          then bindA (vclock (stilled p env)) (\<lambda>again.
            seqA (modifyA (\<lambda>s. s\<lparr>vs_healthy := (pool_key p, again + HEALTH_CACHE_SEC) # vs_healthy s\<rparr>)) (ret True))
          else seqA (modifyA (\<lambda>s. s\<lparr>vs_healthy := filter (\<lambda>x. fst x \<noteq> pool_key p) (vs_healthy s)\<rparr>)) (ret False)))
        (\<lambda>h s. (h \<longrightarrow> healthy_once env (pool_key p)) \<and> ?J s) ?J"
      by (intro hoare_if ask hoare_pre [OF hoare_ret]) (auto split: option.splits)
  qed
qed

lemma healthy_then:
  fixes env :: "'e vault_env_scheme"
  assumes "\<And>h. h \<longrightarrow> healthy_once env (pool_key p) \<Longrightarrow> hoare (still (stilled p env) p cs) (f h) Q E"
    and "\<And>s. still (stilled p env) p cs s \<Longrightarrow> E s"
  shows "hoare (still (stilled p env) p cs) (bindA (strategy_healthy (stilled p env) p) f) Q E"
  by (rule hoare_bindA [OF hoare_post [OF gives_healthy]], assumption, rule assms(2), assumption,
      rule hoare_assume, rule assms(1))

text \<open>The calls of an operation on a still pool, with what is known of them.\<close>

definition sends :: "'e vault_env_scheme \<Rightarrow> string \<Rightarrow> vault_call list \<Rightarrow> (vault_call list \<Rightarrow> bool) \<Rightarrow> vst \<Rightarrow> bool" where
  "sends env p cs D s \<longleftrightarrow> (\<exists>new. D new \<and> still env p (cs @ new) s)"

lemma sendsI: "D new \<Longrightarrow> still env p (cs @ new) s \<Longrightarrow> sends env p cs D s"
  by (auto simp: sends_def)

lemma sends_nothing: "D [] \<Longrightarrow> still env p cs s \<Longrightarrow> sends env p cs D s"
  by (rule sendsI [of D "[]"]) simp_all

lemma keeps_sends:
  assumes "\<And>new. keeps (still env p new) m"
  shows "keeps (sends env p cs D) m"
  using assms by (auto simp: keeps_def sends_def)

lemma sends_locked:
  fixes env :: "'e vault_env_scheme"
  assumes "D []" and m: "hoare (still (stilled p env) p cs) m (\<lambda>_. sends (stilled p env) p cs D) (sends (stilled p env) p cs D)"
    and f: "\<And>x new. keeps (still (stilled p env) p new) (f x)"
  shows "hoare (still (stilled p env) p cs) (bindA (pool_lock (stilled p env) p m) f)
     (\<lambda>_. sends (stilled p env) p cs D) (sends (stilled p env) p cs D)"
proof -
  have "keeps (sends (stilled p env) p cs D) (modifyA (\<lambda>s. s\<lparr>vs_locks := h s\<rparr>))" for h
    by (rule keeps_sends) (rule still.memory)
  then have "hoare (still (stilled p env) p cs) (pool_lock (stilled p env) p m)
      (\<lambda>_. sends (stilled p env) p cs D) (sends (stilled p env) p cs D)"
    unfolding pool_lock_def
    by (intro keeps_then' still.pause still.memory then_keeps [OF hoare_tryA [OF m]] kept)
      (auto intro: sends_nothing assms(1))
  then show ?thesis
    by (rule then_keeps) (rule keeps_sends [OF f])
qed

text \<open>A deposit call stands alone at the end of a sync that confirmed a figure.\<close>

definition deposit_evidence ::
  "'e vault_env_scheme \<Rightarrow> string \<Rightarrow> string \<Rightarrow> string \<Rightarrow> nat \<Rightarrow> string \<Rightarrow> vault_call list \<Rightarrow> bool" where
  "deposit_evidence env p u am n sig new \<longleftrightarrow>
     (\<forall>i w k m sg. CallDeposit i w k m sg \<notin> set new)
     \<or> (\<exists>vals v i pool k sg. new = vals @ [CallDeposit i u k n sg] \<and> synced_as env p (Some v) vals
          \<and> validate_amount am ''amount'' = Inr () \<and> amount_of am = Inr k \<and> pool_bytes p = Inr i
          \<and> sig_bytes sig = Inr sg \<and> pool_read env i pool \<and> open_pool pool = Inr ()
          \<and> assert_pool_custody env pool = Inr () \<and> healthy_once env (pool_key p))"

lemma plan_calls:
  "sync_plan i on_chain gross seeded shares = Some (cs, v) \<Longrightarrow> c \<in> set cs \<Longrightarrow> \<exists>j t. c = CallSync j t \<or> c = CallSetSeeded j t"
  by (auto simp: sync_plan_def Let_def split: if_splits)

lemma synced_calls:
  assumes "synced_as env p r new" and "c \<in> set new"
  shows "\<exists>j t. c = CallSync j t \<or> c = CallSetSeeded j t"
proof -
  from assms obtain i on_chain gross seeded shares cs v
    where plan: "sync_plan i on_chain gross seeded shares = Some (cs, v)" and "prefix new cs"
    unfolding synced_as_def by (auto split: if_splits option.splits)
  then have "c \<in> set cs" using assms(2) set_mono_prefix by blast
  with plan show ?thesis by (rule plan_calls)
qed

lemma synced_no_user_call:
  assumes "synced_as env p r new"
  shows "CallDeposit i w k m sg \<notin> set new" and "CallWithdraw i k m sg pn psg \<notin> set new"
  using synced_calls [OF assms] by blast+

lemma then_submits:
  fixes env :: "'e vault_env_scheme"
  assumes "D (vals @ [c])" and "D vals" and "\<And>x new. keeps (still (stilled p env) p new) (f x)"
  shows "hoare (still (stilled p env) p (cs @ vals)) (bindA (settle_call (stilled p env) op q a c) f)
     (\<lambda>_. sends (stilled p env) p cs D) (sends (stilled p env) p cs D)"
proof (rule then_keeps)
  show "hoare (still (stilled p env) p (cs @ vals)) (settle_call (stilled p env) op q a c)
     (\<lambda>_. sends (stilled p env) p cs D) (sends (stilled p env) p cs D)"
    by (rule hoare_post [OF still_submits]) (rule sendsI [where D = D, OF assms(1)], simp, rule sendsI [where D = D, OF assms(1)], simp)
qed (rule keeps_sends [OF assms(3)])

lemma not_moving:
  "(\<And>s. still env p cs s \<Longrightarrow> E s) \<Longrightarrow> hoare (still env p cs) (f False) Q E \<Longrightarrow>
   hoare (still env p cs) (bindA (getA (moving p)) f) Q E"
  by (auto simp: hoare_def act_eqs still_def)

lemma deposit_calls:
  fixes env :: "'e vault_env_scheme"
  shows "hoare (still (stilled p env) p cs) (deposit (stilled p env) p u am n sig sid)
     (\<lambda>_. sends (stilled p env) p cs (deposit_evidence env p u am n sig))
     (sends (stilled p env) p cs (deposit_evidence env p u am n sig))"
proof -
  let ?e = "stilled p env" and ?D = "deposit_evidence env p u am n sig"
  let ?J = "still ?e p cs" and ?S = "sends ?e p cs ?D"
  have none: "?D []" by (simp add: deposit_evidence_def)
  have start: "?S s" if "?J s" for s by (rule sends_nothing [where D = ?D, OF none that])
  have refused: "hoare ?J (throw e) Q ?S" for e and Q :: "'x \<Rightarrow> vst \<Rightarrow> bool"
    by (rule hoare_pre [OF hoare_throw]) (rule start)
  have custody: "assert_pool_custody ?e = assert_pool_custody env"
    by (simp add: assert_pool_custody_def fun_eq_iff)
  have body: "hoare ?J
      (bindA (getA (moving p)) (\<lambda>busy.
       bindA (if busy then ret (Some 0) else sync_total_assets ?e p) (\<lambda>synced.
       if synced = None then throw (ValueError msg)
       else bindA (record_transaction ?e OpDeposit p u t k u n sig None sid) (\<lambda>op_id.
         seqA (progress_update ?e RECORDING None)
         (bindA (settle_call ?e op_id p k (CallDeposit i u k n sg)) (\<lambda>outcome.
          case outcome of Inl answer \<Rightarrow> ret (Inl answer)
          | Inr hash \<Rightarrow>
              seqA (update_transaction ?e op_id (\<lambda>r. r\<lparr>ea_tx_hash := Some hash\<rparr>) (Some EarnCompleted) None)
              (ret (Inr (op_id, hash)))))))))
      (\<lambda>_. ?S) ?S"
    if ev: "validate_amount am ''amount'' = Inr ()" "amount_of am = Inr k" "pool_bytes p = Inr i" "sig_bytes sig = Inr sg"
      "pool_read env i pool" "open_pool pool = Inr ()" "assert_pool_custody env pool = Inr ()"
      "healthy_once env (pool_key p)" for i k sg t msg and pool :: pool_state
  proof (rule not_moving, erule start, unfold if_False, 
      rule hoare_bindA [where R = "\<lambda>r s. \<exists>new. synced_as env p r new \<and> still ?e p (cs @ new) s"])
    show "hoare ?J (sync_total_assets ?e p) (\<lambda>r s. \<exists>new. synced_as env p r new \<and> still ?e p (cs @ new) s) ?S"
      by (rule hoare_post [OF still_sync]) (auto intro: start)
  next
    fix synced
    show "hoare (\<lambda>s. \<exists>new. synced_as env p synced new \<and> still ?e p (cs @ new) s)
      (if synced = None then throw (ValueError msg)
       else bindA (record_transaction ?e OpDeposit p u t k u n sig None sid) (\<lambda>op_id.
         seqA (progress_update ?e RECORDING None)
         (bindA (settle_call ?e op_id p k (CallDeposit i u k n sg)) (\<lambda>outcome.
          case outcome of Inl answer \<Rightarrow> ret (Inl answer)
          | Inr hash \<Rightarrow>
              seqA (update_transaction ?e op_id (\<lambda>r. r\<lparr>ea_tx_hash := Some hash\<rparr>) (Some EarnCompleted) None)
              (ret (Inr (op_id, hash)))))))
      (\<lambda>_. ?S) ?S"
    proof (rule hoare_ex, rule hoare_assume)
      fix vals assume vals: "synced_as env p synced vals"
      have quiet: "?D vals" using synced_no_user_call(1) [OF vals] by (auto simp: deposit_evidence_def)
      have S: "?S s" if "still ?e p (cs @ vals) s" for s by (rule sendsI [where D = ?D, OF quiet that])
      show "hoare (still ?e p (cs @ vals)) (if synced = None then throw (ValueError msg)
       else bindA (record_transaction ?e OpDeposit p u t k u n sig None sid) (\<lambda>op_id.
         seqA (progress_update ?e RECORDING None)
         (bindA (settle_call ?e op_id p k (CallDeposit i u k n sg)) (\<lambda>outcome.
          case outcome of Inl answer \<Rightarrow> ret (Inl answer)
          | Inr hash \<Rightarrow>
              seqA (update_transaction ?e op_id (\<lambda>r. r\<lparr>ea_tx_hash := Some hash\<rparr>) (Some EarnCompleted) None)
              (ret (Inr (op_id, hash))))))) (\<lambda>_. ?S) ?S"
      proof (rule hoare_if)
        assume "synced \<noteq> None"
        then have full: "?D (vals @ [CallDeposit i u k n sg])"
          using vals ev unfolding deposit_evidence_def by auto
        show "hoare (still ?e p (cs @ vals)) (bindA (record_transaction ?e OpDeposit p u t k u n sig None sid) (\<lambda>op_id.
         seqA (progress_update ?e RECORDING None)
         (bindA (settle_call ?e op_id p k (CallDeposit i u k n sg)) (\<lambda>outcome.
          case outcome of Inl answer \<Rightarrow> ret (Inl answer)
          | Inr hash \<Rightarrow>
              seqA (update_transaction ?e op_id (\<lambda>r. r\<lparr>ea_tx_hash := Some hash\<rparr>) (Some EarnCompleted) None)
              (ret (Inr (op_id, hash))))))) (\<lambda>_. ?S) ?S"
          by (intro keeps_then [OF still_updates(2)] keeps_then' [OF still.progress_steps(1)]
              then_submits [where D = ?D, OF full quiet] kept still_updates S)
      qed (rule hoare_pre [OF hoare_throw], rule S)
    qed
  qed
  have pool: "gives (get_pool ?e i) (pool_read env i)" for i
    by (rule gives_mono [OF gives_get_pool]) (simp add: pool_read_def)
  have known: "gives (liftE x) (\<lambda>a. x = Inr a)" for x :: "exc + 'x"
    by (rule gives_liftE)
  show ?thesis
    unfolding deposit_def seqA_def [of "liftE x" for x] custody
    apply (rule read_then [OF keeps_liftE known], rule read_then [OF keeps_liftE known], rule read_then [OF keeps_liftE known],
        rule read_then [OF keeps_liftE known], rule read_then [OF still.pool_reads(1) pool],
        rule read_then [OF keeps_liftE known], rule read_then [OF keeps_liftE known], rule healthy_then,
        rule hoare_if, rule refused, rule read_then [OF keeps_liftE known], rule read_then [OF keeps_liftE known],
        rule sends_locked [where D = ?D, OF none body])
    by (simp_all add: start) (intro kept still.answers)
qed


section \<open>Withdrawals are paid from the pool account\<close>

text \<open>What the pool account holds, at some reading; a manual pool has no strategy to read.\<close>

definition account_covers :: "strategy \<Rightarrow> int \<Rightarrow> bool" where
  "account_covers st k \<longleftrightarrow> st_name st = ''manual'' \<and> k \<le> 2 ^ 256 \<or> (\<exists>n idle. st_idle st n = Inr idle \<and> k \<le> idle)"

definition withdraw_evidence ::
  "'e vault_env_scheme \<Rightarrow> string \<Rightarrow> string \<Rightarrow> nat \<Rightarrow> string \<Rightarrow> vault_call list \<Rightarrow> bool" where
  "withdraw_evidence env p am n sig new \<longleftrightarrow>
     (\<forall>i k m sg pn psg. CallWithdraw i k m sg pn psg \<notin> set new)
     \<or> (\<exists>vals v i pool k sg pn psg. new = vals @ [CallWithdraw i k n sg pn psg] \<and> synced_as env p v vals
          \<and> (v = None \<longrightarrow> seed_read env i 0)
          \<and> validate_amount am ''amount'' = Inr () \<and> amount_of am = Inr k \<and> pool_bytes p = Inr i
          \<and> sig_bytes sig = Inr sg \<and> pool_read env i pool
          \<and> assert_pool_custody env pool = Inr () \<and> (0 < k \<longrightarrow> account_covers (ve_strategy env p) k))"

lemma payout_covers:
  fixes env :: "'e vault_env_scheme"
  shows "hoare (still (stilled p env) p cs) (withdrawal_payable (stilled p env) p k)
    (\<lambda>b s. (b \<longrightarrow> 0 < k \<longrightarrow> account_covers (ve_strategy env p) k) \<and> still (stilled p env) p cs s)
    (still (stilled p env) p cs)"
proof -
  let ?J = "still (stilled p env) p cs" and ?st = "ve_strategy env p"
  let ?cap = "\<lambda>c. \<forall>k. k \<le> c \<longrightarrow> 0 < k \<longrightarrow> account_covers ?st k"
  have held: "hoare ?J (bindA (getA (held_of p)) (\<lambda>held. ret (idle - held))) (\<lambda>c s. ?cap c \<and> ?J s) ?J"
    if "\<exists>n. st_idle ?st n = Inr idle" for idle
    using that by (auto simp: hoare_def act_eqs still_def moving_def held_of_def account_covers_def)
  have failed: "hoare ?J (ret 0) (\<lambda>c s. ?cap c \<and> ?J s) ?J"
    by (rule hoare_pre [OF hoare_ret]) simp
  have "hoare ?J (case read of Inl _ \<Rightarrow> ret 0 | Inr idle \<Rightarrow> bindA (getA (held_of p)) (\<lambda>held. ret (idle - held)))
      (\<lambda>c s. ?cap c \<and> ?J s) ?J" if "\<forall>x. read = Inr x \<longrightarrow> (\<exists>n. st_idle ?st n = Inr x)" for read :: "exc + int"
    using that by (cases read) (auto intro!: failed held)
  then have "hoare ?J (bindA (tryA (vawait (stilled p env) (st_idle ?st))) (\<lambda>read.
      case read of Inl _ \<Rightarrow> ret 0 | Inr idle \<Rightarrow> bindA (getA (held_of p)) (\<lambda>held. ret (idle - held))))
      (\<lambda>c s. ?cap c \<and> ?J s) ?J"
    by (rule read_then [OF keeps_tryA [OF still.awaits] gives_tryA [OF gives_vawait]])
  then have "hoare ?J (payout_capacity (stilled p env) p) (\<lambda>c s. ?cap c \<and> ?J s) ?J"
    unfolding payout_capacity_def Let_def stilled_fields
    by (intro hoare_if hoare_pre [OF hoare_ret]) (auto simp: account_covers_def)
  then show ?thesis
    unfolding withdrawal_payable_def
    by (rule hoare_bindA) (rule hoare_pre [OF hoare_ret], simp)
qed

lemma covered:
  fixes env :: "'e vault_env_scheme"
  shows "hoare (still (stilled p env) p cs) (withdraw_covered (stilled p env) p k)
    (\<lambda>_ s. (0 < k \<longrightarrow> account_covers (ve_strategy env p) k) \<and> still (stilled p env) p cs s)
    (still (stilled p env) p cs)"
  unfolding withdraw_covered_def
proof (rule hoare_bindA [OF payout_covers], rule hoare_assume, rule hoare_if)
  fix b assume "b \<longrightarrow> 0 < k \<longrightarrow> account_covers (ve_strategy env p) k" and b
  then show "hoare (still (stilled p env) p cs) (ret ())
      (\<lambda>_ s. (0 < k \<longrightarrow> account_covers (ve_strategy env p) k) \<and> still (stilled p env) p cs s)
      (still (stilled p env) p cs)"
    by (intro hoare_pre [OF hoare_ret]) simp
next
  show "hoare (still (stilled p env) p cs)
      (bindA (in_thread (stilled p env) (withdrawal_impossible (stilled p env) p k)) (\<lambda>impossible.
        if impossible then throw e else throw e'))
      (\<lambda>_ s. (0 < k \<longrightarrow> account_covers (ve_strategy env p) k) \<and> still (stilled p env) p cs s)
      (still (stilled p env) p cs)" for e e'
    by (intro keeps_then still.thread still.strategy_reads hoare_if hoare_throw) assumption
qed

lemma valued:
  fixes env :: "'e vault_env_scheme"
  shows "hoare (still (stilled p env) p cs) (withdraw_valued (stilled p env) p i)
    (\<lambda>_ s. \<exists>vals v. (synced_as env p v vals \<and> (v = None \<longrightarrow> seed_read env i 0)) \<and> still (stilled p env) p (cs @ vals) s)
    (\<lambda>s. \<exists>vals v. synced_as env p v vals \<and> still (stilled p env) p (cs @ vals) s \<or> still (stilled p env) p cs s)"
  (is "hoare ?J _ ?Q ?E")
  unfolding withdraw_valued_def
proof (rule not_moving, blast, unfold if_False simp_thms,
    rule hoare_bindA [where R = "\<lambda>v s. \<exists>new. synced_as env p v new \<and> still (stilled p env) p (cs @ new) s"])
  show "hoare ?J (sync_total_assets (stilled p env) p)
      (\<lambda>v s. \<exists>new. synced_as env p v new \<and> still (stilled p env) p (cs @ new) s) ?E"
    by (rule hoare_post [OF still_sync]) auto
  have seed: "gives (in_thread (stilled p env) (get_seeded_assets (stilled p env) i True)) (seed_read env i)"
    by (rule gives_in_thread [OF gives_mono [OF gives_seeded]]) (simp add: seed_read_def)
  fix v
  show "hoare (\<lambda>s. \<exists>new. synced_as env p v new \<and> still (stilled p env) p (cs @ new) s)
      (if v = None
       then bindA (in_thread (stilled p env) (get_seeded_assets (stilled p env) i True)) (\<lambda>seeded.
         if seeded \<noteq> 0 then throw (ValueError msg) else ret ())
       else ret ()) ?Q ?E" for msg
  proof (rule hoare_ex, rule hoare_assume, rule hoare_if)
    fix new assume new: "synced_as env p v new"
    then show "hoare (still (stilled p env) p (cs @ new)) (ret ()) ?Q ?E" if "v \<noteq> None"
      using that by (intro hoare_pre [OF hoare_ret]) blast
    show "hoare (still (stilled p env) p (cs @ new))
        (bindA (in_thread (stilled p env) (get_seeded_assets (stilled p env) i True)) (\<lambda>seeded.
           if seeded \<noteq> 0 then throw (ValueError msg) else ret ())) ?Q ?E" if "v = None"
      using new
      by (intro read_then [OF still.thread [OF still.seeded_read] seed] hoare_if hoare_pre [OF hoare_ret]
          hoare_pre [OF hoare_throw]) blast+
  qed
qed

lemma withdraw_calls:
  fixes env :: "'e vault_env_scheme"
  shows "hoare (still (stilled p env) p cs) (withdraw (stilled p env) p u am n sig sid)
     (\<lambda>_. sends (stilled p env) p cs (withdraw_evidence env p am n sig))
     (sends (stilled p env) p cs (withdraw_evidence env p am n sig))"
proof -
  let ?e = "stilled p env" and ?D = "withdraw_evidence env p am n sig"
  let ?J = "still ?e p cs" and ?S = "sends ?e p cs ?D"
  have none: "?D []" by (simp add: withdraw_evidence_def)
  have start: "?S s" if "?J s" for s by (rule sends_nothing [where D = ?D, OF none that])
  have refused: "hoare ?J (throw e) Q ?S" for e and Q :: "'x \<Rightarrow> vst \<Rightarrow> bool"
    by (rule hoare_pre [OF hoare_throw]) (rule start)
  have custody: "assert_pool_custody ?e = assert_pool_custody env"
    by (simp add: assert_pool_custody_def fun_eq_iff)
  have known: "gives (liftE x) (\<lambda>a. x = Inr a)" for x :: "exc + 'x"
    by (rule gives_liftE)
  have body: "hoare ?J
      (seqA (withdraw_valued ?e p i) (seqA (withdraw_covered ?e p k)
        (bindA (vawait ?e nonce) (\<lambda>pool_nonce.
          bindA (liftE (sig_bytes (psig pool_nonce))) (\<lambda>pool_sig.
          bindA (liftE (sig_bytes sig)) (\<lambda>user_sig.
          bindA (record_transaction ?e OpWithdraw p u t k pa pool_nonce (psig pool_nonce) consent sid) (\<lambda>op_id.
          seqA (progress_update ?e PAYING_OUT None)
          (bindA (settle_call ?e op_id p k (CallWithdraw i k n user_sig pool_nonce pool_sig)) (\<lambda>outcome.
           ret (case outcome of Inl answer \<Rightarrow> Inl answer | Inr hash \<Rightarrow> Inr (op_id, hash)))))))))))
      (\<lambda>_. ?S) ?S"
    if ev: "validate_amount am ''amount'' = Inr ()" "amount_of am = Inr k" "pool_bytes p = Inr i"
      "pool_read env i pool" "assert_pool_custody env pool = Inr ()"
    for i k t nonce consent pa and psig :: "nat \<Rightarrow> string" and pool :: pool_state
    unfolding seqA_def [of "withdraw_valued _ _ _"]
  proof (rule hoare_bindA, rule hoare_post [OF valued], assumption)
    fix s assume "\<exists>vals v. synced_as env p v vals \<and> still ?e p (cs @ vals) s \<or> ?J s"
    then show "?S s"
    proof (elim exE disjE conjE)
      fix vals v assume v: "synced_as env p v vals" and s: "still ?e p (cs @ vals) s"
      have "?D vals" using synced_no_user_call(2) [OF v] by (auto simp: withdraw_evidence_def)
      then show "?S s" using s by (rule sendsI)
    qed (rule start)
  next
    show "hoare (\<lambda>s. \<exists>vals v. (synced_as env p v vals \<and> (v = None \<longrightarrow> seed_read env i 0)) \<and> still ?e p (cs @ vals) s)
      (seqA (withdraw_covered ?e p k)
        (bindA (vawait ?e nonce) (\<lambda>pool_nonce.
          bindA (liftE (sig_bytes (psig pool_nonce))) (\<lambda>pool_sig.
          bindA (liftE (sig_bytes sig)) (\<lambda>user_sig.
          bindA (record_transaction ?e OpWithdraw p u t k pa pool_nonce (psig pool_nonce) consent sid) (\<lambda>op_id.
          seqA (progress_update ?e PAYING_OUT None)
          (bindA (settle_call ?e op_id p k (CallWithdraw i k n user_sig pool_nonce pool_sig)) (\<lambda>outcome.
           ret (case outcome of Inl answer \<Rightarrow> Inl answer | Inr hash \<Rightarrow> Inr (op_id, hash))))))))))
      (\<lambda>_. ?S) ?S"
    proof (rule hoare_ex, rule hoare_ex, rule hoare_assume)
      fix vals v assume v: "synced_as env p v vals \<and> (v = None \<longrightarrow> seed_read env i 0)"
      have quiet: "?D vals" using synced_no_user_call(2) [of env p v vals] v by (auto simp: withdraw_evidence_def)
      have S: "?S s" if "still ?e p (cs @ vals) s" for s by (rule sendsI [where D = ?D, OF quiet that])
      have full: "?D (vals @ [CallWithdraw i k n sg pn psg])"
        if "sig_bytes sig = Inr sg" "0 < k \<longrightarrow> account_covers (ve_strategy env p) k" for sg pn psg
        using v ev that unfolding withdraw_evidence_def by blast
      show "hoare (still ?e p (cs @ vals)) (seqA (withdraw_covered ?e p k)
        (bindA (vawait ?e nonce) (\<lambda>pool_nonce.
          bindA (liftE (sig_bytes (psig pool_nonce))) (\<lambda>pool_sig.
          bindA (liftE (sig_bytes sig)) (\<lambda>user_sig.
          bindA (record_transaction ?e OpWithdraw p u t k pa pool_nonce (psig pool_nonce) consent sid) (\<lambda>op_id.
          seqA (progress_update ?e PAYING_OUT None)
          (bindA (settle_call ?e op_id p k (CallWithdraw i k n user_sig pool_nonce pool_sig)) (\<lambda>outcome.
           ret (case outcome of Inl answer \<Rightarrow> Inl answer | Inr hash \<Rightarrow> Inr (op_id, hash))))))))))
        (\<lambda>_. ?S) ?S"
        unfolding seqA_def [of "withdraw_covered _ _ _"]
        by (rule hoare_bindA, rule hoare_post [OF covered], assumption, rule S, assumption, rule hoare_assume,
            intro keeps_then [OF still.awaits] read_then [OF keeps_liftE known] keeps_then [OF still_updates(2)]
              keeps_then' [OF still.progress_steps(1)] then_submits [where D = ?D, OF full quiet] kept S)
    qed
  qed
  have pool: "gives (get_pool ?e i) (pool_read env i)" for i
    by (rule gives_mono [OF gives_get_pool]) (simp add: pool_read_def)
  show ?thesis
    unfolding withdraw_def seqA_def [of "liftE x" for x] custody Let_def
    apply (rule read_then [OF keeps_liftE known], rule read_then [OF keeps_liftE known], rule read_then [OF keeps_liftE known],
        rule read_then [OF keeps_liftE known], rule read_then [OF still.pool_reads(1) pool], rule hoare_if, rule refused,
        rule read_then [OF keeps_liftE known], rule read_then [OF keeps_liftE known],
        rule sends_locked [where D = ?D, OF none body])
    by (simp_all add: start) (intro kept still.answers still_updates)
qed


section \<open>Concrete runs\<close>

lemma demo_calm: "calm_pool demo_worker ''0x01''"
  by (simp add: calm_pool_def calm_earn_def demo_fields calm_db_def)

lemma demo_start: "\<not> moving ''0x01'' (demo_vst [])" "sound_cache demo_worker (demo_vst [])" "vs_calls (demo_vst []) = []"
  by (simp_all add: moving_def demo_vst_def sound_cache_def)



end
