(* ===== verification/Netting.thy ===== *)
theory Netting
  imports VaultCalls
begin

text \<open>What one round of the idle deployer moves between a pool's account and its strategy.\<close>

section \<open>Withdrawals that wait\<close>

text \<open>During the round no withdrawal of the pool is requested, paid or given up.\<close>

definition waiting_is :: "string \<Rightarrow> int \<Rightarrow> vst \<Rightarrow> bool" where
  "waiting_is p w s \<longleftrightarrow> waiting_withdrawals p (vs_db s) = w"

definition no_requests :: "'e earn_env_scheme \<Rightarrow> string \<Rightarrow> bool" where
  "no_requests env p \<longleftrightarrow> calm_earn env
     \<and> (\<forall>n s. waiting_withdrawals p (vs_db (ee_other env n s)) = waiting_withdrawals p (vs_db s))"

text \<open>The environment with the writes that do more left out.\<close>

definition unhurried :: "string \<Rightarrow> 'e earn_env_scheme \<Rightarrow> 'e earn_env_scheme" where
  "unhurried p env = env\<lparr>ee_other := (\<lambda>n s. let s' = ee_other (tamed env) n s in
     if waiting_withdrawals p (vs_db s') = waiting_withdrawals p (vs_db s) then s' else s)\<rparr>"

lemma unhurried_fields [simp]:
  "ve_strategy (unhurried p env) = ve_strategy env" "ve_pool (unhurried p env) = ve_pool env"
  "ve_seeded (unhurried p env) = ve_seeded env" "ve_settings (unhurried p env) = ve_settings env"
  by (simp_all add: unhurried_def)

lemma unhurried_id: "no_requests env p \<Longrightarrow> unhurried p env = env"
  by (simp add: unhurried_def no_requests_def tamed_calm Let_def)

lemma no_requests_unhurried: "no_requests (unhurried p env) p"
proof -
  have "calm_earn (tamed env)" by (rule calm_tamed)
  then show ?thesis
    by (auto simp: no_requests_def calm_earn_def unhurried_def Let_def calm_db_def)
qed

lemma waiting_update:
  assumes "\<And>r. q r \<Longrightarrow> ea_pool (f r) = ea_pool r \<and> ea_op (f r) = ea_op r \<and> ea_amount (f r) = ea_amount r
      \<and> waiting_status (ea_status (f r)) = waiting_status (ea_status r) \<or> ea_op r = OpDeposit \<and> ea_op (f r) = OpDeposit"
  shows "waiting_withdrawals p (d\<lparr>db_earns := update_where q f (db_earns d)\<rparr>) = waiting_withdrawals p d"
proof -
  let ?w = "\<lambda>r. of_pool p r \<and> ea_op r = OpWithdraw \<and> waiting_status (ea_status r)"
  have "sum_list (map ea_amount (filter ?w (update_where q f t))) = sum_list (map ea_amount (filter ?w t))" for t
    using assms by (induction t) (fastforce simp: of_pool_def)+
  then show ?thesis by (simp add: waiting_withdrawals_def)
qed

lemma waiting_reads: "no_requests env p \<Longrightarrow> own_deploys env (waiting_is p w)"
proof
  fix s op es assume "waiting_is p w s"
  then show "waiting_is p w (s\<lparr>vs_db := (vs_db s)\<lparr>db_earns :=
      update_where (\<lambda>r. ea_id r = op) (\<lambda>r. r\<lparr>ea_history := es\<rparr>) (db_earns (vs_db s))\<rparr>\<rparr>)"
    by (simp add: waiting_is_def waiting_update)
next
  fix s q ids assume "waiting_is p w s"
  then show "waiting_is p w (snd (complete_undeployed q ids s))"
    by (simp add: waiting_is_def complete_undeployed_def on_earns_def act_simps) (subst waiting_update; auto)
qed (simp_all add: waiting_is_def no_requests_def)

interpretation waits: own_deploys "unhurried p env" "waiting_is p w" for p env w
  by (rule waiting_reads) (rule no_requests_unhurried)

text \<open>The state of a round: what was sent, and what waits.\<close>

definition round_at :: "string \<Rightarrow> int \<Rightarrow> vault_call list \<Rightarrow> vst \<Rightarrow> bool" where
  "round_at p w cs s \<longleftrightarrow> vs_calls s = cs \<and> waiting_is p w s"

lemma round_reads: "no_requests env p \<Longrightarrow> own_state env (round_at p w cs)"
  by unfold_locales (auto simp: round_at_def waiting_is_def no_requests_def calm_earn_def waiting_update)

interpretation rounds: own_state "unhurried p env" "round_at p w cs" for p env w cs
  by (rule round_reads) (rule no_requests_unhurried)

section \<open>The evidence of a move\<close>

definition is_move :: "vault_call \<Rightarrow> bool" where
  "is_move c \<longleftrightarrow> (case c of RouteIn _ _ \<Rightarrow> True | Reclaim _ _ \<Rightarrow> True | _ \<Rightarrow> False)"

definition answered :: "(nat \<Rightarrow> exc + 'a) \<Rightarrow> 'a \<Rightarrow> bool" where
  "answered f x \<longleftrightarrow> (\<exists>n. f n = Inr x)"

definition deployable :: "'e vault_env_scheme \<Rightarrow> string \<Rightarrow> int \<Rightarrow> int \<Rightarrow> bool" where
  "deployable env p w a \<longleftrightarrow>
     (let st = ve_strategy env p in
      \<exists>idle stranded deployed minimum in_flight.
        answered (st_idle st) idle \<and> answered (st_stranded st) stranded \<and> answered (st_total st) deployed
        \<and> answered (st_min_deploy st) minimum \<and> answered (st_in_flight st) in_flight \<and> answered (st_healthy st) True
        \<and> in_flight \<le> 0 \<and> 0 < a \<and> minimum \<le> a
        \<and> 0 \<le> idle - w - buffer_target env (deployed + idle)
        \<and> a = idle - w - buffer_target env (deployed + idle) + stranded)"

definition reclaimable :: "'e vault_env_scheme \<Rightarrow> string \<Rightarrow> int \<Rightarrow> int \<Rightarrow> bool" where
  "reclaimable env p w a \<longleftrightarrow>
     (let st = ve_strategy env p in
      \<exists>idle deployed. answered (st_idle st) idle \<and> answered (st_total st) deployed
        \<and> answered (\<lambda>n. st_ready st n a) True \<and> 0 < a \<and> a = min (w - idle) deployed)"

definition round_evidence :: "'e vault_env_scheme \<Rightarrow> string \<Rightarrow> bool \<Rightarrow> int \<Rightarrow> vault_call list \<Rightarrow> bool" where
  "round_evidence env p allow w new \<longleftrightarrow>
     filter is_move new = []
     \<or> (\<exists>a. filter is_move new = [RouteIn p a] \<and> allow \<and> deployable env p w a)
     \<or> (\<exists>a. filter is_move new = [Reclaim p a] \<and> reclaimable env p w a)"

lemma synced_no_move: "synced_as env p r new \<Longrightarrow> filter is_move new = []"
  by (auto simp: filter_empty_conv is_move_def dest!: synced_calls)

lemma evidence_sync: "round_evidence env p allow w new \<Longrightarrow> synced_as env p r ys \<Longrightarrow> round_evidence env p allow w (new @ ys)"
  by (simp add: round_evidence_def synced_no_move)

definition moves :: "'e vault_env_scheme \<Rightarrow> string \<Rightarrow> bool \<Rightarrow> int \<Rightarrow> vault_call list \<Rightarrow> vst \<Rightarrow> bool" where
  "moves env p allow w cs s \<longleftrightarrow> (\<exists>new. round_evidence env p allow w new \<and> round_at p w (cs @ new) s)"

lemma moves_start: "round_at p w cs s \<Longrightarrow> moves env p allow w cs s"
  by (auto simp: moves_def round_evidence_def intro!: exI [of _ "[]"])

lemma keeps_moves: "(\<And>new. keeps (round_at p w new) m) \<Longrightarrow> keeps (moves env p allow w cs) m"
  by (auto simp: keeps_def moves_def)

lemma round_sync:
  fixes env :: "'e vault_env_scheme"
  shows "hoare (round_at p w cs) (sync_total_assets (unhurried p env) p)
     (\<lambda>r s. \<exists>new. synced_as env p r new \<and> round_at p w (cs @ new) s) (round_at p w cs)"
  unfolding hoare_def
proof (intro allI impI)
  fix s assume s: "round_at p w cs s"
  obtain r s' where run: "sync_total_assets (unhurried p env) p s = (r, s')" by fastforce
  have "waiting_is p w s'"
    using keepsD [OF waits.syncs, of p w s env p] s run by (simp add: round_at_def)
  moreover have "calm_earn (unhurried p env)"
    using no_requests_unhurried [of p env] by (simp add: no_requests_def)
  from sync_run [OF this run]
  have "(\<exists>e. r = Inl e \<and> vs_calls s' = vs_calls s)
      \<or> (\<exists>v new. r = Inr v \<and> vs_calls s' = vs_calls s @ new \<and> synced_as env p v new)"
    by (simp add: synced_as_def pool_read_def seed_read_def cong: if_cong)
  ultimately show "case sync_total_assets (unhurried p env) p s of
      (Inl e, s') \<Rightarrow> round_at p w cs s'
    | (Inr r, s') \<Rightarrow> \<exists>new. synced_as env p r new \<and> round_at p w (cs @ new) s'"
    using run s by (auto simp: round_at_def)
qed

lemma moves_sync:
  fixes env :: "'e vault_env_scheme"
  shows "keeps (moves env p allow w cs) (sync_total_assets (unhurried p env) p)"
  unfolding keeps_hoare
proof -
  have "hoare (round_at p w (cs @ new)) (sync_total_assets (unhurried p env) p)
      (\<lambda>_. moves env p allow w cs) (moves env p allow w cs)" if "round_evidence env p allow w new" for new
    by (rule hoare_post [OF round_sync]) (use that in \<open>auto simp: moves_def dest: evidence_sync\<close>)
  then show "hoare (moves env p allow w cs) (sync_total_assets (unhurried p env) p)
      (\<lambda>_. moves env p allow w cs) (moves env p allow w cs)"
    unfolding moves_def by (intro hoare_ex hoare_assume) (simp add: moves_def)
qed

section \<open>A round\<close>

lemma keeps_complete: "keeps (round_at p w cs) (complete_undeployed p ids)"
proof (rule keepsI)
  fix s assume "round_at p w cs s"
  moreover have "vs_calls (snd (complete_undeployed p ids s)) = vs_calls s"
    by (simp add: complete_undeployed_def on_earns_def act_simps)
  ultimately show "round_at p w cs (snd (complete_undeployed p ids s))"
    using keepsD [OF waits.completed, of p w s p ids] by (simp add: round_at_def)
qed

lemma keeps_memory:
  "keeps (round_at p w cs) (hold p a)" "keeps (round_at p w cs) (unhold p)"
  "keeps (round_at p w cs) (modifyA (\<lambda>s. s\<lparr>vs_reclaiming := g s\<rparr>))"
  unfolding hold_def unhold_def by (auto intro!: keeps_modifyA simp: round_at_def waiting_is_def)

lemmas round_keeps = rounds.query rounds.clocks rounds.awaits rounds.thread rounds.memory rounds.pool_reads
  rounds.strategy_reads rounds.ask rounds.pause keeps_complete keeps_memory

lemma kept_moves:
  assumes "\<And>new. keeps (round_at p w new) m"
  shows "hoare (round_at p w cs) m (\<lambda>_. moves env p allow w cs) (moves env p allow w cs)"
  by (rule hoare_post [OF assms [unfolded keeps_hoare]]) (rule moves_start, assumption)+

lemma moved:
  fixes env :: "'e vault_env_scheme"
  assumes "st_name (ve_strategy env p) \<noteq> ''manual''"
  shows "hoare (round_at p w cs) (route_to_strategy (unhurried p env) p a) (\<lambda>_. round_at p w (cs @ [RouteIn p a]))
      (round_at p w (cs @ [RouteIn p a]))"
    and "hoare (round_at p w cs) (reclaim_from_strategy (unhurried p env) p a) (\<lambda>_. round_at p w (cs @ [Reclaim p a]))
      (round_at p w (cs @ [Reclaim p a]))"
proof -
  have noted: "hoare (round_at p w cs) (seqA (note_call c) (vawait (unhurried p env) f)) (\<lambda>_. round_at p w (cs @ [c]))
      (round_at p w (cs @ [c]))" for c and f :: "nat \<Rightarrow> exc + unit"
    unfolding seqA_def
    by (rule then_keeps [OF _ rounds.awaits])
      (auto simp: hoare_def note_call_def act_eqs round_at_def waiting_is_def)
  show "hoare (round_at p w cs) (route_to_strategy (unhurried p env) p a) (\<lambda>_. round_at p w (cs @ [RouteIn p a]))
      (round_at p w (cs @ [RouteIn p a]))"
    using assms noted by (simp add: route_to_strategy_def Let_def)
  show "hoare (round_at p w cs) (reclaim_from_strategy (unhurried p env) p a) (\<lambda>_. round_at p w (cs @ [Reclaim p a]))
      (round_at p w (cs @ [Reclaim p a]))"
    using assms noted by (simp add: reclaim_from_strategy_def Let_def)
qed

lemma reclaiming_hoare:
  assumes "hoare (round_at p w cs) m (\<lambda>_. round_at p w cs') (round_at p w cs')"
  shows "hoare (round_at p w cs) (reclaiming q m) (\<lambda>_. round_at p w cs') (round_at p w cs')"
proof -
  have mark: "hoare (round_at p w cs) (modifyA (\<lambda>s. s\<lparr>vs_reclaiming := g s\<rparr>)) (\<lambda>_. round_at p w cs) E" for g E
    by (auto simp: hoare_def act_simps round_at_def waiting_is_def)
  show ?thesis
    unfolding reclaiming_def
    by (rule hoare_seqA [OF mark], rule then_keeps [OF hoare_tryA [OF assms]]) (auto intro!: kept keeps_memory)
qed

lemma waiting_moves:
  fixes env :: "'e vault_env_scheme"
  assumes "answered (st_idle (ve_strategy env p)) idle" and "answered (st_total (ve_strategy env p)) deployed"
    and name: "st_name (ve_strategy env p) \<noteq> ''manual''"
  shows "hoare (round_at p w cs) (reclaim_waiting (unhurried p env) p (min (w - idle) deployed) stranded)
    (\<lambda>_. moves env p allow w cs) (moves env p allow w cs)"
proof -
  let ?a = "min (w - idle) deployed" and ?M = "moves env p allow w cs"
  have start: "?M s" if "round_at p w cs s" for s by (rule moves_start [OF that])
  have quiet: "hoare (round_at p w cs) (ret x) (\<lambda>_. ?M) ?M" for x :: int
    by (rule kept_moves) (rule keeps_ret)
  have reclaim: "hoare (round_at p w cs)
      (reclaiming p (bindA (tryA (reclaim_from_strategy (unhurried p env) p ?a)) (\<lambda>r.
         ret (case r of Inl _ \<Rightarrow> False | Inr _ \<Rightarrow> True)))) (\<lambda>_. ?M) ?M"
    if ready: "answered (\<lambda>n. st_ready (ve_strategy env p) n ?a) True" and pos: "0 < ?a"
  proof -
    let ?R = "round_at p w (cs @ [Reclaim p ?a])"
    have "reclaimable env p w ?a" using assms ready pos by (auto simp: reclaimable_def Let_def)
    then have M: "?M s" if "?R s" for s
      using that unfolding moves_def round_evidence_def
      by (auto simp: is_move_def intro!: exI [of _ "[Reclaim p ?a]"])
    have "hoare (round_at p w cs) (bindA (tryA (reclaim_from_strategy (unhurried p env) p ?a)) (\<lambda>r.
         ret (case r of Inl _ \<Rightarrow> False | Inr _ \<Rightarrow> True))) (\<lambda>_. ?R) ?R"
      by (rule then_keeps [OF hoare_tryA [OF moved(2) [OF name]]]) (auto intro: keeps_ret)
    from reclaiming_hoare [OF this, of p]
    show ?thesis by (rule hoare_post) (rule M, assumption)+
  qed
  have ready: "gives (vawait (unhurried p env) (\<lambda>n. st_ready (ve_strategy env p) n ?a))
      (answered (\<lambda>n. st_ready (ve_strategy env p) n ?a))"
    by (rule gives_mono [OF gives_vawait]) (simp add: answered_def)
  have rest: "hoare ?M (if \<not> ok then ret 0 else seqA (sync_total_assets (unhurried p env) p) (ret (- ?a)))
      (\<lambda>_. ?M) ?M" for ok
    unfolding keeps_hoare [symmetric] by (intro kept moves_sync)
  show ?thesis
    unfolding reclaim_waiting_def unhurried_fields
  proof (rule hoare_if)
    show "hoare (round_at p w cs) (seqA (if stranded = 0 then complete_undeployed p None else ret ()) (ret 0))
        (\<lambda>_. ?M) ?M"
      by (intro kept_moves kept keeps_complete)
    show "hoare (round_at p w cs)
        (bindA (vawait (unhurried p env) (\<lambda>n. st_ready (ve_strategy env p) n ?a)) (\<lambda>ready.
         if \<not> ready then ret 0
         else bindA (reclaiming p (bindA (tryA (reclaim_from_strategy (unhurried p env) p ?a)) (\<lambda>r.
              ret (case r of Inl _ \<Rightarrow> False | Inr _ \<Rightarrow> True)))) (\<lambda>ok.
            if \<not> ok then ret 0 else seqA (sync_total_assets (unhurried p env) p) (ret (- ?a))))) (\<lambda>_. ?M) ?M"
      if "\<not> ?a \<le> 0"
      by (intro read_then [OF rounds.awaits ready] hoare_if quiet hoare_bindA [OF reclaim] rest start)
        (use that in auto)
  qed
qed

text \<open>Planning either ends the round or leaves an amount that may be deployed, with nothing moved yet.\<close>

definition planned ::
  "'e vault_env_scheme \<Rightarrow> string \<Rightarrow> bool \<Rightarrow> int \<Rightarrow> vault_call list \<Rightarrow> int + int \<times> string list \<Rightarrow> vst \<Rightarrow> bool" where
  "planned env p allow w cs plan s \<longleftrightarrow>
     (case plan of
        Inl _ \<Rightarrow> moves env p allow w cs s
      | Inr (a, _) \<Rightarrow> allow \<and> deployable env p w a
          \<and> (\<exists>vals. filter is_move vals = [] \<and> round_at p w (cs @ vals) s))"

lemma waits_now:
  "hoare (round_at p w cs) (f w) Q E \<Longrightarrow>
   hoare (round_at p w cs) (bindA (vquery (waiting_withdrawals p)) f) Q E"
  by (auto simp: hoare_def vquery_def act_eqs round_at_def waiting_is_def)

lemma gives_answered: "gives (vawait env f) (answered f)"
  by (rule gives_mono [OF gives_vawait]) (simp add: answered_def)

lemma planned_later:
  assumes "filter is_move vals = []" and "planned env p allow w (cs @ vals) plan s"
  shows "planned env p allow w cs plan s"
proof -
  have "moves env p allow w cs s" if "moves env p allow w (cs @ vals) s"
    using that assms(1) unfolding moves_def round_evidence_def
    by (metis append.assoc append_Nil filter_append)
  moreover have "\<exists>vals'. filter is_move vals' = [] \<and> round_at p w (cs @ vals') s"
    if "filter is_move ys = []" "round_at p w ((cs @ vals) @ ys) s" for ys
    using that assms(1) by (intro exI [of _ "vals @ ys"]) simp
  ultimately show ?thesis
    using assms(2) by (fastforce simp: planned_def split: sum.splits)
qed

lemma buffer_unhurried [simp]: "buffer_target (unhurried p env) = buffer_target env"
  by (simp add: buffer_target_def fun_eq_iff)

text \<open>From the amount to the row of the deploy.\<close>

lemma sized:
  fixes env :: "'e vault_env_scheme"
  assumes "allow" and dep: "deployable env p w a"
  shows "hoare (round_at p w cs)
     (bindA (sync_total_assets (unhurried p env) p) (\<lambda>synced.
      if synced = None then ret (Inl 0)
      else bindA (vquery f) (\<lambda>settled. seqA (hold p spare) (ret (Inr (a, settled))))))
     (planned env p allow w cs) (moves env p allow w cs)"
proof (rule hoare_bindA [where R = "\<lambda>r s. \<exists>new. synced_as env p r new \<and> round_at p w (cs @ new) s"])
  show "hoare (round_at p w cs) (sync_total_assets (unhurried p env) p)
      (\<lambda>r s. \<exists>new. synced_as env p r new \<and> round_at p w (cs @ new) s) (moves env p allow w cs)"
    by (rule hoare_post [OF round_sync]) (auto intro: moves_start)
  fix synced :: "int option"
  show "hoare (\<lambda>s. \<exists>new. synced_as env p synced new \<and> round_at p w (cs @ new) s)
      (if synced = None then ret (Inl 0)
       else bindA (vquery f) (\<lambda>settled. seqA (hold p spare) (ret (Inr (a, settled)))))
      (planned env p allow w cs) (moves env p allow w cs)"
  proof (rule hoare_ex, rule hoare_assume)
    fix new assume new: "synced_as env p synced new"
    let ?J = "round_at p w (cs @ new)"
    have still: "moves env p allow w cs s" if "?J s" for s
      using that synced_no_move [OF new] unfolding moves_def round_evidence_def by blast
    have "hoare ?J (ret (Inr (a, settled))) (planned env p allow w cs) (moves env p allow w cs)" for settled
      using assms synced_no_move [OF new]
      by (intro hoare_pre [OF hoare_ret]) (auto simp: planned_def)
    moreover have "hoare ?J (ret (Inl 0)) (planned env p allow w cs) (moves env p allow w cs)"
      by (rule hoare_pre [OF hoare_ret]) (simp add: planned_def still)
    ultimately show "hoare ?J (if synced = None then ret (Inl 0)
        else bindA (vquery f) (\<lambda>settled. seqA (hold p spare) (ret (Inr (a, settled)))))
        (planned env p allow w cs) (moves env p allow w cs)"
      by (intro hoare_if keeps_then [OF rounds.query] keeps_then' [OF keeps_memory(1)] still)
  qed
qed

text \<open>The planning once nothing is unresolved or in flight.\<close>

lemma plan_tail:
  fixes env :: "'e vault_env_scheme"
  assumes name: "st_name (ve_strategy env p) \<noteq> ''manual''"
    and flight: "answered (st_in_flight (ve_strategy env p)) in_flight" "in_flight \<le> 0"
  shows "hoare (round_at p w cs)
     (bindA (vawait (unhurried p env) (st_idle (ve_strategy env p))) (\<lambda>idle.
      bindA (vawait (unhurried p env) (st_stranded (ve_strategy env p))) (\<lambda>stranded.
      bindA (vawait (unhurried p env) (st_total (ve_strategy env p))) (\<lambda>deployed.
      bindA (vquery (waiting_withdrawals p)) (\<lambda>waiting.
      if idle - waiting - buffer_target env (deployed + idle) < 0
      then bindA (reclaim_waiting (unhurried p env) p (min (waiting - idle) deployed) stranded) (\<lambda>n. ret (Inl n))
      else if \<not> allow then ret (Inl 0)
      else
      bindA (vawait (unhurried p env) (st_min_deploy (ve_strategy env p))) (\<lambda>minimum.
      if idle - waiting - buffer_target env (deployed + idle) + stranded \<le> 0
         \<or> idle - waiting - buffer_target env (deployed + idle) + stranded < minimum
      then seqA (if stranded = 0 then complete_undeployed p None else ret ()) (ret (Inl 0))
      else bindA (vawait (unhurried p env) (st_healthy (ve_strategy env p))) (\<lambda>healthy.
      if \<not> healthy then ret (Inl 0)
      else bindA (sync_total_assets (unhurried p env) p) (\<lambda>synced.
      if synced = None then ret (Inl 0)
      else
      bindA (vquery f) (\<lambda>settled.
      seqA (hold p (idle - waiting - buffer_target env (deployed + idle)))
        (ret (Inr (idle - waiting - buffer_target env (deployed + idle) + stranded, settled))))))))))))
     (planned env p allow w cs) (moves env p allow w cs)"
proof -
  let ?M = "moves env p allow w cs"
  have start: "?M s" if "round_at p w cs s" for s by (rule moves_start [OF that])
  have over: "hoare (round_at p w cs) (ret (Inl 0)) (planned env p allow w cs) ?M"
    by (rule hoare_pre [OF hoare_ret]) (simp add: planned_def moves_start)
  have skip: "hoare (round_at p w cs) (seqA (if b then complete_undeployed p None else ret ()) (ret (Inl 0)))
      (planned env p allow w cs) ?M" for b
    by (intro keeps_then' kept keeps_complete over start)
  have reclaim: "hoare (round_at p w cs)
      (bindA (reclaim_waiting (unhurried p env) p (min (w - idle) deployed) stranded) (\<lambda>n. ret (Inl n)))
      (planned env p allow w cs) ?M"
    if "answered (st_idle (ve_strategy env p)) idle" "answered (st_total (ve_strategy env p)) deployed"
    for idle deployed stranded
    by (rule hoare_bindA [OF waiting_moves [OF that name]])
      (rule hoare_pre [OF hoare_ret], simp add: planned_def)
  have deploy: "deployable env p w (idle - w - buffer_target env (deployed + idle) + stranded)"
    if "answered (st_idle (ve_strategy env p)) idle" "answered (st_stranded (ve_strategy env p)) stranded"
      "answered (st_total (ve_strategy env p)) deployed" "answered (st_min_deploy (ve_strategy env p)) minimum"
      "answered (st_healthy (ve_strategy env p)) healthy" "\<not> \<not> healthy"
      "\<not> idle - w - buffer_target env (deployed + idle) < 0"
      "\<not> (idle - w - buffer_target env (deployed + idle) + stranded \<le> 0
          \<or> idle - w - buffer_target env (deployed + idle) + stranded < minimum)"
    for idle stranded deployed minimum healthy
    unfolding deployable_def Let_def
    by (rule exI [of _ idle], rule exI [of _ stranded], rule exI [of _ deployed], rule exI [of _ minimum],
        rule exI [of _ in_flight]) (use that flight in auto)
  show ?thesis
    by (rule read_then [OF rounds.awaits gives_answered], rule read_then [OF rounds.awaits gives_answered],
        rule read_then [OF rounds.awaits gives_answered], rule waits_now, rule hoare_if, rule reclaim, assumption,
        assumption, rule hoare_if, rule over, rule read_then [OF rounds.awaits gives_answered], rule hoare_if,
        rule skip, rule read_then [OF rounds.awaits gives_answered], rule hoare_if, rule over, rule sized)
      (auto intro: moves_start deploy)
qed

lemma plan_hoare:
  fixes env :: "'e vault_env_scheme"
  assumes name: "st_name (ve_strategy env p) \<noteq> ''manual''"
  shows "hoare (round_at p w cs) (plan_round (unhurried p env) p allow) (planned env p allow w cs) (moves env p allow w cs)"
proof -
  let ?e = "unhurried p env" and ?M = "moves env p allow w cs" and ?P = "planned env p allow w cs"
  let ?J = "\<lambda>s. \<exists>vals. filter is_move vals = [] \<and> round_at p w (cs @ vals) s"
  have start: "?M s" if "round_at p w cs s" for s by (rule moves_start [OF that])
  have over: "hoare (round_at p w cs) (ret (Inl 0)) ?P ?M"
    by (rule hoare_pre [OF hoare_ret]) (simp add: planned_def moves_start)
  have later: "?M s" if "?J s" for s
    using that unfolding moves_def round_evidence_def by blast
  have sync: "hoare (round_at p w cs) (if b then seqA (unhold p) (seqA (sync_total_assets ?e p) (ret ())) else ret ())
      (\<lambda>_. ?J) ?M" for b
  proof (rule hoare_if)
    have "hoare (round_at p w cs) (seqA (sync_total_assets ?e p) (ret ())) (\<lambda>_. ?J) ?M"
      unfolding seqA_def
      by (rule hoare_bindA [OF hoare_post [OF round_sync]], assumption, rule start, assumption,
          rule hoare_pre [OF hoare_ret]) (auto dest: synced_no_move)
    then show "hoare (round_at p w cs) (seqA (unhold p) (seqA (sync_total_assets ?e p) (ret ()))) (\<lambda>_. ?J) ?M"
      by (rule keeps_then' [OF keeps_memory(2)]) (rule start)
    show "hoare (round_at p w cs) (ret ()) (\<lambda>_. ?J) ?M"
      by (rule hoare_pre [OF hoare_ret]) (auto intro: exI [of _ "[]"])
  qed
  have tail: "hoare ?J m ?P ?M" if "\<And>vals. filter is_move vals = [] \<Longrightarrow>
      hoare (round_at p w (cs @ vals)) m (planned env p allow w (cs @ vals)) (moves env p allow w (cs @ vals))" for m
  proof (rule hoare_ex, rule hoare_assume)
    fix vals assume vals: "filter is_move vals = []"
    show "hoare (round_at p w (cs @ vals)) m ?P ?M"
      by (rule hoare_post [OF that [OF vals]])
        (use planned_later [OF vals, of env p allow w cs "Inl 0"] planned_later [OF vals, of env p allow w cs] in
          \<open>auto simp: planned_def\<close>)
  qed
  show ?thesis
    unfolding plan_round_def Let_def unhurried_fields buffer_unhurried
    by (rule keeps_then [OF rounds.query], rule hoare_if, rule over, rule read_then [OF rounds.awaits gives_answered],
        rule hoare_if, rule over, rule keeps_then [OF keeps_getA], rule hoare_seqA [OF sync], rule tail,
        rule plan_tail [OF name]) (auto intro: start)
qed

lemma locked_planned:
  fixes env :: "'e vault_env_scheme"
  assumes "st_name (ve_strategy env p) \<noteq> ''manual''"
  shows "hoare (round_at p w cs) (pool_lock (unhurried p env) p (plan_round (unhurried p env) p allow))
    (planned env p allow w cs) (moves env p allow w cs)"
proof -
  have "keeps (moves env p allow w cs) (modifyA (\<lambda>s. s\<lparr>vs_locks := g s\<rparr>))" for g
    by (rule keeps_moves) (rule rounds.memory)
  then have unlock: "hoare (moves env p allow w cs) (modifyA (\<lambda>s. s\<lparr>vs_locks := g s\<rparr>)) (\<lambda>_. moves env p allow w cs) E" for g E
    by (auto simp: hoare_def keeps_def act_simps)
  have keepP: "hoare (planned env p allow w cs plan) (modifyA (\<lambda>s. s\<lparr>vs_locks := g s\<rparr>)) (\<lambda>_. planned env p allow w cs plan) E"
    for g plan E
    by (auto simp: hoare_def act_simps planned_def moves_def round_at_def waiting_is_def split: sum.splits)
  let ?Q = "\<lambda>r s. case r of Inl _ \<Rightarrow> moves env p allow w cs s | Inr plan \<Rightarrow> planned env p allow w cs plan s"
  have tried: "hoare (round_at p w cs) (tryA (plan_round (unhurried p env) p allow)) ?Q (moves env p allow w cs)"
    by (rule hoare_tryA [OF hoare_post [OF plan_hoare [OF assms]]]) auto
  have closing: "hoare (?Q r) (seqA (modifyA (\<lambda>s. s\<lparr>vs_locks := g s\<rparr>)) (liftE r)) (planned env p allow w cs)
      (moves env p allow w cs)" for r g
    by (cases r) (auto intro!: hoare_seqA [OF unlock] hoare_seqA [OF keepP] hoare_pre [OF hoare_liftE])
  show ?thesis
    unfolding pool_lock_def
    by (rule keeps_then' [OF rounds.pause], rule keeps_then' [OF rounds.memory(1)], rule hoare_bindA [OF tried closing])
      (auto intro: moves_start)
qed

lemma deploy_hoare:
  fixes env :: "'e vault_env_scheme"
  shows "hoare (round_at p w cs) (deploy_reclaim (unhurried p env) p allow)
    (\<lambda>_. moves env p allow w cs) (moves env p allow w cs)"
proof (cases "st_name (ve_strategy env p) = ''manual''")
  case True
  then show ?thesis
    by (simp add: deploy_reclaim_def) (rule hoare_pre [OF hoare_ret], rule moves_start)
next
  case False
  let ?M = "moves env p allow w cs"
  have deploy: "hoare (\<lambda>s. \<exists>vals. filter is_move vals = [] \<and> round_at p w (cs @ vals) s)
      (route_to_strategy (unhurried p env) p a) (\<lambda>_. ?M) ?M" if "allow" "deployable env p w a" for a
  proof (rule hoare_ex, rule hoare_assume)
    fix vals assume vals: "filter is_move vals = []"
    have "?M s" if "round_at p w ((cs @ vals) @ [RouteIn p a]) s" for s
      using that vals \<open>allow\<close> \<open>deployable env p w a\<close> unfolding moves_def round_evidence_def
      by (auto simp: is_move_def intro!: exI [of _ "vals @ [RouteIn p a]"])
    then show "hoare (round_at p w (cs @ vals)) (route_to_strategy (unhurried p env) p a) (\<lambda>_. ?M) ?M"
      by (intro hoare_post [OF moved(1) [OF False]]) blast+
  qed
  have memory: "keeps ?M (unhold p)" "keeps ?M (vpause (unhurried p env))" "keeps ?M (vquery f)"
    "keeps ?M (modifyA (\<lambda>s. s\<lparr>vs_locks := g s\<rparr>))" "keeps ?M (complete_undeployed p ids)"
    for f :: "db \<Rightarrow> bool" and g ids
    by (rule keeps_moves, rule round_keeps)+
  have settle: "keeps ?M (seqA (pool_lock (unhurried p env) p
       (seqA (unhold p) (bindA (vquery (unresolved p)) (\<lambda>pending.
          if pending then ret () else seqA (sync_total_assets (unhurried p env) p) (ret ())))))
      (seqA (complete_undeployed p (Some settled)) (ret (a::int))))" for settled a
    unfolding pool_lock_def by (intro kept memory moves_sync)
  have "hoare (planned env p allow w cs plan)
      (case plan of Inl n \<Rightarrow> ret n
       | Inr (amount, settled) \<Rightarrow>
           seqA (route_to_strategy (unhurried p env) p amount)
           (seqA (pool_lock (unhurried p env) p
              (seqA (unhold p) (bindA (vquery (unresolved p)) (\<lambda>pending.
                 if pending then ret () else seqA (sync_total_assets (unhurried p env) p) (ret ())))))
           (seqA (complete_undeployed p (Some settled)) (ret amount)))) (\<lambda>_. ?M) ?M" for plan
  proof (cases plan)
    case (Inl n)
    then show ?thesis by (auto intro!: hoare_pre [OF hoare_ret] simp: planned_def)
  next
    case (Inr pr)
    then obtain a settled where plan: "plan = Inr (a, settled)" by (cases pr) auto
    have "hoare (\<lambda>s. \<exists>vals. filter is_move vals = [] \<and> round_at p w (cs @ vals) s)
        (seqA (route_to_strategy (unhurried p env) p a) (seqA (pool_lock (unhurried p env) p
              (seqA (unhold p) (bindA (vquery (unresolved p)) (\<lambda>pending.
                 if pending then ret () else seqA (sync_total_assets (unhurried p env) p) (ret ())))))
           (seqA (complete_undeployed p (Some settled)) (ret a)))) (\<lambda>_. ?M) ?M"
      if "allow" "deployable env p w a"
      unfolding seqA_def [of "route_to_strategy _ _ _"] by (rule then_keeps [OF deploy [OF that] settle])
    then show ?thesis
      unfolding plan planned_def sum.case prod.case by (intro hoare_assume)
  qed
  then show ?thesis
    unfolding deploy_reclaim_def unhurried_fields if_not_P [OF False]
    by (rule hoare_bindA [OF locked_planned [OF False]])
qed


lemma demo_round:
  "vs_calls (snd (deploy_reclaim demo_worker ''0x01'' True (demo_vst []))) = [RouteIn ''0x01'' 300]"
  by (simp add: deploy_reclaim_def plan_round_def Let_def run_vault demo_vst_def unresolved_def waiting_withdrawals_def
      buffer_target_def hold_def unhold_def route_to_strategy_def complete_undeployed_def demo_worker_def demo_strategy_def
      demo_pool_def cong: lazy_steps)


end
