(* ===== verification/Ledger.thy ===== *)
theory Ledger
  imports EarnRows "HOL-Library.List_Lexorder" "HOL-Library.Char_ord"
begin

text \<open>
  What a user earned on a position (\<open>services/earn/earned.py\<close>), derived from the rows of settled
  operations: the basis is what the held shares cost, in whole base units, and a figure that the rows
  do not account for is not given.
\<close>

section \<open>The figure\<close>

datatype earned_status = EarnedOk | LedgerIncomplete | PendingSettlement | Unsupported

record earned =
  er_active :: "int option"
  er_verdict :: earned_status
  er_cost_basis :: "int option"
  er_realised :: "int option"
  er_deposits :: nat
  er_first :: "int option"

definition withheld :: "earned_status \<Rightarrow> earned" where
  "withheld status =
     \<lparr>er_active = None, er_verdict = status, er_cost_basis = None, er_realised = None, er_deposits = 0,
      er_first = None\<rparr>"

section \<open>The rows\<close>

definition counted :: "string \<Rightarrow> earn_row \<Rightarrow> bool" where
  "counted pool_id r \<longleftrightarrow> lower (ea_pool r) = lower pool_id \<and> ea_status r \<noteq> EarnFailed"

text \<open>\<open>_pool_shares_accounted\<close>, with the share movements configured for the pool.\<close>

fun sum_deltas :: "int \<Rightarrow> earn_row list \<Rightarrow> int option" where
  "sum_deltas acc [] = Some acc"
| "sum_deltas acc (r # rows) =
     (case ea_shares r of None \<Rightarrow> None | Some d \<Rightarrow> sum_deltas (acc + d) rows)"

definition pool_shares_accounted :: "(string \<Rightarrow> int option) \<Rightarrow> string \<Rightarrow> db \<Rightarrow> int option" where
  "pool_shares_accounted unrecorded pool_id d =
     sum_deltas (case unrecorded (lower pool_id) of None \<Rightarrow> 0 | Some n \<Rightarrow> n)
       (filter (counted pool_id) (db_earns d))"

text \<open>Deposits are the depositor's, withdrawals the consent signer's.\<close>

definition attributed :: "string \<Rightarrow> earn_row \<Rightarrow> bool" where
  "attributed wallet r \<longleftrightarrow>
     (if ea_op r = OpDeposit then ea_user r = wallet else ea_consent r = Some wallet)"

definition read_cashflows :: "string \<Rightarrow> string \<Rightarrow> db \<Rightarrow> earn_row list" where
  "read_cashflows user_address pool_id d =
     sort_key (\<lambda>r. ea_created r)
       (sort_key ea_id (filter (\<lambda>r. counted pool_id r \<and> attributed (lower user_address) r) (db_earns d)))"

section \<open>The walk over the cashflows\<close>

record walk =
  wk_held :: int
  wk_cost :: int
  wk_realised :: int
  wk_deposits :: nat
  wk_first :: "int option"

definition walk_start :: walk where
  "walk_start = \<lparr>wk_held = 0, wk_cost = 0, wk_realised = 0, wk_deposits = 0, wk_first = None\<rparr>"

definition settled_or_created :: "earn_row \<Rightarrow> int" where
  "settled_or_created r =
     (case ea_settled r of None \<Rightarrow> ea_created r | Some t \<Rightarrow> if t = 0 then ea_created r else t)"

text \<open>One row; \<open>None\<close> when the history cannot be what happened on chain.\<close>

definition walk_row :: "earn_row \<Rightarrow> int \<Rightarrow> walk \<Rightarrow> walk option" where
  "walk_row r delta w =
     (if ea_op r = OpDeposit
      then Some (w\<lparr>wk_held := wk_held w + delta, wk_cost := wk_cost w + ea_amount r,
                   wk_deposits := Suc (wk_deposits w),
                   wk_first := (case wk_first w of None \<Rightarrow> Some (settled_or_created r) | Some t \<Rightarrow> Some t)\<rparr>)
      else
        let burned = - delta in
        if burned \<le> 0 \<or> wk_held w \<le> 0 then None
        else
          let basis_out = wk_cost w * burned div wk_held w in
          Some (w\<lparr>wk_held := wk_held w - burned, wk_cost := wk_cost w - basis_out,
                  wk_realised := wk_realised w + (ea_amount r - basis_out)\<rparr>))"

fun walk_rows :: "earn_row list \<Rightarrow> walk \<Rightarrow> walk option" where
  "walk_rows [] w = Some w"
| "walk_rows (r # rows) w =
     (case ea_shares r of
        None \<Rightarrow> None
      | Some delta \<Rightarrow> (case walk_row r delta w of None \<Rightarrow> None | Some w' \<Rightarrow> walk_rows rows w'))"

definition earned_active ::
  "(string \<Rightarrow> int option) \<Rightarrow> string option \<Rightarrow> string \<Rightarrow> int \<Rightarrow> int \<Rightarrow> int option \<Rightarrow> db \<Rightarrow> earned" where
  "earned_active unrecorded user_address pool_id shares value_now pool_total_shares d =
     (case user_address of
        None \<Rightarrow> withheld Unsupported
      | Some user \<Rightarrow>
          if user = [] then withheld Unsupported
          else
          let rows = read_cashflows user pool_id d in
          if \<exists>r\<in>set rows. ea_status r = EarnPending then withheld PendingSettlement
          else if \<exists>r\<in>set rows. ea_shares r = None then withheld LedgerIncomplete
          else case walk_rows rows walk_start of
            None \<Rightarrow> withheld LedgerIncomplete
          | Some w \<Rightarrow>
              if wk_held w \<noteq> shares then withheld LedgerIncomplete
              else if (case pool_total_shares of
                         None \<Rightarrow> False
                       | Some in_pool \<Rightarrow> pool_shares_accounted unrecorded pool_id d \<noteq> Some in_pool)
              then withheld LedgerIncomplete
              else \<lparr>er_active = Some (value_now - wk_cost w), er_verdict = EarnedOk,
                    er_cost_basis = Some (wk_cost w), er_realised = Some (wk_realised w),
                    er_deposits = wk_deposits w, er_first = wk_first w\<rparr>)"

section \<open>The identity\<close>

definition deposited :: "earn_row list \<Rightarrow> int" where
  "deposited rows = sum_list (map ea_amount (filter (\<lambda>r. ea_op r = OpDeposit) rows))"

definition withdrawn :: "earn_row list \<Rightarrow> int" where
  "withdrawn rows = sum_list (map ea_amount (filter (\<lambda>r. ea_op r \<noteq> OpDeposit) rows))"

definition share_sum :: "earn_row list \<Rightarrow> int" where
  "share_sum rows = sum_list (map (\<lambda>r. case ea_shares r of None \<Rightarrow> 0 | Some d \<Rightarrow> d) rows)"

lemma walk_row_balance:
  assumes "walk_row r delta w = Some w'"
  shows "wk_cost w' - wk_realised w' = wk_cost w - wk_realised w
      + (if ea_op r = OpDeposit then ea_amount r else - ea_amount r)"
    and "wk_held w' = wk_held w + delta"
  using assms by (auto simp: walk_row_def Let_def split: if_splits)

lemma walk_rows_balance:
  assumes "walk_rows rows w = Some w'"
  shows "wk_cost w' - wk_realised w' = wk_cost w - wk_realised w + deposited rows - withdrawn rows
    \<and> wk_held w' = wk_held w + share_sum rows"
  using assms
proof (induction rows arbitrary: w)
  case Nil
  then show ?case by (simp add: deposited_def withdrawn_def share_sum_def)
next
  case (Cons r rows)
  then obtain delta u where d: "ea_shares r = Some delta" and u: "walk_row r delta w = Some u"
    and rest: "walk_rows rows u = Some w'"
    by (auto split: option.splits)
  from Cons.IH [OF rest] walk_row_balance [OF u] d show ?case
    by (auto simp: deposited_def withdrawn_def share_sum_def)
qed

lemma walk_rows_deposits:
  "walk_rows rows w = Some w' \<Longrightarrow> wk_deposits w' = wk_deposits w + length (filter (\<lambda>r. ea_op r = OpDeposit) rows)"
  by (induction rows arbitrary: w) (fastforce simp: walk_row_def Let_def split: option.splits if_splits)+


section \<open>The basis without rounding\<close>

text \<open>The weighted-average model: the price per share of what stays is untouched by an exit.\<close>

fun exact_cost :: "earn_row list \<Rightarrow> int \<Rightarrow> rat \<Rightarrow> rat" where
  "exact_cost [] held cost = cost"
| "exact_cost (r # rows) held cost =
     (let delta = (case ea_shares r of None \<Rightarrow> 0 | Some x \<Rightarrow> x) in
      exact_cost rows (held + delta)
        (if ea_op r = OpDeposit then cost + of_int (ea_amount r)
         else cost - cost * of_int (- delta) / of_int held))"

text \<open>No row burns more shares than are held.\<close>

fun burns_held :: "earn_row list \<Rightarrow> int \<Rightarrow> bool" where
  "burns_held [] held = True"
| "burns_held (r # rows) held =
     (let delta = (case ea_shares r of None \<Rightarrow> 0 | Some x \<Rightarrow> x) in
      (ea_op r \<noteq> OpDeposit \<longrightarrow> - delta \<le> held) \<and> burns_held rows (held + delta))"

definition exits :: "earn_row list \<Rightarrow> nat" where
  "exits rows = length (filter (\<lambda>r. ea_op r \<noteq> OpDeposit) rows)"

lemma div_rat: "0 < h \<Longrightarrow> of_int (n div h) \<le> (of_int n / of_int h :: rat) \<and> (of_int n / of_int h :: rat) < of_int (n div h) + 1"
  using floor_correct [of "of_int n / of_int h :: rat"] by (simp only: floor_divide_of_int_eq) simp

text \<open>One exit: the rounding adds less than a unit, and what was too much shrinks with the position.\<close>

lemma exit_dust:
  fixes cost :: int and exact :: rat
  assumes "0 < held" and "0 < burned" and "burned \<le> held"
    and "exact \<le> of_int cost" and "of_int cost - exact \<le> of_nat k"
  shows "exact - exact * of_int burned / of_int held \<le> of_int (cost - cost * burned div held)
    \<and> of_int (cost - cost * burned div held) - (exact - exact * of_int burned / of_int held) < of_nat (Suc k)"
proof -
  let ?f = "1 - of_int burned / of_int held :: rat" and ?e = "of_int cost - exact"
  have f: "0 \<le> ?f" "?f \<le> 1" using assms(1-3) by (simp_all add: divide_le_eq)
  have d: "of_int (cost * burned div held) \<le> (of_int (cost * burned) / of_int held :: rat)"
    "(of_int (cost * burned) / of_int held :: rat) < of_int (cost * burned div held) + 1"
    using div_rat [OF assms(1), of "cost * burned"] by simp_all
  have e: "0 \<le> ?e" "?e \<le> of_nat k" using assms(4,5) by simp_all
  have fe: "0 \<le> ?f * ?e" using f(1) e(1) by simp
  have fk: "?f * ?e \<le> of_nat k"
    using mult_mono [OF f(2) e(2)] e(1) by simp
  have split: "of_int (cost - cost * burned div held) - (exact - exact * of_int burned / of_int held)
      = ?f * ?e + (of_int (cost * burned) / of_int held - of_int (cost * burned div held))"
    using assms(1) by (simp add: field_simps)
  show ?thesis using split fe fk d by simp
qed

lemma walk_dust:
  assumes "walk_rows rows w = Some w'" and "burns_held rows (wk_held w)"
    and "exact \<le> of_int (wk_cost w)" and "of_int (wk_cost w) - exact \<le> of_nat k"
  shows "exact_cost rows (wk_held w) exact \<le> of_int (wk_cost w')
    \<and> of_int (wk_cost w') - exact_cost rows (wk_held w) exact \<le> of_nat (k + exits rows)"
  using assms
proof (induction rows arbitrary: w exact k)
  case Nil
  then show ?case by (simp add: exits_def)
next
  case (Cons r rows)
  then obtain delta u where d: "ea_shares r = Some delta" and u: "walk_row r delta w = Some u"
    and rest: "walk_rows rows u = Some w'"
    by (auto split: option.splits)
  have held: "wk_held u = wk_held w + delta" by (rule walk_row_balance(2) [OF u])
  have burns: "burns_held rows (wk_held u)" using Cons.prems(2) d held by (simp add: Let_def)
  show ?case
  proof (cases "ea_op r = OpDeposit")
    case True
    then have "wk_cost u = wk_cost w + ea_amount r" using u by (auto simp: walk_row_def)
    with Cons.prems(3,4)
    have "exact + of_int (ea_amount r) \<le> of_int (wk_cost u)"
      "of_int (wk_cost u) - (exact + of_int (ea_amount r)) \<le> of_nat k" by simp_all
    from Cons.IH [OF rest burns this] True d held show ?thesis by (simp add: exits_def)
  next
    case False
    then have b: "0 < - delta" "0 < wk_held w" "- delta \<le> wk_held w"
      and cost: "wk_cost u = wk_cost w - wk_cost w * (- delta) div wk_held w"
      using u Cons.prems(2) d by (auto simp: walk_row_def Let_def split: if_splits)
    have dust: "exact - exact * of_int (- delta) / of_int (wk_held w) \<le> of_int (wk_cost u)"
      "of_int (wk_cost u) - (exact - exact * of_int (- delta) / of_int (wk_held w)) \<le> of_nat (Suc k)"
      using exit_dust [OF b(2,1,3) Cons.prems(3,4)] cost by simp_all
    have e: "exits (r # rows) = Suc (exits rows)" using False by (simp add: exits_def)
    from Cons.IH [OF rest burns dust] False d held show ?thesis
      unfolding e by (simp add: Let_def)
  qed
qed

text \<open>C22: rounding never makes the figure too high: it is at most the yield of the weighted-average
  model in exact arithmetic, and below it by at most one base unit per withdrawal.\<close>

theorem earned_never_high:
  assumes "earned_active unrecorded (Some user) pool_id shares value_now in_pool d = e"
    and "er_active e = Some active" and "burns_held (read_cashflows user pool_id d) 0"
  shows "let exact = of_int value_now - exact_cost (read_cashflows user pool_id d) 0 0 in
    of_int active \<le> exact \<and> exact - of_int active \<le> of_nat (exits (read_cashflows user pool_id d))"
proof -
  let ?rows = "read_cashflows user pool_id d"
  from assms(1,2) obtain w where w: "walk_rows ?rows walk_start = Some w" and a: "active = value_now - wk_cost w"
    by (auto simp: earned_active_def withheld_def Let_def split: if_splits option.splits)
  from walk_dust [OF w, of 0 0] assms(3) a show ?thesis
    by (simp add: walk_start_def Let_def)
qed

section \<open>Concrete ledgers\<close>

definition settled_row :: "string \<Rightarrow> earn_op \<Rightarrow> int \<Rightarrow> int \<Rightarrow> int \<Rightarrow> int \<Rightarrow> earn_row" where
  "settled_row op_id op amount delta created settled =
     \<lparr>ea_id = op_id, ea_op = op, ea_pool = ''0x01'', ea_user = ''0xu'', ea_token = ''T'', ea_amount = amount,
      ea_signer = ''0xu'', ea_nonce = 1, ea_signature = ''s'', ea_status = EarnCompleted, ea_tx_hash = Some ''h'',
      ea_error = None, ea_created = created, ea_updated = settled, ea_consent = Some ''0xu'', ea_shares = Some delta,
      ea_rate = None, ea_settled = Some settled, ea_claimed = None, ea_input_nonce = None, ea_input_sig = None,
      ea_history = []\<rparr>"

definition ledger_of :: "earn_row list \<Rightarrow> db" where
  "ledger_of rows = \<lparr>db_quotes = [], db_swaps = [], db_evm = [], db_lanes = [], db_earns = rows\<rparr>"

text \<open>A hundred units for ninety shares, a third of them taken out for forty.\<close>

definition demo_ledger :: db where
  "demo_ledger = ledger_of [settled_row ''a'' OpDeposit 100 90 1 1, settled_row ''b'' OpWithdraw 40 (-30) 2 2]"

lemma demo_figure:
  "earned_active (\<lambda>_. None) (Some ''0xU'') ''0x01'' 60 70 (Some 60) demo_ledger =
     \<lparr>er_active = Some 3, er_verdict = EarnedOk, er_cost_basis = Some 67, er_realised = Some 7, er_deposits = 1,
      er_first = Some 1\<rparr>"
  by code_simp


theorem earned_never_high_witness:
  "let exact = 70 - exact_cost (read_cashflows ''0xU'' ''0x01'' demo_ledger) 0 0 in (3::rat) \<le> exact \<and> exact - 3 \<le> 1"
proof -
  have "burns_held (read_cashflows ''0xU'' ''0x01'' demo_ledger) 0" by code_simp
  moreover have "exits (read_cashflows ''0xU'' ''0x01'' demo_ledger) = 1" by code_simp
  ultimately show ?thesis
    using earned_never_high [OF demo_figure, of 3] by (simp add: Let_def)
qed

text \<open>A withdrawal that waited for liquidity while a later deposit went through: on chain fifty of a
  hundred and fifty shares that cost two hundred left, and a basis of 134 stays with the rest. The rows
  are walked in the order they were requested, so the basis given is 150.\<close>

lemma basis_follows_requests:
  "er_cost_basis (earned_active (\<lambda>_. None) (Some ''0xu'') ''0x01'' 100 200 None
     (ledger_of [settled_row ''a'' OpDeposit 100 100 1 1, settled_row ''b'' OpWithdraw 70 (-50) 2 9,
                 settled_row ''c'' OpDeposit 100 50 3 4])) = Some 150"
  and "map_option wk_cost (walk_rows [settled_row ''a'' OpDeposit 100 100 1 1, settled_row ''c'' OpDeposit 100 50 3 4,
                 settled_row ''b'' OpWithdraw 70 (-50) 2 9] walk_start) = Some 134"
  by code_simp+

end
