(* ===== verification/Operations.thy ===== *)
theory Operations
  imports SwapStage EarnRows Validation "HOL-Library.List_Lexorder" "HOL-Library.Char_ord" "HOL-Library.Product_Lexorder"
begin

text \<open>
  The listing of a user's swaps and earn operations (\<open>services/operations.py\<close>), page by page from the
  newest. A page's cursor is the creation time and the id of its last row.
\<close>

section \<open>One shape for both tables\<close>

record operation =
  on_id :: string
  on_type :: string
  on_status :: string
  on_created :: int
  on_updated :: int
  on_tx_hash :: "string option"
  on_error :: "string option"
  on_reason :: "failure_reason option"
  on_step :: "swap_step option"
  on_quote :: "string option"
  on_from_token :: "string option"
  on_to_token :: "string option"
  on_from_amount :: "int option"
  on_estimate :: "int option"
  on_actual :: "int option"
  on_pool :: "string option"
  on_token :: "string option"
  on_amount :: "int option"
  on_nonce :: "nat option"
  on_stages :: "progress_entry list"

definition swap_status_text :: "swap_status \<Rightarrow> string" where
  "swap_status_text s =
     (case s of
        SwapScheduled \<Rightarrow> ''scheduled'' | SwapExecuting \<Rightarrow> ''executing'' | SwapCompleted \<Rightarrow> ''completed''
      | SwapFailed \<Rightarrow> ''failed'' | SwapRefunding \<Rightarrow> ''refunding'' | SwapRefunded \<Rightarrow> ''refunded'')"

text \<open>The error of a swap is the sentence for the user, not the one of its row.\<close>

definition swap_operation :: "swap \<Rightarrow> operation" where
  "swap_operation r =
     (let failure = swap_failure (sw_id r) (sw_status r) (sw_step r) in
      \<lparr>on_id = sw_id r, on_type = ''swap'', on_status = swap_status_text (sw_status r), on_created = sw_created r,
       on_updated = sw_updated r, on_tx_hash = sw_tx_hash r, on_error = map_option snd failure,
       on_reason = map_option fst failure, on_step = sw_step r, on_quote = Some (sw_quote r),
       on_from_token = Some (sw_from_token r), on_to_token = Some (sw_to_token r),
       on_from_amount = Some (sw_from_amount r), on_estimate = Some (sw_estimate r), on_actual = sw_actual r,
       on_pool = None, on_token = None, on_amount = None, on_nonce = Some (sw_input_nonce r), on_stages = []\<rparr>)"

definition earn_operation :: "earn_row \<Rightarrow> operation" where
  "earn_operation r =
     \<lparr>on_id = ea_id r, on_type = ''earn_'' @ (case ea_op r of OpDeposit \<Rightarrow> ''deposit'' | OpWithdraw \<Rightarrow> ''withdraw''),
      on_status = earn_status_text (ea_status r), on_created = ea_created r, on_updated = ea_updated r,
      on_tx_hash = ea_tx_hash r, on_error = ea_error r, on_reason = None, on_step = None, on_quote = None,
      on_from_token = None, on_to_token = None, on_from_amount = None, on_estimate = None, on_actual = None,
      on_pool = Some (ea_pool r), on_token = Some (ea_token r), on_amount = Some (ea_amount r),
      on_nonce = ea_input_nonce r, on_stages = ea_history r\<rparr>"

text \<open>The \<open>UNION ALL\<close> of both tables.\<close>

definition operations_of :: "string \<Rightarrow> db \<Rightarrow> operation list" where
  "operations_of user d =
     map swap_operation (filter (\<lambda>r. sw_user r = user) (db_swaps d))
     @ map earn_operation (filter (\<lambda>r. ea_user r = user) (db_earns d))"

definition op_key :: "operation \<Rightarrow> int \<times> string" where
  "op_key o1 = (on_created o1, on_id o1)"

definition UNSETTLED_STATUSES :: "string list" where
  "UNSETTLED_STATUSES =
     [''pending'', ''scheduled'', ''executing'', ''refunding'', ''failed'', ''canceled'', ''undeployed'',
      ''awaiting_liquidity'']"

definition list_unsettled_operations :: "string \<Rightarrow> int \<Rightarrow> db \<Rightarrow> operation list" where
  "list_unsettled_operations user_address limit d =
     sql_limit limit (rev (sort_key (\<lambda>r. (on_updated r, op_key r))
       (filter (\<lambda>r. on_status r \<in> set UNSETTLED_STATUSES) (operations_of (lower user_address) d))))"

section \<open>Cursors\<close>

definition encode_cursor :: "int \<Rightarrow> string \<Rightarrow> string" where
  "encode_cursor created_at operation_id = show_int created_at @ CHR '':'' # operation_id"

text \<open>\<open>s.replace(p, "")\<close> and \<open>s.strip("{}")\<close>.\<close>

function erase :: "string \<Rightarrow> string \<Rightarrow> string" where
  "erase p s =
     (if p = [] \<or> s = [] then s
      else if prefix p s then erase p (drop (length p) s) else hd s # erase p (tl s))"
  by pat_completeness auto
termination by (relation "measure (\<lambda>(p, s). length s)") auto

declare erase.simps [simp del]

definition strip_braces :: "string \<Rightarrow> string" where
  "strip_braces s = (let drop = dropWhile (\<lambda>c. c = CHR ''{'' \<or> c = CHR ''}'') in rev (drop (rev (drop s))))"

text \<open>What \<open>int(text, 16)\<close> accepts: digits with single underscores between them, after a sign and a
  \<open>0x\<close>.\<close>

fun hex_digits_ok :: "string \<Rightarrow> bool" where
  "hex_digits_ok [] = False"
| "hex_digits_ok [c] = is_hex_digit c"
| "hex_digits_ok (c # d # s) =
     (is_hex_digit c \<and> (if d = CHR ''_'' then hex_digits_ok s else hex_digits_ok (d # s)))"

definition int16_ok :: "string \<Rightarrow> bool" where
  "int16_ok s =
     (let t = strip_spaces s;
          u = (if t \<noteq> [] \<and> (hd t = CHR ''-'' \<or> hd t = CHR ''+'') then tl t else t);
          v = (if prefix ''0x'' (lower u) then drop 2 u else u);
          w = (if v \<noteq> u \<and> v \<noteq> [] \<and> hd v = CHR ''_'' then tl v else v)
      in hex_digits_ok w)"

definition is_uuid :: "string \<Rightarrow> bool" where
  "is_uuid s =
     (let h = erase ''-'' (strip_braces (erase ''uuid:'' (erase ''urn:'' s))) in length h = 32 \<and> int16_ok h)"

definition decode_cursor :: "string \<Rightarrow> exc + int \<times> string" where
  "decode_cursor cursor =
     (let created = takeWhile (\<lambda>c. c \<noteq> CHR '':'') cursor; rest = dropWhile (\<lambda>c. c \<noteq> CHR '':'') cursor in
      if rest = [] \<or> created = [] \<or> \<not> list_all is_digit created then Inl (ValueError ''Invalid cursor'')
      else if \<not> is_uuid (tl rest) then Inl (ValueError ''Invalid cursor'')
      else case py_int created of
        None \<Rightarrow> Inl (ValueError ''Exceeds the limit for integer string conversion'')
      | Some n \<Rightarrow> Inr (n, tl rest))"

section \<open>Pages\<close>

text \<open>A number is bound to the query as a 64-bit integer; a larger one is refused by the database
  driver.\<close>

definition bind_int :: "int \<Rightarrow> exc + unit" where
  "bind_int n = guardE (- (2 ^ 63) \<le> n \<and> n < 2 ^ 63) OverflowError"

definition list_operations :: "string \<Rightarrow> int \<Rightarrow> string option \<Rightarrow> db \<Rightarrow> exc + operation list \<times> string option" where
  "list_operations user_address limit before d =
     bindE (case before of None \<Rightarrow> Inr None | Some cursor \<Rightarrow> bindE (decode_cursor cursor) (\<lambda>c. Inr (Some c))) (\<lambda>bound.
     bindE (case bound of None \<Rightarrow> Inr () | Some (created_at, _) \<Rightarrow> bind_int created_at) (\<lambda>_.
     let rows = filter (\<lambda>r. case bound of None \<Rightarrow> True
           | Some (created_at, operation_id) \<Rightarrow>
               on_created r < created_at \<or> on_created r = created_at \<and> on_id r < operation_id)
         (operations_of (lower user_address) d);
       ops = sql_limit limit (rev (sort_key op_key rows)) in
     if int (length ops) = limit
     then (if ops = [] then Inl IndexError
           else Inr (ops, Some (encode_cursor (on_created (last ops)) (on_id (last ops)))))
     else Inr (ops, None)))"

text \<open>A client that follows the cursors; the database may be another at every page. \<open>None\<close> when the
  fuel runs out.\<close>

fun all_pages :: "nat \<Rightarrow> string \<Rightarrow> int \<Rightarrow> string option \<Rightarrow> (nat \<Rightarrow> db) \<Rightarrow> (exc + operation list) option" where
  "all_pages 0 user limit before ds = None"
| "all_pages (Suc k) user limit before ds =
     (case list_operations user limit before (ds 0) of
        Inl e \<Rightarrow> Some (Inl e)
      | Inr (ops, None) \<Rightarrow> Some (Inr ops)
      | Inr (ops, Some cursor) \<Rightarrow>
          (case all_pages k user limit (Some cursor) (\<lambda>n. ds (Suc n)) of
             None \<Rightarrow> None
           | Some (Inl e) \<Rightarrow> Some (Inl e)
           | Some (Inr rest) \<Rightarrow> Some (Inr (ops @ rest))))"

section \<open>A cursor reads back\<close>

lemma digits_no_colon: "list_all is_digit s \<Longrightarrow> CHR '':'' \<notin> set s"
  by (auto simp: list_all_iff dest: is_digit_not_special)

lemma show_int_nonneg: "0 \<le> n \<Longrightarrow> show_int n = show_nat (nat n)"
  by (simp add: show_int_def)

lemma length_show_nat: "n < 10 ^ Suc k \<Longrightarrow> length (show_nat n) \<le> Suc k"
proof (induction k arbitrary: n)
  case 0
  then show ?case by (subst show_nat.simps) simp
next
  case (Suc k)
  then have "n div 10 < 10 ^ Suc k" by simp
  from Suc.IH [OF this] show ?case by (subst show_nat.simps) simp
qed

lemma decode_digits:
  assumes "0 \<le> n" and "length (show_nat (nat n)) \<le> 4300" and "is_uuid i"
  shows "decode_cursor (encode_cursor n i) = Inr (n, i)"
proof -
  let ?s = "show_nat (nat n)"
  have c: "encode_cursor n i = ?s @ CHR '':'' # i" using assms(1) by (simp add: encode_cursor_def show_int_nonneg)
  have nc: "CHR '':'' \<notin> set ?s" by (rule digits_no_colon [OF show_nat_digits])
  then have t: "takeWhile (\<lambda>c. c \<noteq> CHR '':'') (?s @ CHR '':'' # i) = ?s"
    "dropWhile (\<lambda>c. c \<noteq> CHR '':'') (?s @ CHR '':'' # i) = CHR '':'' # i"
    by (auto simp: takeWhile_append dropWhile_append)
  have "py_int ?s = Some n" using assms(1,2) by (simp add: py_int_show_nat)
  then show ?thesis
    using t assms(3) show_nat_digits [of "nat n"] by (simp add: decode_cursor_def c)
qed

lemma decode_encode:
  assumes "0 \<le> n" and "n < 2 ^ 63" and "is_uuid i"
  shows "decode_cursor (encode_cursor n i) = Inr (n, i)"
proof -
  have "nat n < 10 ^ Suc 18" using assms(2) by simp
  from length_show_nat [OF this] show ?thesis using assms(1,3) by (intro decode_digits) simp_all
qed

text \<open>C26: the cursor of a page reads back as the creation time and the id of its last row, and a cursor
  that is accepted is a time and an id, so that no other text selects a page.\<close>

theorem cursor_roundtrip:
  assumes "0 \<le> n" and "n < 2 ^ 63" and "is_uuid i"
  shows "decode_cursor (encode_cursor n i) = Inr (n, i)
    \<and> (\<forall>c. decode_cursor c = Inr (n, i) \<longrightarrow> (\<exists>digits. c = digits @ CHR '':'' # i \<and> py_int digits = Some n))"
proof -
  have "\<exists>digits. c = digits @ CHR '':'' # i \<and> py_int digits = Some n" if "decode_cursor c = Inr (n, i)" for c
  proof -
    let ?rest = "dropWhile (\<lambda>c. c \<noteq> CHR '':'') c"
    from that have r: "?rest \<noteq> []" "tl ?rest = i" "py_int (takeWhile (\<lambda>c. c \<noteq> CHR '':'') c) = Some n"
      by (auto simp: decode_cursor_def Let_def split: if_splits option.splits)
    have "hd ?rest = CHR '':''" using hd_dropWhile [OF r(1)] by simp
    then have "?rest = CHR '':'' # i" using r(1,2) by (metis list.collapse)
    then have "c = takeWhile (\<lambda>c. c \<noteq> CHR '':'') c @ CHR '':'' # i"
      using takeWhile_dropWhile_id [of "\<lambda>c. c \<noteq> CHR '':''" c] by simp
    with r(3) show ?thesis by blast
  qed
  with decode_encode [OF assms] show ?thesis by blast
qed

section \<open>Following the cursors\<close>

definition descending :: "(int \<times> string) set \<Rightarrow> (int \<times> string) list" where
  "descending K = rev (sorted_list_of_set K)"

lemma descending_facts:
  assumes "finite K"
  shows "set (descending K) = K" "sorted_wrt (>) (descending K)" "length (descending K) = card K"
  using assms by (simp_all add: descending_def sorted_wrt_rev)

lemma descending_unique: "sorted_wrt (>) xs \<Longrightarrow> descending (set xs) = xs"
proof -
  assume "sorted_wrt (>) xs"
  then have "sorted_wrt (<) (rev xs)" by (simp add: sorted_wrt_rev)
  then have "sorted_list_of_set (set (rev xs)) = rev xs"
    by (rule sorted_list_of_set.idem_if_sorted_distinct [OF strict_sorted_imp_sorted])
      (use \<open>sorted_wrt (<) (rev xs)\<close> in \<open>simp add: strict_sorted_iff\<close>)
  then show ?thesis by (simp add: descending_def)
qed

lemma keys_descending:
  assumes "distinct (map op_key rows)"
  shows "map op_key (rev (sort_key op_key rows)) = descending (op_key ` set rows)"
proof -
  let ?ks = "map op_key (sort_key op_key rows)"
  have d: "distinct ?ks" using assms by (simp add: distinct_map)
  have "sorted_list_of_set (set ?ks) = ?ks"
    by (rule sorted_list_of_set.idem_if_sorted_distinct [OF _ d]) simp
  then show ?thesis by (simp add: descending_def rev_map [symmetric])
qed

text \<open>The keys below the last one of a page are those of the pages after it.\<close>

lemma descending_rest:
  assumes K: "finite K" and n: "0 < n" "n \<le> length (descending K)"
  shows "descending {k \<in> K. k < last (take n (descending K))} = drop n (descending K)"
proof -
  let ?D = "descending K"
  note D = descending_facts [OF K]
  have split: "?D = take n ?D @ drop n ?D" by simp
  then have w: "sorted_wrt (>) (take n ?D)" "sorted_wrt (>) (drop n ?D)"
    and cross: "\<And>a b. a \<in> set (take n ?D) \<Longrightarrow> b \<in> set (drop n ?D) \<Longrightarrow> b < a"
    using D(2) by (metis sorted_wrt_append)+
  have ne: "take n ?D \<noteq> []" using n by auto
  have least: "last (take n ?D) \<le> k" if "k \<in> set (take n ?D)" for k
  proof -
    have t: "take n ?D = butlast (take n ?D) @ [last (take n ?D)]" using ne by simp
    then have "\<forall>a\<in>set (butlast (take n ?D)). last (take n ?D) < a"
      using w(1) by (metis sorted_wrt_append list.set_intros(1))
    moreover have "k \<in> set (butlast (take n ?D)) \<or> k = last (take n ?D)"
      using that t by (metis Un_iff empty_iff insert_iff list.set(1) list.set(2) set_append)
    ultimately show ?thesis by auto
  qed
  have "{k \<in> K. k < last (take n ?D)} = set (drop n ?D)"
  proof (intro set_eqI iffI)
    fix k assume "k \<in> {k \<in> K. k < last (take n ?D)}"
    then have k: "k \<in> set (take n ?D @ drop n ?D)" "k < last (take n ?D)" using D(1) by simp_all
    have "k \<notin> set (take n ?D)" using least k(2) not_less by blast
    with k(1) show "k \<in> set (drop n ?D)" by (simp only: set_append) blast
  next
    fix k assume k: "k \<in> set (drop n ?D)"
    then have "k \<in> K" using D(1) in_set_dropD by metis
    with k cross last_in_set [OF ne] show "k \<in> {k \<in> K. k < last (take n ?D)}" by simp
  qed
  with descending_unique [OF w(2)] show ?thesis by simp
qed

text \<open>One page.\<close>

definition below :: "(int \<times> string) option \<Rightarrow> (int \<times> string) set \<Rightarrow> (int \<times> string) set" where
  "below b K = (case b of None \<Rightarrow> K | Some x \<Rightarrow> {k \<in> K. k < x})"

definition listed :: "string \<Rightarrow> (int \<times> string) set \<Rightarrow> db \<Rightarrow> bool" where
  "listed user K d \<longleftrightarrow>
     distinct (map op_key (operations_of (lower user) d)) \<and> op_key ` set (operations_of (lower user) d) = K"

definition plain_keys :: "(int \<times> string) set \<Rightarrow> bool" where
  "plain_keys K \<longleftrightarrow> finite K \<and> (\<forall>(c, i)\<in>K. 0 \<le> c \<and> c < 2 ^ 63 \<and> is_uuid i)"

definition cursor_of :: "(int \<times> string) option \<Rightarrow> string option" where
  "cursor_of b = map_option (\<lambda>(c, i). encode_cursor c i) b"

lemma list_operations_page:
  assumes "listed user K d" and "plain_keys K" and "0 < limit" and "case b of None \<Rightarrow> True | Some x \<Rightarrow> x \<in> K"
  shows "\<exists>ops. set ops \<subseteq> set (operations_of (lower user) d)
    \<and> map op_key ops = take (nat limit) (descending (below b K))
    \<and> list_operations user limit (cursor_of b) d
        = Inr (ops, if nat limit \<le> card (below b K) then cursor_of (Some (last (map op_key ops))) else None)"
proof -
  define rows where "rows = filter (\<lambda>r. case b of None \<Rightarrow> True | Some x \<Rightarrow> op_key r < x) (operations_of (lower user) d)"
  define ops where "ops = take (nat limit) (rev (sort_key op_key rows))"
  have "distinct (map op_key rows)" using assms(1) by (simp add: listed_def rows_def distinct_map_filter)
  moreover have keys: "op_key ` set rows = below b K"
    using assms(1) by (auto simp: listed_def rows_def below_def split: option.splits)
  ultimately have page: "map op_key ops = take (nat limit) (descending (below b K))"
    using keys_descending [of rows] by (simp add: ops_def take_map [symmetric])
  have sub: "set ops \<subseteq> set (operations_of (lower user) d)"
    by (auto simp: ops_def rows_def dest: in_set_takeD)
  have fin: "finite (below b K)" using assms(2) by (auto simp: plain_keys_def below_def split: option.splits)
  have len: "length ops = min (nat limit) (card (below b K))"
    using arg_cong [OF page, of length] descending_facts(3) [OF fin] by simp
  have bound: "bindE (case cursor_of b of None \<Rightarrow> Inr None | Some cursor \<Rightarrow> bindE (decode_cursor cursor) (\<lambda>c. Inr (Some c)))
      (\<lambda>bound. bindE (case bound of None \<Rightarrow> Inr () | Some (created_at, _) \<Rightarrow> bind_int created_at) (\<lambda>_. F bound))
    = F b" for F :: "_ \<Rightarrow> exc + _"
    using assms(2,4) by (auto simp: cursor_of_def plain_keys_def decode_encode bind_int_def guardE_def split: option.splits prod.splits)
  have filt: "(\<lambda>r. case b of None \<Rightarrow> True | Some (c, i) \<Rightarrow> on_created r < c \<or> on_created r = c \<and> on_id r < i)
      = (\<lambda>r. case b of None \<Rightarrow> True | Some x \<Rightarrow> op_key r < x)"
    by (auto simp: fun_eq_iff op_key_def split: option.splits)
  have run: "list_operations user limit (cursor_of b) d =
      (if int (length ops) = limit
       then (if ops = [] then Inl IndexError
             else Inr (ops, Some (encode_cursor (on_created (last ops)) (on_id (last ops)))))
       else Inr (ops, None))"
    unfolding list_operations_def bound filt rows_def [symmetric] using assms(3)
    by (simp add: sql_limit_def ops_def Let_def)
  have "ops \<noteq> []" if "int (length ops) = limit" using that assms(3) by auto
  moreover have "cursor_of (Some (last (map op_key ops))) = Some (encode_cursor (on_created (last ops)) (on_id (last ops)))"
    if "ops \<noteq> []" using that by (simp add: cursor_of_def last_map op_key_def)
  ultimately have "list_operations user limit (cursor_of b) d
      = Inr (ops, if nat limit \<le> card (below b K) then cursor_of (Some (last (map op_key ops))) else None)"
    using len assms(3) unfolding run by auto
  with sub page show ?thesis by blast
qed

lemma all_pages_run:
  assumes "\<And>n. listed user K (ds n)" and "plain_keys K" and "0 < limit"
    and "case b of None \<Rightarrow> True | Some x \<Rightarrow> x \<in> K" and "card (below b K) < fuel"
  shows "\<exists>ops. all_pages fuel user limit (cursor_of b) ds = Some (Inr ops) \<and> map op_key ops = descending (below b K)
    \<and> (\<forall>r\<in>set ops. \<exists>n. r \<in> set (operations_of (lower user) (ds n)))"
  using assms(1,4,5)
proof (induction fuel arbitrary: b ds)
  case (Suc k)
  have fin: "finite (below b K)" using assms(2) by (auto simp: plain_keys_def below_def split: option.splits)
  note D = descending_facts [OF fin]
  from list_operations_page [OF Suc.prems(1) [of 0] assms(2,3) Suc.prems(2)] obtain ops where
    ops: "set ops \<subseteq> set (operations_of (lower user) (ds 0))" "map op_key ops = take (nat limit) (descending (below b K))"
    and run: "list_operations user limit (cursor_of b) (ds 0)
        = Inr (ops, if nat limit \<le> card (below b K) then cursor_of (Some (last (map op_key ops))) else None)" by blast
  show ?case
  proof (cases "nat limit \<le> card (below b K)")
    case False
    with run ops D(3) show ?thesis by auto
  next
    case True
    let ?x = "last (map op_key ops)"
    have n: "0 < nat limit" "nat limit \<le> length (descending (below b K))" using True D(3) assms(3) by simp_all
    then have ne: "map op_key ops \<noteq> []" using ops(2) by auto
    have x: "?x \<in> below b K" using last_in_set [OF ne] ops(2) D(1) by (metis in_set_takeD)
    then have xK: "?x \<in> K" by (auto simp: below_def split: option.splits)
    have rest: "below (Some ?x) K = {k \<in> below b K. k < ?x}"
    proof (cases b)
      case (Some y)
      with x have "?x < y" by (simp add: below_def)
      then have "k < ?x \<Longrightarrow> k < y" for k by (rule less_trans [rotated])
      then show ?thesis unfolding below_def Some option.case by blast
    qed (simp add: below_def)
    have dr: "descending (below (Some ?x) K) = drop (nat limit) (descending (below b K))"
      unfolding rest unfolding ops(2) by (rule descending_rest [OF fin n])
    have fin': "finite (below (Some ?x) K)" using fin rest by simp
    have "card (below (Some ?x) K) < k"
      using arg_cong [OF dr, of length] descending_facts(3) [OF fin'] D(3) n Suc.prems(3) by simp
    from Suc.IH [of "\<lambda>n. ds (Suc n)" "Some ?x", OF Suc.prems(1) _ this] xK obtain more where
      more: "all_pages k user limit (cursor_of (Some ?x)) (\<lambda>n. ds (Suc n)) = Some (Inr more)"
        "map op_key more = descending (below (Some ?x) K)"
        "\<forall>r\<in>set more. \<exists>n. r \<in> set (operations_of (lower user) (ds (Suc n)))" by auto
    have run': "list_operations user limit (cursor_of b) (ds 0) = Inr (ops, Some (encode_cursor (fst ?x) (snd ?x)))"
      using run True by (simp add: cursor_of_def case_prod_beta)
    have step: "all_pages (Suc k) user limit (cursor_of b) ds = Some (Inr (ops @ more))"
    proof -
      have "all_pages k user limit (Some (encode_cursor (fst ?x) (snd ?x))) (\<lambda>n. ds (Suc n)) = Some (Inr more)"
        using more(1) by (simp add: cursor_of_def case_prod_beta)
      then show ?thesis by (simp only: all_pages.simps run' sum.case prod.case option.case)
    qed
    moreover have "map op_key (ops @ more) = descending (below b K)"
      using ops(2) more(2) dr by simp
    moreover have "\<forall>r\<in>set (ops @ more). \<exists>n. r \<in> set (operations_of (lower user) (ds n))"
      using ops(1) more(3) by auto
    ultimately show ?thesis by blast
  qed
qed simp

text \<open>C25: a client that follows the cursors reaches the end, whatever the page size, and has seen every
  operation of the user exactly once, newest first, even when rows change between the pages in
  anything but their ids and times of creation.\<close>

theorem paging_complete:
  assumes "0 < limit" and "plain_keys K" and "\<And>n. listed user K (ds n)" and "card K < fuel"
  shows "\<exists>ops. all_pages fuel user limit None ds = Some (Inr ops)
    \<and> sorted_wrt (\<lambda>a b. op_key b < op_key a) ops \<and> op_key ` set ops = K
    \<and> (\<forall>r\<in>set ops. \<exists>n. r \<in> set (operations_of (lower user) (ds n)))"
proof -
  have fin: "finite K" using assms(2) by (simp add: plain_keys_def)
  from all_pages_run [where ds = ds and b = None and fuel = fuel, OF assms(3,2,1)] assms(4) obtain ops where
    ops: "all_pages fuel user limit None ds = Some (Inr ops)" "map op_key ops = descending K"
      "\<forall>r\<in>set ops. \<exists>n. r \<in> set (operations_of (lower user) (ds n))"
    by (auto simp: cursor_of_def below_def)
  have "sorted_wrt (\<lambda>a b. op_key b < op_key a) ops"
    using descending_facts(2) [OF fin] by (simp add: ops(2) [symmetric] sorted_wrt_map)
  moreover have "op_key ` set ops = K"
    using arg_cong [OF ops(2), of set] descending_facts(1) [OF fin] by simp
  ultimately show ?thesis using ops by blast
qed

section \<open>Two pages\<close>

definition uid :: "char \<Rightarrow> string" where
  "uid c = c # replicate 31 CHR ''0''"

definition earn_at :: "char \<Rightarrow> int \<Rightarrow> earn_row" where
  "earn_at c created =
     \<lparr>ea_id = uid c, ea_op = OpDeposit, ea_pool = ''0x01'', ea_user = ''0xu'', ea_token = ''T'', ea_amount = 1,
      ea_signer = ''0xu'', ea_nonce = 1, ea_signature = ''s'', ea_status = EarnCompleted, ea_tx_hash = None,
      ea_error = None, ea_created = created, ea_updated = created, ea_consent = None, ea_shares = None,
      ea_rate = None, ea_settled = None, ea_claimed = None, ea_input_nonce = None, ea_input_sig = None,
      ea_history = []\<rparr>"

definition demo_operations :: db where
  "demo_operations = \<lparr>db_quotes = [], db_swaps = [], db_evm = [], db_lanes = [],
     db_earns = [earn_at CHR ''a'' 5, earn_at CHR ''b'' 7, earn_at CHR ''c'' 5]\<rparr>"

lemma uid_uuid: "is_uuid (uid CHR ''a'')" "is_uuid (uid CHR ''b'')" "is_uuid (uid CHR ''c'')"
  by code_simp+

theorem cursor_roundtrip_witness:
  "decode_cursor (encode_cursor 5 (uid CHR ''a'')) = Inr (5, uid CHR ''a'')"
  using cursor_roundtrip [of 5, OF _ _ uid_uuid(1)] by simp

lemma demo_listed: "listed ''0xU'' {(5, uid CHR ''a''), (7, uid CHR ''b''), (5, uid CHR ''c'')} demo_operations"
proof -
  have "lower ''0xU'' = ''0xu''" by code_simp
  then have "map op_key (operations_of (lower ''0xU'') demo_operations)
      = [(5, uid CHR ''a''), (7, uid CHR ''b''), (5, uid CHR ''c'')]"
    by (simp add: operations_of_def demo_operations_def earn_at_def op_key_def earn_operation_def)
  then show ?thesis
    by (simp add: listed_def uid_def flip: set_map)
qed

theorem paging_complete_witness:
  "\<exists>ops. all_pages 4 ''0xU'' 2 None (\<lambda>_. demo_operations) = Some (Inr ops) \<and> (7, uid CHR ''b'') \<in> op_key ` set ops"
proof -
  let ?K = "{(5, uid CHR ''a''), (7, uid CHR ''b''), (5, uid CHR ''c'')}"
  have "plain_keys ?K" using uid_uuid by (simp add: plain_keys_def)
  moreover have "card ?K < 4" by (simp add: uid_def)
  ultimately show ?thesis
    using paging_complete [of 2 ?K "''0xU''" "\<lambda>_. demo_operations" 4, OF _ _ demo_listed] by auto
qed


end
