(* ===== verification/Decimals.thy ===== *)
theory Decimals
  imports Prelude Complex_Main
begin

text \<open>
  Python's \<open>decimal\<close> in its default context: the exact result of an operation rounded to 28
  significant digits, a tie to the even neighbour. A value is the rational it stands for; its
  exponent shows only in texts, which these modules write with a fixed number of places.
\<close>

definition half_even :: "int \<Rightarrow> int \<Rightarrow> int" where
  "half_even n d =
     (let q = n div d; r = n mod d in
      if 2 * r < d then q else if 2 * r > d then q + 1 else if even q then q else q + 1)"

definition half_up :: "int \<Rightarrow> int \<Rightarrow> int" where
  "half_up n d = (if n < 0 then - ((2 * (- n) + d) div (2 * d)) else (2 * n + d) div (2 * d))"

function digits :: "int \<Rightarrow> int" where
  "digits n = (if \<bar>n\<bar> < 10 then 1 else 1 + digits (\<bar>n\<bar> div 10))"
  by pat_completeness auto
termination by (relation "measure (\<lambda>n. nat \<bar>n\<bar>)") auto

declare digits.simps [simp del]

definition scaled :: "int \<Rightarrow> int \<Rightarrow> int \<Rightarrow> int \<times> int" where
  "scaled n d e = (if 0 \<le> e then (n * 10 ^ nat e, d) else (n, d * 10 ^ nat (- e)))"

definition pow10 :: "int \<Rightarrow> rat" where
  "pow10 e = (if 0 \<le> e then of_int (10 ^ nat e) else 1 / of_int (10 ^ nat (- e)))"

text \<open>The rounding of every operation.\<close>

definition dec28 :: "rat \<Rightarrow> rat" where
  "dec28 q =
     (let (n, d) = quotient_of q in
      if n = 0 then 0
      else
        let e0 = 27 - (digits n - digits d);
            e = (let (a, b) = scaled n d e0 in if \<bar>a\<bar> < 10 ^ 27 * b then e0 + 1 else e0);
            (a, b) = scaled n d e in
        of_int (half_even a b) * pow10 (- e))"

definition dec_add :: "rat \<Rightarrow> rat \<Rightarrow> rat" where "dec_add x y = dec28 (x + y)"
definition dec_mul :: "rat \<Rightarrow> rat \<Rightarrow> rat" where "dec_mul x y = dec28 (x * y)"

definition dec_div :: "rat \<Rightarrow> rat \<Rightarrow> exc + rat" where
  "dec_div x y = (if y = 0 then Inl (if x = 0 then InvalidOperation else ZeroDivisionError) else Inr (dec28 (x / y)))"

text \<open>\<open>quantize(Decimal("1e-k"))\<close>: the value in units of the last place, refused when it has more than 28
  digits.\<close>

definition quantize :: "nat \<Rightarrow> rat \<Rightarrow> exc + int" where
  "quantize k q =
     (let (n, d) = quotient_of (q * 10 ^ k); c = half_even n d in
      if digits c > 28 then Inl InvalidOperation else Inr c)"

lemma half_even_bounds:
  assumes "0 < d"
  shows "\<bar>2 * (half_even n d * d - n)\<bar> \<le> d"
proof -
  have n: "n = d * (n div d) + n mod d" by simp
  have "0 \<le> n mod d" "n mod d < d" using assms by simp_all
  moreover have "half_even n d = n div d \<and> 2 * (n mod d) \<le> d \<or> half_even n d = n div d + 1 \<and> d \<le> 2 * (n mod d)"
    by (auto simp: half_even_def Let_def)
  ultimately show ?thesis
  proof (elim disjE conjE)
    assume h: "half_even n d = n div d" and le: "2 * (n mod d) \<le> d"
    have "half_even n d * d - n = - (n mod d)" using n h by (simp add: algebra_simps)
    with le \<open>0 \<le> n mod d\<close> show ?thesis by simp
  next
    assume h: "half_even n d = n div d + 1" and le: "d \<le> 2 * (n mod d)"
    have "half_even n d * d - n = d - n mod d" using n h by (simp add: algebra_simps)
    with le \<open>n mod d < d\<close> show ?thesis by simp
  qed
qed

lemma half_even_exact: "0 < d \<Longrightarrow> half_even (c * d) d = c"
  by (simp add: half_even_def)

section \<open>What rounding loses\<close>

lemma half_even_error:
  assumes "0 < b"
  shows "\<bar>of_int (half_even a b) - of_int a / (of_int b :: rat)\<bar> \<le> 1 / 2"
proof -
  have "\<bar>2 * (half_even a b * b - a)\<bar> \<le> b" by (rule half_even_bounds [OF assms])
  then have "\<bar>of_int (2 * (half_even a b * b - a))\<bar> \<le> (of_int b :: rat)"
    using of_int_le_iff [where 'a = rat] by (metis of_int_abs)
  moreover have "of_int (2 * (half_even a b * b - a))
      = 2 * of_int b * (of_int (half_even a b) - of_int a / (of_int b :: rat))"
    using assms by (simp add: field_simps)
  ultimately have "2 * of_int b * \<bar>of_int (half_even a b) - of_int a / (of_int b :: rat)\<bar> \<le> of_int b"
    using assms by (simp add: abs_mult)
  then show ?thesis using assms by (simp add: field_simps)
qed

lemma digits_pos: "1 \<le> digits n"
  by (induction n rule: digits.induct) (subst digits.simps, force)

lemma digits_bounds: "n \<noteq> 0 \<Longrightarrow> 10 ^ (nat (digits n) - 1) \<le> \<bar>n\<bar> \<and> \<bar>n\<bar> < 10 ^ nat (digits n)"
proof (induction n rule: digits.induct)
  case (1 n)
  show ?case
  proof (cases "\<bar>n\<bar> < 10")
    case True
    with 1(2) show ?thesis by (subst digits.simps, subst digits.simps) simp
  next
    case False
    let ?m = "\<bar>n\<bar> div 10" and ?k = "nat (digits (\<bar>n\<bar> div 10))"
    have k: "nat (digits n) = Suc ?k" "1 \<le> ?k"
      using False digits_pos [of ?m] by (subst digits.simps, simp, simp)
    have m: "0 < ?m" using False by simp
    with 1(1) [OF False] have b: "10 ^ (?k - 1) \<le> ?m" "?m < 10 ^ ?k" by simp_all
    have p: "(10::int) ^ ?k = 10 * 10 ^ (?k - 1)" using k(2) by (cases ?k) simp_all
    have "10 * ?m \<le> \<bar>n\<bar>" "\<bar>n\<bar> < 10 * ?m + 10" by simp_all
    with b p show ?thesis unfolding k(1) by simp
  qed
qed

lemma pow10_powi: "pow10 e = 10 powi e"
  by (simp add: pow10_def power_int_def inverse_eq_divide power_one_over)

lemma scaled_ratio:
  assumes "scaled n d e = (a, b)" and "0 < d"
  shows "0 < b" and "of_int a / of_int b = (of_int n / of_int d :: rat) * 10 powi e"
  using assms by (auto simp: scaled_def power_int_def inverse_eq_divide power_one_over split: if_splits)

text \<open>The exponent a rounding uses: the result keeps 28 digits.\<close>

lemma dec28_shape:
  assumes "q \<noteq> 0"
  obtains e a b where "dec28 q = of_int (half_even a b) * 10 powi (- e)" and "0 < b"
    and "of_int a / of_int b = q * 10 powi e" and "10 ^ 27 \<le> \<bar>q\<bar> * 10 powi e"
proof -
  obtain n d where nd: "quotient_of q = (n, d)" by (cases "quotient_of q")
  then have d: "0 < d" and q: "q = of_int n / of_int d"
    by (auto intro: quotient_of_denom_pos quotient_of_div)
  with assms have n: "n \<noteq> 0" by auto
  define e0 where "e0 = 27 - (digits n - digits d)"
  obtain a0 b0 where s0: "scaled n d e0 = (a0, b0)" by (cases "scaled n d e0")
  define e where "e = (if \<bar>a0\<bar> < 10 ^ 27 * b0 then e0 + 1 else e0)"
  obtain a b where s: "scaled n d e = (a, b)" by (cases "scaled n d e")
  note r0 = scaled_ratio [OF s0 d] and r = scaled_ratio [OF s d]
  have val: "dec28 q = of_int (half_even a b) * 10 powi (- e)"
    using n s0 s by (simp add: dec28_def nd e_def e0_def [symmetric] pow10_powi)
  have q0: "\<bar>q\<bar> * 10 powi e0 = of_int \<bar>a0\<bar> / of_int b0"
    using arg_cong [OF r0(2), of abs] q r0(1) by (simp add: abs_mult power_int_abs)
  have big: "10 ^ 26 < \<bar>q\<bar> * (10::rat) powi e0"
  proof -
    have N: "10 powi (digits n - 1) \<le> (of_int \<bar>n\<bar> :: rat)"
    proof -
      have "of_int (10 ^ (nat (digits n) - 1)) \<le> (of_int \<bar>n\<bar> :: rat)"
        using digits_bounds [OF n] by (simp only: of_int_le_iff)
      moreover have "(10::rat) powi (digits n - 1) = 10 ^ (nat (digits n) - 1)"
        using digits_pos [of n] by (simp add: power_int_def nat_diff_distrib)
      ultimately show ?thesis by simp
    qed
    have D: "(of_int d :: rat) < 10 powi digits d"
    proof -
      have "of_int d < (of_int (10 ^ nat (digits d)) :: rat)"
        using digits_bounds [of d] d by (simp only: of_int_less_iff) simp
      then show ?thesis using digits_pos [of d] by (simp add: power_int_def)
    qed
    have "(10::rat) powi (digits n - 1) / 10 powi digits d < of_int \<bar>n\<bar> / of_int d"
    proof -
      have "(10::rat) powi (digits n - 1) * of_int d < of_int \<bar>n\<bar> * 10 powi digits d"
        using N D d n by (intro mult_le_less_imp_less) auto
      then show ?thesis using d by (simp add: field_simps)
    qed
    then have "10 powi (digits n - 1) / 10 powi digits d * (10::rat) powi e0 < \<bar>q\<bar> * 10 powi e0"
      using q d by (intro mult_strict_right_mono) simp_all
    moreover have "10 powi (digits n - 1) / 10 powi digits d * (10::rat) powi e0 = 10 powi 26"
      by (simp add: e0_def power_int_add [symmetric] power_int_diff [symmetric] del: power_int_numeral)
    ultimately show ?thesis by simp
  qed
  have "10 ^ 27 \<le> \<bar>q\<bar> * 10 powi e"
  proof (cases "\<bar>a0\<bar> < 10 ^ 27 * b0")
    case True
    then have "(10::rat) powi e = 10 powi e0 * 10" by (simp add: e_def power_int_add)
    with big show ?thesis by simp
  next
    case False
    then have "(of_int (10 ^ 27 * b0) :: rat) \<le> of_int \<bar>a0\<bar>" by (simp only: of_int_le_iff not_less)
    then have "10 ^ 27 \<le> of_int \<bar>a0\<bar> / (of_int b0 :: rat)" using r0(1) by (simp add: le_divide_eq)
    then show ?thesis using False q0 by (simp add: e_def)
  qed
  from that [OF val r(1) _ this] r(2) q show ?thesis by simp
qed

lemma dec28_0 [simp]: "dec28 0 = 0"
  by (simp add: dec28_def)

text \<open>The relative error of an operation.\<close>

lemma dec28_error: "\<bar>dec28 q - q\<bar> \<le> \<bar>q\<bar> / (2 * 10 ^ 27)"
proof (cases "q = 0")
  case False
  from dec28_shape [OF this] obtain e a b where s: "dec28 q = of_int (half_even a b) * 10 powi (- e)" "0 < b"
    "of_int a / of_int b = q * 10 powi e" "10 ^ 27 \<le> \<bar>q\<bar> * 10 powi e" by metis
  have q: "q = of_int a / of_int b * 10 powi (- e)"
    unfolding s(3) by (simp add: power_int_minus)
  have "\<bar>dec28 q - q\<bar> = \<bar>of_int (half_even a b) - of_int a / of_int b\<bar> * 10 powi (- e)"
  proof -
    have "dec28 q - q = (of_int (half_even a b) - of_int a / of_int b) * 10 powi (- e)"
      by (subst s(1), subst q) (simp only: left_diff_distrib)
    then show ?thesis by (simp add: abs_mult power_int_abs)
  qed
  also have "\<dots> \<le> 1 / 2 * 10 powi (- e)"
    by (intro mult_right_mono half_even_error s(2)) simp
  also have "\<dots> \<le> \<bar>q\<bar> / (2 * 10 ^ 27)"
    using s(4) by (simp add: power_int_minus field_simps)
  finally show ?thesis .
qed simp

text \<open>A value that 28 digits can write is not changed.\<close>

lemma dec28_exact:
  assumes "q * 10 powi j = of_int c" and "\<bar>c\<bar> < 10 ^ 28"
  shows "dec28 q = q"
proof (cases "q = 0")
  case False
  from dec28_shape [OF this] obtain e a b where s: "dec28 q = of_int (half_even a b) * 10 powi (- e)" "0 < b"
    "of_int a / of_int b = q * 10 powi e" "10 ^ 27 \<le> \<bar>q\<bar> * 10 powi e" by metis
  have "j \<le> e"
  proof (rule ccontr)
    assume "\<not> j \<le> e"
    then have "(10::rat) powi (e + 1) \<le> 10 powi j" by (intro power_int_increasing) simp_all
    then have "\<bar>q\<bar> * 10 powi (e + 1) \<le> \<bar>q\<bar> * (10::rat) powi j" by (intro mult_left_mono) simp_all
    moreover have "\<bar>q\<bar> * (10::rat) powi j < 10 ^ 28"
    proof -
      have "\<bar>q\<bar> * (10::rat) powi j = of_int \<bar>c\<bar>"
        using arg_cong [OF assms(1), of abs] by (simp add: abs_mult power_int_abs)
      also have "\<dots> < of_int (10 ^ 28)" using assms(2) by (simp only: of_int_less_iff)
      finally show ?thesis by simp
    qed
    ultimately show False using s(4) by (simp add: power_int_add)
  qed
  define z where "z = c * 10 ^ nat (e - j)"
  have "q * 10 powi e = q * 10 powi j * 10 powi (e - j)" by (simp add: power_int_add [symmetric] mult.assoc)
  also have "\<dots> = of_int z" using assms(1) \<open>j \<le> e\<close> by (simp add: z_def power_int_def)
  finally have z: "of_int a / of_int b = (of_int z :: rat)" using s(3) by simp
  then have "(of_int a :: rat) = of_int (z * b)" using s(2) by (simp add: field_simps)
  then have "a = z * b" by (simp only: of_int_eq_iff)
  then have "half_even a b = z" using half_even_exact [OF s(2), of z] by simp
  with s(1,3) z show ?thesis by (simp add: power_int_minus)
qed simp

lemma dec28_int: "\<bar>n\<bar> < 10 ^ 28 \<Longrightarrow> dec28 (of_int n) = of_int n"
  by (rule dec28_exact [of _ 0 n]) simp_all

lemma quantize_error:
  assumes "quantize k q = Inr c"
  shows "\<bar>of_int c - q * 10 ^ k\<bar> \<le> 1 / 2"
proof -
  obtain n d where nd: "quotient_of (q * 10 ^ k) = (n, d)" by (cases "quotient_of (q * 10 ^ k)")
  then have "0 < d" "q * 10 ^ k = of_int n / of_int d"
    by (auto intro: quotient_of_denom_pos quotient_of_div)
  with half_even_error [of d n] assms nd show ?thesis
    by (simp add: quantize_def Let_def split: if_splits)
qed

end
