(* ===== verification/Rates.thy ===== *)
theory Rates
  imports VaultOps EarnDemo Decimals
begin

text \<open>
  The history of pool rates the sampler keeps (\<open>services/pool_rate_history.py\<close>) and the change of a
  position over 24 hours that is read off it (\<open>services/earn/change.py\<close>). The table is an argument of
  the operations, as only the sampler writes it; its totals, decimal texts in the table, are numbers.
\<close>

section \<open>The history\<close>

record rate_row =
  rt_pool :: string
  rt_ts :: int
  rt_assets :: int
  rt_shares :: int
  rt_observed :: "int option"

definition DAY_SEC :: int where "DAY_SEC = 86400"
definition SAMPLE_INTERVAL_SEC :: int where "SAMPLE_INTERVAL_SEC = DAY_SEC div 4"

definition sample_bucket :: "int \<Rightarrow> int" where
  "sample_bucket timestamp = timestamp - timestamp mod SAMPLE_INTERVAL_SEC"

text \<open>\<open>INSERT OR IGNORE\<close> under the key of pool and slot.\<close>

definition same_slot :: "rate_row \<Rightarrow> rate_row \<Rightarrow> bool" where
  "same_slot a b \<longleftrightarrow> rt_pool a = rt_pool b \<and> rt_ts a = rt_ts b"

definition store_point :: "string \<Rightarrow> int \<Rightarrow> int \<Rightarrow> int \<Rightarrow> int option \<Rightarrow> rate_row list \<Rightarrow> nat \<times> rate_row list" where
  "store_point pool_id timestamp assets shares observed t =
     (let row = \<lparr>rt_pool = pool_id, rt_ts = sample_bucket timestamp, rt_assets = assets, rt_shares = shares,
                 rt_observed = (case observed of None \<Rightarrow> Some timestamp | Some read \<Rightarrow> Some read)\<rparr> in
      if list_ex (same_slot row) t then (0, t) else (1, t @ [row]))"

definition read_points :: "string \<Rightarrow> int option \<Rightarrow> int \<Rightarrow> rate_row list \<Rightarrow> rate_row list" where
  "read_points pool_id days now t =
     sort_key rt_ts (filter (\<lambda>r. rt_pool r = pool_id
       \<and> (case days of None \<Rightarrow> True | Some n \<Rightarrow> rt_ts r \<ge> now - n * DAY_SEC)) t)"

definition effective_ts :: "rate_row \<Rightarrow> int" where
  "effective_ts r = (case rt_observed r of None \<Rightarrow> rt_ts r + SAMPLE_INTERVAL_SEC | Some read \<Rightarrow> read)"

fun newest :: "rate_row list \<Rightarrow> rate_row option" where
  "newest [] = None"
| "newest (r # rows) =
     (case newest rows of
        None \<Rightarrow> Some r
      | Some best \<Rightarrow> if effective_ts r \<ge> effective_ts best then Some r else Some best)"

definition read_point_before :: "string \<Rightarrow> int \<Rightarrow> int option \<Rightarrow> rate_row list \<Rightarrow> rate_row option" where
  "read_point_before pool_id ts_max ts_min t =
     newest (filter (\<lambda>r. rt_pool r = pool_id \<and> effective_ts r \<le> ts_max
       \<and> (case ts_min of None \<Rightarrow> True | Some lo \<Rightarrow> effective_ts r \<ge> lo)) t)"

section \<open>The sampler\<close>

text \<open>One unreadable pool does not stop the round.\<close>

fun sample_pools ::
  "'e vault_env_scheme \<Rightarrow> int \<Rightarrow> (nat list \<times> pool_state) list \<Rightarrow> rate_row list \<Rightarrow> (nat \<times> rate_row list) vact" where
  "sample_pools env now [] t = ret (0, t)"
| "sample_pools env now ((pool_id, pool) # pools) t =
     (if \<not> ps_active pool then sample_pools env now pools t
      else bindA (tryA (rate_snapshot env (pool_hex pool_id))) (\<lambda>read.
        case read of
          Inl _ \<Rightarrow> sample_pools env now pools t
        | Inr None \<Rightarrow> sample_pools env now pools t
        | Inr (Some (assets, shares)) \<Rightarrow>
            (let (n, t') = store_point (pool_hex pool_id) now assets shares None t in
             bindA (sample_pools env now pools t') (\<lambda>(stored, t''). ret (n + stored, t'')))))"

definition sample_once :: "'e vault_env_scheme \<Rightarrow> rate_row list \<Rightarrow> (nat \<times> rate_row list) vact" where
  "sample_once env t =
     bindA (tryA (in_thread env (list_pools env))) (\<lambda>read.
     case read of
       Inl _ \<Rightarrow> ret (0, t)
     | Inr pools \<Rightarrow> bindA (vnow env) (\<lambda>now. sample_pools env now pools t))"

section \<open>The change over 24 hours\<close>

definition WINDOW_SEC :: int where "WINDOW_SEC = 24 * 3600"
definition MAX_SAMPLE_AGE_SEC :: int where "MAX_SAMPLE_AGE_SEC = 36 * 3600"
definition VIRTUAL_SHARES :: int where "VIRTUAL_SHARES = 1000000"
definition VIRTUAL_ASSETS :: int where "VIRTUAL_ASSETS = 1"

text \<open>The signed amount in base units, and its fraction of the earlier value in millionths.\<close>

record change =
  ch_amount :: int
  ch_pct :: int

definition position_value :: "int \<Rightarrow> int \<Rightarrow> int \<Rightarrow> int option" where
  "position_value shares total_assets total_shares =
     (if total_shares \<le> 0 then None
      else Some (shares * (total_assets + VIRTUAL_ASSETS) div (total_shares + VIRTUAL_SHARES)))"

definition touches :: "string \<Rightarrow> string \<Rightarrow> int \<Rightarrow> earn_row \<Rightarrow> bool" where
  "touches wallet pool_id since r \<longleftrightarrow>
     (ea_user r = wallet \<or> ea_consent r = Some wallet) \<and> lower (ea_pool r) = lower pool_id
     \<and> ea_status r \<noteq> EarnFailed \<and> max (ea_created r) (ea_updated r) \<ge> since"

definition has_cashflow_since :: "string \<Rightarrow> string \<Rightarrow> int \<Rightarrow> db \<Rightarrow> bool" where
  "has_cashflow_since user_address pool_id since d =
     list_ex (touches (lower user_address) pool_id since) (db_earns d)"

definition change_24h ::
  "string option \<Rightarrow> string \<Rightarrow> int \<Rightarrow> int \<Rightarrow> int \<Rightarrow> int \<Rightarrow> rate_row list \<Rightarrow> db \<Rightarrow> exc + change option" where
  "change_24h user_address pool_id shares total_assets total_shares now rates d =
     (case user_address of
        None \<Rightarrow> Inr None
      | Some user \<Rightarrow>
          if user = [] \<or> shares \<le> 0 then Inr None
          else case read_point_before pool_id (now - WINDOW_SEC) (Some (now - MAX_SAMPLE_AGE_SEC)) rates of
            None \<Rightarrow> Inr None
          | Some point \<Rightarrow>
              if has_cashflow_since user pool_id (rt_ts point) d then Inr None
              else
                (case (position_value shares (rt_assets point) (rt_shares point),
                       position_value shares total_assets total_shares) of
                   (Some before, Some after) \<Rightarrow>
                     if before = 0 then Inr None
                     else
                       (let amount = after - before in
                        bindE (dec_div (of_int amount) (of_int before)) (\<lambda>ratio.
                        bindE (quantize 6 ratio) (\<lambda>pct.
                        Inr (Some \<lparr>ch_amount = amount, ch_pct = pct\<rparr>))))
                 | _ \<Rightarrow> Inr None))"

section \<open>What the history keeps\<close>

definition slot_ok :: "rate_row \<Rightarrow> bool" where
  "slot_ok r \<longleftrightarrow> rt_ts r mod SAMPLE_INTERVAL_SEC = 0
     \<and> rt_ts r \<le> effective_ts r \<and> effective_ts r \<le> rt_ts r + SAMPLE_INTERVAL_SEC"

definition rates_ok :: "rate_row list \<Rightarrow> bool" where
  "rates_ok t \<longleftrightarrow> distinct (map (\<lambda>r. (rt_pool r, rt_ts r)) t) \<and> (\<forall>r\<in>set t. slot_ok r)"

lemma interval_pos: "SAMPLE_INTERVAL_SEC = 21600"
  by (simp add: SAMPLE_INTERVAL_SEC_def DAY_SEC_def)

lemma sample_bucket_grid:
  "sample_bucket ts mod SAMPLE_INTERVAL_SEC = 0" "sample_bucket ts \<le> ts" "ts < sample_bucket ts + SAMPLE_INTERVAL_SEC"
  using pos_mod_sign [of 21600 ts] pos_mod_bound [of 21600 ts]
  by (simp_all add: sample_bucket_def interval_pos mod_diff_left_eq)

lemma store_point_kept:
  assumes "store_point pool_id ts assets shares None t = (n, t')" and "rates_ok t"
  shows "rates_ok t' \<and> (\<exists>new. t' = t @ new \<and> length new = n)"
proof -
  define row where "row = \<lparr>rt_pool = pool_id, rt_ts = sample_bucket ts, rt_assets = assets, rt_shares = shares,
    rt_observed = Some ts\<rparr>"
  have st: "(if list_ex (same_slot row) t then (0, t) else (1, t @ [row])) = (n, t')"
    using assms(1) unfolding store_point_def row_def Let_def option.case .
  have ok: "slot_ok row"
    using sample_bucket_grid [of ts] by (simp add: slot_ok_def effective_ts_def row_def)
  show ?thesis
  proof (cases "list_ex (same_slot row) t")
    case True
    with st assms(2) show ?thesis by simp
  next
    case False
    then have "(rt_pool row, rt_ts row) \<notin> (\<lambda>r. (rt_pool r, rt_ts r)) ` set t"
      by (auto simp: list_ex_iff same_slot_def)
    with False st ok assms(2) show ?thesis by (auto simp: rates_ok_def)
  qed
qed

lemma sample_pools_kept:
  assumes "rates_ok t"
  shows "\<exists>n new s'. sample_pools env now pools t s = (Inr (n, t @ new), s') \<and> length new = n \<and> rates_ok (t @ new)"
  using assms
proof (induction pools arbitrary: t s)
  case Nil
  then show ?case by (simp add: ret_def)
next
  case (Cons p pools)
  obtain pool_id pool where p: "p = (pool_id, pool)" by (cases p)
  obtain r s1 where r: "rate_snapshot env (pool_hex pool_id) s = (r, s1)" by (cases "rate_snapshot env (pool_hex pool_id) s")
  show ?case
  proof (cases "ps_active pool \<and> (\<exists>a sh. r = Inr (Some (a, sh)))")
    case False
    with Cons.IH [OF Cons.prems, of s] Cons.IH [OF Cons.prems, of s1] r show ?thesis
      by (auto simp: p bindA_def tryA_def split: sum.splits option.splits)
  next
    case True
    then obtain a sh where ash: "r = Inr (Some (a, sh))" by blast
    obtain n t' where st: "store_point (pool_hex pool_id) now a sh None t = (n, t')"
      by (cases "store_point (pool_hex pool_id) now a sh None t")
    from store_point_kept [OF st Cons.prems] obtain new where new: "rates_ok t'" "t' = t @ new" "length new = n" by blast
    from Cons.IH [OF new(1), of s1] obtain k rest s' where
      "sample_pools env now pools t' s1 = (Inr (k, t' @ rest), s')" "length rest = k" "rates_ok (t' @ rest)" by blast
    with True ash r st new show ?thesis
      by (auto simp: p bindA_def tryA_def ret_def)
  qed
qed

text \<open>C24: a round of the sampler never fails, however many pools cannot be read; it only appends to
  the history, as many rows as it reports, and keeps one row per pool and slot, each on the grid and
  read within its slot.\<close>

theorem sampling_kept:
  assumes "rates_ok t"
  shows "\<exists>n new s'. sample_once env t s = (Inr (n, t @ new), s') \<and> length new = n \<and> rates_ok (t @ new)"
proof -
  obtain r s1 where r: "in_thread env (list_pools env) s = (r, s1)" by (cases "in_thread env (list_pools env) s")
  show ?thesis
  proof (cases r)
    case (Inl e)
    with r assms show ?thesis by (simp add: sample_once_def bindA_def tryA_def ret_def)
  next
    case (Inr pools)
    with sample_pools_kept [OF assms, of env _ pools] r show ?thesis
      by (fastforce simp: sample_once_def bindA_def tryA_def vnow_def vask_def)
  qed
qed

section \<open>What the change measures\<close>

lemma newest_None: "newest rows = None \<longleftrightarrow> rows = []"
  by (cases rows) (simp_all split: option.splits)

lemma newest_Some:
  "newest rows = Some p \<Longrightarrow> p \<in> set rows \<and> (\<forall>q\<in>set rows. effective_ts q \<le> effective_ts p)"
proof (induction rows arbitrary: p)
  case (Cons r rows)
  then show ?case
    by (cases "newest rows") (force simp: newest_None split: if_splits)+
qed simp

lemma read_point_before_Some:
  assumes "read_point_before pool_id hi (Some lo) t = Some p"
  shows "p \<in> set t" "rt_pool p = pool_id" "lo \<le> effective_ts p" "effective_ts p \<le> hi"
    and "\<And>q. q \<in> set t \<Longrightarrow> rt_pool q = pool_id \<Longrightarrow> effective_ts q \<le> hi \<Longrightarrow> effective_ts q \<le> effective_ts p"
proof -
  have n: "newest (filter (\<lambda>r. rt_pool r = pool_id \<and> effective_ts r \<le> hi \<and> effective_ts r \<ge> lo) t) = Some p"
    using assms by (simp add: read_point_before_def)
  from newest_Some [OF this] show "p \<in> set t" "rt_pool p = pool_id" "lo \<le> effective_ts p" "effective_ts p \<le> hi"
    by auto
  fix q assume q: "q \<in> set t" "rt_pool q = pool_id" "effective_ts q \<le> hi"
  show "effective_ts q \<le> effective_ts p"
  proof (cases "lo \<le> effective_ts q")
    case True
    with q newest_Some [OF n] show ?thesis by auto
  next
    case False
    with \<open>lo \<le> effective_ts p\<close> show ?thesis by simp
  qed
qed

text \<open>The fraction of a change is its amount over the earlier value, to half a millionth and the
  relative error of one division.\<close>

lemma pct_error:
  assumes "dec_div (of_int a) (of_int b) = Inr ratio" and "quantize 6 ratio = Inr pct"
  shows "\<bar>of_int pct / 10 ^ 6 - of_int a / of_int b\<bar> \<le> 1 / (2 * 10 ^ 6) + \<bar>of_int a / of_int b\<bar> / (2 * 10 ^ 27 :: rat)"
proof -
  have "ratio = dec28 (of_int a / of_int b)" using assms(1) by (simp add: dec_div_def split: if_splits)
  with dec28_error [of "of_int a / of_int b"]
  have r: "\<bar>ratio - of_int a / of_int b\<bar> \<le> \<bar>of_int a / of_int b\<bar> / (2 * 10 ^ 27)" by simp
  have "of_int pct / 10 ^ 6 - ratio = (of_int pct - ratio * 10 ^ 6) / 10 ^ 6" by (simp add: field_simps)
  then have "\<bar>of_int pct / 10 ^ 6 - ratio\<bar> = \<bar>of_int pct - ratio * 10 ^ 6\<bar> / 10 ^ 6" by (simp only: abs_divide) simp
  then have "\<bar>of_int pct / 10 ^ 6 - ratio\<bar> \<le> 1 / (2 * 10 ^ 6)"
    using quantize_error [OF assms(2)] by simp
  moreover have "\<bar>of_int pct / 10 ^ 6 - of_int a / of_int b\<bar>
      \<le> \<bar>of_int pct / 10 ^ 6 - ratio\<bar> + \<bar>ratio - of_int a / of_int b\<bar>" by simp
  ultimately show ?thesis using r by linarith
qed

text \<open>C23: a change is given only from the newest rate of the pool that was read at least 24 hours ago,
  and then it was read at most 36 hours ago and no operation of the user on the pool, failed ones
  apart, was made or moved since; it is what the shares are worth now less what they were worth then,
  and never a loss while the rate of a share did not fall.\<close>

theorem change_measures_yield:
  assumes "change_24h user pool_id shares assets in_pool now rates d = Inr (Some c)" and "rates_ok rates"
  shows "\<exists>u p before after. user = Some u \<and> p \<in> set rates \<and> rt_pool p = pool_id
    \<and> now - 36 * 3600 \<le> effective_ts p \<and> effective_ts p \<le> now - 24 * 3600
    \<and> (\<forall>q\<in>set rates. rt_pool q = pool_id \<and> effective_ts p < effective_ts q \<longrightarrow> now - 24 * 3600 < effective_ts q)
    \<and> (\<forall>r\<in>set (db_earns d). (ea_user r = lower u \<or> ea_consent r = Some (lower u)) \<and> lower (ea_pool r) = lower pool_id
         \<and> ea_status r \<noteq> EarnFailed \<longrightarrow> ea_created r < effective_ts p \<and> ea_updated r < effective_ts p)
    \<and> before = shares * (rt_assets p + 1) div (rt_shares p + 1000000) \<and> before \<noteq> 0
    \<and> after = shares * (assets + 1) div (in_pool + 1000000) \<and> ch_amount c = after - before
    \<and> \<bar>of_int (ch_pct c) / 10 ^ 6 - of_int (ch_amount c) / of_int before\<bar>
         \<le> 1 / (2 * 10 ^ 6) + \<bar>of_int (ch_amount c) / of_int before\<bar> / (2 * 10 ^ 27 :: rat)
    \<and> ((rt_assets p + 1) * (in_pool + 1000000) \<le> (assets + 1) * (rt_shares p + 1000000) \<longrightarrow> 0 \<le> ch_amount c)"
proof -
  let ?hi = "now - WINDOW_SEC" and ?lo = "now - MAX_SAMPLE_AGE_SEC"
  from assms(1) obtain u p where u: "user = Some u" "0 < shares"
    and p: "read_point_before pool_id ?hi (Some ?lo) rates = Some p"
    and quiet: "\<not> has_cashflow_since u pool_id (rt_ts p) d"
    by (auto simp: change_24h_def split: option.splits if_splits)
  from assms(1) u p quiet obtain before after ratio
    where v: "position_value shares (rt_assets p) (rt_shares p) = Some before"
      "position_value shares assets in_pool = Some after" "before \<noteq> 0"
      and ratio: "dec_div (of_int (after - before)) (of_int before) = Inr ratio" "quantize 6 ratio = Inr (ch_pct c)"
      and amount: "ch_amount c = after - before"
    by (auto simp: change_24h_def Let_def bindE_Inr split: option.splits if_splits)
  note pt = read_point_before_Some [OF p]
  have slot: "rt_ts p \<le> effective_ts p"
    using assms(2) pt(1) by (simp add: rates_ok_def slot_ok_def)
  have val: "before = shares * (rt_assets p + 1) div (rt_shares p + 1000000)" "0 < rt_shares p"
    "after = shares * (assets + 1) div (in_pool + 1000000)" "0 < in_pool"
    using v by (auto simp: position_value_def VIRTUAL_ASSETS_def VIRTUAL_SHARES_def split: if_splits)
  have mono: "0 \<le> ch_amount c"
    if le: "(rt_assets p + 1) * (in_pool + 1000000) \<le> (assets + 1) * (rt_shares p + 1000000)"
  proof -
    have "before * (rt_shares p + 1000000) \<le> shares * (rt_assets p + 1)"
      unfolding val(1) using val(2) by (intro div_mult_le_int) simp
    then have "before * (rt_shares p + 1000000) * (in_pool + 1000000) \<le> shares * (rt_assets p + 1) * (in_pool + 1000000)"
      using val(4) by (intro mult_right_mono) simp_all
    moreover have "shares * (rt_assets p + 1) * (in_pool + 1000000) \<le> shares * (assets + 1) * (rt_shares p + 1000000)"
      using mult_left_mono [OF le, of shares] u(2) by (simp only: mult.assoc)
    ultimately have "(before * (in_pool + 1000000)) * (rt_shares p + 1000000) \<le> (shares * (assets + 1)) * (rt_shares p + 1000000)"
      by (simp only: mult.assoc mult.commute [of "in_pool + 1000000"])
    then have "before * (in_pool + 1000000) \<le> shares * (assets + 1)"
      using val(2) by (simp only: mult_le_cancel_right)
    then have "before \<le> after" unfolding val(3) using val(4) by (simp add: le_div_iff)
    with amount show ?thesis by simp
  qed
  have calm: "\<forall>r\<in>set (db_earns d). (ea_user r = lower u \<or> ea_consent r = Some (lower u)) \<and> lower (ea_pool r) = lower pool_id
      \<and> ea_status r \<noteq> EarnFailed \<longrightarrow> ea_created r < effective_ts p \<and> ea_updated r < effective_ts p"
    using quiet slot by (fastforce simp: has_cashflow_since_def list_ex_iff touches_def)
  have pct: "\<bar>of_int (ch_pct c) / 10 ^ 6 - of_int (ch_amount c) / of_int before\<bar>
      \<le> 1 / (2 * 10 ^ 6) + \<bar>of_int (ch_amount c) / of_int before\<bar> / (2 * 10 ^ 27 :: rat)"
    unfolding amount by (rule pct_error [OF ratio])
  have newest: "\<forall>q\<in>set rates. rt_pool q = pool_id \<and> effective_ts p < effective_ts q \<longrightarrow> now - 24 * 3600 < effective_ts q"
    using pt(5) by (fastforce simp: WINDOW_SEC_def)
  have age: "now - 36 * 3600 \<le> effective_ts p" "effective_ts p \<le> now - 24 * 3600"
    using pt(3,4) by (simp_all add: WINDOW_SEC_def MAX_SAMPLE_AGE_SEC_def)
  show ?thesis
    using u(1) pt(1,2) age newest calm val(1) v(3) val(3) amount pct mono by blast
qed

section \<open>A day of a pool\<close>

definition demo_rates :: "rate_row list" where
  "demo_rates = snd (store_point ''0x01'' 50000 1000 1000 None (snd (store_point ''0x01'' 20000 900 1000 None [])))"

lemma demo_rates_ok: "rates_ok demo_rates"
  by code_simp

theorem sampling_kept_witness:
  "\<exists>n new s'. sample_once demo_worker demo_rates (demo_vst []) = (Inr (n, demo_rates @ new), s') \<and> length new = n
     \<and> rates_ok (demo_rates @ new)"
  by (rule sampling_kept [OF demo_rates_ok])

lemma demo_change:
  "change_24h (Some demo_user) ''0x01'' 2000000 3000 1000 140000 demo_rates (vs_db (demo_vst []))
   = Inr (Some \<lparr>ch_amount = 3996, ch_pct = 1998000\<rparr>)"
  by code_simp

theorem change_measures_yield_witness:
  "\<exists>p before. p \<in> set demo_rates \<and> effective_ts p \<le> 140000 - 24 * 3600
     \<and> before = 2000000 * (rt_assets p + 1) div (rt_shares p + 1000000) \<and> before \<noteq> 0"
  using change_measures_yield [OF demo_change demo_rates_ok] by auto

end
