(* ===== verification/RateProvider.thy ===== *)
theory RateProvider
  imports Rates
begin

text \<open>
  What one unit in a pool became between two times (\<open>services/earn/rate_provider.py\<close>): from the
  sampled rates where they cover the span, else compounded from the strategy's APY history. Floating
  point logarithms and exponentials are a parameter.
\<close>

text \<open>The history of a strategy's APY, times and basis points, and the product of
  \<open>(1 + apy) ** (duration / year)\<close> over segments.\<close>

record rate_env = vault_env +
  re_apy_history :: "string \<Rightarrow> nat \<Rightarrow> exc + (int \<times> int) list"
  re_compound :: "(int \<times> int) list \<Rightarrow> rat"

text \<open>The loop that walks a series, oldest first, up to a time.\<close>

fun last_until :: "('p \<Rightarrow> int) \<Rightarrow> int \<Rightarrow> 'p list \<Rightarrow> 'p option \<Rightarrow> 'p option" where
  "last_until stamp ts [] chosen = chosen"
| "last_until stamp ts (p # points) chosen =
     (if stamp p > ts then chosen else last_until stamp ts points (Some p))"

section \<open>Sampled rates\<close>

definition rate_at :: "rate_row list \<Rightarrow> int \<Rightarrow> exc + rat option" where
  "rate_at points ts =
     (case last_until rt_ts ts points None of
        None \<Rightarrow> Inr None
      | Some p \<Rightarrow>
          bindE (dec_div (dec_add (of_int (rt_assets p)) (of_int VIRTUAL_ASSETS))
                         (dec_add (of_int (rt_shares p)) (of_int VIRTUAL_SHARES))) (\<lambda>rate. Inr (Some rate)))"

definition sampled_growth :: "rate_row list \<Rightarrow> string \<Rightarrow> int \<Rightarrow> int \<Rightarrow> exc + rat" where
  "sampled_growth rates pool_id from_ts to_ts =
     (if to_ts \<le> from_ts then Inr 1
      else
        let points = read_points pool_id None 0 rates in
        bindE (rate_at points from_ts) (\<lambda>rate_from.
        bindE (rate_at points to_ts) (\<lambda>rate_to.
        case (rate_from, rate_to) of
          (Some a, Some b) \<Rightarrow> if a = 0 then Inl InsufficientRateHistory else dec_div b a
        | _ \<Rightarrow> Inl InsufficientRateHistory)))"

section \<open>Compounded APY\<close>

definition apy_at :: "(int \<times> int) list \<Rightarrow> int \<Rightarrow> int" where
  "apy_at ordered ts = snd (case last_until fst ts ordered (Some (hd ordered)) of Some p \<Rightarrow> p | None \<Rightarrow> hd ordered)"

definition boundaries :: "(int \<times> int) list \<Rightarrow> int \<Rightarrow> int \<Rightarrow> int list" where
  "boundaries ordered from_ts to_ts =
     from_ts # filter (\<lambda>ts. from_ts < ts \<and> ts < to_ts) (map fst ordered) @ [to_ts]"

text \<open>The APY in force and the duration of each segment.\<close>

definition segments :: "(int \<times> int) list \<Rightarrow> int \<Rightarrow> int \<Rightarrow> (int \<times> int) list" where
  "segments history from_ts to_ts =
     (let ordered = sort_key fst history; bs = boundaries ordered from_ts to_ts in
      map (\<lambda>(start, finish). (apy_at ordered start, finish - start)) (zip bs (tl bs)))"

definition compound_apy :: "'e rate_env_scheme \<Rightarrow> (int \<times> int) list \<Rightarrow> int \<Rightarrow> int \<Rightarrow> rat" where
  "compound_apy env history from_ts to_ts =
     (if to_ts \<le> from_ts \<or> history = [] then 1
      else re_compound env (filter (\<lambda>(apy_bps, _). - 10000 < apy_bps) (segments history from_ts to_ts)))"

definition strategy_apy_history_safe :: "'e rate_env_scheme \<Rightarrow> string \<Rightarrow> (int \<times> int) list vact" where
  "strategy_apy_history_safe env pool_id_hex =
     bindA (tryA (vawait env (re_apy_history env pool_id_hex))) (\<lambda>r.
       ret (case r of Inl _ \<Rightarrow> [] | Inr history \<Rightarrow> history))"

definition apy_growth :: "'e rate_env_scheme \<Rightarrow> string \<Rightarrow> int \<Rightarrow> int \<Rightarrow> rat vact" where
  "apy_growth env pool_id from_ts to_ts =
     (if to_ts \<le> from_ts then ret 1
      else bindA (strategy_apy_history_safe env pool_id) (\<lambda>history. ret (compound_apy env history from_ts to_ts)))"

section \<open>The resolver\<close>

definition normalize_pool :: "string \<Rightarrow> string" where
  "normalize_pool pool_id = lower (removeprefix ''0x'' pool_id)"

text \<open>\<open>sampled\<close> are the pools opted into the sampled rates, none by default.\<close>

definition growth_factor ::
  "'e rate_env_scheme \<Rightarrow> string list \<Rightarrow> rate_row list \<Rightarrow> string \<Rightarrow> int \<Rightarrow> int \<Rightarrow> rat vact" where
  "growth_factor env sampled rates pool_id from_ts to_ts =
     (if normalize_pool pool_id \<in> set (map normalize_pool sampled)
      then case sampled_growth rates pool_id from_ts to_ts of
        Inr growth \<Rightarrow> ret growth
      | Inl InsufficientRateHistory \<Rightarrow> apy_growth env pool_id from_ts to_ts
      | Inl e \<Rightarrow> throw e
      else apy_growth env pool_id from_ts to_ts)"

section \<open>Step functions\<close>

lemma last_until_default: "last_until stamp ts points chosen = (case last_until stamp ts points None of None \<Rightarrow> chosen | Some p \<Rightarrow> Some p)"
proof (induction points arbitrary: chosen)
  case (Cons p points)
  show ?case
    by (simp add: Cons.IH [of "Some p"] split: option.split)
qed simp

text \<open>On a sorted series the loop finds the last point at or before the time.\<close>

lemma last_until_Some:
  assumes "sorted (map stamp points)" and "last_until stamp ts points None = Some p"
  shows "p \<in> set points \<and> stamp p \<le> ts \<and> (\<forall>q\<in>set points. stamp q \<le> ts \<longrightarrow> stamp q \<le> stamp p)"
  using assms
proof (induction points)
  case (Cons q points)
  have le: "stamp q \<le> ts" using Cons.prems(2) by (auto split: if_splits)
  show ?case
  proof (cases "last_until stamp ts points None")
    case None
    with le Cons.prems have "p = q" by (simp add: last_until_default [of _ _ _ "Some q"])
    moreover have "\<not> stamp r \<le> ts" if "r \<in> set points" for r
      using None Cons.prems(1) that
      by (cases points) (auto simp: last_until_default [of _ _ _ "Some _"] split: if_splits option.splits)
    ultimately show ?thesis using le by auto
  next
    case (Some r)
    with le Cons.prems have "p = r" by (simp add: last_until_default [of _ _ _ "Some q"])
    with Cons.IH Some Cons.prems(1) show ?thesis by auto
  qed
qed simp

lemma last_until_None: "sorted (map stamp points) \<Longrightarrow> last_until stamp ts points None = None \<longleftrightarrow> (\<forall>q\<in>set points. ts < stamp q)"
  by (cases points) (auto simp: last_until_default [of _ _ _ "Some _"] split: option.splits)

text \<open>Between two boundaries no point takes effect.\<close>

lemma last_until_same:
  assumes "sorted (map stamp points)" and "a \<le> b" and "\<forall>q\<in>set points. \<not> (a < stamp q \<and> stamp q \<le> b)"
  shows "last_until stamp a points c = last_until stamp b points c"
  using assms by (induction points arbitrary: c) (auto simp: not_less)

lemma zip_tl_sum: "bs \<noteq> [] \<Longrightarrow> (\<Sum>(a, b)\<leftarrow>zip bs (tl bs). b - a) = last bs - (hd bs :: int)"
  by (induction bs rule: induct_list012) auto

lemma zip_tl_cover:
  assumes "hd bs \<le> (t::int)" and "t < last bs" and "bs \<noteq> []"
  shows "\<exists>a b. (a, b) \<in> set (zip bs (tl bs)) \<and> a \<le> t \<and> t < b"
  using assms
proof (induction bs rule: induct_list012)
  case (3 x y zs)
  then show ?case by (cases "t < y") force+
qed auto

lemma zip_tl_sorted:
  "sorted bs \<Longrightarrow> (a, b) \<in> set (zip bs (tl bs)) \<Longrightarrow> a \<le> b \<and> (\<forall>x\<in>set bs. x \<le> a \<or> b \<le> x)"
proof (induction bs rule: induct_list012)
  case (3 x y zs)
  show ?case
  proof (cases "(a, b) = (x, y)")
    case True
    with 3 show ?thesis by auto
  next
    case False
    with 3 have "(a, b) \<in> set (zip (y # zs) zs)" by auto
    moreover from this have "y \<le> a" using 3(3) by (auto dest!: set_zip_leftD)
    ultimately show ?thesis using 3 by auto
  qed
qed simp_all


section \<open>The growth between two samples\<close>

lemma rounded_quotient:
  fixes x y a b g u :: rat
  assumes pos: "0 < x" "0 < y" and u: "0 < u" "5 * u \<le> 1"
    and a: "\<bar>a - x\<bar> \<le> x * u" and b: "\<bar>b - y\<bar> \<le> y * u" and g: "\<bar>g - b / a\<bar> \<le> \<bar>b / a\<bar> * u"
  shows "\<bar>g - y / x\<bar> \<le> y / x * (4 * u)"
proof -
  have xu: "x * u \<le> x * (1 / 5)" "y * u \<le> y * (1 / 5)" using pos u by (intro mult_left_mono; simp)+
  have "x - x * u \<le> a" "y - y * u \<le> b" using a b by (simp_all add: abs_le_iff)
  then have apos: "0 < a" "0 < b" using xu pos by linarith+
  have A: "x * (1 - u) \<le> a" "a \<le> x * (1 + u)" "y * (1 - u) \<le> b" "b \<le> y * (1 + u)"
    using a b by (simp_all add: abs_le_iff algebra_simps)
  have G: "b / a * (1 - u) \<le> g" "g \<le> b / a * (1 + u)"
  proof -
    have "\<bar>b / a\<bar> = b / a" using apos by simp
    with g have "g \<le> b / a + b / a * u" "b / a - b / a * u \<le> g" by (simp_all only: abs_le_iff) linarith+
    then show "b / a * (1 - u) \<le> g" "g \<le> b / a * (1 + u)" by (simp_all only: distrib_left right_diff_distrib mult_1_right)
  qed
  have one: "0 < 1 - u" using u by linarith
  have uu: "5 * (u * u) \<le> u" using mult_right_mono [OF u(2), of u] u(1) by simp
  have hi: "(1 + u) * (1 + u) \<le> (1 + 4 * u) * (1 - u)" using uu by (simp add: algebra_simps)
  have lo: "(1 - 4 * u) * (1 + u) \<le> (1 - u) * (1 - u)" using uu u by (simp add: algebra_simps)
  have "b * (1 + u) * x \<le> y * (1 + u) * (1 + u) * x"
    using A(4) u(1) pos by (intro mult_right_mono) simp_all
  also have "\<dots> \<le> y * x * ((1 + 4 * u) * (1 - u))"
    using mult_left_mono [OF hi, of "y * x"] pos by (simp add: algebra_simps)
  also have "\<dots> \<le> y * (1 + 4 * u) * a"
    using mult_left_mono [OF A(1), of "y * (1 + 4 * u)"] pos u(1) by (simp add: algebra_simps)
  finally have "b / a * (1 + u) \<le> y / x * (1 + 4 * u)"
    using apos pos by (simp add: field_simps)
  moreover have "y / x * (1 - 4 * u) \<le> b / a * (1 - u)"
  proof -
    have "y * (1 - 4 * u) * a \<le> y * (1 - 4 * u) * (x * (1 + u))"
      using A(2) u pos by (intro mult_left_mono) simp_all
    also have "\<dots> \<le> y * x * ((1 - u) * (1 - u))"
      using mult_left_mono [OF lo, of "y * x"] pos by (simp add: algebra_simps)
    also have "\<dots> \<le> b * (1 - u) * x"
      using mult_right_mono [OF A(3), of "(1 - u) * x"] one pos by (simp add: algebra_simps)
    finally show ?thesis using apos pos by (simp add: field_simps)
  qed
  ultimately show ?thesis using G by (simp add: abs_le_iff algebra_simps)
qed

definition exact_rate :: "rate_row \<Rightarrow> rat" where
  "exact_rate p = of_int (rt_assets p + 1) / of_int (rt_shares p + 1000000)"

text \<open>The totals of a row are sizes that 28 digits can write.\<close>

definition plain_totals :: "rate_row \<Rightarrow> bool" where
  "plain_totals p \<longleftrightarrow> 0 \<le> rt_assets p \<and> rt_assets p < 10 ^ 27 \<and> 0 \<le> rt_shares p \<and> rt_shares p < 10 ^ 27"

lemma rate_at_Some:
  assumes "rate_at points ts = Inr (Some rate)" and "\<forall>p\<in>set points. plain_totals p" and "sorted (map rt_ts points)"
  shows "\<exists>p\<in>set points. rt_ts p \<le> ts \<and> (\<forall>q\<in>set points. rt_ts q \<le> ts \<longrightarrow> rt_ts q \<le> rt_ts p) \<and> rate = dec28 (exact_rate p)
    \<and> 0 < exact_rate p"
proof -
  from assms(1) obtain p where p: "last_until rt_ts ts points None = Some p"
    and r: "dec_div (dec_add (of_int (rt_assets p)) (of_int VIRTUAL_ASSETS))
      (dec_add (of_int (rt_shares p)) (of_int VIRTUAL_SHARES)) = Inr rate"
    by (auto simp: rate_at_def bindE_Inr split: option.splits)
  note at_p = last_until_Some [OF assms(3) p]
  then have t: "plain_totals p" using assms(2) by blast
  have "dec28 (of_int (rt_assets p + 1)) = of_int (rt_assets p + 1)"
    "dec28 (of_int (rt_shares p + 1000000)) = of_int (rt_shares p + 1000000)"
    using t by (intro dec28_int; simp add: plain_totals_def)+
  then have "dec_div (of_int (rt_assets p + 1)) (of_int (rt_shares p + 1000000)) = Inr rate"
    using r by (simp add: dec_add_def VIRTUAL_ASSETS_def VIRTUAL_SHARES_def)
  then have "rate = dec28 (exact_rate p)" by (simp add: dec_div_def exact_rate_def split: if_splits)
  moreover have "0 < exact_rate p" using t by (simp add: plain_totals_def exact_rate_def)
  ultimately show ?thesis using at_p by blast
qed

text \<open>C28: the sampled growth of a span is the quotient of the contract's share prices at the last samples
  at or before its ends, to 26 digits; without a sample before the start it is not given.\<close>

theorem sampled_growth_exact:
  assumes "sampled_growth rates pool_id from_ts to_ts = Inr growth" and "from_ts < to_ts"
    and "\<forall>p\<in>set rates. plain_totals p"
  shows "\<exists>p q. p \<in> set rates \<and> q \<in> set rates \<and> rt_pool p = pool_id \<and> rt_pool q = pool_id
    \<and> rt_ts p \<le> from_ts \<and> rt_ts q \<le> to_ts
    \<and> (\<forall>r\<in>set rates. rt_pool r = pool_id \<longrightarrow> (rt_ts r \<le> from_ts \<longrightarrow> rt_ts r \<le> rt_ts p) \<and> (rt_ts r \<le> to_ts \<longrightarrow> rt_ts r \<le> rt_ts q))
    \<and> \<bar>growth - exact_rate q / exact_rate p\<bar> \<le> exact_rate q / exact_rate p * (2 / 10 ^ 27)"
proof -
  let ?ps = "read_points pool_id None 0 rates"
  have set_ps: "set ?ps = {r \<in> set rates. rt_pool r = pool_id}" by (auto simp: read_points_def)
  have ok: "\<forall>p\<in>set ?ps. plain_totals p" "sorted (map rt_ts ?ps)"
    using assms(3) set_ps by (simp_all add: read_points_def)
  from assms(1,2) obtain a b where ab: "rate_at ?ps from_ts = Inr (Some a)" "rate_at ?ps to_ts = Inr (Some b)"
    and g: "dec_div b a = Inr growth"
    by (auto simp: sampled_growth_def Let_def bindE_Inr split: if_splits option.splits)
  from rate_at_Some [OF ab(1) ok] obtain p where
    p: "p \<in> set ?ps" "rt_ts p \<le> from_ts" "\<forall>r\<in>set ?ps. rt_ts r \<le> from_ts \<longrightarrow> rt_ts r \<le> rt_ts p"
      "a = dec28 (exact_rate p)" "0 < exact_rate p" by blast
  from rate_at_Some [OF ab(2) ok] obtain q where
    q: "q \<in> set ?ps" "rt_ts q \<le> to_ts" "\<forall>r\<in>set ?ps. rt_ts r \<le> to_ts \<longrightarrow> rt_ts r \<le> rt_ts q"
      "b = dec28 (exact_rate q)" "0 < exact_rate q" by blast
  have "growth = dec28 (b / a)" using g by (simp add: dec_div_def split: if_splits)
  then have "\<bar>growth - exact_rate q / exact_rate p\<bar> \<le> exact_rate q / exact_rate p * (4 * (1 / (2 * 10 ^ 27)))"
    using dec28_error [of "exact_rate p"] dec28_error [of "exact_rate q"] dec28_error [of "b / a"] p(4,5) q(4,5)
    by (intro rounded_quotient [where a = a and b = b]) simp_all
  with p q set_ps show ?thesis by (intro exI [of _ p] exI [of _ q]) auto
qed

section \<open>Concrete series\<close>


lemma demo_sampled: "sampled_growth demo_rates ''0x01'' 25000 60000 = Inr (dec28 (dec28 (1001 / 1001000) / dec28 (901 / 1001000)))"
  by code_simp

theorem sampled_growth_exact_witness:
  "\<exists>p q. p \<in> set demo_rates \<and> q \<in> set demo_rates \<and> rt_ts p \<le> 25000 \<and> rt_ts q \<le> 60000"
proof -
  have "\<forall>p\<in>set demo_rates. plain_totals p" by code_simp
  from sampled_growth_exact [OF demo_sampled _ this] show ?thesis by auto
qed

end
