(* ===== verification/ValueHistory.thy ===== *)
theory ValueHistory
  imports RateProvider "HOL-Library.List_Lexorder" "HOL-Library.Char_ord" "HOL-Library.Product_Lexorder" "HOL-Library.Multiset"
begin

text \<open>
  The value of a user's positions over time (\<open>services/earn/value_history.py\<close>), stepped along a grid
  of times with the growth of each pool, and the principal beside it
  (\<open>services/portfolio/earn_positions.py\<close>). A price series is a list of times and prices, oldest
  first; the stored prices and decimals of the tokens are arguments.
\<close>

section \<open>Settled cashflows\<close>

record cashflow =
  cf_ts :: int
  cf_pool :: string
  cf_token :: string
  cf_signed :: rat

definition moved_funds :: "string \<Rightarrow> earn_row \<Rightarrow> bool" where
  "moved_funds user r \<longleftrightarrow> ea_user r = user
     \<and> (ea_op r = OpDeposit \<and> (ea_status r = EarnCompleted \<or> ea_status r = EarnUndeployed)
        \<or> ea_op r = OpWithdraw \<and> ea_status r = EarnCompleted)"

definition read_user_earn_cashflows :: "string \<Rightarrow> db \<Rightarrow> cashflow list" where
  "read_user_earn_cashflows user_address d =
     map (\<lambda>r. \<lparr>cf_ts = ea_updated r, cf_pool = ea_pool r, cf_token = lower (ea_token r),
               cf_signed = dec_mul (if ea_op r = OpDeposit then 1 else - 1) (of_int (ea_amount r))\<rparr>)
       (sort_key ea_updated (filter (moved_funds (lower user_address)) (db_earns d)))"

section \<open>Stepping a position along the grid\<close>

type_synonym growth = "string \<Rightarrow> int \<Rightarrow> int \<Rightarrow> rat vact"

text \<open>The cashflows up to a time, each grown to it; the rest stays for later.\<close>

fun add_flows :: "growth \<Rightarrow> int \<Rightarrow> cashflow list \<Rightarrow> rat \<Rightarrow> (rat \<times> cashflow list) vact" where
  "add_flows growth t [] v = ret (v, [])"
| "add_flows growth t (f # flows) v =
     (if cf_ts f > t then ret (v, f # flows)
      else bindA (growth (cf_pool f) (cf_ts f) t) (\<lambda>g.
        add_flows growth t flows (dec_add v (dec_mul (cf_signed f) g))))"

fun step_position :: "growth \<Rightarrow> string \<Rightarrow> int option \<Rightarrow> int list \<Rightarrow> cashflow list \<Rightarrow> rat \<Rightarrow> rat list vact" where
  "step_position growth pool_id prev [] flows v = ret []"
| "step_position growth pool_id prev (t # grid) flows v =
     bindA (case prev of
              None \<Rightarrow> ret v
            | Some p \<Rightarrow> if v = 0 then ret v else bindA (growth pool_id p t) (\<lambda>g. ret (dec_mul v g))) (\<lambda>grown.
     bindA (add_flows growth t flows grown) (\<lambda>(v', rest).
     bindA (step_position growth pool_id (Some t) grid rest v') (\<lambda>vs. ret (max v' 0 # vs))))"

definition position_of :: "cashflow \<Rightarrow> string \<times> string" where
  "position_of f = (cf_pool f, cf_token f)"

text \<open>The positions in the order of their first cashflow.\<close>

definition positions :: "cashflow list \<Rightarrow> (string \<times> string) list" where
  "positions flows = rev (remdups (rev (map position_of flows)))"

text \<open>The values of each position, one per grid time.\<close>

fun step_positions ::
  "growth \<Rightarrow> int list \<Rightarrow> cashflow list \<Rightarrow> (string \<times> string) list \<Rightarrow> ((string \<times> string) \<times> rat list) list vact" where
  "step_positions growth grid flows [] = ret []"
| "step_positions growth grid flows (pos # rest) =
     bindA (step_position growth (fst pos) None grid (filter (\<lambda>f. position_of f = pos) flows) 0) (\<lambda>vs.
     bindA (step_positions growth grid flows rest) (\<lambda>more. ret ((pos, vs) # more)))"

section \<open>The series\<close>

record value_point =
  vp_ts :: int
  vp_token :: string
  vp_base :: int
  vp_fiat :: "rat option"

definition price_e8_at :: "(int \<times> int) list \<Rightarrow> int \<Rightarrow> rat option" where
  "price_e8_at points ts =
     (if points = [] then None
      else map_option (\<lambda>p. of_int (snd p)) (last_until fst ts points (Some (hd points))))"

definition to_fiat :: "(int \<times> int) list \<Rightarrow> int option \<Rightarrow> int \<Rightarrow> rat \<Rightarrow> exc + rat option" where
  "to_fiat prices decimals ts base =
     (case (price_e8_at prices ts, decimals) of
        (Some price, Some k) \<Rightarrow>
          bindE (dec_div (dec_mul base price) (10 ^ 8)) (\<lambda>x.
          bindE (dec_div x (10 ^ nat k)) (\<lambda>fiat. Inr (Some fiat)))
      | _ \<Rightarrow> Inr None)"

text \<open>\<open>int(base.quantize(Decimal(1), ROUND_HALF_UP))\<close>\<close>

definition round_base :: "rat \<Rightarrow> exc + int" where
  "round_base q =
     (let (n, d) = quotient_of q; c = half_up n d in
      if digits c > 28 then Inl InvalidOperation else Inr c)"

definition token_total :: "((string \<times> string) \<times> rat list) list \<Rightarrow> string \<Rightarrow> nat \<Rightarrow> rat" where
  "token_total stepped token_id i =
     foldl (\<lambda>acc (_, vs). dec_add acc (vs ! i)) 0 (filter (\<lambda>(pos, _). snd pos = token_id) stepped)"

definition value_point_at ::
  "(string \<Rightarrow> (int \<times> int) list) \<Rightarrow> (string \<Rightarrow> int option) \<Rightarrow> ((string \<times> string) \<times> rat list) list
   \<Rightarrow> nat \<times> int \<Rightarrow> string \<Rightarrow> exc + value_point" where
  "value_point_at prices decimals stepped = (\<lambda>(i, t) token_id.
     (let base = token_total stepped token_id i in
      bindE (round_base base) (\<lambda>units.
      bindE (to_fiat (prices token_id) (decimals token_id) t base) (\<lambda>fiat.
      Inr \<lparr>vp_ts = t, vp_token = token_id, vp_base = units, vp_fiat = fiat\<rparr>))))"

fun collect :: "('a \<Rightarrow> 'e + 'b) \<Rightarrow> 'a list \<Rightarrow> 'e + 'b list" where
  "collect f [] = Inr []"
| "collect f (x # xs) = bindE (f x) (\<lambda>y. bindE (collect f xs) (\<lambda>ys. Inr (y # ys)))"

definition grid_of :: "int list \<Rightarrow> int list" where
  "grid_of timestamps = sort (remdups timestamps)"

definition token_ids_of :: "cashflow list \<Rightarrow> string list" where
  "token_ids_of flows = sort (remdups (map cf_token flows))"

definition earn_value_series ::
  "growth \<Rightarrow> (string \<Rightarrow> (int \<times> int) list) \<Rightarrow> (string \<Rightarrow> int option) \<Rightarrow> string \<Rightarrow> int list \<Rightarrow> value_point list vact" where
  "earn_value_series growth prices decimals user_address timestamps =
     (if timestamps = [] then ret []
      else bindA (vquery (read_user_earn_cashflows user_address)) (\<lambda>flows.
        if flows = [] then ret []
        else
        bindA (step_positions growth (grid_of timestamps) flows (positions flows)) (\<lambda>stepped.
          liftE (collect (\<lambda>(it, token_id). value_point_at prices decimals stepped it token_id)
            (List.product (zip [0..<length (grid_of timestamps)] (grid_of timestamps)) (token_ids_of flows))))))"

section \<open>Principal\<close>

text \<open>\<open>int()\<close> of a \<open>Decimal\<close>.\<close>

definition whole :: "rat \<Rightarrow> int" where
  "whole q = (if q < 0 then ceiling q else floor q)"

text \<open>\<open>principal_series\<close> of one pool: a point per time at which its total changed.\<close>

fun principal_points :: "cashflow list \<Rightarrow> int \<Rightarrow> (int \<times> int) list \<Rightarrow> (int \<times> int) list" where
  "principal_points [] acc points = points"
| "principal_points (f # flows) acc points =
     (let acc' = acc + whole (cf_signed f); point = (cf_ts f, acc') in
      principal_points flows acc'
        (if points \<noteq> [] \<and> fst (last points) = cf_ts f then butlast points @ [point] else points @ [point]))"

definition principal_series :: "cashflow list \<Rightarrow> string \<Rightarrow> (int \<times> int) list" where
  "principal_series flows pool_id = principal_points (filter (\<lambda>f. cf_pool f = pool_id) flows) 0 []"

section \<open>Without a rate source\<close>

definition flat :: "growth \<Rightarrow> bool" where
  "flat growth \<longleftrightarrow> (\<forall>p a b s. \<exists>s'. growth p a b s = (Inr 1, s'))"

lemma flatE:
  assumes "flat growth"
  obtains s' where "growth p a b s = (Inr 1, s')"
  using assms unfolding flat_def by blast

lemma growth_factor_flat:
  assumes "\<And>p n h. re_apy_history env p n = Inr h \<Longrightarrow> h = []"
  shows "flat (growth_factor env [] rates)"
proof -
  have "\<exists>s'. strategy_apy_history_safe env p s = (Inr [], s')" for p s
  proof -
    obtain r s1 where r: "vawait env (re_apy_history env p) s = (r, s1)" by (cases "vawait env (re_apy_history env p) s")
    moreover have "h = []" if "r = Inr h" for h
      using r that assms [of p "vs_tick s" h] by (cases "re_apy_history env p (vs_tick s)") (auto simp: vawait_def run_steps)
    ultimately show ?thesis
      by (cases r) (auto simp: strategy_apy_history_safe_def bindA_def tryA_def ret_def)
  qed
  then have hist: "\<exists>s'. strategy_apy_history_safe env p s = (Inr [], s')" for p s by blast
  have "\<exists>s'. apy_growth env p a b s = (Inr 1, s')" for p a b s
  proof -
    obtain s' where "strategy_apy_history_safe env p s = (Inr [], s')" using hist by blast
    then show ?thesis by (simp add: apy_growth_def bindA_def ret_def compound_apy_def)
  qed
  then show ?thesis by (simp add: flat_def growth_factor_def)
qed

text \<open>The principal of some cashflows at a time.\<close>

definition principal_at :: "cashflow list \<Rightarrow> int \<Rightarrow> int" where
  "principal_at flows t = sum_list (map (\<lambda>f. whole (cf_signed f)) (filter (\<lambda>f. cf_ts f \<le> t) flows))"

definition volume :: "cashflow list \<Rightarrow> int" where
  "volume flows = sum_list (map (\<lambda>f. \<bar>whole (cf_signed f)\<bar>) flows)"

definition whole_flows :: "cashflow list \<Rightarrow> bool" where
  "whole_flows flows \<longleftrightarrow> (\<forall>f\<in>set flows. cf_signed f = of_int (whole (cf_signed f)))"

lemma volume_nonneg: "0 \<le> volume flows"
  by (induction flows) (simp_all add: volume_def)

lemma principal_volume: "\<bar>principal_at flows t\<bar> \<le> volume flows"
  by (induction flows) (auto simp: principal_at_def volume_def)

lemma dec_int_ops:
  "\<bar>a\<bar> < 10 ^ 28 \<Longrightarrow> dec_mul (of_int a) 1 = of_int a"
  "\<bar>a + b\<bar> < 10 ^ 28 \<Longrightarrow> dec_add (of_int a) (of_int b) = of_int (a + b)"
  using dec28_int [of a] dec28_int [of "a + b"] by (simp_all add: dec_mul_def dec_add_def)

lemma add_flows_flat:
  assumes "flat growth" and "whole_flows flows" and "sorted (map cf_ts flows)" and "\<bar>v\<bar> + volume flows < 10 ^ 28"
  shows "\<exists>s'. add_flows growth t flows (of_int v) s
    = (Inr (of_int (v + principal_at flows t), filter (\<lambda>f. t < cf_ts f) flows), s')"
  using assms(2-)
proof (induction flows arbitrary: v s)
  case Nil
  then show ?case by (simp add: ret_def principal_at_def)
next
  case (Cons f flows)
  let ?a = "whole (cf_signed f)"
  have vol: "volume (f # flows) = \<bar>?a\<bar> + volume flows" by (simp add: volume_def)
  show ?case
  proof (cases "cf_ts f > t")
    case True
    then have "filter (\<lambda>g. cf_ts g \<le> t) (f # flows) = []" "filter (\<lambda>g. t < cf_ts g) (f # flows) = f # flows"
      using Cons.prems(2) by (auto simp: filter_empty_conv filter_id_conv)
    with True show ?thesis by (simp add: ret_def principal_at_def)
  next
    case False
    from assms(1) obtain s1 where g: "growth (cf_pool f) (cf_ts f) t s = (Inr 1, s1)" by (rule flatE)
    have a: "cf_signed f = of_int ?a" using Cons.prems(1) by (simp add: whole_flows_def)
    have "\<bar>?a\<bar> < 10 ^ 28" "\<bar>v + ?a\<bar> < 10 ^ 28" using Cons.prems(3) vol volume_nonneg [of flows] by linarith+
    then have "dec_add (of_int v) (dec_mul (cf_signed f) 1) = of_int (v + ?a)"
      by (subst a) (simp only: dec_int_ops)
    moreover have "\<bar>v + ?a\<bar> + volume flows < 10 ^ 28" using Cons.prems(3) vol by linarith
    with Cons.IH [of "v + ?a" s1] Cons.prems obtain s' where
      "add_flows growth t flows (of_int (v + ?a)) s1
       = (Inr (of_int (v + ?a + principal_at flows t), filter (\<lambda>f. t < cf_ts f) flows), s')"
      by (auto simp: whole_flows_def)
    ultimately show ?thesis using False g by (simp add: bindA_def principal_at_def add.assoc)
  qed
qed

lemma principal_at_later:
  "t \<le> u \<Longrightarrow> principal_at flows t + principal_at (filter (\<lambda>f. t < cf_ts f) flows) u = principal_at flows u"
  by (induction flows) (auto simp: principal_at_def)

lemma volume_filter: "volume (filter P flows) \<le> volume flows"
  by (induction flows) (auto simp: volume_def)

lemma volume_rest: "\<bar>principal_at flows t\<bar> + volume (filter (\<lambda>f. t < cf_ts f) flows) \<le> volume flows"
  by (induction flows) (auto simp: principal_at_def volume_def)

lemma step_position_flat:
  assumes "flat growth" and "whole_flows flows" and "sorted (map cf_ts flows)" and "sorted grid"
    and "\<bar>v\<bar> + volume flows < 10 ^ 28"
  shows "\<exists>s'. step_position growth p prev grid flows (of_int v) s
    = (Inr (map (\<lambda>t. of_int (max (v + principal_at flows t) 0)) grid), s')"
  using assms(2-)
proof (induction grid arbitrary: prev flows v s)
  case Nil
  then show ?case by (simp add: ret_def)
next
  case (Cons t grid)
  let ?rest = "filter (\<lambda>f. t < cf_ts f) flows" and ?v = "v + principal_at flows t"
  have "\<bar>v\<bar> < 10 ^ 28" using Cons.prems(4) volume_nonneg [of flows] by linarith
  then have m: "dec_mul (of_int v) 1 = of_int v" by (rule dec_int_ops)
  have "\<exists>s1. (case prev of None \<Rightarrow> ret (of_int v)
      | Some q \<Rightarrow> if of_int v = (0::rat) then ret (of_int v) else bindA (growth p q t) (\<lambda>g. ret (dec_mul (of_int v) g))) s
    = (Inr (of_int v), s1)"
  proof (cases prev)
    case (Some q)
    from assms(1) obtain s1 where "growth p q t s = (Inr 1, s1)" by (rule flatE)
    with Some m show ?thesis by (simp add: bindA_def ret_def)
  qed (simp add: ret_def)
  then obtain s1 where s1: "(case prev of None \<Rightarrow> ret (of_int v)
      | Some q \<Rightarrow> if of_int v = (0::rat) then ret (of_int v) else bindA (growth p q t) (\<lambda>g. ret (dec_mul (of_int v) g))) s
    = (Inr (of_int v), s1)" by blast
  from add_flows_flat [OF assms(1) Cons.prems(1,2,4)] obtain s2 where
    s2: "add_flows growth t flows (of_int v) s1 = (Inr (of_int ?v, ?rest), s2)" by blast
  have "whole_flows ?rest" "sorted (map cf_ts ?rest)" "sorted grid" "\<bar>?v\<bar> + volume ?rest < 10 ^ 28"
    using Cons.prems volume_rest [of flows t] by (auto simp: whole_flows_def sorted_filter)
  from Cons.IH [OF this] obtain s3 where
    "step_position growth p (Some t) grid ?rest (of_int ?v) s2
     = (Inr (map (\<lambda>u. of_int (max (?v + principal_at ?rest u) 0)) grid), s3)" by blast
  moreover have "?v + principal_at ?rest u = v + principal_at flows u" if "u \<in> set grid" for u
    using principal_at_later [of t u flows] Cons.prems(3) that by simp
  ultimately have "step_position growth p (Some t) grid ?rest (of_int ?v) s2
     = (Inr (map (\<lambda>u. of_int (max (v + principal_at flows u) 0)) grid), s3)" by (simp cong: map_cong)
  with s1 s2 show ?case by (simp add: bindA_def ret_def of_int_max)
qed

text \<open>All positions, and the totals of a token.\<close>

abbreviation flows_of :: "cashflow list \<Rightarrow> string \<times> string \<Rightarrow> cashflow list" where
  "flows_of flows pos \<equiv> filter (\<lambda>f. position_of f = pos) flows"

lemma step_positions_flat:
  assumes "flat growth" and "whole_flows flows" and "sorted (map cf_ts flows)" and "sorted grid" and "volume flows < 10 ^ 28"
  shows "\<exists>s'. step_positions growth grid flows ps s
    = (Inr (map (\<lambda>pos. (pos, map (\<lambda>t. of_int (max (principal_at (flows_of flows pos) t) 0)) grid)) ps), s')"
proof (induction ps arbitrary: s)
  case Nil
  then show ?case by (simp add: ret_def)
next
  case (Cons pos ps)
  have "whole_flows (flows_of flows pos)" "sorted (map cf_ts (flows_of flows pos))"
    "\<bar>0\<bar> + volume (flows_of flows pos) < 10 ^ 28"
    using assms(2,3,5) volume_filter [of "\<lambda>f. position_of f = pos" flows] by (auto simp: whole_flows_def sorted_filter)
  from step_position_flat [OF assms(1) this(1,2) assms(4) this(3)] obtain s1 where
    s1: "step_position growth (fst pos) None grid (flows_of flows pos) 0 s
      = (Inr (map (\<lambda>t. of_int (max (principal_at (flows_of flows pos) t) 0)) grid), s1)" by fastforce
  from Cons.IH [of s1] s1 show ?case by (auto simp: bindA_def ret_def)
qed

lemma foldl_dec_add:
  assumes "\<And>x. x \<in> set xs \<Longrightarrow> 0 \<le> h x" and "0 \<le> a" and "a + sum_list (map h xs) < 10 ^ 28"
  shows "foldl (\<lambda>acc x. dec_add acc (of_int (h x))) (of_int a) xs = of_int (a + sum_list (map h xs))"
  using assms
proof (induction xs arbitrary: a)
  case (Cons x xs)
  have "0 \<le> sum_list (map h xs)" using Cons.prems(1) by (intro sum_list_nonneg) auto
  moreover have "0 \<le> h x" using Cons.prems(1) by simp
  ultimately have "\<bar>a + h x\<bar> < 10 ^ 28" using Cons.prems(2,3) by simp
  then show ?case
    using Cons.IH [of "a + h x"] Cons.prems by (simp add: dec_int_ops add.assoc)
qed simp

lemma volume_positions:
  assumes "distinct ps"
  shows "sum_list (map (\<lambda>pos. volume (flows_of flows pos)) ps) \<le> volume flows"
proof (induction flows)
  case (Cons f flows)
  have one: "sum_list (map (\<lambda>pos. if position_of f = pos then c else 0) ps) \<le> c" if "0 \<le> c" for c :: int
    using assms
  proof (induction ps)
    case (Cons q ps)
    have "sum_list (map (\<lambda>pos. if position_of f = pos then c else 0) ps) = 0" if "position_of f = q"
    proof -
      have "map (\<lambda>pos. if position_of f = pos then c else 0) ps = map (\<lambda>_. 0) ps"
        using that Cons.prems by (intro map_cong) auto
      then show ?thesis by (simp only: sum_list_0)
    qed
    with Cons \<open>0 \<le> c\<close> show ?case by auto
  qed (simp add: that)
  have "(\<lambda>pos. volume (flows_of (f # flows) pos))
      = (\<lambda>pos. (if position_of f = pos then \<bar>whole (cf_signed f)\<bar> else 0) + volume (flows_of flows pos))"
    by (auto simp: fun_eq_iff volume_def)
  with Cons one [of "\<bar>whole (cf_signed f)\<bar>"] show ?case
    by (simp add: sum_list_addf volume_def)
qed (simp add: volume_def)

definition token_principal :: "cashflow list \<Rightarrow> string \<Rightarrow> int \<Rightarrow> int" where
  "token_principal flows token_id t =
     sum_list (map (\<lambda>pos. max (principal_at (flows_of flows pos) t) 0)
       (filter (\<lambda>pos. snd pos = token_id) (positions flows)))"

lemma token_principal_bounds: "0 \<le> token_principal flows token_id t \<and> token_principal flows token_id t \<le> volume flows"
proof -
  let ?ps = "filter (\<lambda>pos. snd pos = token_id) (positions flows)"
  have "distinct ?ps" by (simp add: positions_def)
  from volume_positions [OF this, of flows]
  have "sum_list (map (\<lambda>pos. volume (flows_of flows pos)) ?ps) \<le> volume flows" .
  moreover have "token_principal flows token_id t \<le> sum_list (map (\<lambda>pos. volume (flows_of flows pos)) ?ps)"
    unfolding token_principal_def
  proof (rule sum_list_mono)
    fix pos show "max (principal_at (flows_of flows pos) t) 0 \<le> volume (flows_of flows pos)"
      using principal_volume [of "flows_of flows pos" t] volume_nonneg [of "flows_of flows pos"] by simp
  qed
  moreover have "0 \<le> token_principal flows token_id t"
    unfolding token_principal_def by (intro sum_list_nonneg) auto
  ultimately show ?thesis by linarith
qed

lemma product_map_left: "map (\<lambda>(x, y). (f x, y)) (List.product xs ys) = List.product (map f xs) ys"
  by (induction xs) (auto simp: comp_def)

lemma collect_map: "(\<And>x. x \<in> set xs \<Longrightarrow> f x = Inr (g x)) \<Longrightarrow> collect f xs = Inr (map g xs)"
  by (induction xs) auto

lemma digits_small: "\<bar>n\<bar> < 10 ^ 28 \<Longrightarrow> digits n \<le> 28"
proof (rule ccontr)
  assume n: "\<bar>n\<bar> < 10 ^ 28" "\<not> digits n \<le> 28"
  then have "n \<noteq> 0" by (auto simp: digits.simps)
  from digits_bounds [OF this] have "10 ^ (nat (digits n) - 1) \<le> \<bar>n\<bar>" by simp
  moreover have "(10::int) ^ 28 \<le> 10 ^ (nat (digits n) - 1)" using n(2) by (intro power_increasing) auto
  ultimately show False using n(1) by simp
qed

lemma half_up_int: "half_up n 1 = n"
proof -
  have "(2 * m + 1) div 2 = m" for m :: int by simp
  from this [of n] this [of "- n"] show ?thesis unfolding half_up_def by (simp only: mult_1_right minus_minus split: if_splits) simp
qed

lemma round_base_int: "\<bar>n\<bar> < 10 ^ 28 \<Longrightarrow> round_base (of_int n) = Inr n"
  using digits_small [of n] by (simp add: round_base_def half_up_int)

lemma to_fiat_ok: "\<exists>fiat. to_fiat prices decimals t base = Inr fiat"
  by (auto simp: to_fiat_def dec_div_def split: option.splits)

lemma value_point_flat:
  assumes "volume flows < 10 ^ 28" and "i < length grid" and "grid ! i = t"
  defines "stepped \<equiv> map (\<lambda>pos. (pos, map (\<lambda>t. of_int (max (principal_at (flows_of flows pos) t) 0)) grid)) (positions flows)"
  shows "\<exists>fiat. value_point_at prices decimals stepped (i, t) token_id
    = Inr \<lparr>vp_ts = t, vp_token = token_id, vp_base = token_principal flows token_id t, vp_fiat = fiat\<rparr>"
proof -
  let ?ps = "filter (\<lambda>pos. snd pos = token_id) (positions flows)"
  have "filter (\<lambda>(pos, _). snd pos = token_id) stepped
      = map (\<lambda>pos. (pos, map (\<lambda>t. of_int (max (principal_at (flows_of flows pos) t) 0)) grid)) ?ps"
    by (simp add: stepped_def filter_map comp_def)
  then have "token_total stepped token_id i
      = foldl (\<lambda>acc pos. dec_add acc (of_int (max (principal_at (flows_of flows pos) t) 0))) (of_int 0) ?ps"
    using assms(2,3) by (simp add: token_total_def foldl_map)
  also have "\<dots> = of_int (0 + token_principal flows token_id t)"
    unfolding token_principal_def using token_principal_bounds [of flows token_id t] assms(1)
    by (intro foldl_dec_add) (simp_all add: token_principal_def)
  finally have base: "token_total stepped token_id i = of_int (token_principal flows token_id t)" by simp
  have "round_base (of_int (token_principal flows token_id t)) = Inr (token_principal flows token_id t)"
    using token_principal_bounds [of flows token_id t] assms(1) by (intro round_base_int) simp
  with to_fiat_ok [of "prices token_id" "decimals token_id" t "of_int (token_principal flows token_id t)"]
  show ?thesis by (auto simp: value_point_at_def base)
qed

lemma cashflow_facts:
  fixes user :: string and d :: db
  defines "rows \<equiv> filter (moved_funds (lower user)) (db_earns d)"
  assumes "\<forall>r\<in>set rows. 0 \<le> ea_amount r" and "sum_list (map ea_amount rows) < 10 ^ 28"
  shows "whole_flows (read_user_earn_cashflows user d) \<and> sorted (map cf_ts (read_user_earn_cashflows user d))
    \<and> volume (read_user_earn_cashflows user d) = sum_list (map ea_amount rows)"
proof -
  let ?sign = "\<lambda>r. if ea_op r = OpDeposit then 1 else - 1 :: int"
  have small: "ea_amount r < 10 ^ 28" if "r \<in> set rows" for r
    using that assms(2,3) member_le_sum_list [of "ea_amount r" "map ea_amount rows"] by fastforce
  have signed: "dec_mul (if ea_op r = OpDeposit then 1 else - 1) (of_int (ea_amount r)) = of_int (?sign r * ea_amount r)"
    if "r \<in> set rows" for r
  proof -
    have "\<bar>ea_amount r\<bar> < 10 ^ 28" "\<bar>- ea_amount r\<bar> < 10 ^ 28" using small [OF that] assms(2) that by auto
    then show ?thesis
      using dec28_int [of "ea_amount r"] dec28_int [of "- ea_amount r"] by (simp add: dec_mul_def)
  qed
  have whole_int: "whole (of_int n) = n" "whole (- of_int n) = - n" for n
    by (simp_all add: whole_def ceiling_minus floor_minus)
  have "sum_list (map (\<lambda>r. ea_amount r) (sort_key ea_updated rows)) = sum_list (map ea_amount rows)"
    by (metis mset_map mset_sort sum_mset_sum_list)
  moreover have "volume (read_user_earn_cashflows user d) = sum_list (map (\<lambda>r. ea_amount r) (sort_key ea_updated rows))"
    unfolding volume_def read_user_earn_cashflows_def rows_def [symmetric] map_map
    by (intro arg_cong [of _ _ sum_list] map_cong refl) (use assms(2) in \<open>auto simp: signed whole_int\<close>)
  moreover have "whole_flows (read_user_earn_cashflows user d)"
    by (auto simp: whole_flows_def read_user_earn_cashflows_def rows_def [symmetric] signed whole_int)
  moreover have "sorted (map cf_ts (read_user_earn_cashflows user d))"
    by (simp add: read_user_earn_cashflows_def comp_def)
  ultimately show ?thesis by simp
qed

text \<open>C29: where no pool has a rate source, the series never fails and is the principal: one point per
  requested time and token, and each is what was put in less what was taken out by then, summed over
  the token's positions, a position that gave more than it took counting as nothing.\<close>

theorem value_is_principal:
  assumes "\<And>p n h. re_apy_history env p n = Inr h \<Longrightarrow> h = []"
    and "timestamps \<noteq> []" and "read_user_earn_cashflows user (vs_db s) \<noteq> []"
    and "\<forall>r\<in>set (db_earns (vs_db s)). 0 \<le> ea_amount r"
    and "sum_list (map ea_amount (filter (moved_funds (lower user)) (db_earns (vs_db s)))) < 10 ^ 28"
  shows "\<exists>points s'. earn_value_series (growth_factor env [] rates) prices decimals user timestamps s = (Inr points, s')
    \<and> map (\<lambda>p. (vp_ts p, vp_token p)) points
        = List.product (grid_of timestamps) (token_ids_of (read_user_earn_cashflows user (vs_db s)))
    \<and> (\<forall>p\<in>set points. vp_base p =
         sum_list (map (\<lambda>pos. max (principal_at (flows_of (read_user_earn_cashflows user (vs_db s)) pos) (vp_ts p)) 0)
           (filter (\<lambda>pos. snd pos = vp_token p) (positions (read_user_earn_cashflows user (vs_db s))))))"
proof -
  let ?flows = "read_user_earn_cashflows user (vs_db s)" and ?grid = "grid_of timestamps"
  let ?is = "zip [0..<length ?grid] ?grid" and ?tokens = "token_ids_of (read_user_earn_cashflows user (vs_db s))"
  have facts: "whole_flows ?flows" "sorted (map cf_ts ?flows)" "volume ?flows < 10 ^ 28"
    using cashflow_facts [of user "vs_db s"] assms(4,5) by auto
  have fl: "flat (growth_factor env [] rates)" by (rule growth_factor_flat [OF assms(1)])
  have sg: "sorted ?grid" by (simp add: grid_of_def)
  from step_positions_flat [OF fl facts(1,2) sg facts(3)] obtain s' where
    s': "step_positions (growth_factor env [] rates) ?grid ?flows (positions ?flows) s
      = (Inr (map (\<lambda>pos. (pos, map (\<lambda>t. of_int (max (principal_at (flows_of ?flows pos) t) 0)) ?grid)) (positions ?flows)), s')"
    by blast
  let ?stepped = "map (\<lambda>pos. (pos, map (\<lambda>t. of_int (max (principal_at (flows_of ?flows pos) t) 0)) ?grid)) (positions ?flows)"
  define point where "point = (\<lambda>(it, token_id). projr (value_point_at prices decimals ?stepped it token_id))"
  have each: "value_point_at prices decimals ?stepped (i, t) token_id = Inr (point ((i, t), token_id))
      \<and> vp_ts (point ((i, t), token_id)) = t \<and> vp_token (point ((i, t), token_id)) = token_id
      \<and> vp_base (point ((i, t), token_id)) = token_principal ?flows token_id t"
    if "(i, t) \<in> set ?is" for i t token_id
  proof -
    from that have "i < length ?grid" "?grid ! i = t" by (auto simp: set_zip)
    from value_point_flat [OF facts(3) this, of prices decimals token_id] show ?thesis by (auto simp: point_def)
  qed
  have "collect (\<lambda>(it, token_id). value_point_at prices decimals ?stepped it token_id) (List.product ?is ?tokens)
      = Inr (map point (List.product ?is ?tokens))"
    using each by (intro collect_map) (auto simp: point_def)
  then have run: "earn_value_series (growth_factor env [] rates) prices decimals user timestamps s
      = (Inr (map point (List.product ?is ?tokens)), s')"
    using assms(2,3) s' by (simp add: earn_value_series_def bindA_def vquery_def getA_def liftE_def)
  have "map (\<lambda>p. (vp_ts p, vp_token p)) (map point (List.product ?is ?tokens))
      = map (\<lambda>(it, token_id). (snd it, token_id)) (List.product ?is ?tokens)"
    using each by auto
  also have "\<dots> = List.product (map snd ?is) ?tokens"
    using product_map_left [of snd ?is ?tokens] by (simp add: case_prod_beta')
  finally have keys: "map (\<lambda>p. (vp_ts p, vp_token p)) (map point (List.product ?is ?tokens)) = List.product ?grid ?tokens"
    by simp
  have "\<forall>p\<in>set (map point (List.product ?is ?tokens)). vp_base p = token_principal ?flows (vp_token p) (vp_ts p)"
    using each by auto
  with run keys show ?thesis unfolding token_principal_def by blast
qed

section \<open>Two deposits and a withdrawal\<close>

definition settled_earn :: "string \<Rightarrow> earn_op \<Rightarrow> int \<Rightarrow> int \<Rightarrow> earn_row" where
  "settled_earn op_id op amount settled =
     (demo_earn op_id op amount settled)\<lparr>ea_status := EarnCompleted, ea_updated := settled\<rparr>"

definition rate_demo :: rate_env where
  "rate_demo = vault_env.extend (vault_env.truncate demo_worker)
     \<lparr>re_apy_history = (\<lambda>_ _. Inl (RuntimeError ''no source'')), re_compound = (\<lambda>_. 1)\<rparr>"

definition history_state :: vst where
  "history_state = demo_vst [settled_earn ''a'' OpDeposit 100 10, settled_earn ''b'' OpWithdraw 130 30,
     settled_earn ''c'' OpDeposit 70 20]"

lemma lower_demo_user: "lower demo_user = demo_user"
  by code_simp

lemma history_rows:
  "filter (moved_funds (lower demo_user)) (db_earns (vs_db history_state))
   = [settled_earn ''a'' OpDeposit 100 10, settled_earn ''b'' OpWithdraw 130 30, settled_earn ''c'' OpDeposit 70 20]"
  by (simp add: history_state_def demo_vst_def moved_funds_def settled_earn_def demo_earn_def scheduled_earn_def lower_demo_user)

theorem value_is_principal_witness:
  "\<exists>points s'. earn_value_series (growth_factor rate_demo [] []) (\<lambda>_. []) (\<lambda>_. None) demo_user [25, 15, 25] history_state = (Inr points, s')
     \<and> map vp_ts points = [15, 25]"
proof -
  have flows: "read_user_earn_cashflows demo_user (vs_db history_state) \<noteq> []"
    "token_ids_of (read_user_earn_cashflows demo_user (vs_db history_state)) = [''t'']"
  proof -
    have t: "lower ''T'' = ''t''" by code_simp
    show "read_user_earn_cashflows demo_user (vs_db history_state) \<noteq> []"
      "token_ids_of (read_user_earn_cashflows demo_user (vs_db history_state)) = [''t'']"
      unfolding read_user_earn_cashflows_def token_ids_of_def history_rows
      by (simp_all add: settled_earn_def demo_earn_def scheduled_earn_def t)
  qed
  have "\<And>p n h. re_apy_history rate_demo p n = Inr h \<Longrightarrow> h = []"
    by (simp add: rate_demo_def vault_env.defs)
  moreover have "\<forall>r\<in>set (db_earns (vs_db history_state)). 0 \<le> ea_amount r"
    by (simp add: history_state_def demo_vst_def settled_earn_def demo_earn_def scheduled_earn_def)
  moreover have "sum_list (map ea_amount (filter (moved_funds (lower demo_user)) (db_earns (vs_db history_state)))) < 10 ^ 28"
    unfolding history_rows by (simp add: settled_earn_def demo_earn_def scheduled_earn_def)
  ultimately obtain points s' where
    run: "earn_value_series (growth_factor rate_demo [] []) (\<lambda>_. []) (\<lambda>_. None) demo_user [25, 15, 25] history_state = (Inr points, s')"
      "map (\<lambda>p. (vp_ts p, vp_token p)) points = List.product (grid_of [25, 15, 25]) [''t'']"
    using value_is_principal [of rate_demo "[25, 15, 25]" demo_user history_state "[]" "\<lambda>_. []" "\<lambda>_. None"] flows by auto
  have "map vp_ts points = map fst (map (\<lambda>p. (vp_ts p, vp_token p)) points)" by simp
  also have "\<dots> = [15, 25]" unfolding run(2) by (simp add: grid_of_def)
  finally have "map vp_ts points = [15, 25]" .
  then show ?thesis using run(1) by (intro exI conjI)
qed

end
