(* ===== verification/Portfolio.thy ===== *)
theory Portfolio
  imports ValueHistory
begin

text \<open>
  The chart of a wallet's value: the accounting history replayed into balances
  (\<open>services/portfolio/reconstruction.py\<close>), valued on a grid of times with the stored prices
  (\<open>services/portfolio/valuation.py\<close>), over the window a request asks for
  (\<open>services/portfolio/history_service.py\<close>). A dictionary is a list of its entries in insertion order.
\<close>

section \<open>Replaying the history\<close>

record history_entry =
  he_kind :: string
  he_ts :: int
  he_token :: "string option"
  he_amount :: "int option"
  he_counterparty :: "string option"

definition KIND_EFFECTS :: "(string \<times> (int \<times> int)) list" where
  "KIND_EFFECTS =
     [(''deposit'', (1, 0)), (''transferBalanceIn'', (1, 0)), (''transferBalanceOut'', (- 1, 0)),
      (''transferFromLockIn'', (1, 0)), (''createLock'', (- 1, 1)), (''modifyLock'', (- 1, 1)),
      (''unlockLock'', (1, - 1))]"

definition effect :: "history_entry \<Rightarrow> string \<Rightarrow> (int \<times> int) option" where
  "effect e holder =
     (let to_self = lower (case he_counterparty e of None \<Rightarrow> [] | Some c \<Rightarrow> c) = holder in
      if he_kind e = ''withdraw'' then Some (if to_self then (- 1, 0) else (0, - 1))
      else if he_kind e = ''transferFromLockOut'' then Some (if to_self then (1, - 1) else (0, - 1))
      else map_of KIND_EFFECTS (he_kind e))"

record bucket_point =
  bp_ts :: int
  bp_available :: int
  bp_locked :: int

text \<open>The entries that move a balance, with the amounts they move it by.\<close>

record movement =
  mv_token :: string
  mv_ts :: int
  mv_available :: int
  mv_locked :: int

fun movements :: "string \<Rightarrow> history_entry list \<Rightarrow> movement list" where
  "movements holder [] = []"
| "movements holder (e # entries) =
     (case (effect e holder, he_token e, he_amount e) of
        (Some (a, l), Some token, Some n) \<Rightarrow>
          \<lparr>mv_token = token, mv_ts = he_ts e, mv_available = a * n, mv_locked = l * n\<rparr> # movements holder entries
      | _ \<Rightarrow> movements holder entries)"

text \<open>A point replaces the last one of the same time.\<close>

definition put_point :: "('p \<Rightarrow> int) \<Rightarrow> 'p \<Rightarrow> 'p list \<Rightarrow> 'p list" where
  "put_point stamp p points =
     (if points \<noteq> [] \<and> stamp (last points) = stamp p then butlast points @ [p] else points @ [p])"

fun replay_points :: "movement list \<Rightarrow> int \<Rightarrow> int \<Rightarrow> bucket_point list \<Rightarrow> bucket_point list" where
  "replay_points [] available locked points = points"
| "replay_points (m # ms) available locked points =
     (let a = available + mv_available m; l = locked + mv_locked m in
      replay_points ms a l (put_point bp_ts \<lparr>bp_ts = mv_ts m, bp_available = a, bp_locked = l\<rparr> points))"

definition tokens_moved :: "movement list \<Rightarrow> string list" where
  "tokens_moved ms = rev (remdups (rev (map mv_token ms)))"

definition replay_history :: "history_entry list \<Rightarrow> string \<Rightarrow> (string \<times> bucket_point list) list" where
  "replay_history entries user_address =
     (let ms = movements (lower user_address) entries in
      map (\<lambda>token. (token, replay_points (sort_key mv_ts (filter (\<lambda>m. mv_token m = token) ms)) 0 0 []))
        (tokens_moved ms))"

section \<open>Step functions\<close>

record step_series =
  ss_timestamps :: "int list"
  ss_values :: "int list"
  ss_backward :: bool

definition from_points :: "(int \<times> int) list \<Rightarrow> bool \<Rightarrow> step_series" where
  "from_points points backward =
     (let ordered = sort_key fst points in
      \<lparr>ss_timestamps = map fst ordered, ss_values = map snd ordered, ss_backward = backward\<rparr>)"

text \<open>\<open>bisect_right\<close> of the standard library: the loop that halves the range.\<close>

function bisect_loop :: "int list \<Rightarrow> int \<Rightarrow> nat \<Rightarrow> nat \<Rightarrow> nat" where
  "bisect_loop a x lo hi =
     (if lo < hi
      then (let mid = (lo + hi) div 2 in
            if x < a ! mid then bisect_loop a x lo mid else bisect_loop a x (Suc mid) hi)
      else lo)"
  by pat_completeness auto
termination by (relation "measure (\<lambda>(a, x, lo, hi). hi - lo)") auto

declare bisect_loop.simps [simp del]

definition bisect_right :: "int list \<Rightarrow> int \<Rightarrow> nat" where
  "bisect_right a x = bisect_loop a x 0 (length a)"

definition value_at :: "step_series \<Rightarrow> int \<Rightarrow> int" where
  "value_at series ts =
     (let index = bisect_right (ss_timestamps series) ts in
      if index = 0 then (if ss_backward series \<and> ss_values series \<noteq> [] then ss_values series ! 0 else 0)
      else ss_values series ! (index - 1))"

section \<open>Valuation\<close>

definition sample_grid :: "int \<Rightarrow> int \<Rightarrow> int \<Rightarrow> int list" where
  "sample_grid start_ts end_ts step_sec =
     (if end_ts < start_ts then []
      else
        let first = start_ts - start_ts mod step_sec; final = end_ts - end_ts mod step_sec in
        map (\<lambda>i. first + int i * step_sec) [0..<nat ((final - first) div step_sec + 1)])"

record bucket_value =
  bv_ts :: int
  bv_available :: int
  bv_locked :: int

text \<open>A token is valued when it has prices and decimals.\<close>

definition valued_token ::
  "(string \<Rightarrow> (int \<times> int) list) \<Rightarrow> (string \<Rightarrow> int option) \<Rightarrow> string \<times> bucket_point list
   \<Rightarrow> (step_series \<times> step_series \<times> step_series \<times> int) option" where
  "valued_token prices decimals = (\<lambda>(token, points).
     (case decimals token of
        None \<Rightarrow> None
      | Some k \<Rightarrow>
          if prices token = [] then None
          else Some (from_points (map (\<lambda>p. (bp_ts p, bp_available p)) points) False,
                     from_points (map (\<lambda>p. (bp_ts p, bp_locked p)) points) False,
                     from_points (prices token) True, 10 ^ nat k)))"

definition bucket_value_at :: "(step_series \<times> step_series \<times> step_series \<times> int) list \<Rightarrow> int \<Rightarrow> bucket_value" where
  "bucket_value_at valued ts =
     \<lparr>bv_ts = ts,
      bv_available = sum_list (map (\<lambda>(available, locked, price, scale). value_at available ts * value_at price ts div scale) valued),
      bv_locked = sum_list (map (\<lambda>(available, locked, price, scale). value_at locked ts * value_at price ts div scale) valued)\<rparr>"

definition value_buckets ::
  "(string \<times> bucket_point list) list \<Rightarrow> (string \<Rightarrow> (int \<times> int) list) \<Rightarrow> (string \<Rightarrow> int option) \<Rightarrow> int list
   \<Rightarrow> bucket_value list" where
  "value_buckets buckets prices decimals grid =
     map (bucket_value_at (List.map_filter (valued_token prices decimals) buckets)) grid"

text \<open>\<open>EarnSeriesValues\<close>: the fiat value of the earn points of each time; a point without a price is
  left out.\<close>

fun earn_values :: "value_point list \<Rightarrow> (int \<Rightarrow> int) \<Rightarrow> exc + (int \<Rightarrow> int)" where
  "earn_values [] values = Inr values"
| "earn_values (p # points) values =
     (case vp_fiat p of
        None \<Rightarrow> earn_values points values
      | Some fiat \<Rightarrow>
          bindE (round_base (dec_mul fiat (10 ^ 8))) (\<lambda>e8.
            earn_values points (values(vp_ts p := values (vp_ts p) + e8))))"

record portfolio_point =
  pp_ts :: int
  pp_total :: int
  pp_available :: int
  pp_locked :: int
  pp_earn :: int

definition compose_portfolio :: "bucket_value list \<Rightarrow> (int \<Rightarrow> int) \<Rightarrow> portfolio_point list" where
  "compose_portfolio values earn =
     map (\<lambda>p. \<lparr>pp_ts = bv_ts p, pp_total = bv_available p + bv_locked p + earn (bv_ts p),
               pp_available = bv_available p, pp_locked = bv_locked p, pp_earn = earn (bv_ts p)\<rparr>) values"

section \<open>The window of a request\<close>

definition MAX_HISTORY_DAYS :: int where "MAX_HISTORY_DAYS = 1825"
definition FINE_GRAIN_DAYS :: int where "FINE_GRAIN_DAYS = 90"

definition window :: "int \<Rightarrow> int option \<Rightarrow> int \<Rightarrow> int list" where
  "window earliest_ts days now =
     (let floor_ts = now - MAX_HISTORY_DAYS * DAY_SEC;
          asked = (case days of None \<Rightarrow> earliest_ts | Some n \<Rightarrow> now - n * DAY_SEC);
          start = min (max asked floor_ts) now;
          step = (if now - start > FINE_GRAIN_DAYS * DAY_SEC then DAY_SEC else SAMPLE_INTERVAL_SEC);
          grid = sample_grid start now step in
      if grid \<noteq> [] \<and> last grid < now then grid @ [now] else grid)"

text \<open>The series of the charts, from the entries the accounting service gave; \<open>infos\<close> are the decimals
  it gave, \<open>Inl\<close> when a read failed.\<close>

definition decimals_of :: "(string \<Rightarrow> exc + int option) \<Rightarrow> string list \<Rightarrow> exc + (string \<Rightarrow> int option)" where
  "decimals_of infos tokens =
     bindE (collect infos tokens) (\<lambda>_. Inr (\<lambda>t. if t \<in> set tokens then projr (infos t) else None))"

definition portfolio_history ::
  "growth \<Rightarrow> (string \<Rightarrow> (int \<times> int) list) \<Rightarrow> (string \<Rightarrow> int option) \<Rightarrow> (string \<Rightarrow> exc + int option)
   \<Rightarrow> exc + history_entry list \<Rightarrow> string \<Rightarrow> int option \<Rightarrow> int \<Rightarrow> portfolio_point list vact" where
  "portfolio_history growth prices earn_decimals infos history user_address days now =
     bindA (liftE history) (\<lambda>entries.
     bindA (vquery (read_user_earn_cashflows user_address)) (\<lambda>flows.
     let buckets = replay_history entries user_address;
         times = map (\<lambda>(_, points). bp_ts (hd points)) (filter (\<lambda>(_, points). points \<noteq> []) buckets) @ map cf_ts flows in
     if times = [] then ret []
     else
       let grid = window (Min (set times)) days now in
       if grid = [] then ret []
       else
       bindA (liftE (decimals_of infos (sort (map fst buckets)))) (\<lambda>decimals.
       let values = value_buckets buckets prices decimals grid in
       bindA (earn_value_series growth prices earn_decimals user_address grid) (\<lambda>points.
       bindA (liftE (earn_values points (\<lambda>_. 0))) (\<lambda>earn.
         ret (compose_portfolio values earn))))))"

definition earn_history ::
  "growth \<Rightarrow> (string \<Rightarrow> (int \<times> int) list) \<Rightarrow> (string \<Rightarrow> int option) \<Rightarrow> string \<Rightarrow> int option \<Rightarrow> int
   \<Rightarrow> (int \<times> int) list vact" where
  "earn_history growth prices earn_decimals user_address days now =
     bindA (vquery (read_user_earn_cashflows user_address)) (\<lambda>flows.
     if flows = [] then ret []
     else
       let grid = window (cf_ts (hd flows)) days now in
       if grid = [] then ret []
       else
       bindA (earn_value_series growth prices earn_decimals user_address grid) (\<lambda>points.
       bindA (liftE (earn_values points (\<lambda>_. 0))) (\<lambda>earn. ret (map (\<lambda>t. (t, earn t)) grid))))"

section \<open>Bisection is a search\<close>

lemma bisect_steps:
  "\<not> lo < hi \<Longrightarrow> bisect_loop a x lo hi = lo"
  "lo < hi \<Longrightarrow> x < a ! ((lo + hi) div 2) \<Longrightarrow> bisect_loop a x lo hi = bisect_loop a x lo ((lo + hi) div 2)"
  "lo < hi \<Longrightarrow> \<not> x < a ! ((lo + hi) div 2) \<Longrightarrow> bisect_loop a x lo hi = bisect_loop a x (Suc ((lo + hi) div 2)) hi"
  by (subst bisect_loop.simps, simp add: Let_def)+

lemma bisect_loop_spec:
  assumes "sorted a" and "lo \<le> hi" and "hi \<le> length a"
    and "\<forall>i<lo. a ! i \<le> x" and "\<forall>i<length a. hi \<le> i \<longrightarrow> x < a ! i"
  shows "bisect_loop a x lo hi \<le> length a \<and> (\<forall>i<bisect_loop a x lo hi. a ! i \<le> x)
    \<and> (\<forall>i<length a. bisect_loop a x lo hi \<le> i \<longrightarrow> x < a ! i)"
  using assms
proof (induction a x lo hi rule: bisect_loop.induct)
  case (1 a x lo hi)
  show ?case
  proof (cases "lo < hi")
    case False
    with 1(3-7) show ?thesis by (simp add: bisect_steps)
  next
    case True
    define mid where "mid = (lo + hi) div 2"
    have mid: "lo \<le> mid" "mid < hi" "mid < length a" using True 1(5) by (auto simp: mid_def)
    show ?thesis
    proof (cases "x < a ! mid")
      case less: True
      have up: "\<forall>i<length a. mid \<le> i \<longrightarrow> x < a ! i"
        using less sorted_nth_mono [OF 1(3), of mid] by force
      have "bisect_loop a x lo mid \<le> length a \<and> (\<forall>i<bisect_loop a x lo mid. a ! i \<le> x)
          \<and> (\<forall>i<length a. bisect_loop a x lo mid \<le> i \<longrightarrow> x < a ! i)"
        by (rule 1(1) [OF True mid_def less 1(3) mid(1) less_imp_le [OF mid(3)] 1(6) up])
      then show ?thesis unfolding bisect_steps(2) [OF True less [unfolded mid_def]] mid_def .
    next
      case False
      have low: "\<forall>i<Suc mid. a ! i \<le> x"
        using False sorted_nth_mono [OF 1(3), of _ mid] mid by (force simp: less_Suc_eq_le)
      have "bisect_loop a x (Suc mid) hi \<le> length a \<and> (\<forall>i<bisect_loop a x (Suc mid) hi. a ! i \<le> x)
          \<and> (\<forall>i<length a. bisect_loop a x (Suc mid) hi \<le> i \<longrightarrow> x < a ! i)"
        by (rule 1(2) [OF True mid_def False 1(3) Suc_leI [OF mid(2)] 1(5) low 1(7)])
      then show ?thesis unfolding bisect_steps(3) [OF True False [unfolded mid_def]] mid_def .
    qed
  qed
qed

lemma bisect_right_takeWhile: "sorted a \<Longrightarrow> bisect_right a x = length (takeWhile (\<lambda>y. y \<le> x) a)"
proof -
  assume s: "sorted a"
  let ?n = "bisect_right a x" and ?m = "length (takeWhile (\<lambda>y. y \<le> x) a)"
  have n: "?n \<le> length a" "\<forall>i<?n. a ! i \<le> x" "\<forall>i<length a. ?n \<le> i \<longrightarrow> x < a ! i"
    using bisect_loop_spec [OF s, of 0 "length a" x] by (simp_all add: bisect_right_def)
  have m: "?m \<le> length a" by (rule length_takeWhile_le)
  have below: "a ! i \<le> x" if "i < ?m" for i
    using that by (metis nth_mem set_takeWhileD takeWhile_nth)
  show ?thesis
  proof (rule linorder_cases [of ?n ?m])
    assume "?n < ?m"
    with m have "?n < length a" "a ! ?n \<le> x" by (simp_all add: below)
    with n(3) show ?thesis by auto
  next
    assume "?m < ?n"
    then have "a ! ?m \<le> x" "?m < length a" using n(1,2) by auto
    with nth_length_takeWhile [of "\<lambda>y. y \<le> x" a] show ?thesis by simp
  qed
qed

text \<open>So a step series gives the value of its last point at or before the time.\<close>

lemma value_at_last_until:
  "value_at (from_points points backward) ts
   = (case last_until fst ts (sort_key fst points) None of
        Some p \<Rightarrow> snd p
      | None \<Rightarrow> if backward \<and> points \<noteq> [] then snd (hd (sort_key fst points)) else 0)"
proof -
  let ?o = "sort_key fst points"
  have lu: "last_until fst ts xs c = (if takeWhile (\<lambda>p. fst p \<le> ts) xs = [] then c else Some (last (takeWhile (\<lambda>p. fst p \<le> ts) xs)))"
    for xs :: "(int \<times> int) list" and c
    by (induction xs arbitrary: c) auto
  have idx: "bisect_right (map fst ?o) ts = length (takeWhile (\<lambda>p. fst p \<le> ts) ?o)"
    by (simp add: bisect_right_takeWhile takeWhile_map comp_def)
  have "map snd ?o ! (length (takeWhile (\<lambda>p. fst p \<le> ts) ?o) - 1) = snd (last (takeWhile (\<lambda>p. fst p \<le> ts) ?o))"
    if "takeWhile (\<lambda>p. fst p \<le> ts) ?o \<noteq> []"
  proof -
    have l: "length (takeWhile (\<lambda>p. fst p \<le> ts) ?o) - 1 < length (takeWhile (\<lambda>p. fst p \<le> ts) ?o)" using that by simp
    then have "length (takeWhile (\<lambda>p. fst p \<le> ts) ?o) - 1 < length ?o"
      using length_takeWhile_le [of "\<lambda>p. fst p \<le> ts" ?o] by linarith
    with l that show ?thesis by (simp add: takeWhile_nth last_conv_nth)
  qed
  then show ?thesis
    using length_sort [of fst points] by (auto simp: value_at_def from_points_def Let_def idx lu hd_conv_nth simp del: length_sort)
qed

section \<open>Replaying is summing\<close>

definition step_at :: "(bucket_point \<Rightarrow> int) \<Rightarrow> bucket_point list \<Rightarrow> int \<Rightarrow> int" where
  "step_at sel points t = (case last_until bp_ts t points None of None \<Rightarrow> 0 | Some p \<Rightarrow> sel p)"

lemma last_until_append:
  "sorted (map stamp (xs @ [p])) \<Longrightarrow>
     last_until stamp t (xs @ [p]) c = (if stamp p \<le> t then Some p else last_until stamp t xs c)"
proof (induction xs arbitrary: c)
  case (Cons x xs)
  then have "stamp x \<le> stamp p" by simp
  with Cons show ?case by simp
qed simp

definition rising :: "bucket_point list \<Rightarrow> bool" where
  "rising points \<longleftrightarrow> sorted_wrt (<) (map bp_ts points)"

lemma rising_sorted: "rising points \<Longrightarrow> sorted (map bp_ts points)"
  by (simp add: rising_def strict_sorted_imp_sorted)

lemma put_point_step:
  assumes "rising points" and "\<forall>q\<in>set points. bp_ts q \<le> bp_ts p"
  shows "rising (put_point bp_ts p points) \<and> (\<forall>q\<in>set (put_point bp_ts p points). bp_ts q \<le> bp_ts p)
    \<and> step_at sel (put_point bp_ts p points) t = (if bp_ts p \<le> t then sel p else step_at sel points t)"
proof (cases "points \<noteq> [] \<and> bp_ts (last points) = bp_ts p")
  case True
  then obtain xs q where xs: "points = xs @ [q]" "bp_ts q = bp_ts p" by (metis append_butlast_last_id)
  have put: "put_point bp_ts p points = xs @ [p]" using xs True by (simp add: put_point_def)
  have r: "rising (xs @ [p])" using assms(1) xs by (simp add: rising_def sorted_wrt_append)
  have "step_at sel (xs @ [p]) t = (if bp_ts p \<le> t then sel p else step_at sel points t)"
    using last_until_append [OF rising_sorted [OF r], of t None]
      last_until_append [of bp_ts xs q t None] rising_sorted [OF assms(1)] xs
    by (simp add: step_at_def)
  with r put assms(2) xs show ?thesis by auto
next
  case False
  then have put: "put_point bp_ts p points = points @ [p]" by (auto simp: put_point_def)
  have "\<forall>q\<in>set points. bp_ts q < bp_ts p"
  proof (cases points rule: rev_cases)
    case (snoc xs l)
    then have "bp_ts l < bp_ts p" using False assms(2) by (simp add: order_less_le)
    moreover have "\<forall>q\<in>set xs. bp_ts q < bp_ts l"
      using assms(1) snoc by (simp add: rising_def sorted_wrt_append)
    ultimately show ?thesis using snoc by auto
  qed simp
  then have r: "rising (points @ [p])" using assms(1) by (simp add: rising_def sorted_wrt_append)
  show ?thesis
    using last_until_append [OF rising_sorted [OF r], of t None] r put assms(2) by (auto simp: step_at_def)
qed

definition moved :: "(movement \<Rightarrow> int) \<Rightarrow> movement list \<Rightarrow> int \<Rightarrow> int" where
  "moved sel ms t = sum_list (map sel (filter (\<lambda>m. mv_ts m \<le> t) ms))"

lemma replay_points_step:
  assumes "sorted (map mv_ts ms)" and "rising points" and "\<forall>q\<in>set points. \<forall>m\<in>set ms. bp_ts q \<le> mv_ts m"
  shows "rising (replay_points ms a l points)
    \<and> step_at bp_available (replay_points ms a l points) t
        = (if \<exists>m\<in>set ms. mv_ts m \<le> t then a + moved mv_available ms t else step_at bp_available points t)
    \<and> step_at bp_locked (replay_points ms a l points) t
        = (if \<exists>m\<in>set ms. mv_ts m \<le> t then l + moved mv_locked ms t else step_at bp_locked points t)"
  using assms
proof (induction ms arbitrary: a l points)
  case (Cons m ms)
  let ?p = "\<lparr>bp_ts = mv_ts m, bp_available = a + mv_available m, bp_locked = l + mv_locked m\<rparr>"
  let ?points = "put_point bp_ts ?p points"
  have le: "\<forall>q\<in>set points. bp_ts q \<le> bp_ts ?p" using Cons.prems(3) by simp
  note put = put_point_step [OF Cons.prems(2) le, of _ t]
  have "sorted (map mv_ts ms)" "rising ?points" "\<forall>q\<in>set ?points. \<forall>m'\<in>set ms. bp_ts q \<le> mv_ts m'"
    using Cons.prems(1) put by (auto intro: order_trans)
  note ih = Cons.IH [OF this, of "a + mv_available m" "l + mv_locked m"]
  have none: "moved sel ms t = 0" if "\<not> (\<exists>m'\<in>set ms. mv_ts m' \<le> t)" for sel
    using that by (simp add: moved_def filter_False)
  show ?case
  proof (cases "mv_ts m \<le> t")
    case True
    with ih put [of bp_available] put [of bp_locked] none show ?thesis
      by (auto simp: Let_def moved_def)
  next
    case False
    then have "\<not> (\<exists>m'\<in>set ms. mv_ts m' \<le> t)" using Cons.prems(1) by force
    with False ih put [of bp_available] put [of bp_locked] show ?thesis by (simp add: Let_def)
  qed
qed (simp add: moved_def)

lemma moved_sorted: "moved sel (sort_key mv_ts ms) t = moved sel ms t"
proof -
  have "sum_list (map sel (filter P (sort_key mv_ts ms))) = sum_list (map sel (filter P ms))" for P
    by (metis mset_filter mset_map mset_sort sum_mset_sum_list)
  then show ?thesis by (simp add: moved_def)
qed

text \<open>The balances of a token, read off its replayed points, are the sums of what its entries moved.\<close>

lemma replay_value:
  "value_at (from_points (map (\<lambda>p. (bp_ts p, bp_available p)) (replay_points (sort_key mv_ts ms) 0 0 [])) False) t
     = moved mv_available ms t"
  "value_at (from_points (map (\<lambda>p. (bp_ts p, bp_locked p)) (replay_points (sort_key mv_ts ms) 0 0 [])) False) t
     = moved mv_locked ms t"
proof -
  let ?points = "replay_points (sort_key mv_ts ms) 0 0 []"
  have step: "rising ?points \<and> step_at bp_available ?points t = moved mv_available ms t \<and> step_at bp_locked ?points t = moved mv_locked ms t"
  proof -
    have none: "moved sel ms t = 0" if "\<not> (\<exists>m\<in>set ms. mv_ts m \<le> t)" for sel
      using that by (simp add: moved_def filter_False)
    have nil: "rising []" "step_at sel [] t = 0" for sel by (simp_all add: rising_def step_at_def)
    from replay_points_step [of "sort_key mv_ts ms" "[]" 0 0 t] none nil show ?thesis
      by (simp add: moved_sorted)
  qed
  have lu: "last_until fst t (map (\<lambda>p. (bp_ts p, sel p)) xs) (map_option (\<lambda>p. (bp_ts p, sel p)) c)
      = map_option (\<lambda>p. (bp_ts p, sel p)) (last_until bp_ts t xs c)" for sel :: "bucket_point \<Rightarrow> int" and xs c
  proof (induction xs arbitrary: c)
    case (Cons x xs)
    show ?case using Cons [of "Some x"] by simp
  qed simp
  have "value_at (from_points (map (\<lambda>p. (bp_ts p, sel p)) ?points) False) t = step_at sel ?points t" for sel
  proof -
    have "sort_key fst (map (\<lambda>p. (bp_ts p, sel p)) ?points) = map (\<lambda>p. (bp_ts p, sel p)) ?points"
      using rising_sorted step by (intro sort_key_id_if_sorted) (simp add: comp_def)
    with lu [of sel ?points None] show ?thesis
      by (simp add: value_at_last_until step_at_def split: option.split)
  qed
  with step show
    "value_at (from_points (map (\<lambda>p. (bp_ts p, bp_available p)) ?points) False) t = moved mv_available ms t"
    "value_at (from_points (map (\<lambda>p. (bp_ts p, bp_locked p)) ?points) False) t = moved mv_locked ms t"
    by simp_all
qed

text \<open>The price in force: of the last stored point at or before the time, of the first one before it.\<close>

definition price_in_force :: "(int \<times> int) list \<Rightarrow> int \<Rightarrow> int" where
  "price_in_force prices t =
     (case last_until fst t (sort_key fst prices) None of Some p \<Rightarrow> snd p | None \<Rightarrow> snd (hd (sort_key fst prices)))"

text \<open>The reference: what a token's entries moved up to a time, at the price in force, in fiat units.\<close>

definition fiat_sum ::
  "(movement \<Rightarrow> int) \<Rightarrow> movement list \<Rightarrow> (string \<Rightarrow> (int \<times> int) list) \<Rightarrow> (string \<Rightarrow> int option) \<Rightarrow> int \<Rightarrow> int" where
  "fiat_sum sel ms prices decimals t =
     sum_list (map (\<lambda>token. moved sel (filter (\<lambda>m. mv_token m = token) ms) t * price_in_force (prices token) t
                            div 10 ^ nat (the (decimals token)))
       (filter (\<lambda>token. prices token \<noteq> [] \<and> decimals token \<noteq> None) (tokens_moved ms)))"

text \<open>C30: the chart has one point per time of the grid, and each is the plain sum: for every token with a
  price series and decimals, what the entries up to the time moved, at the price in force, rounded
  down once per token; the total is the parts and the value of the earn positions.\<close>

theorem portfolio_is_balance:
  "compose_portfolio (value_buckets (replay_history entries user) prices decimals grid) earn
   = map (\<lambda>t. let ms = movements (lower user) entries;
                 available = fiat_sum mv_available ms prices decimals t;
                 locked = fiat_sum mv_locked ms prices decimals t in
            \<lparr>pp_ts = t, pp_total = available + locked + earn t, pp_available = available, pp_locked = locked,
             pp_earn = earn t\<rparr>) grid"
proof -
  let ?ms = "movements (lower user) entries"
  let ?points = "\<lambda>token. replay_points (sort_key mv_ts (filter (\<lambda>m. mv_token m = token) ?ms)) 0 0 []"
  let ?series = "\<lambda>token. (from_points (map (\<lambda>p. (bp_ts p, bp_available p)) (?points token)) False,
      from_points (map (\<lambda>p. (bp_ts p, bp_locked p)) (?points token)) False,
      from_points (prices token) True, (10::int) ^ nat (the (decimals token)))"
  have valued: "List.map_filter (valued_token prices decimals) (map (\<lambda>token. (token, ?points token)) tokens)
      = map ?series (filter (\<lambda>token. prices token \<noteq> [] \<and> decimals token \<noteq> None) tokens)" for tokens
    by (induction tokens) (auto simp: List.map_filter_def valued_token_def split: option.splits)
  have price: "prices token \<noteq> [] \<Longrightarrow> value_at (from_points (prices token) True) t = price_in_force (prices token) t" for token t
    by (simp add: value_at_last_until price_in_force_def)
  have sums: "bv_available (bucket_value_at (map ?series (filter (\<lambda>token. prices token \<noteq> [] \<and> decimals token \<noteq> None) (tokens_moved ?ms))) t)
        = fiat_sum mv_available ?ms prices decimals t"
    "bv_locked (bucket_value_at (map ?series (filter (\<lambda>token. prices token \<noteq> [] \<and> decimals token \<noteq> None) (tokens_moved ?ms))) t)
        = fiat_sum mv_locked ?ms prices decimals t" for t
    unfolding fiat_sum_def bucket_value_at_def bucket_value.select_convs map_map
    by (intro arg_cong [of _ _ sum_list] map_cong refl, simp add: replay_value price)+
  have "bv_ts (bucket_value_at vs t) = t" for vs t by (simp add: bucket_value_at_def)
  with sums show ?thesis
    unfolding compose_portfolio_def value_buckets_def replay_history_def Let_def valued map_map
    by (intro map_cong refl) simp
qed

section \<open>The window\<close>

lemma sample_grid_facts:
  assumes "start \<le> now" and "0 < step"
  shows "sample_grid start now step \<noteq> []" "sorted_wrt (<) (sample_grid start now step)"
    and "hd (sample_grid start now step) \<le> start" "start < hd (sample_grid start now step) + step"
    and "last (sample_grid start now step) \<le> now" "\<forall>t\<in>set (sample_grid start now step). t mod step = 0"
    and "int (length (sample_grid start now step)) \<le> (now - start) div step + 2"
proof -
  define first where "first = step * (start div step)"
  define n where "n = nat (now div step - start div step + 1)"
  have m: "first \<le> start" "start < first + step" "step * (now div step) \<le> now" "now < step * (now div step) + step"
    using assms(2) pos_mod_sign [of step start] pos_mod_bound [of step start] pos_mod_sign [of step now] pos_mod_bound [of step now]
      mult_div_mod_eq [of step start] mult_div_mod_eq [of step now] unfolding first_def by linarith+
  have q: "start - start mod step = first" "now - now mod step = step * (now div step)"
    by (simp_all add: minus_mod_eq_mult_div first_def)
  have d: "(step * (now div step) - first) div step = now div step - start div step"
    unfolding first_def using assms(2) by (simp add: right_diff_distrib [symmetric])
  have "start div step \<le> now div step" using assms by (intro zdiv_mono1)
  then have n: "0 < n" "int n = now div step - start div step + 1" by (simp_all add: n_def)
  have g: "sample_grid start now step = map (\<lambda>i. first + int i * step) [0..<n]"
    using assms(1) by (simp add: sample_grid_def Let_def q d n_def)
  show "sample_grid start now step \<noteq> []" using n(1) by (simp add: g)
  show "sorted_wrt (<) (sample_grid start now step)"
    unfolding g using assms(2) by (simp add: sorted_wrt_map)
  have h: "hd (sample_grid start now step) = first" unfolding g using n(1) by (simp add: hd_map)
  show "hd (sample_grid start now step) \<le> start" "start < hd (sample_grid start now step) + step"
    unfolding h using m by simp_all
  have "last (sample_grid start now step) = first + int (n - 1) * step"
    unfolding g using n(1) by (simp add: last_map)
  also have "int (n - 1) = now div step - start div step" using n by linarith
  also have "first + (now div step - start div step) * step = step * (now div step)"
    by (simp add: first_def algebra_simps)
  finally show "last (sample_grid start now step) \<le> now" using m by simp
  show "\<forall>t\<in>set (sample_grid start now step). t mod step = 0"
    unfolding g by (auto simp: first_def)
  have "(now div step - start div step - 1) * step \<le> now - start"
    using m unfolding first_def by (simp add: algebra_simps)
  then have "now div step - start div step - 1 \<le> (now - start) div step" using assms(2) by (simp add: le_div_iff)
  then show "int (length (sample_grid start now step)) \<le> (now - start) div step + 2"
    unfolding g using n by simp
qed

lemma sorted_le_last: "sorted xs \<Longrightarrow> x \<in> set xs \<Longrightarrow> x \<le> last xs"
  by (induction xs) auto

text \<open>Whatever range is asked for, and whatever time the first event claims, the window ends now, opens
  at most a day before its start, which is never more than 1825 days ago, lies on the slots of the
  samplers but for its end, and has at most 1828 points.\<close>

theorem window_bounded:
  "let grid = window earliest days now;
       start = min (max (case days of None \<Rightarrow> earliest | Some n \<Rightarrow> now - n * 86400) (now - 1825 * 86400)) now in
   grid \<noteq> [] \<and> last grid = now \<and> sorted_wrt (<) grid \<and> hd grid \<le> start \<and> start < hd grid + 86400
   \<and> (\<forall>t\<in>set grid. t = now \<or> t mod 21600 = 0) \<and> length grid \<le> 1828"
proof -
  define start where "start = min (max (case days of None \<Rightarrow> earliest | Some n \<Rightarrow> now - n * 86400) (now - 1825 * 86400)) now"
  define step :: int where "step = (if now - start > 90 * 86400 then 86400 else 21600)"
  let ?g = "sample_grid start now step"
  have s: "start \<le> now" "now - start \<le> 1825 * 86400" by (auto simp: start_def split: option.splits)
  have step: "0 < step" "step \<le> 86400" "step = 86400 \<or> step = 21600" by (simp_all add: step_def)
  note g = sample_grid_facts [OF s(1) step(1)]
  have w: "window earliest days now = (if last ?g < now then ?g @ [now] else ?g)"
  proof -
    have e1: "min (max (case days of None \<Rightarrow> earliest | Some n \<Rightarrow> now - n * DAY_SEC) (now - MAX_HISTORY_DAYS * DAY_SEC)) now = start"
      unfolding start_def MAX_HISTORY_DAYS_def DAY_SEC_def ..
    have e2: "(if now - start > FINE_GRAIN_DAYS * DAY_SEC then DAY_SEC else SAMPLE_INTERVAL_SEC) = step"
      unfolding step_def FINE_GRAIN_DAYS_def interval_pos unfolding DAY_SEC_def ..
    show ?thesis unfolding window_def Let_def e1 e2 using g(1) by simp
  qed
  have "(now - start) div step \<le> 1825"
  proof (cases "step = 86400")
    case True
    with s(2) show ?thesis by simp
  next
    case False
    then have "now - start \<le> 90 * 86400" "step = 21600" by (auto simp: step_def split: if_splits)
    then show ?thesis by simp
  qed
  then have len: "length ?g \<le> 1827" using g(7) by linarith
  have slots: "t mod 21600 = 0" if "t \<in> set ?g" for t
    using g(6) that step(3) mod_mod_cancel [of 21600 86400 t] by auto
  have upto: "t \<le> last ?g" if "t \<in> set ?g" for t
    using that g(2) by (intro sorted_le_last strict_sorted_imp_sorted)
  have "\<forall>t\<in>set ?g. t < now" if "last ?g < now" using upto that by fastforce
  then have "sorted_wrt (<) (window earliest days now)" using g(2) by (simp add: w sorted_wrt_append)
  moreover have "window earliest days now \<noteq> []" "last (window earliest days now) = now"
    "hd (window earliest days now) = hd ?g" "length (window earliest days now) \<le> 1828"
    "\<forall>t\<in>set (window earliest days now). t = now \<or> t mod 21600 = 0"
    using g(1,5) len slots by (auto simp: w)
  ultimately show ?thesis
    unfolding Let_def start_def [symmetric] using g(3,4) step(2) by simp
qed

theorem window_bounded_witness:
  "window 5 (Some 1) 1000000 \<noteq> [] \<and> (\<exists>t. t \<in> set (window 5 (Some 1) 1000000) \<and> (t = 1000000 \<or> t mod 21600 = 0))"
proof -
  from window_bounded [of 5 "Some 1" 1000000]
  have "window 5 (Some 1) 1000000 \<noteq> []" "\<forall>t\<in>set (window 5 (Some 1) 1000000). t = 1000000 \<or> t mod 21600 = 0"
    by (simp_all add: Let_def)
  then show ?thesis by (metis hd_in_set)
qed

end
