(* ===== verification/ChainClient.thy ===== *)
theory ChainClient
  imports EarnRows
begin

text \<open>
  What the clients of the yield protocols share (\<open>clients/midas.py\<close>, \<open>clients/aave.py\<close>): reading a
  contract, and sending one transaction of the earn account, with its gas estimate, its fees and the
  reading of its receipt. The node and web3 are parameters: what they answer at each question. The
  state keeps, for the theorems, every transaction handed to the node and every withdrawal asked of
  Accounting, newest last.
\<close>

section \<open>The state and the node\<close>

text \<open>The arguments and results of contract functions.\<close>

datatype abi = Num int | Addr string | Raw string

datatype fee_fields = GasPrice int | FeeCap int int

record chain_tx =
  ct_to :: string
  ct_function :: string
  ct_args :: "abi list"
  ct_nonce :: nat
  ct_gas :: int
  ct_chain :: int
  ct_fees :: fee_fields

record bridge_request =
  br_token :: string
  br_amount :: int
  br_nonce :: nat
  br_signature :: string

datatype leg = Sent chain_tx | Requested bridge_request

record cst =
  cs_vault :: vst
  cs_legs :: "leg list"

type_synonym 'a cact = "(cst, exc, 'a) act"

text \<open>The node, as web3 presents it, and the account that signs.\<close>

record rpc = earn_env +
  rp_label :: string
  rp_signer :: "string option"
  rp_checksum :: "string \<Rightarrow> exc + string"
  rp_call :: "nat \<Rightarrow> string \<Rightarrow> string \<Rightarrow> abi list \<Rightarrow> int option \<Rightarrow> exc + abi list"
  rp_estimate :: "nat \<Rightarrow> string \<Rightarrow> string \<Rightarrow> abi list \<Rightarrow> exc + int"
  rp_tx_count :: "nat \<Rightarrow> string \<Rightarrow> exc + nat"
  rp_chain_id :: "nat \<Rightarrow> exc + int"
  rp_block_number :: "nat \<Rightarrow> exc + int"
  rp_block_time :: "nat \<Rightarrow> exc + int"
  rp_base_fee :: "nat \<Rightarrow> exc + int option"
  rp_gas_price :: "nat \<Rightarrow> exc + int"
  rp_priority_fee :: "nat \<Rightarrow> exc + int"
  rp_sign :: "chain_tx \<Rightarrow> exc + string"
  rp_broadcast :: "nat \<Rightarrow> string \<Rightarrow> exc + string"
  rp_receipt :: "nat \<Rightarrow> string \<Rightarrow> exc + int"

definition in_vault :: "'a vact \<Rightarrow> 'a cact" where
  "in_vault m = (\<lambda>s. case m (cs_vault s) of (r, v) \<Rightarrow> (r, s\<lparr>cs_vault := v\<rparr>))"

definition cask :: "(nat \<Rightarrow> exc + 'a) \<Rightarrow> 'a cact" where
  "cask f = in_vault (vask f)"

definition cpause :: "'e earn_env_scheme \<Rightarrow> unit cact" where
  "cpause env = in_vault (vpause env)"

text \<open>Awaiting an answer, and \<open>asyncio.to_thread\<close>: other tasks run meanwhile.\<close>

definition to_thread :: "'e earn_env_scheme \<Rightarrow> 'a cact \<Rightarrow> 'a cact" where
  "to_thread env m = bindA (tryA m) (\<lambda>r. seqA (cpause env) (liftE r))"

definition cawait :: "'e earn_env_scheme \<Rightarrow> (nat \<Rightarrow> exc + 'a) \<Rightarrow> 'a cact" where
  "cawait env f = to_thread env (cask f)"

definition log_leg :: "leg \<Rightarrow> unit cact" where
  "log_leg l = modifyA (\<lambda>s. s\<lparr>cs_legs := cs_legs s @ [l]\<rparr>)"

text \<open>\<open>except RuntimeError\<close> catches its subclasses too.\<close>

definition runtime_error :: "exc \<Rightarrow> bool" where
  "runtime_error e \<longleftrightarrow>
     (case e of
        RuntimeError _ \<Rightarrow> True | LiquidityUnavailable _ \<Rightarrow> True | MidasInstantUnavailable _ \<Rightarrow> True
      | MidasLiquidityUnavailable _ \<Rightarrow> True | BelowFloor _ \<Rightarrow> True | PricingUnavailable _ \<Rightarrow> True | _ \<Rightarrow> False)"

section \<open>Reading contracts\<close>

definition single_num :: "abi list \<Rightarrow> exc + int" where
  "single_num xs = (case xs of [Num n] \<Rightarrow> Inr n | _ \<Rightarrow> Inl TypeError)"

definition read_num :: "'e rpc_scheme \<Rightarrow> string \<Rightarrow> string \<Rightarrow> abi list \<Rightarrow> int option \<Rightarrow> int cact" where
  "read_num env contract name args block =
     bindA (cask (\<lambda>n. rp_call env n contract name args block)) (\<lambda>xs. liftE (single_num xs))"

definition account_address :: "'e rpc_scheme \<Rightarrow> exc + string" where
  "account_address env =
     (case rp_signer env of
        None \<Rightarrow> Inl (RuntimeError (rp_label env @ ''Client has no signer configured''))
      | Some a \<Rightarrow> Inr a)"

text \<open>An optional holder, and the account itself by default.\<close>

definition holder_or_self :: "'e rpc_scheme \<Rightarrow> string option \<Rightarrow> exc + string" where
  "holder_or_self env holder =
     (case holder of None \<Rightarrow> account_address env | Some h \<Rightarrow> if h = [] then account_address env else rp_checksum env h)"

definition get_erc20_balance :: "'e rpc_scheme \<Rightarrow> string \<Rightarrow> string option \<Rightarrow> int option \<Rightarrow> int cact" where
  "get_erc20_balance env asset holder block =
     bindA (liftE (rp_checksum env asset)) (\<lambda>token.
     bindA (liftE (holder_or_self env holder)) (\<lambda>account.
       read_num env token ''balanceOf'' [Addr account] block))"

definition get_allowance :: "'e rpc_scheme \<Rightarrow> string \<Rightarrow> string \<Rightarrow> int cact" where
  "get_allowance env asset spender =
     bindA (liftE (rp_checksum env asset)) (\<lambda>token.
     bindA (liftE (rp_checksum env spender)) (\<lambda>to.
     bindA (liftE (account_address env)) (\<lambda>account.
       read_num env token ''allowance'' [Addr account, Addr to] None)))"

section \<open>Sending a transaction\<close>

definition YIELD_DEFAULT_GAS_LIMIT :: int where "YIELD_DEFAULT_GAS_LIMIT = 500000"
definition MAX_GAS_LIMIT :: int where "MAX_GAS_LIMIT = 3000000"
definition ESTIMATE_REVERT_ATTEMPTS :: nat where "ESTIMATE_REVERT_ATTEMPTS = 3"
definition RECEIPT_RETRY_ATTEMPTS :: nat where "RECEIPT_RETRY_ATTEMPTS = 3"
definition FEE_CAP_BASE_MULTIPLIER :: int where "FEE_CAP_BASE_MULTIPLIER = 4"
definition MIN_PRIORITY_FEE_WEI :: int where "MIN_PRIORITY_FEE_WEI = 100000"

text \<open>The estimate with its headroom of 13/10; the argument counts the attempts left after this one.
  Only a revert is tried again, and the last one is the outcome.\<close>

definition gas_with_headroom :: "int \<Rightarrow> int" where
  "gas_with_headroom estimated = min (estimated * 13 div 10) MAX_GAS_LIMIT"

fun gas_attempts :: "nat \<Rightarrow> 'e rpc_scheme \<Rightarrow> string \<Rightarrow> string \<Rightarrow> abi list \<Rightarrow> int cact" where
  "gas_attempts k env contract name args =
     bindA (tryA (cask (\<lambda>n. rp_estimate env n contract name args))) (\<lambda>r.
     case r of
       Inr estimated \<Rightarrow> ret (gas_with_headroom estimated)
     | Inl (ContractLogicError m) \<Rightarrow>
         (case k of
            0 \<Rightarrow> throw (RuntimeError (rp_label env @ '' '' @ name @ '' would revert: '' @ m))
          | Suc j \<Rightarrow> gas_attempts j env contract name args)
     | Inl _ \<Rightarrow> ret YIELD_DEFAULT_GAS_LIMIT)"

declare gas_attempts.simps [simp del]

definition tx_gas_limit :: "'e rpc_scheme \<Rightarrow> string \<Rightarrow> string \<Rightarrow> abi list \<Rightarrow> int cact" where
  "tx_gas_limit env contract name args = gas_attempts (ESTIMATE_REVERT_ATTEMPTS - 1) env contract name args"

fun receipt_attempts :: "nat \<Rightarrow> 'e rpc_scheme \<Rightarrow> string \<Rightarrow> int cact" where
  "receipt_attempts 0 env hash = cask (\<lambda>n. rp_receipt env n hash)"
| "receipt_attempts (Suc k) env hash =
     bindA (tryA (cask (\<lambda>n. rp_receipt env n hash))) (\<lambda>r.
     case r of Inr status \<Rightarrow> ret status | Inl _ \<Rightarrow> receipt_attempts k env hash)"

definition wait_for_receipt :: "'e rpc_scheme \<Rightarrow> string \<Rightarrow> int cact" where
  "wait_for_receipt env hash = receipt_attempts (RECEIPT_RETRY_ATTEMPTS - 1) env hash"

text \<open>\<open>_fee_params\<close>: a cap of four base fees and the tip, and the legacy price on a chain without a base
  fee.\<close>

definition fee_params :: "'e rpc_scheme \<Rightarrow> fee_fields cact" where
  "fee_params env =
     bindA (cask (rp_base_fee env)) (\<lambda>base.
     case base of
       None \<Rightarrow> bindA (cask (rp_gas_price env)) (\<lambda>price. ret (GasPrice price))
     | Some b \<Rightarrow>
         bindA (tryA (cask (rp_priority_fee env))) (\<lambda>r.
         let tip = (case r of Inr t \<Rightarrow> max t MIN_PRIORITY_FEE_WEI | Inl _ \<Rightarrow> MIN_PRIORITY_FEE_WEI)
         in ret (FeeCap (b * FEE_CAP_BASE_MULTIPLIER + tip) tip)))"

definition hex_prefixed :: "string \<Rightarrow> string" where
  "hex_prefixed h = (if take 2 h = ''0x'' then h else ''0x'' @ h)"

text \<open>From the built transaction on: signing, handing it to the node, and its receipt.\<close>

definition send_signed :: "'e rpc_scheme \<Rightarrow> chain_tx \<Rightarrow> string cact" where
  "send_signed env tx =
     bindA (liftE (rp_sign env tx)) (\<lambda>raw.
     seqA (log_leg (Sent tx))
     (bindA (cask (\<lambda>n. rp_broadcast env n raw)) (\<lambda>hash.
      bindA (wait_for_receipt env hash) (\<lambda>status.
        if status \<noteq> 1
        then throw (RuntimeError (rp_label env @ '' '' @ ct_function tx @ '' tx reverted: '' @ hash))
        else ret (hex_prefixed hash)))))"

text \<open>\<open>MidasClient._send_write_tx\<close> and \<open>AaveClient._send_write_tx\<close>: they differ in the fees.\<close>

definition midas_send_write_tx :: "'e rpc_scheme \<Rightarrow> string \<Rightarrow> string \<Rightarrow> abi list \<Rightarrow> string cact" where
  "midas_send_write_tx env contract name args =
     bindA (liftE (account_address env)) (\<lambda>account.
     bindA (tx_gas_limit env contract name args) (\<lambda>gas.
     bindA (cask (\<lambda>n. rp_tx_count env n account)) (\<lambda>nonce.
     bindA (cask (rp_chain_id env)) (\<lambda>chain.
     bindA (fee_params env) (\<lambda>fees.
       send_signed env \<lparr>ct_to = contract, ct_function = name, ct_args = args, ct_nonce = nonce, ct_gas = gas,
         ct_chain = chain, ct_fees = fees\<rparr>)))))"

definition aave_send_write_tx :: "'e rpc_scheme \<Rightarrow> string \<Rightarrow> string \<Rightarrow> abi list \<Rightarrow> string cact" where
  "aave_send_write_tx env contract name args =
     bindA (liftE (account_address env)) (\<lambda>account.
     bindA (tx_gas_limit env contract name args) (\<lambda>gas.
     bindA (cask (\<lambda>n. rp_tx_count env n account)) (\<lambda>nonce.
     bindA (cask (rp_gas_price env)) (\<lambda>price.
     bindA (cask (rp_chain_id env)) (\<lambda>chain.
       send_signed env \<lparr>ct_to = contract, ct_function = name, ct_args = args, ct_nonce = nonce, ct_gas = gas,
         ct_chain = chain, ct_fees = GasPrice price\<rparr>)))))"

section \<open>Reasoning about outcomes\<close>

text \<open>\<open>outcomes P m Q E\<close>: from a state with \<open>P\<close>, a return of \<open>x\<close> leaves one with \<open>Q x\<close> and a raise of
  \<open>e\<close> one with \<open>E e\<close>.\<close>

definition outcomes ::
  "('s \<Rightarrow> bool) \<Rightarrow> ('s, 'e, 'a) act \<Rightarrow> ('a \<Rightarrow> 's \<Rightarrow> bool) \<Rightarrow> ('e \<Rightarrow> 's \<Rightarrow> bool) \<Rightarrow> bool" where
  "outcomes P m Q E =
     (\<forall>s. P s \<longrightarrow> (case m s of (Inl e, s') \<Rightarrow> E e s' | (Inr x, s') \<Rightarrow> Q x s'))"

lemma outcomesD:
  "outcomes P m Q E \<Longrightarrow> P s \<Longrightarrow> m s = (Inr x, s') \<Longrightarrow> Q x s'"
  "outcomes P m Q E \<Longrightarrow> P s \<Longrightarrow> m s = (Inl e, s') \<Longrightarrow> E e s'"
  by (auto simp: outcomes_def dest: spec [of _ s])

lemma outcomes_weaken:
  "outcomes P m Q E \<Longrightarrow> (\<And>s. P' s \<Longrightarrow> P s) \<Longrightarrow> (\<And>x s. Q x s \<Longrightarrow> Q' x s) \<Longrightarrow> (\<And>e s. E e s \<Longrightarrow> E' e s) \<Longrightarrow>
     outcomes P' m Q' E'"
  by (fastforce simp: outcomes_def split: prod.splits sum.splits)

lemma outcomes_bindA:
  "outcomes P m R E \<Longrightarrow> (\<And>x. outcomes (R x) (f x) Q E) \<Longrightarrow> outcomes P (bindA m f) Q E"
  by (fastforce simp: outcomes_def bindA_def split: prod.splits sum.splits)

lemma outcomes_seqA: "outcomes P m (\<lambda>_. R) E \<Longrightarrow> outcomes R n Q E \<Longrightarrow> outcomes P (seqA m n) Q E"
  unfolding seqA_def by (rule outcomes_bindA)

lemma outcomes_tryA: "outcomes P m (\<lambda>x. Q (Inr x)) (\<lambda>e. Q (Inl e)) \<Longrightarrow> outcomes P (tryA m) Q E"
  by (simp add: outcomes_def tryA_def split: prod.splits sum.splits) (metis sum.exhaust)

lemma outcomes_ret: "(\<And>s. P s \<Longrightarrow> Q x s) \<Longrightarrow> outcomes P (ret x) Q E"
  by (simp add: outcomes_def ret_def)

lemma outcomes_throw: "(\<And>s. P s \<Longrightarrow> E e s) \<Longrightarrow> outcomes P (throw e) Q E"
  by (simp add: outcomes_def throw_def)

lemma outcomes_modifyA: "(\<And>s. P s \<Longrightarrow> Q () (g s)) \<Longrightarrow> outcomes P (modifyA g) Q E"
  by (simp add: outcomes_def modifyA_def)

lemmas outcomes_simple = outcomes_ret outcomes_throw outcomes_modifyA

lemma outcomes_liftE:
  "(\<And>a s. r = Inr a \<Longrightarrow> P s \<Longrightarrow> Q a s) \<Longrightarrow> (\<And>e s. r = Inl e \<Longrightarrow> P s \<Longrightarrow> E e s) \<Longrightarrow> outcomes P (liftE r) Q E"
  by (auto simp: outcomes_def liftE_def split: sum.splits)

lemma outcomes_if:
  "(b \<Longrightarrow> outcomes P m Q E) \<Longrightarrow> (\<not> b \<Longrightarrow> outcomes P n Q E) \<Longrightarrow> outcomes P (if b then m else n) Q E"
  by simp

text \<open>A quiet action sends nothing, and raises nothing outside \<open>B\<close>.\<close>

definition noiseless :: "(exc \<Rightarrow> bool) \<Rightarrow> 'a cact \<Rightarrow> bool" where
  "noiseless B m \<longleftrightarrow> (\<forall>s. cs_legs (snd (m s)) = cs_legs s \<and> (\<forall>e. fst (m s) = Inl e \<longrightarrow> B e))"

named_theorems silent \<open>actions that send nothing\<close>

lemma quietI:
  "(\<And>s. cs_legs (snd (m s)) = cs_legs s) \<Longrightarrow> (\<And>s e. fst (m s) = Inl e \<Longrightarrow> B e) \<Longrightarrow> noiseless B m"
  by (simp add: noiseless_def)

lemma noiselessD:
  "noiseless B m \<Longrightarrow> m s = (r, s') \<Longrightarrow> cs_legs s' = cs_legs s"
  "noiseless B m \<Longrightarrow> m s = (Inl e, s') \<Longrightarrow> B e"
  unfolding noiseless_def by (metis snd_conv, metis fst_conv)

lemma quiet_weaken: "noiseless B m \<Longrightarrow> (\<And>e. B e \<Longrightarrow> B' e) \<Longrightarrow> noiseless B' m"
  by (simp add: noiseless_def)

lemma quiet_ret [silent]: "noiseless B (ret x)"
  by (simp add: noiseless_def ret_def)

lemma quiet_throw [silent]: "B e \<Longrightarrow> noiseless B (throw e)"
  by (simp add: noiseless_def throw_def)

lemma quiet_liftE [silent]: "(\<And>e. r = Inl e \<Longrightarrow> B e) \<Longrightarrow> noiseless B (liftE r)"
  by (simp add: noiseless_def liftE_def)

lemma quiet_bindA [silent]: "noiseless B m \<Longrightarrow> (\<And>x. noiseless B (f x)) \<Longrightarrow> noiseless B (bindA m f)"
  unfolding noiseless_def bindA_def
  by (auto split: prod.splits sum.splits) (metis fst_conv snd_conv)+

lemma quiet_seqA [silent]: "noiseless B m \<Longrightarrow> noiseless B n \<Longrightarrow> noiseless B (seqA m n)"
  unfolding seqA_def by (rule quiet_bindA)

lemma quiet_tryA: "noiseless (\<lambda>_. True) m \<Longrightarrow> noiseless B (tryA m)"
  by (simp add: noiseless_def tryA_def split: prod.splits) (metis snd_conv)

lemma quiet_try_bind [silent]:
  assumes m: "noiseless C m" and f: "\<And>x. noiseless B (f (Inr x))" "\<And>e. C e \<Longrightarrow> noiseless B (f (Inl e))"
  shows "noiseless B (bindA (tryA m) f)"
proof (rule quietI)
  fix s
  obtain r s' where ms: "m s = (r, s')" by (cases "m s")
  have kept: "cs_legs s' = cs_legs s" and raised: "\<And>e. r = Inl e \<Longrightarrow> C e"
    using m ms by (auto dest: noiselessD)
  have after: "noiseless B (f r)" using f raised by (cases r) auto
  have step: "bindA (tryA m) f s = f r s'" by (simp add: bindA_def tryA_def ms)
  show "cs_legs (snd (bindA (tryA m) f s)) = cs_legs s"
    using after kept by (simp add: step noiseless_def)
  show "B e" if "fst (bindA (tryA m) f s) = Inl e" for e
    using after that by (simp add: step noiseless_def)
qed

lemma noiseless_if [silent]: "(b \<Longrightarrow> noiseless B m) \<Longrightarrow> (\<not> b \<Longrightarrow> noiseless B n) \<Longrightarrow> noiseless B (if b then m else n)"
  by simp

lemma quiet_option [silent]:
  "(x = None \<Longrightarrow> noiseless B m) \<Longrightarrow> (\<And>y. x = Some y \<Longrightarrow> noiseless B (f y)) \<Longrightarrow> noiseless B (case x of None \<Rightarrow> m | Some y \<Rightarrow> f y)"
  by (cases x) auto

lemma quiet_sum [silent]:
  "(\<And>y. x = Inl y \<Longrightarrow> noiseless B (f y)) \<Longrightarrow> (\<And>y. x = Inr y \<Longrightarrow> noiseless B (g y)) \<Longrightarrow>
     noiseless B (case x of Inl y \<Rightarrow> f y | Inr y \<Rightarrow> g y)"
  by (cases x) auto

lemma quiet_prod [silent]: "(\<And>a b. x = (a, b) \<Longrightarrow> noiseless B (f a b)) \<Longrightarrow> noiseless B (case x of (a, b) \<Rightarrow> f a b)"
  by (cases x) auto

lemma quiet_Let [silent]: "(\<And>x. noiseless B (f x)) \<Longrightarrow> noiseless B (let x = a in f x)"
  by simp

lemma quiet_cask [silent]: "(\<And>n e. f n = Inl e \<Longrightarrow> B e) \<Longrightarrow> noiseless B (cask f)"
  by (auto simp: noiseless_def cask_def in_vault_def vask_def)

lemma quiet_cpause [silent]: "noiseless B (cpause env)"
  by (simp add: noiseless_def cpause_def in_vault_def vpause_def)

lemma quiet_to_thread [silent]: "noiseless B m \<Longrightarrow> noiseless B (to_thread env m)"
  unfolding to_thread_def by (rule quiet_try_bind [where C = B]) (auto intro!: quiet_seqA quiet_cpause quiet_liftE)

lemma quiet_cawait [silent]: "(\<And>n e. f n = Inl e \<Longrightarrow> B e) \<Longrightarrow> noiseless B (cawait env f)"
  unfolding cawait_def by (intro silent)

lemma quiet_in_vault: "(\<And>v e. fst (m v) = Inl e \<Longrightarrow> B e) \<Longrightarrow> noiseless B (in_vault m)"
  by (rule quietI) (auto simp: in_vault_def split: prod.splits, metis fst_conv)

text \<open>Quiet actions before others.\<close>

lemma outcomes_quiet:
  "noiseless B m \<Longrightarrow> outcomes (\<lambda>s. cs_legs s = L) m (\<lambda>_ s. cs_legs s = L) (\<lambda>e s. B e \<and> cs_legs s = L)"
  by (auto simp: outcomes_def dest: noiselessD split: prod.splits sum.splits)

lemma outcomes_after_quiet:
  assumes "noiseless B m" and "\<And>e s. B e \<Longrightarrow> cs_legs s = L \<Longrightarrow> E e s" and "\<And>x. outcomes (\<lambda>s. cs_legs s = L) (f x) Q E"
  shows "outcomes (\<lambda>s. cs_legs s = L) (bindA m f) Q E"
  by (rule outcomes_bindA [OF _ assms(3)]) (rule outcomes_weaken [OF outcomes_quiet [OF assms(1)]], auto intro: assms(2))

text \<open>Facts carried beside the state, and what a question tells.\<close>

lemma outcomes_fact: "(p \<Longrightarrow> outcomes P m Q E) \<Longrightarrow> outcomes (\<lambda>s. p \<and> P s) m Q E"
  by (auto simp: outcomes_def)

lemma outcomes_some:
  assumes "\<And>y. outcomes (P y) m Q E"
  shows "outcomes (\<lambda>s. \<exists>y. P y s) m Q E"
  unfolding outcomes_def
proof (intro allI impI)
  fix s assume "\<exists>y. P y s"
  then obtain y where "P y s" ..
  then show "case m s of (Inl e, s') \<Rightarrow> E e s' | (Inr x, s') \<Rightarrow> Q x s'"
    using assms [of y] by (simp add: outcomes_def)
qed

lemma outcomes_cask:
  "outcomes (\<lambda>s. cs_legs s = L) (cask f) (\<lambda>x s. (\<exists>n. f n = Inr x) \<and> cs_legs s = L)
     (\<lambda>e s. (\<exists>n. f n = Inl e) \<and> cs_legs s = L)"
  by (auto simp: outcomes_def cask_def in_vault_def vask_def split: sum.splits)

lemma outcomes_to_thread:
  assumes "outcomes (\<lambda>s. cs_legs s = L) m Q E"
    and "\<And>x s t. cs_legs t = cs_legs s \<Longrightarrow> Q x s \<Longrightarrow> Q x t" and "\<And>e s t. cs_legs t = cs_legs s \<Longrightarrow> E e s \<Longrightarrow> E e t"
  shows "outcomes (\<lambda>s. cs_legs s = L) (to_thread env m) Q E"
  unfolding outcomes_def
proof (intro allI impI)
  fix s :: cst assume P: "cs_legs s = L"
  obtain r s' where ms: "m s = (r, s')" by (cases "m s")
  let ?t = "s'\<lparr>cs_vault := snd (vpause env (cs_vault s'))\<rparr>"
  have "to_thread env m s = (r, ?t)"
    by (simp add: to_thread_def bindA_def tryA_def seqA_def cpause_def in_vault_def vpause_def liftE_def ms)
  moreover have "case r of Inl e \<Rightarrow> E e s' | Inr x \<Rightarrow> Q x s'"
    using assms(1) P ms by (auto simp: outcomes_def split: sum.splits prod.splits)
  ultimately show "case to_thread env m s of (Inl e, s') \<Rightarrow> E e s' | (Inr x, s') \<Rightarrow> Q x s'"
    using assms(2,3) [of ?t s'] by (auto split: sum.splits)
qed

section \<open>One transaction\<close>

text \<open>The errors the node and web3 answer with, and those the clients raise themselves.\<close>

definition node_raises :: "(exc \<Rightarrow> bool) \<Rightarrow> 'e rpc_scheme \<Rightarrow> bool" where
  "node_raises B env \<longleftrightarrow>
     (\<forall>a e. rp_checksum env a = Inl e \<longrightarrow> B e) \<and> (\<forall>n c f xs b e. rp_call env n c f xs b = Inl e \<longrightarrow> B e)
     \<and> (\<forall>n a e. rp_tx_count env n a = Inl e \<longrightarrow> B e) \<and> (\<forall>n e. rp_chain_id env n = Inl e \<longrightarrow> B e)
     \<and> (\<forall>n e. rp_block_number env n = Inl e \<longrightarrow> B e) \<and> (\<forall>n e. rp_block_time env n = Inl e \<longrightarrow> B e)
     \<and> (\<forall>n e. rp_base_fee env n = Inl e \<longrightarrow> B e) \<and> (\<forall>n e. rp_gas_price env n = Inl e \<longrightarrow> B e)
     \<and> (\<forall>tx e. rp_sign env tx = Inl e \<longrightarrow> B e) \<and> (\<forall>n raw e. rp_broadcast env n raw = Inl e \<longrightarrow> B e)
     \<and> (\<forall>n h e. rp_receipt env n h = Inl e \<longrightarrow> B e)"

definition raised_here :: "(exc \<Rightarrow> bool) \<Rightarrow> bool" where
  "raised_here B \<longleftrightarrow>
     B TypeError \<and> B IndexError \<and> B ZeroDivisionError \<and> B OutOfFuel \<and> (\<forall>m. B (ValueError m)) \<and> (\<forall>m. B (RuntimeError m))
     \<and> (\<forall>m. B (MidasInstantUnavailable m))"

lemma raises_anything: "node_raises (\<lambda>_. True) env" "raised_here (\<lambda>_. True)"
  by (simp_all add: node_raises_def raised_here_def)

text \<open>What the chain says of a transaction.\<close>

definition received :: "'e rpc_scheme \<Rightarrow> chain_tx \<Rightarrow> int \<Rightarrow> bool" where
  "received env tx status \<longleftrightarrow>
     (\<exists>raw n hash k. rp_sign env tx = Inr raw \<and> rp_broadcast env n raw = Inr hash \<and> rp_receipt env k hash = Inr status)"

lemma quiet_read_num [silent]:
  "node_raises B env \<Longrightarrow> raised_here B \<Longrightarrow> noiseless B (read_num env c f xs b)"
  unfolding read_num_def
  by (intro silent) (auto simp: node_raises_def raised_here_def single_num_def split: list.splits abi.splits)

lemma account_address_raises: "account_address env = Inl e \<Longrightarrow> raised_here B \<Longrightarrow> B e"
  by (auto simp: account_address_def raised_here_def split: option.splits)

lemma holder_raises: "holder_or_self env h = Inl e \<Longrightarrow> node_raises B env \<Longrightarrow> raised_here B \<Longrightarrow> B e"
  by (auto simp: holder_or_self_def node_raises_def account_address_raises split: option.splits if_splits)

lemma checksum_raises: "rp_checksum env a = Inl e \<Longrightarrow> node_raises B env \<Longrightarrow> B e"
  by (simp add: node_raises_def)

lemma quiet_get_erc20_balance [silent]:
  "node_raises B env \<Longrightarrow> raised_here B \<Longrightarrow> noiseless B (get_erc20_balance env a h b)"
  unfolding get_erc20_balance_def by (intro silent) (auto dest: holder_raises checksum_raises)

lemma quiet_get_allowance [silent]:
  "node_raises B env \<Longrightarrow> raised_here B \<Longrightarrow> noiseless B (get_allowance env a p)"
  unfolding get_allowance_def by (intro silent) (auto dest: account_address_raises checksum_raises)

lemma quiet_gas_attempts: "raised_here B \<Longrightarrow> noiseless B (gas_attempts k env c f xs)"
proof (induction k)
  case 0
  then show ?case
    by (subst gas_attempts.simps)
      (intro quiet_try_bind [where C = "\<lambda>_. True"]; auto intro!: silent simp: raised_here_def split: exc.splits)
next
  case (Suc k)
  then show ?case
    by (subst gas_attempts.simps)
      (intro quiet_try_bind [where C = "\<lambda>_. True"]; auto intro!: silent simp: raised_here_def split: exc.splits)
qed

lemma quiet_tx_gas_limit [silent]: "raised_here B \<Longrightarrow> noiseless B (tx_gas_limit env c f xs)"
  unfolding tx_gas_limit_def by (rule quiet_gas_attempts)

lemma quiet_fee_params [silent]: "node_raises B env \<Longrightarrow> noiseless B (fee_params env)"
  unfolding fee_params_def
  by (intro quiet_bindA quiet_option quiet_ret quiet_cask quiet_try_bind [where C = "\<lambda>_. True"])
    (auto simp: node_raises_def Let_def intro!: silent)

lemma receipt_outcomes:
  "outcomes (\<lambda>s. cs_legs s = L) (receipt_attempts k env hash)
     (\<lambda>status s. (\<exists>n. rp_receipt env n hash = Inr status) \<and> cs_legs s = L)
     (\<lambda>e s. (\<exists>n. rp_receipt env n hash = Inl e) \<and> cs_legs s = L)"
proof (induction k)
  case 0
  then show ?case by (simp add: outcomes_cask)
next
  case (Suc k)
  show ?case
    unfolding receipt_attempts.simps
    by (rule outcomes_bindA [where R = "\<lambda>r s. (case r of Inr x \<Rightarrow> \<exists>n. rp_receipt env n hash = Inr x | Inl _ \<Rightarrow> True) \<and> cs_legs s = L"])
      (auto intro!: outcomes_tryA outcomes_weaken [OF outcomes_cask] outcomes_fact Suc intro: outcomes_simple split: sum.splits)
qed

lemma send_signed_outcomes:
  assumes "node_raises B env" and "raised_here B"
  shows "outcomes (\<lambda>s. cs_legs s = L) (send_signed env tx)
     (\<lambda>h s. cs_legs s = L @ [Sent tx] \<and> received env tx 1)
     (\<lambda>e s. B e \<and> (cs_legs s = L \<or> cs_legs s = L @ [Sent tx]
        \<and> ((\<exists>n raw. rp_broadcast env n raw = Inl e) \<or> (\<exists>n h. rp_receipt env n h = Inl e)
           \<or> (\<exists>status. status \<noteq> 1 \<and> received env tx status))))"
proof -
  have receipt: "outcomes (\<lambda>s. cs_legs s = L @ [Sent tx])
      (bindA (wait_for_receipt env hash) (\<lambda>status.
        if status \<noteq> 1 then throw (RuntimeError (rp_label env @ '' '' @ ct_function tx @ '' tx reverted: '' @ hash))
        else ret (hex_prefixed hash)))
      (\<lambda>h s. cs_legs s = L @ [Sent tx] \<and> received env tx 1)
      (\<lambda>e s. B e \<and> cs_legs s = L @ [Sent tx]
        \<and> ((\<exists>n h. rp_receipt env n h = Inl e) \<or> (\<exists>status. status \<noteq> 1 \<and> received env tx status)))"
    if sent: "rp_sign env tx = Inr raw" "\<exists>n. rp_broadcast env n raw = Inr hash" for raw hash
  proof -
    have got: "\<And>k status. rp_receipt env k hash = Inr status \<Longrightarrow> received env tx status"
      using sent by (auto simp: received_def)
    show ?thesis
      unfolding wait_for_receipt_def
    proof (rule outcomes_bindA)
      show "outcomes (\<lambda>s. cs_legs s = L @ [Sent tx]) (receipt_attempts (RECEIPT_RETRY_ATTEMPTS - 1) env hash)
          (\<lambda>status s. (\<exists>k. rp_receipt env k hash = Inr status) \<and> cs_legs s = L @ [Sent tx])
          (\<lambda>e s. B e \<and> cs_legs s = L @ [Sent tx]
            \<and> ((\<exists>n h. rp_receipt env n h = Inl e) \<or> (\<exists>status. status \<noteq> 1 \<and> received env tx status)))"
        using assms(1) by (intro outcomes_weaken [OF receipt_outcomes]) (auto simp: node_raises_def)
    next
      fix status
      show "outcomes (\<lambda>s. (\<exists>k. rp_receipt env k hash = Inr status) \<and> cs_legs s = L @ [Sent tx])
          (if status \<noteq> 1 then throw (RuntimeError (rp_label env @ '' '' @ ct_function tx @ '' tx reverted: '' @ hash))
           else ret (hex_prefixed hash))
          (\<lambda>h s. cs_legs s = L @ [Sent tx] \<and> received env tx 1)
          (\<lambda>e s. B e \<and> cs_legs s = L @ [Sent tx]
            \<and> ((\<exists>n h. rp_receipt env n h = Inl e) \<or> (\<exists>status. status \<noteq> 1 \<and> received env tx status)))"
        using assms(2) got by (intro outcomes_fact outcomes_if outcomes_simple) (auto simp: raised_here_def)
    qed
  qed
  have sent: "outcomes (\<lambda>s. cs_legs s = L @ [Sent tx]) (cask (\<lambda>n. rp_broadcast env n raw))
      (\<lambda>hash s. (\<exists>n. rp_broadcast env n raw = Inr hash) \<and> cs_legs s = L @ [Sent tx])
      (\<lambda>e s. B e \<and> (cs_legs s = L \<or> cs_legs s = L @ [Sent tx]
        \<and> ((\<exists>n raw. rp_broadcast env n raw = Inl e) \<or> (\<exists>n h. rp_receipt env n h = Inl e)
           \<or> (\<exists>status. status \<noteq> 1 \<and> received env tx status))))" for raw
    using assms(1) by (intro outcomes_weaken [OF outcomes_cask]) (auto simp: node_raises_def)
  show ?thesis
    unfolding send_signed_def
  proof (rule outcomes_bindA [where R = "\<lambda>raw s. rp_sign env tx = Inr raw \<and> cs_legs s = L"], goal_cases)
    case 1
    then show ?case using assms(1) by (intro outcomes_liftE) (auto simp: node_raises_def)
  next
    case (2 raw)
    then show ?case
      unfolding log_leg_def
      by (intro outcomes_fact outcomes_seqA [where R = "\<lambda>s. cs_legs s = L @ [Sent tx]"]
          outcomes_bindA [OF sent] outcomes_some outcomes_weaken [OF receipt])
        (auto intro: outcomes_simple)
  qed
qed

text \<open>An action that hands the node one transaction, with \<open>T\<close>, or none: a return means it was mined, an error
  that it was not handed over, that the node or the read of the receipt failed, or that it
  reverted.\<close>

definition one_send ::
  "'e rpc_scheme \<Rightarrow> (exc \<Rightarrow> bool) \<Rightarrow> (chain_tx \<Rightarrow> bool) \<Rightarrow> 'a cact \<Rightarrow> bool" where
  "one_send env B T m \<longleftrightarrow>
     (\<forall>L. outcomes (\<lambda>s. cs_legs s = L) m
        (\<lambda>_ s. \<exists>tx. T tx \<and> cs_legs s = L @ [Sent tx] \<and> received env tx 1)
        (\<lambda>e s. B e \<and> (cs_legs s = L \<or> (\<exists>tx. T tx \<and> cs_legs s = L @ [Sent tx]
           \<and> ((\<exists>n raw. rp_broadcast env n raw = Inl e) \<or> (\<exists>n h. rp_receipt env n h = Inl e)
              \<or> (\<exists>status. status \<noteq> 1 \<and> received env tx status))))))"

lemma one_send_signed:
  "node_raises B env \<Longrightarrow> raised_here B \<Longrightarrow> T tx \<Longrightarrow> one_send env B T (send_signed env tx)"
  unfolding one_send_def by (intro allI outcomes_weaken [OF send_signed_outcomes]) auto

lemma one_send_bindA: "noiseless B m \<Longrightarrow> (\<And>x. one_send env B T (f x)) \<Longrightarrow> one_send env B T (bindA m f)"
  unfolding one_send_def by (intro allI, rule outcomes_after_quiet) auto

lemma one_send_liftE:
  "(\<And>e. r = Inl e \<Longrightarrow> B e) \<Longrightarrow> (\<And>x. r = Inr x \<Longrightarrow> one_send env B T (f x)) \<Longrightarrow> one_send env B T (bindA (liftE r) f)"
  by (cases r) (auto simp: one_send_def outcomes_def bindA_def liftE_def)

lemma one_send_if:
  "(b \<Longrightarrow> noiseless B m) \<Longrightarrow> (\<And>s. b \<Longrightarrow> \<exists>e. fst (m s) = Inl e) \<Longrightarrow> (\<not> b \<Longrightarrow> one_send env B T n) \<Longrightarrow> one_send env B T (if b then m else n)"
  by (auto simp: one_send_def outcomes_def noiseless_def split: prod.splits sum.splits) (metis fst_conv snd_conv sum.distinct(1))+

lemma one_send_seq_ret: "one_send env B T m \<Longrightarrow> one_send env B T (seqA m (ret x))"
  by (fastforce simp: one_send_def outcomes_def seqA_def bindA_def ret_def split: prod.splits sum.splits)

lemma one_send_to_thread: "one_send env B T m \<Longrightarrow> one_send env B T (to_thread env' m)"
  unfolding one_send_def by (intro allI outcomes_to_thread) auto

lemma midas_sends:
  assumes "node_raises B env" and "raised_here B" and "\<And>tx. ct_to tx = c \<Longrightarrow> ct_function tx = f \<Longrightarrow> ct_args tx = xs \<Longrightarrow> T tx"
  shows "one_send env B T (midas_send_write_tx env c f xs)"
  unfolding midas_send_write_tx_def
  using assms by (intro one_send_liftE one_send_bindA one_send_signed silent)
    (auto simp: node_raises_def dest: account_address_raises)

lemma aave_sends:
  assumes "node_raises B env" and "raised_here B" and "\<And>tx. ct_to tx = c \<Longrightarrow> ct_function tx = f \<Longrightarrow> ct_args tx = xs \<Longrightarrow> T tx"
  shows "one_send env B T (aave_send_write_tx env c f xs)"
  unfolding aave_send_write_tx_def
  using assms by (intro one_send_liftE one_send_bindA one_send_signed silent)
    (auto simp: node_raises_def dest: account_address_raises)

end
