(* ===== verification/Bridges.thy ===== *)
theory Bridges
  imports ChainClient Validation
begin

text \<open>
  The bridge between a pool's account in Accounting and the earn account on the yield protocol's chain:
  the methods \<open>AaveStrategy\<close> and \<open>MidasStrategy\<close> have word for word in common
  (\<open>services/earn/strategies/midas.py\<close>, \<open>aave.py\<close>), and the progress they report
  (\<open>services/earn/progress.py\<close>). The loops without a bound in the code are followed for \<open>be_fuel\<close>
  turns.
\<close>

section \<open>Progress of an operation\<close>

definition BRIDGING :: string where "BRIDGING = ''bridging''"
definition DEPLOYING :: string where "DEPLOYING = ''deploying''"
definition RECLAIMING :: string where "RECLAIMING = ''reclaiming''"
definition RETURNING :: string where "RETURNING = ''returning''"

definition report :: "'e earn_env_scheme \<Rightarrow> string \<Rightarrow> unit cact" where
  "report env stage = in_vault (progress_update env stage None)"

text \<open>The expression \<open>finality:\s*(\d+)\s*/\s*(\d+)\<close>, at the start of a text and anywhere in it.\<close>

definition re_space :: "char \<Rightarrow> bool" where
  "re_space c = (let n = of_char c :: nat in n = 32 \<or> (9 \<le> n \<and> n \<le> 13) \<or> (28 \<le> n \<and> n \<le> 31) \<or> n = 133 \<or> n = 160)"

definition finality_here :: "string \<Rightarrow> (string \<times> string) option" where
  "finality_here s =
     (let a = dropWhile re_space (drop 9 s);
          b = dropWhile re_space (dropWhile is_digit a);
          d = dropWhile re_space (tl b)
      in if take 9 (lower s) = ''finality:'' \<and> takeWhile is_digit a \<noteq> [] \<and> b \<noteq> [] \<and> hd b = CHR ''/''
            \<and> takeWhile is_digit d \<noteq> []
         then Some (takeWhile is_digit a, takeWhile is_digit d) else None)"

fun finality_search :: "string \<Rightarrow> (string \<times> string) option" where
  "finality_search [] = None"
| "finality_search (c # s) =
     (case finality_here (c # s) of Some counts \<Rightarrow> Some counts | None \<Rightarrow> finality_search s)"

definition py_int_or_raise :: "string \<Rightarrow> exc + int" where
  "py_int_or_raise s =
     (case py_int s of Some n \<Rightarrow> Inr n | None \<Rightarrow> Inl (ValueError ''invalid literal for int() with base 10''))"

definition update_finality :: "'e earn_env_scheme \<Rightarrow> exc \<Rightarrow> unit cact" where
  "update_finality env e =
     (case finality_search (exc_text e) of
        None \<Rightarrow> ret ()
      | Some (confirmations, required) \<Rightarrow>
          bindA (liftE (py_int_or_raise confirmations)) (\<lambda>c.
          bindA (liftE (py_int_or_raise required)) (\<lambda>r.
            in_vault (progress_update env FINALITY (Some (Confirmations c r))))))"

section \<open>Accounting\<close>

record pending_withdrawal =
  pw_token :: string
  pw_amount :: int

text \<open>What a strategy is built with, and what Accounting answers through the Privana SDK.\<close>

record bridge_env = rpc +
  be_asset :: string
  be_token :: string
  be_pool :: string
  be_max_polls :: nat
  be_fuel :: nat
  be_key :: "exc + unit"
  be_pending :: "nat \<Rightarrow> string \<Rightarrow> exc + pending_withdrawal list"
  be_nonce :: "nat \<Rightarrow> string \<Rightarrow> exc + nat"
  be_sign :: "string \<Rightarrow> int \<Rightarrow> nat \<Rightarrow> exc + string"
  be_request :: "nat \<Rightarrow> bridge_request \<Rightarrow> exc + string \<times> string"
  be_balance :: "nat \<Rightarrow> string \<Rightarrow> exc + int"
  be_address :: "nat \<Rightarrow> exc + string"
  be_check :: "nat \<Rightarrow> int \<Rightarrow> string \<Rightarrow> int \<Rightarrow> exc + string"

definition DEFAULT_MAX_BRIDGE_POLL_ATTEMPTS :: nat where "DEFAULT_MAX_BRIDGE_POLL_ATTEMPTS = 200"

definition accepted_statuses :: "string list" where
  "accepted_statuses = [''success'', ''pending'', ''accepted'', ''ok'', ''submitted'']"

text \<open>The errors a read is asked again for: a dropped connection and a failure of the API itself.\<close>

definition transient_error :: "exc \<Rightarrow> bool" where
  "transient_error e \<longleftrightarrow>
     (case e of NetworkError _ \<Rightarrow> True | AccountingApiError code _ \<Rightarrow> 500 \<le> code | _ \<Rightarrow> False)"

fun retry_on_network_error :: "nat \<Rightarrow> 'e earn_env_scheme \<Rightarrow> (nat \<Rightarrow> exc + 'a) \<Rightarrow> 'a cact" where
  "retry_on_network_error 0 env f = throw OutOfFuel"
| "retry_on_network_error (Suc k) env f =
     bindA (tryA (cawait env f)) (\<lambda>r.
     case r of
       Inr x \<Rightarrow> ret x
     | Inl e \<Rightarrow> if transient_error e then seqA (cpause env) (retry_on_network_error k env f) else throw e)"

definition pending_bridges :: "'e bridge_env_scheme \<Rightarrow> pending_withdrawal list cact" where
  "pending_bridges env =
     bindA (retry_on_network_error (be_fuel env) env (\<lambda>n. be_pending env n (be_pool env))) (\<lambda>pending.
       ret (filter (\<lambda>w. lower (pw_token w) = lower (be_token env)) pending))"

definition in_flight_assets :: "'e bridge_env_scheme \<Rightarrow> int cact" where
  "in_flight_assets env = bindA (pending_bridges env) (\<lambda>ws. ret (sum_list (map pw_amount ws)))"

text \<open>The argument counts the polls left.\<close>

fun await_polls :: "nat \<Rightarrow> 'e bridge_env_scheme \<Rightarrow> unit cact" where
  "await_polls 0 env =
     throw (RuntimeError (rp_label env @ ''Strategy: earlier bridge still in flight after ''
       @ show_nat (be_max_polls env) @ '' polls; aborting to release lock''))"
| "await_polls (Suc k) env =
     bindA (pending_bridges env) (\<lambda>pending.
       if pending = [] then ret () else seqA (cpause env) (await_polls k env))"

definition await_bridges_in_flight :: "'e bridge_env_scheme \<Rightarrow> unit cact" where
  "await_bridges_in_flight env = await_polls (be_max_polls env) env"

definition account_balance :: "'e bridge_env_scheme \<Rightarrow> int cact" where
  "account_balance env = to_thread env (get_erc20_balance env (be_asset env) None None)"

definition stranded_assets :: "'e bridge_env_scheme \<Rightarrow> int cact" where
  "stranded_assets env = account_balance env"

definition read_pool_balance :: "'e bridge_env_scheme \<Rightarrow> int cact" where
  "read_pool_balance env =
     retry_on_network_error (be_fuel env) env (\<lambda>n. be_balance env n (be_token env))"

definition idle_assets :: "'e bridge_env_scheme \<Rightarrow> int cact" where
  "idle_assets env = read_pool_balance env"

section \<open>Bridging in\<close>

definition not_landed :: "'e bridge_env_scheme \<Rightarrow> int \<Rightarrow> exc" where
  "not_landed env amount =
     RuntimeError (rp_label env @ ''Strategy._bridge_to_base: withdrawal not landed after ''
       @ show_nat (be_max_polls env) @ '' polls (pool='' @ be_pool env @ '' token='' @ be_token env
       @ '' amount='' @ show_int amount @ ''); aborting to release lock'')"

text \<open>The wait for the funds on the account; a failed read counts as a balance of -1. The argument counts
  the polls left after this one.\<close>

fun landing_polls :: "nat \<Rightarrow> 'e bridge_env_scheme \<Rightarrow> int \<Rightarrow> int \<Rightarrow> unit cact" where
  "landing_polls k env goal amount =
     bindA (tryA (account_balance env)) (\<lambda>r.
     let balance = (case r of Inr b \<Rightarrow> b | Inl _ \<Rightarrow> -1)
     in if goal \<le> balance then ret ()
        else (case k of
                0 \<Rightarrow> throw (not_landed env amount)
              | Suc j \<Rightarrow> seqA (cpause env) (landing_polls j env goal amount)))"

declare landing_polls.simps [simp del]

definition bridge_to_base :: "'e bridge_env_scheme \<Rightarrow> int \<Rightarrow> unit cact" where
  "bridge_to_base env amount =
     seqA (liftE (be_key env))
     (bindA (account_balance env) (\<lambda>balance_before.
      bindA (retry_on_network_error (be_fuel env) env (\<lambda>n. be_nonce env n (be_pool env))) (\<lambda>nonce.
      bindA (liftE (be_sign env (be_token env) amount nonce)) (\<lambda>signature.
      let request = \<lparr>br_token = be_token env, br_amount = amount, br_nonce = nonce, br_signature = signature\<rparr>
      in seqA (log_leg (Requested request))
         (bindA (cawait env (\<lambda>n. be_request env n request)) (\<lambda>(status, detail).
          if status \<notin> set accepted_statuses
          then throw (RuntimeError (''Withdrawal request rejected: status='' @ status @ '' detail='' @ detail))
          else landing_polls (be_max_polls env - 1) env (balance_before + amount) amount))))))"

text \<open>The first half of \<open>deposit_to_earn\<close>: the funds are brought to the account, and the amount to deploy
  is all that lies there.\<close>

definition fund_account :: "'e bridge_env_scheme \<Rightarrow> int \<Rightarrow> int cact" where
  "fund_account env amount =
     seqA (if amount \<le> 0
           then throw (ValueError (''deposit_to_earn requires a positive amount, got '' @ show_int amount))
           else ret ())
     (seqA (await_bridges_in_flight env)
     (bindA (account_balance env) (\<lambda>on_hand.
      bindA (if amount \<le> on_hand then ret on_hand
             else seqA (report env BRIDGING)
                  (seqA (bridge_to_base env (amount - on_hand)) (account_balance env))) (\<lambda>on_hand'.
      seqA (report env DEPLOYING) (ret (max amount on_hand'))))))"

section \<open>Bridging out\<close>

definition nudge_check_deposit :: "'e bridge_env_scheme \<Rightarrow> string \<Rightarrow> int \<Rightarrow> bool cact" where
  "nudge_check_deposit env hash amount =
     bindA (tryA (bindA (cask (rp_chain_id env)) (\<lambda>chain. cawait env (\<lambda>n. be_check env n chain hash amount)))) (\<lambda>r.
     case r of
       Inl e \<Rightarrow> seqA (update_finality env e) (ret False)
     | Inr status \<Rightarrow> ret (status \<noteq> ''error''))"

fun credit_polls :: "nat \<Rightarrow> 'e bridge_env_scheme \<Rightarrow> bool \<Rightarrow> int \<Rightarrow> string \<Rightarrow> int \<Rightarrow> unit cact" where
  "credit_polls 0 env nudged target hash amount = throw OutOfFuel"
| "credit_polls (Suc k) env nudged target hash amount =
     bindA (if nudged then ret True else nudge_check_deposit env hash amount) (\<lambda>nudged'.
     bindA (read_pool_balance env) (\<lambda>current.
       if target \<le> current then ret ()
       else seqA (cpause env) (credit_polls k env nudged' target hash amount)))"

definition poll_until_credited :: "'e bridge_env_scheme \<Rightarrow> int \<Rightarrow> string \<Rightarrow> int \<Rightarrow> unit cact" where
  "poll_until_credited env target hash amount = credit_polls (be_fuel env) env False target hash amount"

definition fetch_deposit_address :: "'e bridge_env_scheme \<Rightarrow> string cact" where
  "fetch_deposit_address env = retry_on_network_error (be_fuel env) env (be_address env)"

section \<open>What the bridging methods send\<close>

definition accounting_raises :: "(exc \<Rightarrow> bool) \<Rightarrow> 'e bridge_env_scheme \<Rightarrow> bool" where
  "accounting_raises B env \<longleftrightarrow>
     (\<forall>e. be_key env = Inl e \<longrightarrow> B e) \<and> (\<forall>n p e. be_pending env n p = Inl e \<longrightarrow> B e)
     \<and> (\<forall>n p e. be_nonce env n p = Inl e \<longrightarrow> B e) \<and> (\<forall>t a n e. be_sign env t a n = Inl e \<longrightarrow> B e)
     \<and> (\<forall>n r e. be_request env n r = Inl e \<longrightarrow> B e) \<and> (\<forall>n t e. be_balance env n t = Inl e \<longrightarrow> B e)
     \<and> (\<forall>n e. be_address env n = Inl e \<longrightarrow> B e)"

lemma accounting_raises_True: "accounting_raises (\<lambda>_. True) env"
  by (simp add: accounting_raises_def)

lemma progress_update_returns: "fst (progress_update env stage detail v) \<noteq> Inl e"
  by (auto simp: progress_update_def progress_append_def vquery_def vnow_def vask_def on_earns_def act_eqs
      split: option.splits prod.splits sum.splits)

lemma quiet_report [silent]: "noiseless B (report env stage)"
  unfolding report_def by (rule quiet_in_vault) (simp add: progress_update_returns)

lemma quiet_update_finality [silent]: "raised_here B \<Longrightarrow> noiseless B (update_finality env e)"
  unfolding update_finality_def
  by (intro quiet_option quiet_ret quiet_prod quiet_bindA quiet_liftE quiet_in_vault)
    (auto simp: progress_update_returns py_int_or_raise_def raised_here_def split: option.splits)

lemma quiet_retry [silent]:
  "(\<And>n e. f n = Inl e \<Longrightarrow> B e) \<Longrightarrow> raised_here B \<Longrightarrow> noiseless B (retry_on_network_error k env f)"
proof (induction k)
  case 0
  then show ?case by (auto simp: raised_here_def intro!: silent)
next
  case (Suc k)
  show ?case
    unfolding retry_on_network_error.simps
    by (rule quiet_try_bind [where C = B]) (auto intro!: silent Suc)
qed

lemma quiet_pending_bridges [silent]:
  "accounting_raises B env \<Longrightarrow> raised_here B \<Longrightarrow> noiseless B (pending_bridges env)"
  unfolding pending_bridges_def by (intro silent) (auto simp: accounting_raises_def)

lemma quiet_await_polls: "accounting_raises B env \<Longrightarrow> raised_here B \<Longrightarrow> noiseless B (await_polls k env)"
  by (induction k) (auto intro!: silent simp: raised_here_def)

lemma quiet_await_bridges [silent]:
  "accounting_raises B env \<Longrightarrow> raised_here B \<Longrightarrow> noiseless B (await_bridges_in_flight env)"
  unfolding await_bridges_in_flight_def by (rule quiet_await_polls)

lemma quiet_account_balance [silent]:
  "node_raises B env \<Longrightarrow> raised_here B \<Longrightarrow> noiseless B (account_balance env)"
  unfolding account_balance_def by (intro silent)

lemma quiet_read_pool_balance [silent]:
  "accounting_raises B env \<Longrightarrow> raised_here B \<Longrightarrow> noiseless B (read_pool_balance env)"
  unfolding read_pool_balance_def by (intro silent) (auto simp: accounting_raises_def)

lemma quiet_landing_polls [silent]: "raised_here B \<Longrightarrow> noiseless B (landing_polls k env goal amount)"
proof (induction k)
  case 0
  then show ?case
    by (subst landing_polls.simps)
      (rule quiet_bindA, rule quiet_tryA, auto intro!: silent raises_anything simp: raised_here_def not_landed_def)
next
  case (Suc k)
  then show ?case
    by (subst landing_polls.simps)
      (rule quiet_bindA, rule quiet_tryA, auto intro!: silent raises_anything simp: raised_here_def)
qed

lemma quiet_fetch_deposit_address [silent]:
  "accounting_raises B env \<Longrightarrow> raised_here B \<Longrightarrow> noiseless B (fetch_deposit_address env)"
  unfolding fetch_deposit_address_def by (intro silent) (auto simp: accounting_raises_def)

lemma quiet_nudge [silent]: "raised_here B \<Longrightarrow> noiseless B (nudge_check_deposit env hash amount)"
  unfolding nudge_check_deposit_def
  by (rule quiet_bindA, rule quiet_tryA) (auto intro!: silent)

lemma quiet_credit_polls:
  "accounting_raises B env \<Longrightarrow> raised_here B \<Longrightarrow> noiseless B (credit_polls k env nudged target hash amount)"
  by (induction k arbitrary: nudged) (auto intro!: silent simp: raised_here_def)

lemma quiet_poll_until_credited [silent]:
  "accounting_raises B env \<Longrightarrow> raised_here B \<Longrightarrow> noiseless B (poll_until_credited env target hash amount)"
  unfolding poll_until_credited_def by (rule quiet_credit_polls)

text \<open>A balance the account was seen with, and an answer that no bridge of the token is on its way.\<close>

definition balance_read :: "'e bridge_env_scheme \<Rightarrow> int \<Rightarrow> bool" where
  "balance_read env b \<longleftrightarrow>
     (\<exists>n token account. rp_checksum env (be_asset env) = Inr token \<and> rp_signer env = Some account
        \<and> rp_call env n token ''balanceOf'' [Addr account] None = Inr [Num b])"

definition none_pending :: "'e bridge_env_scheme \<Rightarrow> bool" where
  "none_pending env \<longleftrightarrow>
     (\<exists>n ws. be_pending env n (be_pool env) = Inr ws \<and> (\<forall>w\<in>set ws. lower (pw_token w) \<noteq> lower (be_token env)))"

lemma balance_outcomes:
  "outcomes (\<lambda>s. cs_legs s = L) (account_balance env) (\<lambda>b s. balance_read env b \<and> cs_legs s = L) (\<lambda>_ s. cs_legs s = L)"
  unfolding account_balance_def
proof (rule outcomes_to_thread)
  show "outcomes (\<lambda>s. cs_legs s = L) (get_erc20_balance env (be_asset env) None None)
      (\<lambda>b s. balance_read env b \<and> cs_legs s = L) (\<lambda>_ s. cs_legs s = L)"
    by (auto simp: outcomes_def get_erc20_balance_def read_num_def bindA_def liftE_def cask_def in_vault_def vask_def
        holder_or_self_def account_address_def single_num_def balance_read_def
        split: prod.splits sum.splits option.splits list.splits abi.splits)
qed auto

lemma outcomes_after_balance:
  assumes "\<And>e s. cs_legs s = L \<Longrightarrow> E e s" and "\<And>b. balance_read env b \<Longrightarrow> outcomes (\<lambda>s. cs_legs s = L) (f b) Q E"
  shows "outcomes (\<lambda>s. cs_legs s = L) (bindA (account_balance env) f) Q E"
proof (rule outcomes_bindA [where R = "\<lambda>b s. balance_read env b \<and> cs_legs s = L"])
  show "outcomes (\<lambda>s. cs_legs s = L) (account_balance env) (\<lambda>b s. balance_read env b \<and> cs_legs s = L) E"
    by (rule outcomes_weaken [OF balance_outcomes]) (auto intro: assms(1))
qed (rule outcomes_fact, rule assms(2))

lemma retry_outcomes:
  "outcomes (\<lambda>s. cs_legs s = L) (retry_on_network_error k env f)
     (\<lambda>x s. (\<exists>n. f n = Inr x) \<and> cs_legs s = L) (\<lambda>_ s. cs_legs s = L)"
proof (induction k)
  case 0
  then show ?case by (auto intro: outcomes_throw)
next
  case (Suc k)
  have ask: "outcomes (\<lambda>s. cs_legs s = L) (tryA (cawait env f))
      (\<lambda>r s. (\<forall>x. r = Inr x \<longrightarrow> (\<exists>n. f n = Inr x)) \<and> cs_legs s = L) (\<lambda>_ s. cs_legs s = L)"
    unfolding cawait_def
    by (intro outcomes_tryA outcomes_to_thread outcomes_weaken [OF outcomes_cask]) auto
  show ?case
    unfolding retry_on_network_error.simps
    by (rule outcomes_bindA [OF ask], rule outcomes_fact)
      (auto intro!: outcomes_if outcomes_seqA [OF outcomes_weaken [OF outcomes_quiet [OF quiet_cpause]] Suc]
        intro: outcomes_ret outcomes_throw split: sum.splits)
qed

lemma await_outcomes:
  "outcomes (\<lambda>s. cs_legs s = L) (await_polls k env) (\<lambda>_ s. none_pending env \<and> cs_legs s = L) (\<lambda>_ s. cs_legs s = L)"
proof (induction k)
  case 0
  then show ?case by (auto intro: outcomes_throw)
next
  case (Suc k)
  have "outcomes (\<lambda>s. cs_legs s = L) (pending_bridges env)
      (\<lambda>ws s. (ws = [] \<longrightarrow> none_pending env) \<and> cs_legs s = L) (\<lambda>_ s. cs_legs s = L)"
    unfolding pending_bridges_def
    by (rule outcomes_bindA [OF retry_outcomes], rule outcomes_fact, rule outcomes_ret)
      (auto simp: none_pending_def filter_empty_conv)
  then show ?case
    unfolding await_polls.simps
    by (rule outcomes_bindA)
      (auto intro!: outcomes_fact outcomes_if outcomes_seqA [OF outcomes_weaken [OF outcomes_quiet [OF quiet_cpause]] Suc]
        intro: outcomes_ret)
qed

lemma landing_outcomes:
  assumes "0 \<le> goal"
  shows "outcomes (\<lambda>s. cs_legs s = L) (landing_polls k env goal amount)
     (\<lambda>_ s. (\<exists>b. balance_read env b \<and> goal \<le> b) \<and> cs_legs s = L) (\<lambda>_ s. cs_legs s = L)"
proof (induction k)
  have ask: "outcomes (\<lambda>s. cs_legs s = L) (tryA (account_balance env))
      (\<lambda>r s. (\<forall>b. r = Inr b \<longrightarrow> balance_read env b) \<and> cs_legs s = L) (\<lambda>_ s. cs_legs s = L)"
    by (intro outcomes_tryA outcomes_weaken [OF balance_outcomes]) auto
  {
    case 0
    show ?case
      by (subst landing_polls.simps, rule outcomes_bindA [OF ask], rule outcomes_fact)
        (use assms in \<open>auto simp: Let_def intro!: outcomes_ret outcomes_throw split: sum.splits\<close>)
  next
    case (Suc k)
    note again = outcomes_seqA [OF outcomes_weaken [OF outcomes_quiet [OF quiet_cpause]] Suc]
    show ?case
      by (subst landing_polls.simps, rule outcomes_bindA [OF ask], rule outcomes_fact)
        (use assms in \<open>auto simp: Let_def intro!: again intro: outcomes_ret split: sum.splits\<close>)
  }
qed

lemma bindA_ret: "bindA (ret x) f = f x"
  by (simp add: bindA_def ret_def)

lemma bindA_assoc: "bindA (bindA m f) g = bindA m (\<lambda>x. bindA (f x) g)"
  by (rule ext) (simp add: bindA_def split: prod.splits sum.splits)

text \<open>The request to Accounting, and the funds at hand for a deposit.\<close>

definition asked_for :: "'e bridge_env_scheme \<Rightarrow> int \<Rightarrow> leg list \<Rightarrow> bool" where
  "asked_for env amount legs \<longleftrightarrow>
     legs = [] \<or> (\<exists>request. legs = [Requested request] \<and> br_token request = be_token env \<and> br_amount request = amount)"

definition arrived :: "'e bridge_env_scheme \<Rightarrow> int \<Rightarrow> bool" where
  "arrived env amount \<longleftrightarrow>
     (\<exists>before after. balance_read env before \<and> balance_read env after \<and> before + amount \<le> after)"

lemma asked_for_Nil [simp]: "asked_for env amount []"
  by (simp add: asked_for_def)

lemma bridge_outcomes:
  assumes seen: "\<And>b. balance_read env b \<Longrightarrow> 0 \<le> b" and "0 < amount"
  shows "outcomes (\<lambda>s. cs_legs s = L) (bridge_to_base env amount)
     (\<lambda>_ s. \<exists>request. cs_legs s = L @ [Requested request] \<and> br_token request = be_token env \<and> br_amount request = amount
        \<and> arrived env amount)
     (\<lambda>_ s. \<exists>asked. cs_legs s = L @ asked \<and> asked_for env amount asked)"
proof -
  let ?Q = "\<lambda>_ s. \<exists>request. cs_legs s = L @ [Requested request] \<and> br_token request = be_token env \<and> br_amount request = amount
        \<and> arrived env amount"
  let ?E = "\<lambda>_ s. \<exists>asked. cs_legs s = L @ asked \<and> asked_for env amount asked"
  have nothing: "?E e s" if "cs_legs s = L" for e :: exc and s :: cst
    using that by (intro exI [of _ "[]"]) (simp add: asked_for_def)
  have something: "?E e s"
    if "cs_legs s = L @ [Requested request]" "br_token request = be_token env" "br_amount request = amount" for e :: exc and s :: cst and request
    using that by (intro exI [of _ "[Requested request]"]) (simp add: asked_for_def)
  have asked: "outcomes (\<lambda>s. cs_legs s = L)
      (seqA (log_leg (Requested request))
        (bindA (cawait env (\<lambda>n. be_request env n request)) (\<lambda>(status, detail).
           if status \<notin> set accepted_statuses
           then throw (RuntimeError (''Withdrawal request rejected: status='' @ status @ '' detail='' @ detail))
           else landing_polls (be_max_polls env - 1) env (before + amount) amount))) ?Q ?E"
    if before: "balance_read env before" and request: "br_token request = be_token env" "br_amount request = amount"
    for request before
  proof (rule outcomes_seqA [where R = "\<lambda>s. cs_legs s = L @ [Requested request]"])
    show "outcomes (\<lambda>s. cs_legs s = L) (log_leg (Requested request)) (\<lambda>_ s. cs_legs s = L @ [Requested request]) ?E"
      unfolding log_leg_def by (rule outcomes_modifyA) simp
    have "0 \<le> before + amount" using seen [OF before] assms(2) by simp
    have landed: "outcomes (\<lambda>s. cs_legs s = L @ [Requested request])
        (landing_polls (be_max_polls env - 1) env (before + amount) amount) ?Q ?E"
      by (rule outcomes_weaken [OF landing_outcomes [OF \<open>0 \<le> before + amount\<close>]])
        (use before request something in \<open>auto simp: arrived_def\<close>)
    show "outcomes (\<lambda>s. cs_legs s = L @ [Requested request])
        (bindA (cawait env (\<lambda>n. be_request env n request)) (\<lambda>(status, detail).
           if status \<notin> set accepted_statuses
           then throw (RuntimeError (''Withdrawal request rejected: status='' @ status @ '' detail='' @ detail))
           else landing_polls (be_max_polls env - 1) env (before + amount) amount)) ?Q ?E"
    proof (rule outcomes_after_quiet [where B = "\<lambda>_. True"])
      show "noiseless (\<lambda>_. True) (cawait env (\<lambda>n. be_request env n request))" by (rule quiet_cawait) simp
      show "?E e s" if "cs_legs s = L @ [Requested request]" for e :: exc and s :: cst
        using that request by (rule something)
      show "outcomes (\<lambda>s. cs_legs s = L @ [Requested request])
          (case reply of (status, detail) \<Rightarrow>
             if status \<notin> set accepted_statuses
             then throw (RuntimeError (''Withdrawal request rejected: status='' @ status @ '' detail='' @ detail))
             else landing_polls (be_max_polls env - 1) env (before + amount) amount) ?Q ?E" for reply
        using landed by (cases reply) (auto intro!: outcomes_throw something [OF _ request])
    qed
  qed
  show ?thesis
    unfolding bridge_to_base_def seqA_def [of "liftE _"]
  proof (rule outcomes_after_quiet [where B = "\<lambda>_. True"], goal_cases)
    case 3
    show ?case
    proof (rule outcomes_after_balance, goal_cases)
      case (2 before)
      then show ?case
        by (intro outcomes_after_quiet [where B = "\<lambda>_. True"] quiet_retry)
          (auto simp: raises_anything Let_def
            intro!: nothing outcomes_after_quiet [where B = "\<lambda>_. True"] quiet_liftE asked)
    next
      case (1 e s)
      then show ?case by (fact nothing)
    qed
  qed (auto intro!: quiet_liftE simp: asked_for_def)
qed

text \<open>A deposit finds its amount on the account, or asks for what is missing, once, when no earlier bridge of the
  token is on its way; it goes on only when the funds are there.\<close>

definition bridged :: "'e bridge_env_scheme \<Rightarrow> int \<Rightarrow> leg list \<Rightarrow> bool" where
  "bridged env amount asked \<longleftrightarrow>
     asked = [] \<or> (\<exists>held request. asked = [Requested request] \<and> balance_read env held \<and> held < amount
       \<and> br_amount request = amount - held \<and> br_token request = be_token env \<and> none_pending env)"

definition landed :: "'e bridge_env_scheme \<Rightarrow> int \<Rightarrow> leg list \<Rightarrow> bool" where
  "landed env amount asked \<longleftrightarrow>
     (asked = [] \<and> (\<exists>held. balance_read env held \<and> amount \<le> held))
     \<or> (\<exists>request. asked = [Requested request] \<and> arrived env (br_amount request))"

lemma bridged_Nil [simp]: "bridged env amount []"
  by (simp add: bridged_def)

lemma fund_outcomes:
  assumes seen: "\<And>b. balance_read env b \<Longrightarrow> 0 \<le> b"
  shows "outcomes (\<lambda>s. cs_legs s = L) (fund_account env amount)
     (\<lambda>deploy s. amount \<le> deploy \<and> (\<exists>asked. cs_legs s = L @ asked \<and> bridged env amount asked \<and> landed env amount asked))
     (\<lambda>_ s. \<exists>asked. cs_legs s = L @ asked \<and> bridged env amount asked)"
proof -
  let ?Q = "\<lambda>deploy s. amount \<le> deploy
      \<and> (\<exists>asked. cs_legs s = L @ asked \<and> bridged env amount asked \<and> landed env amount asked)"
  let ?E = "\<lambda>_ s. \<exists>asked. cs_legs s = L @ asked \<and> bridged env amount asked"
  have nothing: "?E e s" if "cs_legs s = L" for e :: exc and s :: cst
    using that by (intro exI [of _ "[]"]) (simp add: bridged_def)
  have deploying: "outcomes (\<lambda>s. cs_legs s = L @ asked)
      (seqA (report env DEPLOYING) (ret (max amount on_hand))) ?Q ?E"
    if "bridged env amount asked" "landed env amount asked" for asked on_hand
    unfolding seqA_def
    by (rule outcomes_after_quiet [OF quiet_report [where B = "\<lambda>_. True"]])
      (use that in \<open>auto intro!: outcomes_ret\<close>)
  have bridging: "outcomes (\<lambda>s. cs_legs s = L)
      (bindA (seqA (report env BRIDGING) (seqA (bridge_to_base env (amount - held)) (account_balance env)))
        (\<lambda>on_hand. seqA (report env DEPLOYING) (ret (max amount on_hand)))) ?Q ?E"
    if held: "none_pending env" "balance_read env held" "held < amount" for held
  proof -
    have asked: "bridged env amount asked" if "asked_for env (amount - held) asked" for asked
      using that held by (auto simp: asked_for_def bridged_def)
    have "outcomes (\<lambda>s. cs_legs s = L) (bridge_to_base env (amount - held))
        (\<lambda>_ s. \<exists>asked. (bridged env amount asked \<and> landed env amount asked) \<and> cs_legs s = L @ asked) ?E"
      by (rule outcomes_weaken [OF bridge_outcomes [OF seen]])
        (use held asked in \<open>auto simp: landed_def asked_for_def\<close>)
    moreover have "outcomes (\<lambda>s. cs_legs s = L @ asked)
        (bindA (account_balance env) (\<lambda>on_hand. seqA (report env DEPLOYING) (ret (max amount on_hand)))) ?Q ?E"
      if "bridged env amount asked" "landed env amount asked" for asked
      by (rule outcomes_after_quiet [OF quiet_account_balance [where B = "\<lambda>_. True"]])
        (use that deploying raises_anything in auto)
    ultimately show ?thesis
      unfolding seqA_def [of "report env BRIDGING"] seqA_def [of "bridge_to_base env _"] bindA_assoc
      by (intro outcomes_after_quiet [OF quiet_report [where B = "\<lambda>_. True"]])
        (auto intro!: nothing outcomes_some outcomes_fact elim!: outcomes_bindA)
  qed
  show ?thesis
    unfolding fund_account_def await_bridges_in_flight_def seqA_def [of "if _ then _ else _"] seqA_def [of "await_polls _ _"]
  proof (rule outcomes_after_quiet [where B = "\<lambda>_. True"], goal_cases)
    case 3
    show ?case
    proof (rule outcomes_bindA [where R = "\<lambda>_ s. none_pending env \<and> cs_legs s = L"], goal_cases)
      case 1
      show ?case by (rule outcomes_weaken [OF await_outcomes]) (auto intro: nothing)
    next
      case 2
      show ?case
      proof (rule outcomes_fact, rule outcomes_after_balance, goal_cases)
        case (1 e s)
        from 1(2) show ?case by (fact nothing)
      next
        case (2 held)
        then have pending: "none_pending env" and held: "balance_read env held" by simp_all
        show "outcomes (\<lambda>s. cs_legs s = L)
            (bindA (if amount \<le> held then ret held
                    else seqA (report env BRIDGING) (seqA (bridge_to_base env (amount - held)) (account_balance env)))
              (\<lambda>on_hand'. seqA (report env DEPLOYING) (ret (max amount on_hand')))) ?Q ?E"
        proof (cases "amount \<le> held")
          case True
          with held have "landed env amount []" by (auto simp: landed_def)
          with True deploying [of "[]" held] show ?thesis by (simp add: bindA_ret)
        next
          case False
          with bridging [OF pending held] show ?thesis by simp
        qed
      qed
    qed
  qed (auto intro!: silent simp: bridged_def)
qed

end
