(* ===== verification/Midas.thy ===== *)
theory Midas
  imports Bridges
begin

text \<open>
  The Midas strategy (\<open>services/earn/strategies/midas.py\<close>) and its client (\<open>clients/midas.py\<close>):
  the sizing of a redemption, minting on the way in, redeeming on the way out.
\<close>

section \<open>Amounts\<close>

definition USDC_DECIMALS :: int where "USDC_DECIMALS = 6"
definition MTBILL_DECIMALS :: int where "MTBILL_DECIMALS = 18"
definition DECIMAL_BALANCE :: int where "DECIMAL_BALANCE = MTBILL_DECIMALS - USDC_DECIMALS"
definition BASE18_SCALE :: int where "BASE18_SCALE = 10 ^ nat DECIMAL_BALANCE"
definition REDEEM_BALANCE_POLL_ATTEMPTS :: nat where "REDEEM_BALANCE_POLL_ATTEMPTS = 10"

definition oracle_scale :: "int \<Rightarrow> int" where
  "oracle_scale oracle_decimals = 10 ^ nat (oracle_decimals + DECIMAL_BALANCE)"

definition convert_usdc_to_mtbill_amount :: "int \<Rightarrow> int \<Rightarrow> int \<Rightarrow> bool \<Rightarrow> exc + int" where
  "convert_usdc_to_mtbill_amount usdc_amount oracle_price oracle_decimals round_up =
     (if oracle_price = 0 then Inl ZeroDivisionError
      else Inr (if round_up then ceil_div (usdc_amount * oracle_scale oracle_decimals) oracle_price
                else (usdc_amount * oracle_scale oracle_decimals) div oracle_price))"

definition redemption_payout :: "int \<Rightarrow> int \<Rightarrow> int \<Rightarrow> int \<Rightarrow> int" where
  "redemption_payout mtbill_amount oracle_price oracle_decimals fee_bps =
     ((mtbill_amount - mtbill_amount * fee_bps div 10000) * oracle_price) div oracle_scale oracle_decimals"

text \<open>The loop of \<open>size_redeem\<close>: not returning is \<open>None\<close>.\<close>

partial_function (option) size_loop :: "int \<Rightarrow> int \<Rightarrow> int \<Rightarrow> int \<Rightarrow> int \<Rightarrow> int \<Rightarrow> int option" where
  "size_loop usdc_target oracle_price oracle_decimals fee_bps amount mtbill =
     (if redemption_payout mtbill oracle_price oracle_decimals fee_bps < usdc_target
      then size_loop usdc_target oracle_price oracle_decimals fee_bps amount (mtbill + amount)
      else Some mtbill)"

declare size_loop.simps [code]

definition size_redeem :: "int \<Rightarrow> int \<Rightarrow> int \<Rightarrow> int \<Rightarrow> (exc + int) option" where
  "size_redeem usdc_target oracle_price oracle_decimals fee_bps =
     (if 10000 - fee_bps = 0 then Some (Inl ZeroDivisionError)
      else case convert_usdc_to_mtbill_amount (usdc_target * 10000 div (10000 - fee_bps)) oracle_price oracle_decimals True of
        Inl e \<Rightarrow> Some (Inl e)
      | Inr mtbill \<Rightarrow>
          (case convert_usdc_to_mtbill_amount 1 oracle_price oracle_decimals True of
             Inl e \<Rightarrow> Some (Inl e)
           | Inr amount \<Rightarrow> map_option Inr (size_loop usdc_target oracle_price oracle_decimals fee_bps amount mtbill)))"

definition convert_mtbill_to_usdc_amount :: "int \<Rightarrow> int \<Rightarrow> int \<Rightarrow> int" where
  "convert_mtbill_to_usdc_amount mtbill_amount oracle_price oracle_decimals =
     (mtbill_amount * oracle_price) div oracle_scale oracle_decimals"

text \<open>A value that may not come.\<close>

definition if_returned :: "(exc + 'a) option \<Rightarrow> exc + 'a" where
  "if_returned r = (case r of Some x \<Rightarrow> x | None \<Rightarrow> Inl OutOfFuel)"

text \<open>The payout never falls as more is redeemed, and the net amount is the exact one to less than a unit.\<close>

lemma net_bounds:
  fixes m fee :: int
  shows "m * (10000 - fee) \<le> 10000 * (m - m * fee div 10000)"
    and "10000 * (m - m * fee div 10000) < m * (10000 - fee) + 10000"
proof -
  have "10000 * (m * fee div 10000) \<le> m * fee" and "m * fee < 10000 * (m * fee div 10000) + 10000"
    using div_mult_mod_eq [of "m * fee" 10000] pos_mod_bound [of 10000 "m * fee"] pos_mod_sign [of 10000 "m * fee"]
    by (simp_all add: algebra_simps)
  then show "m * (10000 - fee) \<le> 10000 * (m - m * fee div 10000)"
    and "10000 * (m - m * fee div 10000) < m * (10000 - fee) + 10000"
    by (simp_all add: algebra_simps)
qed

lemma net_mono:
  fixes m m' fee :: int
  assumes "m \<le> m'" "0 \<le> fee" "fee \<le> 10000"
  shows "m - m * fee div 10000 \<le> m' - m' * fee div 10000"
proof -
  have "m' * fee \<le> m * fee + (m' - m) * 10000"
    using assms mult_left_mono [of fee 10000 "m' - m"] by (simp add: algebra_simps)
  then have "m' * fee div 10000 \<le> (m * fee + (m' - m) * 10000) div 10000" by (rule zdiv_mono1) simp
  also have "\<dots> = m * fee div 10000 + (m' - m)" by simp
  finally show ?thesis by simp
qed

lemma oracle_scale_pos: "0 < oracle_scale d"
  by (simp add: oracle_scale_def)

lemma payout_iff: "t \<le> redemption_payout m p d fee \<longleftrightarrow> t * oracle_scale d \<le> (m - m * fee div 10000) * p"
  by (simp add: redemption_payout_def le_div_iff oracle_scale_pos)

lemma payout_scaled:
  "t \<le> redemption_payout m p d fee \<Longrightarrow>
     10000 * (t * oracle_scale d) \<le> (10000 * (m - m * fee div 10000)) * p"
  by (simp only: payout_iff mult.assoc)

lemma payout_mono:
  "m \<le> m' \<Longrightarrow> 0 \<le> fee \<Longrightarrow> fee \<le> 10000 \<Longrightarrow> 0 < p \<Longrightarrow>
     redemption_payout m p d fee \<le> redemption_payout m' p d fee"
  unfolding redemption_payout_def
  by (intro zdiv_mono1 mult_right_mono net_mono) (simp_all add: oracle_scale_pos)

text \<open>Where the search starts, and its step.\<close>

definition redeem_start :: "int \<Rightarrow> int \<Rightarrow> int \<Rightarrow> int \<Rightarrow> int" where
  "redeem_start t p d fee = ceil_div ((t * 10000 div (10000 - fee)) * oracle_scale d) p"

definition redeem_step :: "int \<Rightarrow> int \<Rightarrow> int" where
  "redeem_step p d = ceil_div (oracle_scale d) p"

lemma ceil_div_mult_less: "0 < b \<Longrightarrow> ceil_div a b * b < a + b"
  using less_ceil_div_iff [of b "ceil_div a b - 1" a] by (simp add: algebra_simps)

lemma gross_bounds:
  fixes t fee :: int
  assumes fee: "0 \<le> fee" "fee < 10000"
  shows "(t * 10000 div (10000 - fee)) * (10000 - fee) \<le> t * 10000"
    and "t * 10000 < (t * 10000 div (10000 - fee) + 1) * (10000 - fee)"
  using fee div_mult_le_int [of "10000 - fee" "t * 10000"]
    div_less_iff [of "10000 - fee" "t * 10000" "t * 10000 div (10000 - fee) + 1"]
  by simp_all

text \<open>One step up always covers the target.\<close>

lemma second_covers:
  assumes price: "0 < p" and fee: "0 \<le> fee" "fee < 10000"
  shows "t \<le> redemption_payout (redeem_start t p d fee + redeem_step p d) p d fee"
proof -
  let ?g = "t * 10000 div (10000 - fee)" and ?S = "oracle_scale d"
  let ?m = "redeem_start t p d fee + redeem_step p d"
  have "(?g + 1) * ?S \<le> ?m * p"
    using ceil_div_mult_ge [OF price, of "?g * ?S"] ceil_div_mult_ge [OF price, of ?S]
    by (simp add: redeem_start_def redeem_step_def algebra_simps)
  then have "(10000 - fee) * ((?g + 1) * ?S) \<le> (10000 - fee) * (?m * p)"
    using fee by (intro mult_left_mono) simp_all
  also have "\<dots> = (?m * (10000 - fee)) * p" by (simp add: ac_simps)
  also have "\<dots> \<le> (10000 * (?m - ?m * fee div 10000)) * p"
    using net_bounds(1) [of ?m fee] price by (intro mult_right_mono) simp_all
  finally have "((?g + 1) * (10000 - fee)) * ?S \<le> 10000 * ((?m - ?m * fee div 10000) * p)" by (simp add: ac_simps)
  moreover have "(t * 10000) * ?S < ((?g + 1) * (10000 - fee)) * ?S"
    using gross_bounds(2) [OF fee] oracle_scale_pos by (intro mult_strict_right_mono)
  ultimately show ?thesis by (simp add: payout_iff)
qed

text \<open>An amount a step below the start does not, for a price that is small beside the fee left.\<close>

lemma below_start:
  assumes price: "0 < p" and fee: "0 \<le> fee" "fee < 10000"
    and small: "20000 * p \<le> (10000 - fee) * oracle_scale d" and m: "m \<le> redeem_start t p d fee - redeem_step p d"
  shows "redemption_payout m p d fee < t"
proof (rule ccontr)
  let ?g = "t * 10000 div (10000 - fee)" and ?S = "oracle_scale d"
  let ?k = "redeem_start t p d fee - redeem_step p d"
  assume "\<not> redemption_payout m p d fee < t"
  then have "t \<le> redemption_payout ?k p d fee"
    using payout_mono [OF m, of fee p d] fee price by linarith
  then have "10000 * (t * ?S) \<le> (10000 * (?k - ?k * fee div 10000)) * p" by (rule payout_scaled)
  also have "\<dots> < (?k * (10000 - fee) + 10000) * p"
    using net_bounds(2) [of ?k fee] price by (intro mult_strict_right_mono)
  also have "\<dots> = (10000 - fee) * (?k * p) + 10000 * p" by (simp add: algebra_simps)
  also have "\<dots> \<le> (10000 - fee) * (?g * ?S + p - ?S) + 10000 * p"
  proof -
    have "?k * p \<le> ?g * ?S + p - ?S"
      using ceil_div_mult_less [OF price, of "?g * ?S"] ceil_div_mult_ge [OF price, of ?S]
      by (simp add: redeem_start_def redeem_step_def algebra_simps)
    then show ?thesis using fee by (intro add_right_mono mult_left_mono) simp_all
  qed
  also have "\<dots> = (?g * (10000 - fee)) * ?S + (20000 - fee) * p - (10000 - fee) * ?S" by (simp add: algebra_simps)
  also have "\<dots> \<le> (t * 10000) * ?S + 20000 * p - (10000 - fee) * ?S"
  proof -
    have "(?g * (10000 - fee)) * ?S \<le> (t * 10000) * ?S"
      using gross_bounds(1) [OF fee] oracle_scale_pos [of d] by (intro mult_right_mono) simp_all
    moreover have "(20000 - fee) * p \<le> 20000 * p" using fee price by (intro mult_right_mono) simp_all
    ultimately show ?thesis by linarith
  qed
  finally show False using small by (simp add: algebra_simps)
qed

text \<open>And the payout of the second is above the target by less than two units.\<close>

lemma second_bounded:
  assumes price: "0 < p" and fee: "0 \<le> fee" "fee < 10000"
    and small: "30000 * p \<le> (10000 - fee) * oracle_scale d"
  shows "redemption_payout (redeem_start t p d fee + redeem_step p d) p d fee \<le> t + 1"
proof (rule ccontr)
  let ?g = "t * 10000 div (10000 - fee)" and ?S = "oracle_scale d"
  let ?m = "redeem_start t p d fee + redeem_step p d"
  assume "\<not> redemption_payout ?m p d fee \<le> t + 1"
  then have "t + 2 \<le> redemption_payout ?m p d fee" by simp
  then have "10000 * ((t + 2) * ?S) \<le> (10000 * (?m - ?m * fee div 10000)) * p" by (rule payout_scaled)
  also have "\<dots> < (?m * (10000 - fee) + 10000) * p"
    using net_bounds(2) [of ?m fee] price by (intro mult_strict_right_mono)
  also have "\<dots> = (10000 - fee) * (?m * p) + 10000 * p" by (simp add: algebra_simps)
  also have "\<dots> \<le> (10000 - fee) * (?g * ?S + ?S + 2 * p) + 10000 * p"
  proof -
    have "?m * p \<le> ?g * ?S + ?S + 2 * p"
      using ceil_div_mult_less [OF price, of "?g * ?S"] ceil_div_mult_less [OF price, of ?S]
      by (simp add: redeem_start_def redeem_step_def algebra_simps)
    then show ?thesis using fee by (intro add_right_mono mult_left_mono) simp_all
  qed
  also have "\<dots> = (?g * (10000 - fee)) * ?S + (10000 - fee) * ?S + (30000 - 2 * fee) * p" by (simp add: algebra_simps)
  also have "\<dots> \<le> (t * 10000) * ?S + (10000 - fee) * ?S + 30000 * p"
  proof -
    have "(?g * (10000 - fee)) * ?S \<le> (t * 10000) * ?S"
      using gross_bounds(1) [OF fee] oracle_scale_pos [of d] by (intro mult_right_mono) simp_all
    moreover have "(30000 - 2 * fee) * p \<le> 30000 * p" using fee price by (intro mult_right_mono) simp_all
    ultimately show ?thesis by linarith
  qed
  finally have "20000 * ?S < 2 * ((10000 - fee) * ?S)" using small by (simp add: algebra_simps)
  moreover have "(10000 - fee) * ?S \<le> 10000 * ?S"
    using fee oracle_scale_pos [of d] by (intro mult_right_mono) simp_all
  ultimately show False by linarith
qed

lemma size_loop_turns:
  assumes price: "0 < p" and fee: "0 \<le> fee" "fee < 10000"
  shows "size_loop t p d fee (redeem_step p d) (redeem_start t p d fee)
     = Some (if redemption_payout (redeem_start t p d fee) p d fee < t
             then redeem_start t p d fee + redeem_step p d else redeem_start t p d fee)"
  using second_covers [OF assms, of t d] by (simp add: size_loop.simps)

lemma size_redeem_eq:
  assumes price: "0 < p" and fee: "0 \<le> fee" "fee < 10000"
  shows "size_redeem t p d fee
     = Some (Inr (if redemption_payout (redeem_start t p d fee) p d fee < t
                  then redeem_start t p d fee + redeem_step p d else redeem_start t p d fee))"
  using price fee size_loop_turns [OF assms, of t d]
  by (simp add: size_redeem_def convert_usdc_to_mtbill_amount_def redeem_start_def redeem_step_def)

text \<open>C34: the sizing of a redemption ends, after at most one turn of its loop. The amount it gives pays the target
  at the vault, and at most one unit more; an amount smaller by what one unit of USDC buys, or by more,
  does not pay it. This holds for a fee below the whole and a price that is small beside the scale
  of the oracle, as that of mTBILL is.\<close>

theorem redeem_sized:
  assumes "0 < p" and "0 \<le> fee" and "fee < 10000" and "30000 * p \<le> (10000 - fee) * 10 ^ nat (d + 12)"
  shows "\<exists>m. size_redeem t p d fee = Some (Inr m)
           \<and> t \<le> (m - m * fee div 10000) * p div 10 ^ nat (d + 12)
           \<and> (m - m * fee div 10000) * p div 10 ^ nat (d + 12) \<le> t + 1
           \<and> (\<forall>m'. t \<le> (m' - m' * fee div 10000) * p div 10 ^ nat (d + 12)
                 \<longrightarrow> m < m' - (- (10 ^ nat (d + 12)) div p))"
proof -
  note here = assms(1-3)
  let ?m = "redeem_start t p d fee" and ?u = "redeem_step p d"
  let ?r = "if redemption_payout ?m p d fee < t then ?m + ?u else ?m"
  have scale: "oracle_scale d = 10 ^ nat (d + 12)"
    by (simp add: oracle_scale_def DECIMAL_BALANCE_def MTBILL_DECIMALS_def USDC_DECIMALS_def)
  have small: "30000 * p \<le> (10000 - fee) * oracle_scale d" "20000 * p \<le> (10000 - fee) * oracle_scale d"
    using assms by (simp_all add: scale)
  have step: "0 < ?u"
    using here(1) oracle_scale_pos by (simp add: redeem_step_def less_ceil_div_iff)
  have mono: "\<And>a b. a \<le> b \<Longrightarrow> redemption_payout a p d fee \<le> redemption_payout b p d fee"
    using payout_mono here by simp
  have covers: "t \<le> redemption_payout ?r p d fee"
    using second_covers [OF here] by simp
  have bounded: "redemption_payout ?r p d fee \<le> t + 1"
    using second_bounded [OF here small(1), of t] mono [of ?m "?m + ?u"] step by auto
  have least: "?r < m' + ?u" if paid: "t \<le> redemption_payout m' p d fee" for m'
  proof (cases "redemption_payout ?m p d fee < t")
    case True
    then have "\<not> m' \<le> ?m" using paid mono [of m' ?m] by linarith
    with True show ?thesis by simp
  next
    case False
    have "\<not> m' \<le> ?m - ?u" using paid below_start [OF here small(2), of m' t] by linarith
    with False show ?thesis by simp
  qed
  have step_eq: "m' - (- oracle_scale d div p) = m' + ?u" for m'
    by (simp add: redeem_step_def ceil_div_def)
  obtain r where r: "r = ?r" by simp
  have "size_redeem t p d fee = Some (Inr r)"
    unfolding r by (rule size_redeem_eq [OF here])
  moreover have "\<forall>m'. t \<le> redemption_payout m' p d fee \<longrightarrow> r < m' - (- oracle_scale d div p)"
    unfolding step_eq r using least by blast
  ultimately show ?thesis
    using covers [folded r] bounded [folded r] unfolding redemption_payout_def scale by blast
qed

text \<open>At a price of 1.0525 USD and a fee of 7 basis points, for 1234.567891 USDC.\<close>

theorem redeem_sized_witness:
  "\<exists>m. size_redeem 1234567891 105250000 8 7 = Some (Inr m)
     \<and> 1234567891 \<le> (m - m * 7 div 10000) * 105250000 div 10 ^ nat (8 + 12)"
  using redeem_sized [of 105250000 7 8 1234567891] by auto

section \<open>The client\<close>

record midas_env = bridge_env +
  mc_issuance :: string
  mc_redemption :: string
  mc_mtbill :: string
  mc_oracle :: string
  ms_slippage :: int
  ms_heartbeat :: int
  ms_apy :: int
  ms_llama :: "string option"
  ms_chart :: "nat \<Rightarrow> string \<Rightarrow> exc + (int \<times> int) list"

definition get_oracle_round :: "'e midas_env_scheme \<Rightarrow> (int \<times> int) cact" where
  "get_oracle_round env =
     bindA (cask (\<lambda>n. rp_call env n (mc_oracle env) ''latestRoundData'' [] None)) (\<lambda>xs.
       case xs of
         [_, Num answer, _, Num updated_at, _] \<Rightarrow> ret (answer, updated_at)
       | _ \<Rightarrow> throw TypeError)"

definition get_oracle_answer :: "'e midas_env_scheme \<Rightarrow> int cact" where
  "get_oracle_answer env = bindA (get_oracle_round env) (\<lambda>(answer, _). ret answer)"

definition get_oracle_decimals :: "'e midas_env_scheme \<Rightarrow> int cact" where
  "get_oracle_decimals env = read_num env (mc_oracle env) ''decimals'' [] None"

definition get_mtbill_balance :: "'e midas_env_scheme \<Rightarrow> string \<Rightarrow> int option \<Rightarrow> int cact" where
  "get_mtbill_balance env holder block =
     bindA (liftE (rp_checksum env holder)) (\<lambda>h. read_num env (mc_mtbill env) ''balanceOf'' [Addr h] block)"

definition is_issuance_paused :: "'e midas_env_scheme \<Rightarrow> bool cact" where
  "is_issuance_paused env = bindA (read_num env (mc_issuance env) ''paused'' [] None) (\<lambda>n. ret (n \<noteq> 0))"

definition is_redemption_paused :: "'e midas_env_scheme \<Rightarrow> bool cact" where
  "is_redemption_paused env = bindA (read_num env (mc_redemption env) ''paused'' [] None) (\<lambda>n. ret (n \<noteq> 0))"

definition get_redemption_fee_bps :: "'e midas_env_scheme \<Rightarrow> string \<Rightarrow> int cact" where
  "get_redemption_fee_bps env token_out =
     bindA (liftE (rp_checksum env token_out)) (\<lambda>token.
     bindA (cask (\<lambda>n. rp_call env n (mc_redemption env) ''tokensConfig'' [Addr token] None)) (\<lambda>xs.
     case xs of
       [_, Num token_fee, _, _] \<Rightarrow>
         bindA (read_num env (mc_redemption env) ''instantFee'' [] None) (\<lambda>instant_fee. ret (token_fee + instant_fee))
     | _ \<Rightarrow> throw TypeError))"

definition get_issuance_min_amount :: "'e midas_env_scheme \<Rightarrow> int cact" where
  "get_issuance_min_amount env = read_num env (mc_issuance env) ''minAmount'' [] None"

definition get_redemption_min_amount :: "'e midas_env_scheme \<Rightarrow> int cact" where
  "get_redemption_min_amount env = read_num env (mc_redemption env) ''minAmount'' [] None"

definition get_instant_redeem_remaining :: "'e midas_env_scheme \<Rightarrow> int cact" where
  "get_instant_redeem_remaining env =
     bindA (cask (rp_block_time env)) (\<lambda>timestamp.
     bindA (read_num env (mc_redemption env) ''instantDailyLimit'' [] None) (\<lambda>limit.
     bindA (read_num env (mc_redemption env) ''dailyLimits'' [Num (timestamp div 86400)] None) (\<lambda>used.
       ret (max (limit - used) 0))))"

definition approve :: "'e midas_env_scheme \<Rightarrow> string \<Rightarrow> string \<Rightarrow> int \<Rightarrow> string cact" where
  "approve env asset spender amount =
     bindA (liftE (rp_checksum env asset)) (\<lambda>token.
     bindA (liftE (rp_checksum env spender)) (\<lambda>to.
       midas_send_write_tx env token ''approve'' [Addr to, Num amount]))"

definition ZERO_REFERRER_ID :: string where "ZERO_REFERRER_ID = replicate 32 (CHR 0x00)"

definition deposit_instant :: "'e midas_env_scheme \<Rightarrow> string \<Rightarrow> int \<Rightarrow> int \<Rightarrow> string \<Rightarrow> string cact" where
  "deposit_instant env token_in amount min_receive_amount referrer_id =
     bindA (liftE (rp_checksum env token_in)) (\<lambda>token.
     if length referrer_id \<noteq> 32 then throw (ValueError ''referrer_id must be exactly 32 bytes'')
     else midas_send_write_tx env (mc_issuance env) ''depositInstant''
            [Addr token, Num amount, Num min_receive_amount, Raw referrer_id])"

definition redeem_instant :: "'e midas_env_scheme \<Rightarrow> string \<Rightarrow> int \<Rightarrow> int \<Rightarrow> string cact" where
  "redeem_instant env token_out amount_mtoken_in min_receive_amount =
     bindA (liftE (rp_checksum env token_out)) (\<lambda>token.
       midas_send_write_tx env (mc_redemption env) ''redeemInstant''
         [Addr token, Num amount_mtoken_in, Num min_receive_amount])"

definition midas_transfer_erc20 :: "'e midas_env_scheme \<Rightarrow> string \<Rightarrow> string \<Rightarrow> int \<Rightarrow> string cact" where
  "midas_transfer_erc20 env asset to_address amount =
     bindA (liftE (rp_checksum env asset)) (\<lambda>token.
     bindA (liftE (rp_checksum env to_address)) (\<lambda>recipient.
       midas_send_write_tx env token ''transfer'' [Addr recipient, Num amount]))"

section \<open>The strategy\<close>

definition defillama_apy_history ::
  "'e midas_env_scheme \<Rightarrow> string option \<Rightarrow> int option \<Rightarrow> (int \<times> int) list cact" where
  "defillama_apy_history env pool_id days =
     (case pool_id of
        None \<Rightarrow> ret []
      | Some uuid \<Rightarrow>
          if uuid = [] then ret []
          else bindA (tryA (cawait env (\<lambda>n. ms_chart env n uuid))) (\<lambda>r.
            case r of
              Inl _ \<Rightarrow> ret []
            | Inr raw \<Rightarrow>
                bindA (case days of
                         None \<Rightarrow> ret 0
                       | Some d \<Rightarrow> bindA (in_vault (vnow env)) (\<lambda>now. ret (now - d * 86400))) (\<lambda>cutoff.
                  ret (filter (\<lambda>p. cutoff \<le> fst p) raw))))"

definition get_apy_history :: "'e midas_env_scheme \<Rightarrow> int option \<Rightarrow> (int \<times> int) list cact" where
  "get_apy_history env days = defillama_apy_history env (ms_llama env) days"

definition get_apy_bps :: "'e midas_env_scheme \<Rightarrow> int cact" where
  "get_apy_bps env =
     bindA (get_apy_history env None) (\<lambda>history.
       ret (if history \<noteq> [] then snd (last history) else ms_apy env))"

definition read_oracle_price :: "'e midas_env_scheme \<Rightarrow> (int \<times> int) cact" where
  "read_oracle_price env =
     bindA (get_oracle_answer env) (\<lambda>answer. bindA (get_oracle_decimals env) (\<lambda>decimals. ret (answer, decimals)))"

definition midas_deposit_to_earn :: "'e midas_env_scheme \<Rightarrow> int \<Rightarrow> unit cact" where
  "midas_deposit_to_earn env amount =
     bindA (fund_account env amount) (\<lambda>deploy.
     bindA (to_thread env (get_allowance env (be_asset env) (mc_issuance env))) (\<lambda>allowance.
     seqA (if allowance < deploy
           then seqA (to_thread env (approve env (be_asset env) (mc_issuance env) deploy)) (ret ())
           else ret ())
     (bindA (to_thread env (read_oracle_price env)) (\<lambda>(price, decimals).
      bindA (liftE (convert_usdc_to_mtbill_amount deploy price decimals False)) (\<lambda>expected_mtbill.
      seqA (to_thread env (deposit_instant env (be_asset env) (deploy * BASE18_SCALE)
              (expected_mtbill * (10000 - ms_slippage env) div 10000) ZERO_REFERRER_ID))
        (ret ()))))))"

text \<open>The reads of the balance after a redemption; the argument counts the reads left after this one.\<close>

fun redeem_polls :: "nat \<Rightarrow> 'e midas_env_scheme \<Rightarrow> int \<Rightarrow> int cact" where
  "redeem_polls k env lp_usdc_before =
     bindA (account_balance env) (\<lambda>lp_usdc_after.
       if lp_usdc_before < lp_usdc_after then ret lp_usdc_after
       else (case k of
               0 \<Rightarrow> ret lp_usdc_after
             | Suc j \<Rightarrow> seqA (cpause env) (redeem_polls j env lp_usdc_before)))"

declare redeem_polls.simps [simp del]

definition redeem :: "'e midas_env_scheme \<Rightarrow> int \<Rightarrow> int \<Rightarrow> int cact" where
  "redeem env amount lp_usdc_before =
     bindA (to_thread env (read_oracle_price env)) (\<lambda>(price, decimals).
     bindA (to_thread env (get_redemption_fee_bps env (be_asset env))) (\<lambda>fee_bps.
     if 10000 \<le> fee_bps
     then throw (MidasInstantUnavailable (''Midas redemption fee is '' @ show_int fee_bps @ '' bps; refusing to redeem''))
     else
     bindA (liftE (if_returned (size_redeem amount price decimals fee_bps))) (\<lambda>sized.
     bindA (to_thread env (get_redemption_min_amount env)) (\<lambda>min_mtbill.
     let mtbill_to_redeem = max sized min_mtbill;
         min_receive_usdc = amount * BASE18_SCALE in
     bindA (to_thread env (get_allowance env (mc_mtbill env) (mc_redemption env))) (\<lambda>allowance.
     seqA (if allowance < mtbill_to_redeem
           then seqA (to_thread env (approve env (mc_mtbill env) (mc_redemption env) mtbill_to_redeem)) (ret ())
           else ret ())
     (bindA (tryA (to_thread env (redeem_instant env (be_asset env) mtbill_to_redeem min_receive_usdc))) (\<lambda>redeemed.
      case redeemed of
        Inl e \<Rightarrow>
          if runtime_error e
          then throw (MidasLiquidityUnavailable (''Midas redeemInstant unavailable (target_usdc='' @ show_int amount
                 @ '' mtbill_in='' @ show_int mtbill_to_redeem @ ''): '' @ exc_text e))
          else throw e
      | Inr redeem_tx \<Rightarrow>
          bindA (redeem_polls (REDEEM_BALANCE_POLL_ATTEMPTS - 1) env lp_usdc_before) (\<lambda>lp_usdc_after.
            if lp_usdc_after - lp_usdc_before \<le> 0
            then throw (MidasInstantUnavailable (''Midas redeemInstant produced no USDC (target_usdc='' @ show_int amount
                   @ '' mtbill_in='' @ show_int mtbill_to_redeem @ '' before='' @ show_int lp_usdc_before
                   @ '' after='' @ show_int lp_usdc_after @ '')''))
            else ret (lp_usdc_after - lp_usdc_before)))))))))"

definition midas_withdraw_from_earn :: "'e midas_env_scheme \<Rightarrow> int \<Rightarrow> unit cact" where
  "midas_withdraw_from_earn env amount =
     seqA (if amount \<le> 0
           then throw (ValueError (''withdraw_from_earn requires a positive amount, got '' @ show_int amount))
           else ret ())
     (seqA (report env RECLAIMING)
     (bindA (read_pool_balance env) (\<lambda>pre_balance.
      bindA (account_balance env) (\<lambda>lp_usdc_before.
      let from_raw = min lp_usdc_before amount in
      bindA (if from_raw < amount then redeem env (amount - from_raw) lp_usdc_before else ret 0) (\<lambda>redeemed.
      let realized_usdc = redeemed + from_raw in
      bindA (fetch_deposit_address env) (\<lambda>deposit_address.
      seqA (report env RETURNING)
      (bindA (to_thread env (midas_transfer_erc20 env (be_asset env) deposit_address realized_usdc)) (\<lambda>transfer_tx.
        poll_until_credited env (pre_balance + realized_usdc) transfer_tx realized_usdc))))))))"

definition midas_min_deploy_amount :: "'e midas_env_scheme \<Rightarrow> int cact" where
  "midas_min_deploy_amount env =
     bindA (to_thread env (get_issuance_min_amount env)) (\<lambda>base18. ret (ceil_div base18 BASE18_SCALE))"

definition midas_total_assets :: "'e midas_env_scheme \<Rightarrow> int cact" where
  "midas_total_assets env =
     bindA (to_thread env (cask (rp_block_number env))) (\<lambda>block.
     bindA (to_thread env (get_mtbill_balance env (be_pool env) (Some block))) (\<lambda>mtbill_bal.
     bindA (to_thread env (get_erc20_balance env (be_asset env) None (Some block))) (\<lambda>raw_usdc.
     if mtbill_bal = 0 then ret raw_usdc
     else bindA (to_thread env (read_oracle_price env)) (\<lambda>(price, decimals).
       ret (raw_usdc + convert_mtbill_to_usdc_amount mtbill_bal price decimals)))))"

text \<open>What \<open>withdraw_ready\<close> reads, up to the mTBILL needed and what is left of the day's limit; \<open>Inl\<close> is
  an answer given on the way.\<close>

definition redeem_capacity :: "'e midas_env_scheme \<Rightarrow> int \<Rightarrow> (bool + int \<times> int) cact" where
  "redeem_capacity env amount =
     bindA (account_balance env) (\<lambda>on_hand.
     let shortfall = amount - on_hand in
     if shortfall \<le> 0 then ret (Inl True)
     else bindA (to_thread env (is_redemption_paused env)) (\<lambda>paused.
     if paused then ret (Inl False)
     else bindA (to_thread env (read_oracle_price env)) (\<lambda>(price, decimals).
     bindA (to_thread env (get_redemption_fee_bps env (be_asset env))) (\<lambda>fee_bps.
     if 10000 \<le> fee_bps then ret (Inl False)
     else bindA (liftE (if_returned (size_redeem shortfall price decimals fee_bps))) (\<lambda>needed.
     bindA (to_thread env (get_redemption_min_amount env)) (\<lambda>minimum.
     bindA (to_thread env (get_instant_redeem_remaining env)) (\<lambda>remaining.
       ret (Inr (max needed minimum, remaining)))))))))"

definition midas_withdraw_ready :: "'e midas_env_scheme \<Rightarrow> int \<Rightarrow> bool cact" where
  "midas_withdraw_ready env amount =
     bindA (tryA (redeem_capacity env amount)) (\<lambda>r.
     case r of
       Inl e \<Rightarrow> if e = OutOfFuel then throw OutOfFuel else ret True
     | Inr (Inl answer) \<Rightarrow> ret answer
     | Inr (Inr (needed, remaining)) \<Rightarrow> ret (needed \<le> remaining))"

definition midas_probe :: "'e midas_env_scheme \<Rightarrow> bool cact" where
  "midas_probe env =
     bindA (to_thread env (is_issuance_paused env)) (\<lambda>issuance_paused.
     if issuance_paused then ret False
     else bindA (to_thread env (is_redemption_paused env)) (\<lambda>redemption_paused.
     if redemption_paused then ret False
     else bindA (to_thread env (get_oracle_round env)) (\<lambda>(_, updated_at).
     bindA (in_vault (vnow env)) (\<lambda>now. ret (now - updated_at \<le> 2 * ms_heartbeat env)))))"

definition midas_is_healthy :: "'e midas_env_scheme \<Rightarrow> bool cact" where
  "midas_is_healthy env =
     bindA (tryA (midas_probe env)) (\<lambda>r. ret (case r of Inr healthy \<Rightarrow> healthy | Inl _ \<Rightarrow> False))"

end
