(* ===== verification/Aave.thy ===== *)
theory Aave
  imports Bridges
begin

text \<open>
  The Aave strategy (\<open>services/earn/strategies/aave.py\<close>) and its client (\<open>clients/aave.py\<close>). The
  bridging methods are those of \<open>Bridges\<close>; the calls of the client run on the event loop here, not in
  a thread, where the code does not hand them to one.
\<close>

section \<open>The client\<close>

definition RAY_TO_BPS :: int where "RAY_TO_BPS = 10 ^ 23"
definition AAVE_REFERRAL_CODE :: int where "AAVE_REFERRAL_CODE = 0"
definition REDEEM_DUST_TOLERANCE :: int where "REDEEM_DUST_TOLERANCE = 10"

record aave_env = bridge_env +
  ac_pool :: string

text \<open>\<open>int(address, 16) == 0\<close>\<close>

definition zero_address :: "string \<Rightarrow> bool" where
  "zero_address a = list_all (\<lambda>c. c = CHR ''0'') (removeprefix ''0x'' a)"

text \<open>The rate and the aToken of a reserve; the pool answers zeros for an asset it does not list.\<close>

definition get_reserve_data :: "'e aave_env_scheme \<Rightarrow> string \<Rightarrow> (int \<times> string) cact" where
  "get_reserve_data env asset_address =
     bindA (liftE (rp_checksum env asset_address)) (\<lambda>asset.
     bindA (cask (\<lambda>n. rp_call env n (ac_pool env) ''getReserveData'' [Addr asset] None)) (\<lambda>reserve.
     case drop 2 reserve of
       Num rate # _ # _ # _ # _ # _ # Addr atoken # _ \<Rightarrow>
         if zero_address atoken
         then throw (ValueError (''Asset '' @ asset @ '' is not a listed reserve on Aave pool '' @ ac_pool env))
         else ret (rate, atoken)
     | _ \<Rightarrow> throw IndexError))"

definition get_supply_apy_bps :: "'e aave_env_scheme \<Rightarrow> string \<Rightarrow> int cact" where
  "get_supply_apy_bps env asset_address =
     bindA (get_reserve_data env asset_address) (\<lambda>(rate, _). ret (rate div RAY_TO_BPS))"

definition get_aToken_address :: "'e aave_env_scheme \<Rightarrow> string \<Rightarrow> string cact" where
  "get_aToken_address env asset_address =
     bindA (get_reserve_data env asset_address) (\<lambda>(_, atoken). liftE (rp_checksum env atoken))"

definition get_aToken_balance :: "'e aave_env_scheme \<Rightarrow> string \<Rightarrow> string \<Rightarrow> int option \<Rightarrow> int cact" where
  "get_aToken_balance env asset_address holder block =
     bindA (get_aToken_address env asset_address) (\<lambda>a.
     bindA (liftE (rp_checksum env a)) (\<lambda>atoken.
     bindA (liftE (rp_checksum env holder)) (\<lambda>h. read_num env atoken ''balanceOf'' [Addr h] block)))"

definition send_pool_tx :: "'e aave_env_scheme \<Rightarrow> string \<Rightarrow> abi list \<Rightarrow> string cact" where
  "send_pool_tx env name args = aave_send_write_tx env (ac_pool env) name args"

definition aave_supply :: "'e aave_env_scheme \<Rightarrow> string \<Rightarrow> int \<Rightarrow> string cact" where
  "aave_supply env asset_address amount =
     bindA (liftE (rp_checksum env asset_address)) (\<lambda>asset.
     bindA (liftE (account_address env)) (\<lambda>account.
       send_pool_tx env ''supply'' [Addr asset, Num amount, Addr account, Num AAVE_REFERRAL_CODE]))"

definition aave_withdraw :: "'e aave_env_scheme \<Rightarrow> string \<Rightarrow> int \<Rightarrow> string option \<Rightarrow> string cact" where
  "aave_withdraw env asset_address amount to =
     bindA (liftE (rp_checksum env asset_address)) (\<lambda>asset.
     bindA (liftE (holder_or_self env to)) (\<lambda>recipient.
       send_pool_tx env ''withdraw'' [Addr asset, Num amount, Addr recipient]))"

definition approve_pool :: "'e aave_env_scheme \<Rightarrow> string \<Rightarrow> int \<Rightarrow> string cact" where
  "approve_pool env asset_address amount =
     bindA (liftE (rp_checksum env asset_address)) (\<lambda>asset.
       aave_send_write_tx env asset ''approve'' [Addr (ac_pool env), Num amount])"

definition aave_transfer_erc20 :: "'e aave_env_scheme \<Rightarrow> string \<Rightarrow> string \<Rightarrow> int \<Rightarrow> string cact" where
  "aave_transfer_erc20 env asset_address to_address amount =
     bindA (liftE (rp_checksum env asset_address)) (\<lambda>asset.
     bindA (liftE (rp_checksum env to_address)) (\<lambda>recipient.
       aave_send_write_tx env asset ''transfer'' [Addr recipient, Num amount]))"

definition pool_allowance :: "'e aave_env_scheme \<Rightarrow> string \<Rightarrow> int cact" where
  "pool_allowance env asset_address =
     bindA (liftE (rp_checksum env asset_address)) (\<lambda>asset.
     bindA (liftE (account_address env)) (\<lambda>account.
       read_num env asset ''allowance'' [Addr account, Addr (ac_pool env)] None))"

section \<open>The strategy\<close>

text \<open>The methods whose text is that of the Midas strategy, but for the name in the messages, which is
  \<open>rp_label\<close>.\<close>

definition aave_await_bridges_in_flight :: "'e aave_env_scheme \<Rightarrow> unit cact" where
  "aave_await_bridges_in_flight env = await_bridges_in_flight env"

definition aave_bridge_to_base :: "'e aave_env_scheme \<Rightarrow> int \<Rightarrow> unit cact" where
  "aave_bridge_to_base env amount = bridge_to_base env amount"

definition aave_nudge_check_deposit :: "'e aave_env_scheme \<Rightarrow> string \<Rightarrow> int \<Rightarrow> bool cact" where
  "aave_nudge_check_deposit env hash amount = nudge_check_deposit env hash amount"

definition aave_poll_until_credited :: "'e aave_env_scheme \<Rightarrow> int \<Rightarrow> string \<Rightarrow> int \<Rightarrow> unit cact" where
  "aave_poll_until_credited env target hash amount = poll_until_credited env target hash amount"

definition aave_read_pool_balance :: "'e aave_env_scheme \<Rightarrow> int cact" where
  "aave_read_pool_balance env = read_pool_balance env"

definition aave_pending_bridges :: "'e aave_env_scheme \<Rightarrow> pending_withdrawal list cact" where
  "aave_pending_bridges env = pending_bridges env"

definition aave_idle_assets :: "'e aave_env_scheme \<Rightarrow> int cact" where
  "aave_idle_assets env = idle_assets env"

definition aave_in_flight_assets :: "'e aave_env_scheme \<Rightarrow> int cact" where
  "aave_in_flight_assets env = in_flight_assets env"

definition aave_stranded_assets :: "'e aave_env_scheme \<Rightarrow> int cact" where
  "aave_stranded_assets env = stranded_assets env"

definition aave_get_apy_bps :: "'e aave_env_scheme \<Rightarrow> int cact" where
  "aave_get_apy_bps env = get_supply_apy_bps env (be_asset env)"

definition aave_deposit_to_earn :: "'e aave_env_scheme \<Rightarrow> int \<Rightarrow> unit cact" where
  "aave_deposit_to_earn env amount =
     seqA (if amount \<le> 0
           then throw (ValueError (''deposit_to_earn requires a positive amount, got '' @ show_int amount))
           else ret ())
     (seqA (aave_await_bridges_in_flight env)
     (bindA (account_balance env) (\<lambda>found.
      bindA (if amount \<le> found then ret found
             else seqA (report env BRIDGING)
                  (seqA (aave_bridge_to_base env (amount - found)) (account_balance env))) (\<lambda>on_hand.
      let deploy = max amount on_hand in
      seqA (report env DEPLOYING)
      (bindA (pool_allowance env (be_asset env)) (\<lambda>allowance.
       seqA (if allowance < deploy then seqA (approve_pool env (be_asset env) deploy) (ret ()) else ret ())
         (seqA (aave_supply env (be_asset env) deploy) (ret ()))))))))"

text \<open>The redemption: a position short by dust pays what it has.\<close>

definition aave_redeem :: "'e aave_env_scheme \<Rightarrow> int \<Rightarrow> int cact" where
  "aave_redeem env redeem_amount =
     bindA (to_thread env (get_aToken_balance env (be_asset env) (be_pool env) None)) (\<lambda>position.
     if position < redeem_amount \<and> REDEEM_DUST_TOLERANCE < redeem_amount - position
     then throw (RuntimeError (''Aave position '' @ show_int position @ '' cannot cover reclaim of '' @ show_int redeem_amount
            @ '' (short by '' @ show_int (redeem_amount - position) @ '')''))
     else let amount = min redeem_amount position in
       seqA (aave_withdraw env (be_asset env) amount (Some (be_pool env))) (ret amount))"

definition aave_withdraw_from_earn :: "'e aave_env_scheme \<Rightarrow> int \<Rightarrow> unit cact" where
  "aave_withdraw_from_earn env amount =
     seqA (if amount \<le> 0
           then throw (ValueError (''withdraw_from_earn requires a positive amount, got '' @ show_int amount))
           else ret ())
     (seqA (report env RECLAIMING)
     (bindA (aave_read_pool_balance env) (\<lambda>pre_balance.
      bindA (account_balance env) (\<lambda>on_hand.
      let from_raw = min on_hand amount in
      bindA (if 0 < amount - from_raw then aave_redeem env (amount - from_raw) else ret (amount - from_raw)) (\<lambda>redeemed.
      let redeem_amount = redeemed + from_raw in
      bindA (fetch_deposit_address env) (\<lambda>deposit_address.
      seqA (report env RETURNING)
      (bindA (aave_transfer_erc20 env (be_asset env) deposit_address redeem_amount) (\<lambda>transfer_tx.
        aave_poll_until_credited env (pre_balance + redeem_amount) transfer_tx redeem_amount))))))))"

definition aave_total_assets :: "'e aave_env_scheme \<Rightarrow> int cact" where
  "aave_total_assets env =
     bindA (to_thread env (cask (rp_block_number env))) (\<lambda>block.
     bindA (to_thread env (get_aToken_balance env (be_asset env) (be_pool env) (Some block))) (\<lambda>supplied.
     bindA (to_thread env (get_erc20_balance env (be_asset env) None (Some block))) (\<lambda>raw. ret (supplied + raw))))"

definition aave_is_healthy :: "'e aave_env_scheme \<Rightarrow> bool cact" where
  "aave_is_healthy env =
     bindA (tryA (get_supply_apy_bps env (be_asset env))) (\<lambda>r. ret (case r of Inr _ \<Rightarrow> True | Inl _ \<Rightarrow> False))"

end
