(* ===== verification/MidasInv.thy ===== *)
theory MidasInv
  imports Midas Aave
begin

text \<open>
  What the strategies send: a deposit bridges and mints at most once, and a withdrawal that reports a
  lack of liquidity has moved nothing.
\<close>

section \<open>Reads\<close>

lemma quiet_get_oracle_round [silent]:
  "node_raises B env \<Longrightarrow> raised_here B \<Longrightarrow> noiseless B (get_oracle_round env)"
  unfolding get_oracle_round_def
  by (intro quiet_bindA quiet_cask) (auto simp: node_raises_def raised_here_def intro!: silent split: list.splits abi.splits)

lemma quiet_read_oracle_price [silent]:
  "node_raises B env \<Longrightarrow> raised_here B \<Longrightarrow> noiseless B (read_oracle_price env)"
  unfolding read_oracle_price_def get_oracle_answer_def get_oracle_decimals_def by (intro silent)

lemma quiet_get_redemption_fee_bps [silent]:
  "node_raises B env \<Longrightarrow> raised_here B \<Longrightarrow> noiseless B (get_redemption_fee_bps env token)"
  unfolding get_redemption_fee_bps_def
  by (intro quiet_bindA quiet_liftE quiet_cask)
    (auto simp: raised_here_def node_raises_def intro!: silent split: list.splits abi.splits)

lemma quiet_get_redemption_min_amount [silent]:
  "node_raises B env \<Longrightarrow> raised_here B \<Longrightarrow> noiseless B (get_redemption_min_amount env)"
  unfolding get_redemption_min_amount_def by (intro silent)

lemma sized_raises: "if_returned (size_redeem t p d fee) = Inl e \<Longrightarrow> raised_here B \<Longrightarrow> B e"
  by (auto simp: if_returned_def size_redeem_def convert_usdc_to_mtbill_amount_def raised_here_def
      split: option.splits sum.splits if_splits)

lemma quiet_redeem_polls [silent]:
  "node_raises B env \<Longrightarrow> raised_here B \<Longrightarrow> noiseless B (redeem_polls k env before)"
  by (induction k) (subst redeem_polls.simps; auto intro!: silent)+

section \<open>Transactions\<close>

lemma approve_sends:
  "node_raises B env \<Longrightarrow> raised_here B \<Longrightarrow> one_send env B (\<lambda>tx. ct_function tx = ''approve'') (approve env asset spender amount)"
  unfolding approve_def
  by (intro one_send_liftE midas_sends) (auto dest: checksum_raises)

lemma approve_pool_sends:
  "node_raises B env \<Longrightarrow> raised_here B \<Longrightarrow> one_send env B (\<lambda>tx. ct_function tx = ''approve'') (approve_pool env asset amount)"
  unfolding approve_pool_def
  by (intro one_send_liftE aave_sends) (auto dest: checksum_raises)

lemma deposit_instant_sends:
  "node_raises B env \<Longrightarrow> raised_here B \<Longrightarrow> length referrer = 32 \<Longrightarrow>
     one_send env B (\<lambda>tx. ct_to tx = mc_issuance env \<and> ct_function tx = ''depositInstant''
         \<and> (\<exists>token. rp_checksum env asset = Inr token \<and> ct_args tx = [Addr token, Num amount, Num least, Raw referrer]))
       (deposit_instant env asset amount least referrer)"
  unfolding deposit_instant_def
  by (intro one_send_liftE) (auto dest: checksum_raises intro!: midas_sends)

lemma redeem_instant_sends:
  "node_raises B env \<Longrightarrow> raised_here B \<Longrightarrow>
     one_send env B (\<lambda>tx. ct_function tx = ''redeemInstant'') (redeem_instant env asset amount least)"
  unfolding redeem_instant_def
  by (intro one_send_liftE midas_sends) (auto dest: checksum_raises)

lemma transfer_sends:
  "node_raises B env \<Longrightarrow> raised_here B \<Longrightarrow>
     one_send env B (\<lambda>tx. ct_function tx = ''transfer'') (midas_transfer_erc20 env asset to amount)"
  unfolding midas_transfer_erc20_def
  by (intro one_send_liftE midas_sends) (auto dest: checksum_raises)

lemma aave_supply_sends:
  "node_raises B env \<Longrightarrow> raised_here B \<Longrightarrow>
     one_send env B (\<lambda>tx. ct_to tx = ac_pool env \<and> ct_function tx = ''supply''
         \<and> (\<exists>token account. rp_checksum env asset = Inr token \<and> rp_signer env = Some account
              \<and> ct_args tx = [Addr token, Num amount, Addr account, Num 0]))
       (aave_supply env asset amount)"
  unfolding aave_supply_def send_pool_tx_def
  by (intro one_send_liftE aave_sends)
    (auto dest: checksum_raises account_address_raises simp: account_address_def AAVE_REFERRAL_CODE_def raised_here_def split: option.splits)

text \<open>An approval when the allowance is short.\<close>

lemma top_up:
  assumes "one_send env B (\<lambda>tx. ct_function tx = ''approve'') m"
  shows "outcomes (\<lambda>s. cs_legs s = L) (if b then seqA m (ret ()) else ret ())
     (\<lambda>_ s. \<exists>approved. (approved = [] \<or> (\<exists>tx. approved = [Sent tx] \<and> ct_function tx = ''approve'')) \<and> cs_legs s = L @ approved)
     (\<lambda>e s. B e \<and> (\<exists>approved. (approved = [] \<or> (\<exists>tx. approved = [Sent tx] \<and> ct_function tx = ''approve''))
        \<and> cs_legs s = L @ approved))"
proof (rule outcomes_if)
  show "outcomes (\<lambda>s. cs_legs s = L) (seqA m (ret ()))
     (\<lambda>_ s. \<exists>approved. (approved = [] \<or> (\<exists>tx. approved = [Sent tx] \<and> ct_function tx = ''approve'')) \<and> cs_legs s = L @ approved)
     (\<lambda>e s. B e \<and> (\<exists>approved. (approved = [] \<or> (\<exists>tx. approved = [Sent tx] \<and> ct_function tx = ''approve''))
        \<and> cs_legs s = L @ approved))"
    using one_send_seq_ret [OF assms, of "()"] unfolding one_send_def
    by (rule allE [of _ L]) (erule outcomes_weaken, auto)
qed (auto intro: outcomes_ret)

section \<open>Deposits\<close>

text \<open>After the funds are at hand: an approval if need be, and one transaction with \<open>T\<close>.\<close>

definition topped_up :: "leg list \<Rightarrow> bool" where
  "topped_up legs \<longleftrightarrow> legs = [] \<or> (\<exists>tx. legs = [Sent tx] \<and> ct_function tx = ''approve'')"

definition deploys_once :: "'e rpc_scheme \<Rightarrow> (chain_tx \<Rightarrow> bool) \<Rightarrow> 'a cact \<Rightarrow> bool" where
  "deploys_once env T m \<longleftrightarrow>
     (\<forall>L. outcomes (\<lambda>s. cs_legs s = L) m
        (\<lambda>_ s. \<exists>approved tx. topped_up approved \<and> T tx \<and> received env tx 1 \<and> cs_legs s = L @ approved @ [Sent tx])
        (\<lambda>_ s. \<exists>approved minted. topped_up approved \<and> (minted = [] \<or> (\<exists>tx. minted = [Sent tx] \<and> T tx))
           \<and> cs_legs s = L @ approved @ minted))"

lemma deploys_quiet: "noiseless B m \<Longrightarrow> (\<And>x. deploys_once env T (f x)) \<Longrightarrow> deploys_once env T (bindA m f)"
  unfolding deploys_once_def
  by (intro allI, erule outcomes_after_quiet) (auto simp: topped_up_def)

lemma sends_deploys: "one_send env B T m \<Longrightarrow> deploys_once env T m"
  unfolding deploys_once_def one_send_def
  by (intro allI, erule allE, erule outcomes_weaken) (auto simp: topped_up_def)

lemma deploys_top_up:
  assumes approve: "one_send env B (\<lambda>tx. ct_function tx = ''approve'') m" and rest: "one_send env B' T n"
  shows "deploys_once env T (seqA (if b then seqA m (ret ()) else ret ()) n)"
  unfolding deploys_once_def
proof
  fix L
  have top: "outcomes (\<lambda>s. cs_legs s = L) (if b then seqA m (ret ()) else ret ())
      (\<lambda>_ s. \<exists>approved. topped_up approved \<and> cs_legs s = L @ approved)
      (\<lambda>_ s. \<exists>approved minted. topped_up approved \<and> (minted = [] \<or> (\<exists>tx. minted = [Sent tx] \<and> T tx))
           \<and> cs_legs s = L @ approved @ minted)"
    by (rule outcomes_weaken [OF top_up [OF approve]]) (auto simp: topped_up_def)
  have "outcomes (\<lambda>s. cs_legs s = L @ approved) n
      (\<lambda>_ s. \<exists>approved tx. topped_up approved \<and> T tx \<and> received env tx 1 \<and> cs_legs s = L @ approved @ [Sent tx])
      (\<lambda>_ s. \<exists>approved minted. topped_up approved \<and> (minted = [] \<or> (\<exists>tx. minted = [Sent tx] \<and> T tx))
           \<and> cs_legs s = L @ approved @ minted)"
    if "topped_up approved" for approved
    using rest unfolding one_send_def
    by (rule allE [of _ "L @ approved"], elim outcomes_weaken) (use that in auto)
  then show "outcomes (\<lambda>s. cs_legs s = L) (seqA (if b then seqA m (ret ()) else ret ()) n)
      (\<lambda>_ s. \<exists>approved tx. topped_up approved \<and> T tx \<and> received env tx 1 \<and> cs_legs s = L @ approved @ [Sent tx])
      (\<lambda>_ s. \<exists>approved minted. topped_up approved \<and> (minted = [] \<or> (\<exists>tx. minted = [Sent tx] \<and> T tx))
           \<and> cs_legs s = L @ approved @ minted)"
    by (intro outcomes_seqA [OF top] outcomes_some outcomes_fact)
qed

text \<open>A whole deposit.\<close>

lemma funded_then:
  assumes seen: "\<And>b. balance_read env b \<Longrightarrow> 0 \<le> b" and rest: "\<And>deploy. amount \<le> deploy \<Longrightarrow> deploys_once env T (rest deploy)"
  shows "outcomes (\<lambda>s. cs_legs s = L) (bindA (fund_account env amount) rest)
     (\<lambda>_ s. \<exists>asked approved tx. cs_legs s = L @ asked @ approved @ [Sent tx] \<and> bridged env amount asked
        \<and> landed env amount asked \<and> topped_up approved \<and> T tx \<and> received env tx 1)
     (\<lambda>_ s. \<exists>asked approved minted. cs_legs s = L @ asked @ approved @ minted \<and> bridged env amount asked
        \<and> topped_up approved \<and> (minted = [] \<or> (\<exists>tx. minted = [Sent tx] \<and> T tx))
        \<and> (approved @ minted \<noteq> [] \<longrightarrow> landed env amount asked))"
proof (rule outcomes_bindA [where R = "\<lambda>deploy s. amount \<le> deploy
      \<and> (\<exists>asked. (bridged env amount asked \<and> landed env amount asked) \<and> cs_legs s = L @ asked)"], goal_cases)
  case 1
  show ?case
  proof (rule outcomes_weaken [OF fund_outcomes [OF seen, where L = L and amount = amount]], goal_cases)
    case (4 e s)
    then obtain asked where "cs_legs s = L @ asked" "bridged env amount asked" by blast
    then show ?case by (intro exI [of _ asked] exI [of _ "[]"]) (simp add: topped_up_def)
  qed auto
next
  case (2 deploy)
  show ?case
  proof (intro outcomes_fact outcomes_some, goal_cases)
    case (1 asked)
    note after = rest [OF 1(1), unfolded deploys_once_def, rule_format, of "L @ asked"]
    show ?case
      by (rule outcomes_weaken [OF after]) (use 1 in auto)
  qed
qed

text \<open>A price of the oracle, and the mint it is read for.\<close>

definition oracle_read :: "'e midas_env_scheme \<Rightarrow> int \<Rightarrow> int \<Rightarrow> bool" where
  "oracle_read env price decimals \<longleftrightarrow>
     (\<exists>n k r u v w. rp_call env n (mc_oracle env) ''latestRoundData'' [] None = Inr [r, Num price, u, Num v, w]
        \<and> rp_call env k (mc_oracle env) ''decimals'' [] None = Inr [Num decimals])"

lemma oracle_outcomes:
  "outcomes (\<lambda>s. cs_legs s = L) (to_thread env (read_oracle_price env))
     (\<lambda>x s. oracle_read env (fst x) (snd x) \<and> cs_legs s = L) (\<lambda>_ s. cs_legs s = L)"
proof (rule outcomes_to_thread)
  show "outcomes (\<lambda>s. cs_legs s = L) (read_oracle_price env)
      (\<lambda>x s. oracle_read env (fst x) (snd x) \<and> cs_legs s = L) (\<lambda>_ s. cs_legs s = L)"
    by (auto simp: outcomes_def read_oracle_price_def get_oracle_answer_def get_oracle_round_def get_oracle_decimals_def
        read_num_def bindA_def liftE_def ret_def throw_def cask_def in_vault_def vask_def single_num_def oracle_read_def
        split: prod.splits sum.splits list.splits abi.splits) blast
qed auto

definition mint_of :: "'e midas_env_scheme \<Rightarrow> int \<Rightarrow> chain_tx \<Rightarrow> bool" where
  "mint_of env amount tx \<longleftrightarrow>
     (\<exists>token deploy price decimals. amount \<le> deploy \<and> oracle_read env price decimals \<and> ct_to tx = mc_issuance env
        \<and> ct_function tx = ''depositInstant'' \<and> rp_checksum env (be_asset env) = Inr token
        \<and> ct_args tx = [Addr token, Num (deploy * 10 ^ 12),
             Num ((deploy * 10 ^ nat (decimals + 12) div price) * (10000 - ms_slippage env) div 10000),
             Raw (replicate 32 (CHR 0x00))])"

lemma one_send_mono: "one_send env B T m \<Longrightarrow> (\<And>tx. T tx \<Longrightarrow> T' tx) \<Longrightarrow> one_send env B T' m"
  unfolding one_send_def by (intro allI, erule allE, erule outcomes_weaken) auto

lemma one_send_after:
  assumes "\<And>L. outcomes (\<lambda>s. cs_legs s = L) m (\<lambda>x s. p x \<and> cs_legs s = L) (\<lambda>_ s. cs_legs s = L)"
    and "\<And>x. p x \<Longrightarrow> one_send env (\<lambda>_. True) T (f x)"
  shows "one_send env (\<lambda>_. True) T (bindA m f)"
  unfolding one_send_def
proof
  fix L
  show "outcomes (\<lambda>s. cs_legs s = L) (bindA m f)
      (\<lambda>_ s. \<exists>tx. T tx \<and> cs_legs s = L @ [Sent tx] \<and> received env tx 1)
      (\<lambda>e s. True \<and> (cs_legs s = L \<or> (\<exists>tx. T tx \<and> cs_legs s = L @ [Sent tx]
           \<and> ((\<exists>n raw. rp_broadcast env n raw = Inl e) \<or> (\<exists>n h. rp_receipt env n h = Inl e)
              \<or> (\<exists>status. status \<noteq> 1 \<and> received env tx status)))))"
  proof (rule outcomes_bindA [where R = "\<lambda>x s. p x \<and> cs_legs s = L"], goal_cases)
    case 1
    show ?case by (rule outcomes_weaken [OF assms(1)]) auto
  next
    case (2 x)
    show ?case by (rule outcomes_fact) (use assms(2) in \<open>simp add: one_send_def\<close>)
  qed
qed

lemma scale_12: "oracle_scale decimals = 10 ^ nat (decimals + 12)" "BASE18_SCALE = 10 ^ 12"
  by (simp_all add: oracle_scale_def BASE18_SCALE_def DECIMAL_BALANCE_def MTBILL_DECIMALS_def USDC_DECIMALS_def)

lemma midas_rest_deploys:
  assumes "amount \<le> deploy"
  shows "deploys_once env (mint_of env amount)
     (bindA (to_thread env (get_allowance env (be_asset env) (mc_issuance env))) (\<lambda>allowance.
      seqA (if allowance < deploy
           then seqA (to_thread env (approve env (be_asset env) (mc_issuance env) deploy)) (ret ())
           else ret ())
     (bindA (to_thread env (read_oracle_price env)) (\<lambda>(price, decimals).
      bindA (liftE (convert_usdc_to_mtbill_amount deploy price decimals False)) (\<lambda>expected_mtbill.
      seqA (to_thread env (deposit_instant env (be_asset env) (deploy * BASE18_SCALE)
              (expected_mtbill * (10000 - ms_slippage env) div 10000) ZERO_REFERRER_ID))
        (ret ()))))))"
proof (rule deploys_quiet [where B = "\<lambda>_. True"], intro silent raises_anything, rule deploys_top_up [where B = "\<lambda>_. True" and B' = "\<lambda>_. True"])
  show "one_send env (\<lambda>_. True) (\<lambda>tx. ct_function tx = ''approve'')
      (to_thread env (approve env (be_asset env) (mc_issuance env) deploy))"
    by (intro one_send_to_thread approve_sends raises_anything)
  have mint: "one_send env (\<lambda>_. True) (mint_of env amount)
      (seqA (to_thread env (deposit_instant env (be_asset env) (deploy * BASE18_SCALE)
              (expected * (10000 - ms_slippage env) div 10000) ZERO_REFERRER_ID)) (ret ()))"
    if "oracle_read env price decimals" "convert_usdc_to_mtbill_amount deploy price decimals False = Inr expected"
    for price decimals expected
  proof (intro one_send_seq_ret one_send_to_thread one_send_mono [OF deposit_instant_sends] raises_anything)
    show "length ZERO_REFERRER_ID = 32" by (simp add: ZERO_REFERRER_ID_def)
    have "expected = deploy * 10 ^ nat (decimals + 12) div price"
      using that(2) by (simp add: convert_usdc_to_mtbill_amount_def scale_12 split: if_splits)
    then show "mint_of env amount tx"
      if "ct_to tx = mc_issuance env \<and> ct_function tx = ''depositInstant''
         \<and> (\<exists>token. rp_checksum env (be_asset env) = Inr token
              \<and> ct_args tx = [Addr token, Num (deploy * BASE18_SCALE), Num (expected * (10000 - ms_slippage env) div 10000),
                   Raw ZERO_REFERRER_ID])" for tx
      using that assms \<open>oracle_read env price decimals\<close>
      by (auto simp: mint_of_def scale_12 ZERO_REFERRER_ID_def)
  qed
  show "one_send env (\<lambda>_. True) (mint_of env amount)
     (bindA (to_thread env (read_oracle_price env)) (\<lambda>(price, decimals).
      bindA (liftE (convert_usdc_to_mtbill_amount deploy price decimals False)) (\<lambda>expected_mtbill.
      seqA (to_thread env (deposit_instant env (be_asset env) (deploy * BASE18_SCALE)
              (expected_mtbill * (10000 - ms_slippage env) div 10000) ZERO_REFERRER_ID))
        (ret ()))))"
  proof (rule one_send_after [OF oracle_outcomes])
    show "one_send env (\<lambda>_. True) (mint_of env amount)
       (case x of (price, decimals) \<Rightarrow>
          bindA (liftE (convert_usdc_to_mtbill_amount deploy price decimals False)) (\<lambda>expected_mtbill.
          seqA (to_thread env (deposit_instant env (be_asset env) (deploy * BASE18_SCALE)
              (expected_mtbill * (10000 - ms_slippage env) div 10000) ZERO_REFERRER_ID))
            (ret ())))" if "oracle_read env (fst x) (snd x)" for x
      using that mint by (cases x) (auto intro!: one_send_liftE)
  qed
qed

text \<open>C32: a deposit into Midas asks Accounting for funds at most once, for exactly what the account was seen
  to be short of and while no earlier bridge of the token was on its way; it approves and mints at
  most once, and only when the account was seen with the amount or the funds asked for had arrived;
  it mints no less than the amount, for at least the mTBILL the oracle's price gives less the
  slippage; and it ends well only when the mint was mined.\<close>

theorem midas_deposits_once:
  assumes seen: "\<And>b. balance_read env b \<Longrightarrow> 0 \<le> b" and run: "midas_deposit_to_earn env amount s = (r, s')"
  shows "\<exists>asked approved minted. cs_legs s' = cs_legs s @ asked @ approved @ minted
      \<and> (asked = [] \<or> (\<exists>held request. asked = [Requested request] \<and> balance_read env held \<and> held < amount
            \<and> br_amount request = amount - held \<and> br_token request = be_token env
            \<and> (\<exists>n ws. be_pending env n (be_pool env) = Inr ws \<and> (\<forall>w\<in>set ws. lower (pw_token w) \<noteq> lower (be_token env)))))
      \<and> (approved = [] \<or> (\<exists>tx. approved = [Sent tx] \<and> ct_function tx = ''approve''))
      \<and> (minted = [] \<or> (\<exists>tx token deploy price decimals. minted = [Sent tx] \<and> amount \<le> deploy
            \<and> oracle_read env price decimals \<and> ct_to tx = mc_issuance env \<and> ct_function tx = ''depositInstant''
            \<and> ct_args tx = [Addr token, Num (deploy * 10 ^ 12),
                 Num ((deploy * 10 ^ nat (decimals + 12) div price) * (10000 - ms_slippage env) div 10000),
                 Raw (replicate 32 (CHR 0x00))]))
      \<and> (approved @ minted \<noteq> [] \<longrightarrow> (asked = [] \<and> (\<exists>held. balance_read env held \<and> amount \<le> held))
            \<or> (\<exists>request before after. asked = [Requested request] \<and> balance_read env before \<and> balance_read env after
                 \<and> before + br_amount request \<le> after))
      \<and> (r = Inr () \<longrightarrow> (\<exists>tx. minted = [Sent tx] \<and> received env tx 1))"
proof -
  have ran: "outcomes (\<lambda>t. cs_legs t = cs_legs s) (midas_deposit_to_earn env amount)
     (\<lambda>_ t. \<exists>asked approved tx. cs_legs t = cs_legs s @ asked @ approved @ [Sent tx] \<and> bridged env amount asked
        \<and> landed env amount asked \<and> topped_up approved \<and> mint_of env amount tx \<and> received env tx 1)
     (\<lambda>_ t. \<exists>asked approved minted. cs_legs t = cs_legs s @ asked @ approved @ minted \<and> bridged env amount asked
        \<and> topped_up approved \<and> (minted = [] \<or> (\<exists>tx. minted = [Sent tx] \<and> mint_of env amount tx))
        \<and> (approved @ minted \<noteq> [] \<longrightarrow> landed env amount asked))"
    unfolding midas_deposit_to_earn_def by (rule funded_then [OF seen midas_rest_deploys])
  have "\<exists>asked approved minted. cs_legs s' = cs_legs s @ asked @ approved @ minted \<and> bridged env amount asked
      \<and> topped_up approved \<and> (minted = [] \<or> (\<exists>tx. minted = [Sent tx] \<and> mint_of env amount tx))
      \<and> (approved @ minted \<noteq> [] \<longrightarrow> landed env amount asked)
      \<and> (r = Inr () \<longrightarrow> (\<exists>tx. minted = [Sent tx] \<and> received env tx 1))"
  proof (cases r)
    case (Inl e)
    with outcomesD(2) [OF ran refl] run show ?thesis by auto
  next
    case (Inr u)
    with outcomesD(1) [OF ran refl] run obtain asked approved tx where
      "cs_legs s' = cs_legs s @ asked @ approved @ [Sent tx]" "bridged env amount asked" "landed env amount asked"
      "topped_up approved" "mint_of env amount tx" "received env tx 1" by blast
    then show ?thesis by (intro exI [of _ asked] exI [of _ approved] exI [of _ "[Sent tx]"]) auto
  qed
  then obtain asked approved minted where legs: "cs_legs s' = cs_legs s @ asked @ approved @ minted"
    and asked: "bridged env amount asked" and approved: "topped_up approved"
    and minted: "minted = [] \<or> (\<exists>tx. minted = [Sent tx] \<and> mint_of env amount tx)"
    and order: "approved @ minted \<noteq> [] \<longrightarrow> landed env amount asked"
    and well: "r = Inr () \<longrightarrow> (\<exists>tx. minted = [Sent tx] \<and> received env tx 1)"
    by blast
  from legs asked approved minted order well show ?thesis
    unfolding bridged_def none_pending_def topped_up_def mint_of_def landed_def arrived_def
    by (intro exI [of _ asked] exI [of _ approved] exI [of _ minted]) blast
qed

section \<open>Withdrawals\<close>

definition own :: "exc \<Rightarrow> bool" where
  "own e \<longleftrightarrow> (\<exists>m. e = MidasLiquidityUnavailable m)"

lemma raised_own: "raised_here (\<lambda>e. \<not> own e)"
  by (simp add: raised_here_def own_def)

text \<open>An action whose errors all satisfy \<open>B\<close>.\<close>

definition errs :: "(exc \<Rightarrow> bool) \<Rightarrow> 'a cact \<Rightarrow> bool" where
  "errs B m \<longleftrightarrow> outcomes (\<lambda>_. True) m (\<lambda>_ _. True) (\<lambda>e _. B e)"

lemma errs_bindA: "errs B m \<Longrightarrow> (\<And>x. errs B (f x)) \<Longrightarrow> errs B (bindA m f)"
  unfolding errs_def by (rule outcomes_bindA)

lemma errs_quiet: "noiseless B m \<Longrightarrow> errs B m"
  by (auto simp: errs_def outcomes_def dest: noiselessD split: prod.splits sum.splits)

lemma errs_send: "one_send env B T m \<Longrightarrow> errs B m"
  unfolding errs_def one_send_def outcomes_def by (auto split: prod.splits sum.splits)

lemma outcomes_errs: "errs B m \<Longrightarrow> (\<And>e s. B e \<Longrightarrow> E e s) \<Longrightarrow> outcomes P m (\<lambda>_ _. True) E"
  unfolding errs_def by (erule outcomes_weaken) auto

text \<open>What has happened when the strategy reports a lack of liquidity: approvals, and a redemption that
  the chain reverted.\<close>

definition harmless :: "'e rpc_scheme \<Rightarrow> leg list \<Rightarrow> cst \<Rightarrow> bool" where
  "harmless env L s \<longleftrightarrow>
     (\<exists>legs. cs_legs s = L @ legs \<and> (\<forall>l\<in>set legs. \<exists>tx. l = Sent tx
        \<and> (ct_function tx = ''approve''
           \<or> ct_function tx = ''redeemInstant'' \<and> (\<exists>status. status \<noteq> 1 \<and> received env tx status))))"

definition node_faults :: "'e rpc_scheme \<Rightarrow> bool" where
  "node_faults env \<longleftrightarrow>
     (\<forall>n raw e. rp_broadcast env n raw = Inl e \<longrightarrow> \<not> runtime_error e)
     \<and> (\<forall>n h e. rp_receipt env n h = Inl e \<longrightarrow> \<not> runtime_error e)"

lemma outcomes_prod:
  "(\<And>a b. x = (a, b) \<Longrightarrow> outcomes P (f a b) Q E) \<Longrightarrow> outcomes P (case x of (a, b) \<Rightarrow> f a b) Q E"
  by (cases x) simp

lemma redeem_harmless:
  assumes node: "node_raises (\<lambda>e. \<not> own e) env" and faults: "node_faults env"
  shows "outcomes (\<lambda>s. cs_legs s = L) (redeem env amount before) (\<lambda>_ _. True) (\<lambda>e s. own e \<longrightarrow> harmless env L s)"
proof -
  let ?E = "\<lambda>e s. own e \<longrightarrow> harmless env L s"
  note here = node raised_own
  have last: "outcomes P (case r of
        Inl e \<Rightarrow> if runtime_error e then throw (MidasLiquidityUnavailable (m e)) else throw e
      | Inr tx \<Rightarrow> bindA (redeem_polls k env before) (\<lambda>after.
            if after - before \<le> 0 then throw (MidasInstantUnavailable (n after)) else ret (after - before))) (\<lambda>_ _. True) ?E"
    if fine: "\<And>s e. r = Inl e \<Longrightarrow> runtime_error e \<Longrightarrow> P s \<Longrightarrow> harmless env L s" for P r m n k
  proof (cases r)
    case (Inl e)
    then show ?thesis
      using fine by (auto intro!: outcomes_if outcomes_throw simp: own_def runtime_error_def)
  next
    case (Inr tx)
    have "noiseless (\<lambda>e. \<not> own e) (bindA (redeem_polls k env before) (\<lambda>after.
            if after - before \<le> 0 then throw (MidasInstantUnavailable (n after)) else ret (after - before)))"
      by (intro silent here) (simp add: own_def)
    then show ?thesis using Inr by (auto intro!: outcomes_errs errs_quiet)
  qed
  have attempt: "outcomes (\<lambda>s. cs_legs s = L @ approved) (tryA (to_thread env (redeem_instant env asset a l)))
      (\<lambda>r s. \<forall>e. r = Inl e \<longrightarrow> runtime_error e \<longrightarrow> harmless env L s) ?E"
    if "topped_up approved" for approved asset a l
  proof -
    have sends: "one_send env (\<lambda>e. \<not> own e) (\<lambda>tx. ct_function tx = ''redeemInstant'') (to_thread env (redeem_instant env asset a l))"
      by (intro one_send_to_thread redeem_instant_sends here)
    show ?thesis
    proof (rule outcomes_tryA, rule outcomes_weaken [OF sends [unfolded one_send_def, rule_format, of "L @ approved"]], goal_cases)
      case (3 e s)
      show ?case
      proof (intro allI impI)
        fix e' :: exc
        assume e': "Inl e = Inl e'" "runtime_error e'"
        from 3 consider "cs_legs s = L @ approved"
          | tx where "ct_function tx = ''redeemInstant''" "cs_legs s = (L @ approved) @ [Sent tx]"
              "\<exists>status. status \<noteq> 1 \<and> received env tx status"
          using e' faults unfolding node_faults_def by blast
        then show "harmless env L s"
          using that by cases (auto simp: harmless_def topped_up_def)
      qed
    qed auto
  qed
  have tail: "outcomes (\<lambda>s. cs_legs s = L)
      (seqA (if b then seqA (to_thread env (approve env (mc_mtbill env) (mc_redemption env) a)) (ret ()) else ret ())
        (bindA (tryA (to_thread env (redeem_instant env asset a l))) (\<lambda>redeemed. case redeemed of
           Inl e \<Rightarrow> if runtime_error e then throw (MidasLiquidityUnavailable (m e)) else throw e
         | Inr tx \<Rightarrow> bindA (redeem_polls k env before) (\<lambda>after.
            if after - before \<le> 0 then throw (MidasInstantUnavailable (n after)) else ret (after - before))))) (\<lambda>_ _. True) ?E"
    for b asset a l m n k
  proof (rule outcomes_seqA [where R = "\<lambda>s. \<exists>approved. topped_up approved \<and> cs_legs s = L @ approved"], goal_cases)
    case 1
    show ?case
      by (rule outcomes_weaken [OF top_up [OF one_send_to_thread [OF approve_sends [OF here]]]]) (auto simp: topped_up_def)
  next
    case 2
    show ?case
      by (intro outcomes_some outcomes_fact, rule outcomes_bindA [OF attempt], assumption, rule last) auto
  qed
  show ?thesis
    unfolding redeem_def Let_def
    by (intro outcomes_after_quiet [where B = "\<lambda>e. \<not> own e"] outcomes_prod outcomes_if outcomes_throw tail silent here)
      (auto dest: sized_raises [OF _ raised_own] simp: own_def)
qed

lemma withdraw_harmless:
  assumes node: "node_raises (\<lambda>e. \<not> own e) env" and accounting: "accounting_raises (\<lambda>e. \<not> own e) env" and faults: "node_faults env"
  shows "outcomes (\<lambda>s. cs_legs s = L) (midas_withdraw_from_earn env amount) (\<lambda>_ _. True)
    (\<lambda>e s. own e \<longrightarrow> harmless env L s)"
proof -
  note here = node accounting raised_own
  have return: "errs (\<lambda>e. \<not> own e) (bindA (fetch_deposit_address env) (\<lambda>deposit_address.
      seqA (report env RETURNING)
      (bindA (to_thread env (midas_transfer_erc20 env (be_asset env) deposit_address realized)) (\<lambda>transfer_tx.
        poll_until_credited env goal transfer_tx realized))))" for realized goal
    unfolding seqA_def
    by (intro errs_bindA errs_send [OF one_send_to_thread [OF transfer_sends]] errs_quiet silent here)
  have paid: "outcomes (\<lambda>s. cs_legs s = L) (if b then redeem env a before else ret 0) (\<lambda>_ _. True)
      (\<lambda>e s. own e \<longrightarrow> harmless env L s)" for b a before
    by (intro outcomes_if redeem_harmless node faults outcomes_ret) simp
  show ?thesis
    unfolding midas_withdraw_from_earn_def Let_def seqA_def [of "if _ then _ else _"] seqA_def [of "report env RECLAIMING"]
    by (intro outcomes_after_quiet [where B = "\<lambda>e. \<not> own e" and L = L] outcomes_bindA [OF paid] outcomes_errs [OF return] silent here)
      (auto simp: own_def)
qed

text \<open>C33: when a withdrawal from Midas ends for lack of liquidity, nothing has moved: all the transactions it
  handed to the node are approvals and a redemption the chain reverted. The worker may hold the
  withdrawal and try it again later.\<close>

theorem no_liquidity_moves_nothing:
  assumes "node_raises (\<lambda>e. \<forall>m. e \<noteq> MidasLiquidityUnavailable m) env"
    and "accounting_raises (\<lambda>e. \<forall>m. e \<noteq> MidasLiquidityUnavailable m) env"
    and "\<forall>n raw e. rp_broadcast env n raw = Inl e \<longrightarrow> \<not> runtime_error e"
    and "\<forall>n hash e. rp_receipt env n hash = Inl e \<longrightarrow> \<not> runtime_error e"
    and run: "midas_withdraw_from_earn env amount s = (Inl (MidasLiquidityUnavailable m), s')"
  shows "\<exists>legs. cs_legs s' = cs_legs s @ legs
      \<and> (\<forall>l\<in>set legs. \<exists>tx. l = Sent tx
           \<and> (ct_function tx = ''approve''
              \<or> ct_function tx = ''redeemInstant''
                \<and> (\<exists>raw n hash k status. rp_sign env tx = Inr raw \<and> rp_broadcast env n raw = Inr hash
                     \<and> rp_receipt env k hash = Inr status \<and> status \<noteq> 1)))"
proof -
  have "node_raises (\<lambda>e. \<not> own e) env" "accounting_raises (\<lambda>e. \<not> own e) env" "node_faults env"
    using assms(1-4) by (simp_all add: own_def node_faults_def)
  from outcomesD(2) [OF withdraw_harmless [OF this] refl run] have "harmless env (cs_legs s) s'"
    by (simp add: own_def)
  then show ?thesis
    unfolding harmless_def received_def by blast
qed

end
