(* ===== verification/Crediting.thy ===== *)
theory Crediting
  imports Bridges
begin

text \<open>The wait for the credit of a withdrawal ends once Accounting shows it.\<close>

definition tick :: "cst \<Rightarrow> nat" where
  "tick s = vs_tick (cs_vault s)"

section \<open>The finality count\<close>

lemma py_int_digits:
  assumes ds: "ds \<noteq> []" "list_all is_digit ds" "length ds \<le> 4300"
  shows "\<exists>n. py_int ds = Some n"
proof -
  have plain: "filter (\<lambda>c. c \<noteq> CHR ''_'') ds = ds"
    using ds(2) by (auto simp: list_all_iff filter_id_conv dest: is_digit_not_special)
  have "hd ds \<noteq> CHR ''-'' \<and> hd ds \<noteq> CHR ''+''"
    using ds(1,2) by (cases ds) (auto simp: is_digit_def)
  with ds plain show ?thesis
    by (simp add: py_int_def Let_def strip_spaces_digits digits_ok_digits read_nat_def)
qed

lemma finality_here_digits:
  assumes "finality_here s = Some (c, r)"
  shows "c \<noteq> [] \<and> list_all is_digit c \<and> length c \<le> length s \<and> r \<noteq> [] \<and> list_all is_digit r \<and> length r \<le> length s"
proof -
  have shorter: "length (takeWhile P xs) \<le> length xs" "length (dropWhile P xs) \<le> length xs" for P :: "char \<Rightarrow> bool" and xs
    by (rule length_takeWhile_le, rule length_dropWhile_le)
  have digits: "list_all P (takeWhile P xs)" for P :: "char \<Rightarrow> bool" and xs
    by (induction xs) auto
  obtain a b d where parts: "a = dropWhile re_space (drop 9 s)" "b = dropWhile re_space (dropWhile is_digit a)"
    "d = dropWhile re_space (tl b)" by simp
  have "length a \<le> length s" using shorter(2) [of re_space "drop 9 s"] by (simp add: parts)
  moreover have "length b \<le> length a"
    using shorter(2) [of re_space "dropWhile is_digit a"] shorter(2) [of is_digit a] by (simp add: parts(2))
  moreover have "length d \<le> length b" using shorter(2) [of re_space "tl b"] by (simp add: parts(3))
  moreover have "c = takeWhile is_digit a" "r = takeWhile is_digit d" "c \<noteq> []" "r \<noteq> []"
    using assms unfolding finality_here_def Let_def parts [symmetric] by (auto split: if_splits)
  ultimately show ?thesis
    using shorter(1) [of is_digit a] shorter(1) [of is_digit d] digits [of is_digit a] digits [of is_digit d]
    by auto
qed

lemma finality_digits:
  "finality_search s = Some (c, r) \<Longrightarrow>
     c \<noteq> [] \<and> list_all is_digit c \<and> length c \<le> length s \<and> r \<noteq> [] \<and> list_all is_digit r \<and> length r \<le> length s"
proof (induction s)
  case (Cons a s)
  show ?case
  proof (cases "finality_here (a # s)")
    case None
    with Cons show ?thesis by auto
  next
    case (Some x)
    with Cons.prems have "finality_here (a # s) = Some (c, r)" by simp
    from finality_here_digits [OF this] show ?thesis .
  qed
qed simp

section \<open>The loops\<close>

lemma cawait_run: "\<exists>s'. cawait env f s = (f (tick s), s') \<and> tick s' = tick s + 2 \<and> cs_legs s' = cs_legs s"
  by (simp add: cawait_def to_thread_def bindA_def tryA_def seqA_def cpause_def in_vault_def vpause_def liftE_def
      cask_def vask_def tick_def)

lemma cpause_run: "\<exists>s'. cpause env s = (Inr (), s') \<and> tick s' = Suc (tick s) \<and> cs_legs s' = cs_legs s"
  by (simp add: cpause_def in_vault_def vpause_def tick_def)

lemma retry_returns:
  assumes later: "\<And>n. N \<le> n \<Longrightarrow> \<exists>x. f n = Inr x \<and> p x" and errors: "\<And>n e. f n = Inl e \<Longrightarrow> transient_error e"
    and fuel: "N < k + tick s" "0 < k"
  shows "\<exists>x s'. retry_on_network_error k env f s = (Inr x, s') \<and> tick s < tick s' \<and> (N \<le> tick s \<longrightarrow> p x) \<and> cs_legs s' = cs_legs s"
  using fuel
proof (induction k arbitrary: s)
  case (Suc k)
  obtain s1 where s1: "cawait env f s = (f (tick s), s1)" "tick s1 = tick s + 2" "cs_legs s1 = cs_legs s"
    using cawait_run by blast
  show ?case
  proof (cases "f (tick s)")
    case (Inr x)
    then have "retry_on_network_error (Suc k) env f s = (Inr x, s1)"
      by (simp add: bindA_def tryA_def s1 ret_def)
    with s1 Inr later [of "tick s"] show ?thesis by auto
  next
    case (Inl e)
    then have early: "tick s < N" using later [of "tick s"] by (cases "N \<le> tick s") auto
    obtain s2 where s2: "cpause env s1 = (Inr (), s2)" "tick s2 = Suc (tick s1)" "cs_legs s2 = cs_legs s1"
      using cpause_run by blast
    have step: "retry_on_network_error (Suc k) env f s = retry_on_network_error k env f s2"
      using Inl errors [OF Inl] by (simp add: bindA_def tryA_def seqA_def s1 s2)
    have "N < k + tick s2" "0 < k" using Suc.prems early s1 s2 by simp_all
    from Suc.IH [OF this] step early s1 s2 show ?thesis by fastforce
  qed
qed simp

lemma progress_update_tick:
  "\<exists>v'. progress_update env stage detail v = (Inr (), v') \<and> vs_tick v \<le> vs_tick v'"
  by (auto simp: progress_update_def progress_append_def vquery_def vnow_def vask_def on_earns_def act_eqs
      split: option.splits prod.splits sum.splits)

lemma nudge_returns:
  assumes short: "\<And>n c h a e. be_check env n c h a = Inl e \<Longrightarrow> length (exc_text e) \<le> 4300"
    and chain: "\<And>n e. rp_chain_id env n = Inl e \<Longrightarrow> length (exc_text e) \<le> 4300"
  shows "\<exists>b s'. nudge_check_deposit env hash amount s = (Inr b, s') \<and> tick s \<le> tick s' \<and> cs_legs s' = cs_legs s"
proof -
  have reported: "\<exists>s'. update_finality env e s = (Inr (), s') \<and> tick s \<le> tick s' \<and> cs_legs s' = cs_legs s"
    if "length (exc_text e) \<le> 4300" for e s
  proof (cases "finality_search (exc_text e)")
    case None
    then show ?thesis by (simp add: update_finality_def ret_def)
  next
    case (Some x)
    then obtain c r where x: "finality_search (exc_text e) = Some (c, r)" by (cases x) simp
    have "\<exists>m. py_int c = Some m" "\<exists>n. py_int r = Some n"
      using finality_digits [OF x] that by (auto intro!: py_int_digits)
    then obtain m n where "py_int c = Some m" "py_int r = Some n" by blast
    moreover obtain v where "progress_update env FINALITY (Some (Confirmations m n)) (cs_vault s) = (Inr (), v)"
      "vs_tick (cs_vault s) \<le> vs_tick v" using progress_update_tick by blast
    ultimately show ?thesis
      by (simp add: update_finality_def x py_int_or_raise_def bindA_def liftE_def in_vault_def tick_def)
  qed
  let ?ask = "bindA (cask (rp_chain_id env)) (\<lambda>c. cawait env (\<lambda>n. be_check env n c hash amount))"
  obtain r s1 where ask: "?ask s = (r, s1)" "tick s \<le> tick s1" "cs_legs s1 = cs_legs s"
    and failed: "\<And>e. r = Inl e \<Longrightarrow> length (exc_text e) \<le> 4300"
  proof -
    obtain t where first: "cask (rp_chain_id env) s = (rp_chain_id env (tick s), t)" "tick t = Suc (tick s)" "cs_legs t = cs_legs s"
      by (simp add: cask_def in_vault_def vask_def tick_def)
    show thesis
    proof (cases "rp_chain_id env (tick s)")
      case (Inl e)
      with first chain [OF Inl] that [of "Inl e" t] show thesis by (simp add: bindA_def)
    next
      case (Inr c)
      obtain s2 where "cawait env (\<lambda>n. be_check env n c hash amount) t = (be_check env (tick t) c hash amount, s2)"
        "tick s2 = tick t + 2" "cs_legs s2 = cs_legs t" using cawait_run by blast
      with first Inr short that [of "be_check env (tick t) c hash amount" s2] show thesis by (simp add: bindA_def)
    qed
  qed
  have asked: "tryA ?ask s = (Inr r, s1)" by (simp add: tryA_def ask(1))
  have step: "nudge_check_deposit env hash amount s
      = (case r of Inl e \<Rightarrow> seqA (update_finality env e) (ret False) | Inr status \<Rightarrow> ret (status \<noteq> ''error'')) s1"
    unfolding nudge_check_deposit_def bindA_eq [of "tryA ?ask"] asked by simp
  show ?thesis
  proof (cases r)
    case (Inl e)
    from reported [OF failed [OF Inl], of s1] obtain s2 where
      "update_finality env e s1 = (Inr (), s2)" "tick s1 \<le> tick s2" "cs_legs s2 = cs_legs s1" by blast
    with ask Inl show ?thesis by (simp add: step seqA_eq ret_def) blast
  next
    case (Inr status)
    with ask show ?thesis by (simp add: step ret_def)
  qed
qed

lemma credit_polls_return:
  assumes credited: "\<And>n. N \<le> n \<Longrightarrow> \<exists>b. be_balance env n (be_token env) = Inr b \<and> target \<le> b"
    and errors: "\<And>n e. be_balance env n (be_token env) = Inl e \<Longrightarrow> transient_error e"
    and short: "\<And>n c h a e. be_check env n c h a = Inl e \<Longrightarrow> length (exc_text e) \<le> 4300"
    and chain: "\<And>n e. rp_chain_id env n = Inl e \<Longrightarrow> length (exc_text e) \<le> 4300"
    and enough: "N < be_fuel env" and fuel: "N < k + tick s" "0 < k"
  shows "\<exists>s'. credit_polls k env nudged target hash amount s = (Inr (), s') \<and> cs_legs s' = cs_legs s"
  using fuel
proof (induction k arbitrary: nudged s)
  case (Suc k)
  obtain b s1 where s1: "(if nudged then ret True else nudge_check_deposit env hash amount) s = (Inr b, s1)"
    "tick s \<le> tick s1" "cs_legs s1 = cs_legs s"
  proof (cases nudged)
    case True
    then show thesis by (intro that [of True s]) (simp_all add: ret_def)
  next
    case False
    from nudge_returns [where env = env and hash = hash and amount = amount and s = s] short chain
    obtain b s' where "nudge_check_deposit env hash amount s = (Inr b, s')" "tick s \<le> tick s'" "cs_legs s' = cs_legs s"
      by metis
    with False show thesis by (intro that [of b s']) simp_all
  qed
  have "\<exists>x s2. read_pool_balance env s1 = (Inr x, s2) \<and> tick s1 < tick s2 \<and> (N \<le> tick s1 \<longrightarrow> target \<le> x) \<and> cs_legs s2 = cs_legs s1"
    unfolding read_pool_balance_def by (rule retry_returns) (use credited errors enough in auto)
  then obtain x s2 where s2: "read_pool_balance env s1 = (Inr x, s2)" "tick s1 < tick s2" "N \<le> tick s1 \<longrightarrow> target \<le> x"
    "cs_legs s2 = cs_legs s1" by blast
  show ?case
  proof (cases "target \<le> x")
    case True
    with s1 s2 show ?thesis by (simp add: bindA_def ret_def)
  next
    case False
    obtain s3 where s3: "cpause env s2 = (Inr (), s3)" "tick s3 = Suc (tick s2)" "cs_legs s3 = cs_legs s2"
      using cpause_run by blast
    have "N < k + tick s3" "0 < k" using Suc.prems False s1 s2 s3 by simp_all
    from Suc.IH [OF this, of b] False s1 s2 s3 show ?thesis by (simp add: bindA_def seqA_def)
  qed
qed simp


end
