(* ===== verification/MidasDemo.thy ===== *)
theory MidasDemo
  imports MidasInv Crediting
begin

text \<open>A concrete chain and Accounting, and the properties of the strategies applied to it.\<close>

definition demo_chain :: "(nat \<Rightarrow> int) \<Rightarrow> (nat \<Rightarrow> int) \<Rightarrow> midas_env" where
  "demo_chain usdc status =
     \<lparr>ee_now = (\<lambda>n. int n), ee_clock = (\<lambda>n. of_nat n), ee_other = (\<lambda>_ s. s), ee_sanitize = id, ee_uuid = (\<lambda>_. ''u1''),
      rp_label = ''Midas'', rp_signer = Some ''0xe'', rp_checksum = Inr,
      rp_call = (\<lambda>n contract name args block.
        Inr (if name = ''balanceOf'' then [Num (usdc n)]
             else if name = ''latestRoundData'' then [Num 1, Num 105250000, Num 0, Num 5, Num 1]
             else if name = ''decimals'' then [Num 8]
             else if name = ''tokensConfig'' then [Addr ''0xfeed'', Num 0, Num 0, Num 1]
             else if name = ''instantFee'' then [Num 7]
             else [Num 0])),
      rp_estimate = (\<lambda>_ _ _ _. Inr 200000), rp_tx_count = (\<lambda>_ _. Inr 3), rp_chain_id = (\<lambda>_. Inr 8453),
      rp_block_number = (\<lambda>n. Inr (int n)), rp_block_time = (\<lambda>n. Inr (int n)), rp_base_fee = (\<lambda>_. Inr (Some 1000)),
      rp_gas_price = (\<lambda>_. Inr 1100), rp_priority_fee = (\<lambda>_. Inr 100), rp_sign = (\<lambda>_. Inr ''raw''),
      rp_broadcast = (\<lambda>_ _. Inr ''0xh''), rp_receipt = (\<lambda>n _. Inr (status n)),
      be_asset = ''0xusdc'', be_token = ''T'', be_pool = ''0xp'', be_max_polls = 2, be_fuel = 2, be_key = Inr (),
      be_pending = (\<lambda>_ _. Inr []), be_nonce = (\<lambda>_ _. Inr 1), be_sign = (\<lambda>_ _ _. Inr ''sig''),
      be_request = (\<lambda>_ _. Inr (''accepted'', '''')), be_balance = (\<lambda>_ _. Inr 700), be_address = (\<lambda>_. Inr ''0xd''),
      be_check = (\<lambda>_ _ _ _. Inr ''credited''),
      mc_issuance = ''0xi'', mc_redemption = ''0xr'', mc_mtbill = ''0xm'', mc_oracle = ''0xo'', ms_slippage = 50,
      ms_heartbeat = 86400, ms_apy = 450, ms_llama = None, ms_chart = (\<lambda>_ _. Inr [])\<rparr>"

definition cst_at :: "nat \<Rightarrow> leg list \<Rightarrow> cst" where
  "cst_at n legs = \<lparr>cs_vault = \<lparr>vs_db = \<lparr>db_quotes = [], db_swaps = [], db_evm = [], db_lanes = [], db_earns = []\<rparr>, vs_tick = n,
      vs_held = [], vs_reclaiming = [], vs_locks = [], vs_seed = [], vs_healthy = [], vs_current = None,
      vs_calls = [], vs_submitted = []\<rparr>, cs_legs = legs\<rparr>"

text \<open>Equations that run an action on such a state, innermost step first.\<close>

lemma lazy_chain:
  "s = s' \<Longrightarrow> bindA m f s = bindA m f s'"
  "s = s' \<Longrightarrow> seqA m n s = seqA m n s'"
  "s = s' \<Longrightarrow> tryA m s = tryA m s'"
  by simp_all

lemma run_chain:
  "liftE x s = (x, s)"
  "tryA m s = (case m s of (x, s') \<Rightarrow> (Inr x, s'))"
  "cask f (cst_at n legs) = (f n, cst_at (Suc n) legs)"
  "log_leg l (cst_at n legs) = (Inr (), cst_at n (legs @ [l]))"
  "report env stage (cst_at n legs) = (Inr (), cst_at n legs)"
  "cs_legs (cst_at n legs) = legs"
  by (simp_all add: liftE_def tryA_def cask_def in_vault_def vask_def log_leg_def report_def progress_update_def
      cst_at_def act_eqs)

lemma run_pause: "cpause (demo_chain usdc status) (cst_at n legs) = (Inr (), cst_at (Suc n) legs)"
  by (simp add: cpause_def in_vault_def vpause_def cst_at_def demo_chain_def)

lemma chain_fields:
  "rp_label (demo_chain usdc status) = ''Midas''" "rp_signer (demo_chain usdc status) = Some ''0xe''"
  "rp_checksum (demo_chain usdc status) = Inr" "rp_estimate (demo_chain usdc status) = (\<lambda>_ _ _ _. Inr 200000)"
  "rp_tx_count (demo_chain usdc status) = (\<lambda>_ _. Inr 3)" "rp_chain_id (demo_chain usdc status) = (\<lambda>_. Inr 8453)"
  "rp_base_fee (demo_chain usdc status) = (\<lambda>_. Inr (Some 1000))" "rp_priority_fee (demo_chain usdc status) = (\<lambda>_. Inr 100)"
  "rp_sign (demo_chain usdc status) = (\<lambda>_. Inr ''raw'')" "rp_broadcast (demo_chain usdc status) = (\<lambda>_ _. Inr ''0xh'')"
  "rp_receipt (demo_chain usdc status) = (\<lambda>n _. Inr (status n))" "be_asset (demo_chain usdc status) = ''0xusdc''"
  "be_token (demo_chain usdc status) = ''T''" "be_pool (demo_chain usdc status) = ''0xp''"
  "be_max_polls (demo_chain usdc status) = Suc (Suc 0)" "be_fuel (demo_chain usdc status) = Suc (Suc 0)" "be_key (demo_chain usdc status) = Inr ()"
  "be_pending (demo_chain usdc status) = (\<lambda>_ _. Inr [])" "be_nonce (demo_chain usdc status) = (\<lambda>_ _. Inr 1)"
  "be_sign (demo_chain usdc status) = (\<lambda>_ _ _. Inr ''sig'')" "be_request (demo_chain usdc status) = (\<lambda>_ _. Inr (''accepted'', ''''))"
  "be_balance (demo_chain usdc status) = (\<lambda>_ _. Inr 700)" "be_address (demo_chain usdc status) = (\<lambda>_. Inr ''0xd'')"
  "mc_issuance (demo_chain usdc status) = ''0xi''" "mc_redemption (demo_chain usdc status) = ''0xr''"
  "mc_mtbill (demo_chain usdc status) = ''0xm''" "mc_oracle (demo_chain usdc status) = ''0xo''" "ms_slippage (demo_chain usdc status) = 50"
  "rp_call (demo_chain usdc status) = (\<lambda>n contract name args block.
        Inr (if name = ''balanceOf'' then [Num (usdc n)]
             else if name = ''latestRoundData'' then [Num 1, Num 105250000, Num 0, Num 5, Num 1]
             else if name = ''decimals'' then [Num 8]
             else if name = ''tokensConfig'' then [Addr ''0xfeed'', Num 0, Num 0, Num 1]
             else if name = ''instantFee'' then [Num 7]
             else [Num 0]))"
  by (simp_all add: demo_chain_def fun_eq_iff)

lemmas run_midas = gas_attempts.simps [THEN fun_cong] landing_polls.simps [THEN fun_cong] redeem_polls.simps [THEN fun_cong] act_eqs run_chain run_pause chain_fields to_thread_def cawait_def read_num_def account_address_def
  holder_or_self_def get_erc20_balance_def get_allowance_def tx_gas_limit_def wait_for_receipt_def
  fee_params_def send_signed_def midas_send_write_tx_def single_num_def pending_bridges_def await_bridges_in_flight_def
  account_balance_def read_pool_balance_def bridge_to_base_def fund_account_def accepted_statuses_def
  get_oracle_round_def get_oracle_answer_def get_oracle_decimals_def read_oracle_price_def get_redemption_fee_bps_def
  get_redemption_min_amount_def approve_def deposit_instant_def redeem_instant_def scale_12
  convert_usdc_to_mtbill_amount_def midas_deposit_to_earn_def midas_withdraw_from_earn_def redeem_def Let_def
  runtime_error_def ZERO_REFERRER_ID_def

lemma attempts_left:
  "RECEIPT_RETRY_ATTEMPTS - Suc 0 = Suc (Suc 0)" "ESTIMATE_REVERT_ATTEMPTS - Suc 0 = Suc (Suc 0)"
  by (simp_all add: RECEIPT_RETRY_ATTEMPTS_def ESTIMATE_REVERT_ATTEMPTS_def)

lemma demo_sized: "if_returned (size_redeem 60 105250000 8 7) = Inr 57957244655583"
  by (simp add: if_returned_def size_redeem_eq redeem_start_def redeem_step_def redemption_payout_def scale_12 ceil_div_def)

lemma demo_deposit_run:
  "\<exists>s. midas_deposit_to_earn (demo_chain (\<lambda>n. if n < 10 then 40 else 100) (\<lambda>_. 1)) 100 (cst_at 5 []) = (Inr (), s)"
  by (simp add: run_midas attempts_left demo_sized hex_prefixed_def cong: lazy_chain)

lemma demo_withdraw_run:
  "\<exists>s m. midas_withdraw_from_earn (demo_chain (\<lambda>n. 40) (\<lambda>n. if n < 30 then 1 else 0)) 100 (cst_at 5 []) = (Inl (MidasLiquidityUnavailable m), s)"
  by (simp add: run_midas attempts_left demo_sized cong: lazy_chain)

section \<open>The properties, applied\<close>

lemma demo_raises: "node_raises B (demo_chain usdc status)" "accounting_raises B (demo_chain usdc status)"
  by (simp_all add: node_raises_def accounting_raises_def chain_fields) (simp_all add: demo_chain_def)

theorem midas_deposits_once_witness:
  "\<exists>s asked approved minted tx.
     midas_deposit_to_earn (demo_chain (\<lambda>n. if n < 10 then 40 else 100) (\<lambda>_. 1)) 100 (cst_at 5 []) = (Inr (), s)
     \<and> cs_legs s = asked @ approved @ minted \<and> minted = [Sent tx] \<and> ct_function tx = ''depositInstant''
     \<and> received (demo_chain (\<lambda>n. if n < 10 then 40 else 100) (\<lambda>_. 1)) tx 1"
proof -
  let ?env = "demo_chain (\<lambda>n. if n < 10 then 40 else 100) (\<lambda>_. 1)"
  obtain s where run: "midas_deposit_to_earn ?env 100 (cst_at 5 []) = (Inr (), s)"
    using demo_deposit_run by blast
  have "0 \<le> b" if "balance_read ?env b" for b
    using that by (auto simp: balance_read_def chain_fields split: if_splits)
  from midas_deposits_once [OF this run] run show ?thesis
    by (simp add: run_chain) blast
qed

theorem no_liquidity_moves_nothing_witness:
  "\<exists>s m. midas_withdraw_from_earn (demo_chain (\<lambda>n. 40) (\<lambda>n. if n < 30 then 1 else 0)) 100 (cst_at 5 [])
       = (Inl (MidasLiquidityUnavailable m), s)
     \<and> (\<forall>l\<in>set (cs_legs s). \<exists>tx. l = Sent tx \<and> (ct_function tx = ''approve'' \<or> ct_function tx = ''redeemInstant''))"
proof -
  let ?env = "demo_chain (\<lambda>n. 40) (\<lambda>n. if n < 30 then 1 else 0)"
  obtain s m where run: "midas_withdraw_from_earn ?env 100 (cst_at 5 []) = (Inl (MidasLiquidityUnavailable m), s)"
    using demo_withdraw_run by blast
  have "\<forall>n raw e. rp_broadcast ?env n raw = Inl e \<longrightarrow> \<not> runtime_error e"
    and "\<forall>n hash e. rp_receipt ?env n hash = Inl e \<longrightarrow> \<not> runtime_error e" by (simp_all add: chain_fields)
  from no_liquidity_moves_nothing [OF demo_raises this run] run show ?thesis
    by (simp add: run_chain) blast
qed


end
