(* ===== verification/Registry.thy ===== *)
theory Registry
  imports Vault Bridges "HOL-Library.AList"
begin

text \<open>
  The strategy of each pool (\<open>services/earn/registry.py\<close>, \<open>strategies/manual.py\<close>): the registry, and
  its filling from the configuration at start. Dicts are association lists in insertion order. The
  JSON parser, Accounting and DefiLlama are parameters; a registered strategy is what it was built
  with.
\<close>

section \<open>The registry\<close>

text \<open>The strategies the code builds; \<open>Manual\<close> is the default.\<close>

datatype configured =
    Manual
  | AaveOn string string "string option"
  | MidasOn string string "string option"

record registry =
  rg_strategies :: "(string \<times> configured) list"
  rg_holdings :: "((int \<times> string) \<times> string) list"

definition empty_registry :: registry where
  "empty_registry = \<lparr>rg_strategies = [], rg_holdings = []\<rparr>"

definition normalize :: "string \<Rightarrow> string" where
  "normalize pool_id = lower (removeprefix ''0x'' pool_id)"

text \<open>\<open>register\<close>: nothing is written before the one check that can fail.\<close>

definition take_holding :: "string \<Rightarrow> int \<times> string \<Rightarrow> ((int \<times> string) \<times> string) list \<Rightarrow> ((int \<times> string) \<times> string) list" where
  "take_holding key holding holdings =
     AList.update holding key (filter (\<lambda>(old, owner). \<not> (owner = key \<and> old \<noteq> holding)) holdings)"

definition register :: "string \<Rightarrow> configured \<Rightarrow> int option \<Rightarrow> string option \<Rightarrow> registry \<Rightarrow> exc + registry" where
  "register pool_id strategy chain_id asset_address r =
     (let key = normalize pool_id;
          written = AList.update key strategy (rg_strategies r)
      in case (chain_id, asset_address) of
           (Some chain, Some asset) \<Rightarrow>
             (let holding = (chain, lower asset)
              in case map_of (rg_holdings r) holding of
                   None \<Rightarrow> Inr (r\<lparr>rg_strategies := written, rg_holdings := take_holding key holding (rg_holdings r)\<rparr>)
                 | Some other \<Rightarrow>
                     if other \<noteq> key
                     then Inl (ValueError (''pool '' @ key @ '' holds the same asset on chain '' @ show_int chain
                            @ '' as pool '' @ other @ ''; one earn account cannot back both''))
                     else Inr (r\<lparr>rg_strategies := written, rg_holdings := take_holding key holding (rg_holdings r)\<rparr>))
         | _ \<Rightarrow> Inr (r\<lparr>rg_strategies := written\<rparr>))"

definition get_strategy :: "string \<Rightarrow> registry \<Rightarrow> configured" where
  "get_strategy pool_id r =
     (case map_of (rg_strategies r) (normalize pool_id) of None \<Rightarrow> Manual | Some s \<Rightarrow> s)"

definition has_strategy :: "string \<Rightarrow> registry \<Rightarrow> bool" where
  "has_strategy pool_id r \<longleftrightarrow> normalize pool_id \<in> set (map fst (rg_strategies r))"

definition pool_ids :: "registry \<Rightarrow> string list" where
  "pool_ids r = map fst (rg_strategies r)"

text \<open>\<open>ManualStrategy\<close>, as the vault sees it.\<close>

definition manual_strategy :: strategy where
  "manual_strategy =
     \<lparr>st_name = ''manual'', st_apy = (\<lambda>_. Inr 0), st_total = (\<lambda>_. Inr 0), st_idle = (\<lambda>_. Inr 0),
      st_in_flight = (\<lambda>_. Inr 0), st_stranded = (\<lambda>_. Inr 0), st_min_deploy = (\<lambda>_. Inr 0),
      st_ready = (\<lambda>_ _. Inr True), st_healthy = (\<lambda>_. Inr True), st_deposit = (\<lambda>_ _. Inr ()),
      st_withdraw = (\<lambda>_ _. Inr ())\<rparr>"

section \<open>The configuration\<close>

datatype config_json = JStr string | JObj "(string \<times> config_json) list" | JOther string

record asset_info =
  ti_chain :: "int option"
  ti_address :: "string option"

text \<open>What DefiLlama says of a pool: its project and its \<open>poolMeta\<close>.\<close>

record llama_meta =
  lm_project :: "string option"
  lm_meta :: "string option"

record boot_env =
  bo_json :: "string \<Rightarrow> config_json option"
  bo_str :: "config_json \<Rightarrow> string"
  bo_token :: "nat \<Rightarrow> string \<Rightarrow> exc + asset_info"
  bo_llama :: "nat \<Rightarrow> string \<Rightarrow> exc + llama_meta option"

record boot =
  bt_tick :: nat
  bt_registry :: registry

type_synonym 'a boot_act = "(boot, exc, 'a) act"

definition bask :: "(nat \<Rightarrow> exc + 'a) \<Rightarrow> 'a boot_act" where
  "bask f = (\<lambda>s. (f (bt_tick s), s\<lparr>bt_tick := Suc (bt_tick s)\<rparr>))"

text \<open>\<open>not raw.strip()\<close>\<close>

definition blank_text :: "string \<Rightarrow> bool" where
  "blank_text raw = list_all re_space raw"

definition extract_token_id :: "config_json \<Rightarrow> string option" where
  "extract_token_id entry =
     (case entry of
        JStr s \<Rightarrow> if s = [] then None else Some s
      | JObj members \<Rightarrow>
          (case map_of members ''token_id'' of
             Some (JStr s) \<Rightarrow> if s = [] then None else Some s
           | _ \<Rightarrow> None)
      | JOther _ \<Rightarrow> None)"

definition parse_defillama_pool_ids :: "boot_env \<Rightarrow> string \<Rightarrow> (string \<times> string) list" where
  "parse_defillama_pool_ids env raw_config =
     (if blank_text raw_config then []
      else case bo_json env raw_config of
        Some (JObj entries) \<Rightarrow>
          fold (\<lambda>(k, v). AList.update (lower k) (case v of JStr s \<Rightarrow> s | _ \<Rightarrow> bo_str env v)) entries []
      | _ \<Rightarrow> [])"

definition verified_defillama_pool_id :: "boot_env \<Rightarrow> string \<Rightarrow> string \<Rightarrow> string option \<Rightarrow> string option boot_act" where
  "verified_defillama_pool_id env uuid expected_project expected_pool_meta =
     bindA (tryA (bask (\<lambda>n. bo_llama env n uuid))) (\<lambda>r.
     ret (case r of
            Inl _ \<Rightarrow> Some uuid
          | Inr None \<Rightarrow> None
          | Inr (Some meta) \<Rightarrow>
              if lm_project meta \<noteq> Some expected_project then None
              else (case expected_pool_meta of
                      None \<Rightarrow> Some uuid
                    | Some expected \<Rightarrow>
                        if lower (case lm_meta meta of None \<Rightarrow> [] | Some m \<Rightarrow> m) \<noteq> lower expected then None else Some uuid)))"

text \<open>\<open>registry.register\<close> on the registry of the process.\<close>

definition register_in :: "string \<Rightarrow> configured \<Rightarrow> int option \<Rightarrow> string option \<Rightarrow> unit boot_act" where
  "register_in pool_id strategy chain_id asset_address =
     bindA (getA bt_registry) (\<lambda>r.
     bindA (liftE (register pool_id strategy chain_id asset_address r)) (\<lambda>r'.
       modifyA (\<lambda>s. s\<lparr>bt_registry := r'\<rparr>)))"

text \<open>One entry, from its token id on: the same for both protocols but for the strategy and what DefiLlama
  must say. The result is what it adds to the count.\<close>

definition register_pool ::
  "boot_env \<Rightarrow> (string \<Rightarrow> string \<Rightarrow> string option \<Rightarrow> configured) \<Rightarrow> string \<Rightarrow> string option \<Rightarrow> (string \<times> string) list
     \<Rightarrow> string \<Rightarrow> string \<Rightarrow> int boot_act" where
  "register_pool env build project product llama_ids pool_id token_id =
     bindA (tryA (bask (\<lambda>n. bo_token env n token_id))) (\<lambda>r.
     case r of
       Inl _ \<Rightarrow> ret 0
     | Inr info \<Rightarrow>
         (case ti_address info of
            None \<Rightarrow> ret 0
          | Some asset \<Rightarrow>
              if asset = [] then ret 0
              else
              bindA (case map_of llama_ids (lower pool_id) of
                       None \<Rightarrow> ret None
                     | Some uuid \<Rightarrow> if uuid = [] then ret (Some uuid) else verified_defillama_pool_id env uuid project product)
                (\<lambda>llama_id.
                 seqA (register_in pool_id (build asset token_id llama_id) (ti_chain info) (Some asset)) (ret 1))))"

fun register_aave_each :: "boot_env \<Rightarrow> (string \<times> string) list \<Rightarrow> (string \<times> config_json) list \<Rightarrow> int boot_act" where
  "register_aave_each env llama_ids [] = ret 0"
| "register_aave_each env llama_ids ((pool_id, entry) # rest) =
     bindA (case extract_token_id entry of
              None \<Rightarrow> ret 0
            | Some token_id \<Rightarrow> register_pool env AaveOn ''aave-v3'' None llama_ids pool_id token_id) (\<lambda>added.
     bindA (register_aave_each env llama_ids rest) (\<lambda>count. ret (added + count)))"

definition register_aave_strategies_from_config :: "boot_env \<Rightarrow> string \<Rightarrow> string \<Rightarrow> int boot_act" where
  "register_aave_strategies_from_config env raw_config defillama_pool_ids =
     (if blank_text raw_config then ret 0
      else case bo_json env raw_config of
        Some (JObj pool_assets) \<Rightarrow>
          register_aave_each env (parse_defillama_pool_ids env defillama_pool_ids) pool_assets
      | _ \<Rightarrow> ret 0)"

fun register_midas_each :: "boot_env \<Rightarrow> (string \<times> string) list \<Rightarrow> (string \<times> config_json) list \<Rightarrow> int boot_act" where
  "register_midas_each env llama_ids [] = ret 0"
| "register_midas_each env llama_ids ((pool_id, entry) # rest) =
     bindA (case entry of
              JStr token_id \<Rightarrow>
                if token_id = [] then ret 0
                else register_pool env MidasOn ''midas-rwa'' (Some ''mTBILL'') llama_ids pool_id token_id
            | _ \<Rightarrow> ret 0) (\<lambda>added.
     bindA (register_midas_each env llama_ids rest) (\<lambda>count. ret (added + count)))"

definition register_midas_strategies_from_config :: "boot_env \<Rightarrow> string \<Rightarrow> string \<Rightarrow> int boot_act" where
  "register_midas_strategies_from_config env raw_config defillama_pool_ids =
     (if blank_text raw_config then ret 0
      else case bo_json env raw_config of
        Some (JObj pool_assets) \<Rightarrow>
          register_midas_each env (parse_defillama_pool_ids env defillama_pool_ids) pool_assets
      | _ \<Rightarrow> ret 0)"

text \<open>The two calls at start: each is logged and left behind when it raises.\<close>

definition register_all :: "boot_env \<Rightarrow> string \<Rightarrow> string \<Rightarrow> string \<Rightarrow> unit boot_act" where
  "register_all env aave_pool_assets midas_pool_assets defillama_pool_ids =
     seqA (tryA (register_aave_strategies_from_config env aave_pool_assets defillama_pool_ids))
     (seqA (tryA (register_midas_strategies_from_config env midas_pool_assets defillama_pool_ids)) (ret ()))"

section \<open>What the registry keeps\<close>

text \<open>Each pool is registered once, each asset is held by one registered pool, and each pool holds one.\<close>

definition registry_ok :: "registry \<Rightarrow> bool" where
  "registry_ok r \<longleftrightarrow>
     distinct (map fst (rg_strategies r)) \<and> distinct (map fst (rg_holdings r)) \<and> distinct (map snd (rg_holdings r))
     \<and> snd ` set (rg_holdings r) \<subseteq> fst ` set (rg_strategies r)"

inductive registered :: "registry \<Rightarrow> bool" where
  empty: "registered empty_registry"
| another: "registered r \<Longrightarrow> register pool_id strategy chain_id asset_address r = Inr r' \<Longrightarrow> registered r'"

lemma update_absent: "k \<notin> fst ` set t \<Longrightarrow> AList.update k v t = t @ [(k, v)]"
  by (induction t) auto

lemma update_same: "map_of t k = Some v \<Longrightarrow> AList.update k v t = t"
  by (induction t) (auto split: if_splits)

lemma hold_ok:
  assumes dis: "distinct (map fst t)" "distinct (map snd t)" and free: "map_of t holding \<in> {None, Some key}"
  shows "distinct (map fst (take_holding key holding t))" and "distinct (map snd (take_holding key holding t))"
    and "snd ` set (take_holding key holding t) \<subseteq> insert key (snd ` set t)" and "map_of (take_holding key holding t) holding = Some key"
proof -
  let ?kept = "filter (\<lambda>(old, owner). \<not> (owner = key \<and> old \<noteq> holding)) t"
  have kept: "distinct (map fst ?kept)" "distinct (map snd ?kept)" using dis by (simp_all add: distinct_map_filter)
  show "distinct (map fst (take_holding key holding t))"
    using kept by (simp add: take_holding_def distinct_update)
  show "map_of (take_holding key holding t) holding = Some key" by (simp add: take_holding_def update_conv')
  consider "map_of t holding = None" | "map_of t holding = Some key" using free by auto
  then have "distinct (map snd (take_holding key holding t)) \<and> snd ` set (take_holding key holding t) \<subseteq> insert key (snd ` set t)"
  proof cases
    case 1
    then have "holding \<notin> fst ` set ?kept" by (auto simp: map_of_eq_None_iff)
    then have eq: "take_holding key holding t = ?kept @ [(holding, key)]" unfolding take_holding_def by (rule update_absent)
    from 1 have "key \<notin> snd ` set ?kept" by (force simp: map_of_eq_None_iff)
    with eq kept show ?thesis by auto
  next
    case 2
    then have "(holding, key) \<in> set ?kept" by (auto dest: map_of_SomeD)
    with kept(1) have "map_of ?kept holding = Some key" by simp
    then have eq: "take_holding key holding t = ?kept" unfolding take_holding_def by (rule update_same)
    with kept show ?thesis by auto
  qed
  then show "distinct (map snd (take_holding key holding t))" and "snd ` set (take_holding key holding t) \<subseteq> insert key (snd ` set t)" by auto
qed

lemma registered_ok: "registered r \<Longrightarrow> registry_ok r"
proof (induction rule: registered.induct)
  case empty
  then show ?case by (simp add: registry_ok_def empty_registry_def)
next
  case (another r pool_id strategy chain_id asset_address r')
  note ok = another.IH [unfolded registry_ok_def]
  let ?key = "normalize pool_id"
  have keys: "fst ` set (AList.update k v t) = insert k (fst ` set t)" for k v and t :: "(string \<times> configured) list"
    by (induction t) auto
  have strategies: "distinct (map fst (AList.update ?key strategy (rg_strategies r)))"
    using ok by (simp add: distinct_update)
  from another.hyps(2) consider
      "r' = r\<lparr>rg_strategies := AList.update ?key strategy (rg_strategies r)\<rparr>"
    | holding where "map_of (rg_holdings r) holding \<in> {None, Some ?key}"
        "r' = r\<lparr>rg_strategies := AList.update ?key strategy (rg_strategies r), rg_holdings := take_holding ?key holding (rg_holdings r)\<rparr>"
    by (auto simp: register_def Let_def split: option.splits if_splits)
  then show ?case
  proof cases
    case 1
    with ok strategies show ?thesis by (auto simp: registry_ok_def keys)
  next
    case (2 holding)
    with hold_ok [of "rg_holdings r" holding ?key] ok strategies show ?thesis
      by (auto simp: registry_ok_def keys)
  qed
qed

text \<open>The filling at start keeps to it, whatever fails.\<close>

lemma keeps_option_act:
  "(x = None \<Longrightarrow> keeps I m) \<Longrightarrow> (\<And>y. x = Some y \<Longrightarrow> keeps I (f y)) \<Longrightarrow> keeps I (case x of None \<Rightarrow> m | Some y \<Rightarrow> f y)"
  by (cases x) auto

lemma keeps_sum_act:
  "(\<And>y. x = Inl y \<Longrightarrow> keeps I (f y)) \<Longrightarrow> (\<And>y. x = Inr y \<Longrightarrow> keeps I (g y)) \<Longrightarrow> keeps I (case x of Inl y \<Rightarrow> f y | Inr y \<Rightarrow> g y)"
  by (cases x) auto

abbreviation filled :: "boot \<Rightarrow> bool" where
  "filled s \<equiv> registered (bt_registry s)"

lemma keeps_bask [wp]: "keeps filled (bask f)"
  by (simp add: keeps_def bask_def)

lemma keeps_register_in [wp]: "keeps filled (register_in p s c a)"
proof (rule keepsI)
  fix t assume t: "filled t"
  show "filled (snd (register_in p s c a t))"
  proof (cases "register p s c a (bt_registry t)")
    case (Inl e)
    with t show ?thesis by (simp add: register_in_def bindA_eq act_simps liftE_def)
  next
    case (Inr r)
    with t have "registered r" by (rule registered.another)
    with Inr show ?thesis by (simp add: register_in_def bindA_eq act_simps liftE_def)
  qed
qed

lemma keeps_register_pool [wp]: "keeps filled (register_pool env build project product llama_ids p t)"
  unfolding register_pool_def verified_defillama_pool_id_def
  by (intro wp keeps_option_act keeps_sum_act)

lemma keeps_aave_each: "keeps filled (register_aave_each env llama_ids entries)"
  by (induction env llama_ids entries rule: register_aave_each.induct) (auto intro!: wp keeps_option_act)

lemma keeps_midas_each: "keeps filled (register_midas_each env llama_ids entries)"
  by (induction env llama_ids entries rule: register_midas_each.induct) (auto intro!: wp split: config_json.splits)

lemma keeps_register_all: "keeps filled (register_all env aave midas llama)"
  unfolding register_all_def register_aave_strategies_from_config_def register_midas_strategies_from_config_def
  by (auto intro!: wp keeps_option_act keeps_aave_each keeps_midas_each split: config_json.splits)

text \<open>A pool without a strategy of its own moves nothing.\<close>

lemma manual_moves_nothing:
  "ve_strategy env p = manual_strategy \<Longrightarrow> route_to_strategy env p amount = ret () \<and> reclaim_from_strategy env p amount = ret ()"
  by (simp add: route_to_strategy_def reclaim_from_strategy_def manual_strategy_def)

text \<open>A conflict ends the registration, so the sound pools behind it stay without their strategy.\<close>

definition conflict_env :: boot_env where
  "conflict_env =
     \<lparr>bo_json = (\<lambda>_. Some (JObj [(''a1'', JStr ''T1''), (''b2'', JStr ''T1''), (''c3'', JStr ''T3'')])),
      bo_str = (\<lambda>_. []), bo_token = (\<lambda>_ t. Inr \<lparr>ti_chain = Some 8453, ti_address = Some (''0x'' @ t)\<rparr>),
      bo_llama = (\<lambda>_ _. Inr None)\<rparr>"

lemma spelled:
  "normalize ''a1'' = ''a1''" "normalize ''b2'' = ''b2''" "normalize ''c3'' = ''c3''" "normalize ''0xA1'' = ''a1''"
  "lower ''0xT1'' = ''0xt1''" "lower ''0xT3'' = ''0xt3''" "lower ''0xAB'' = ''0xab''" "lower ''0xab'' = ''0xab''"
  "blank_text ''{}'' = False" "blank_text [] = True"
  by code_simp+

lemma conflict_stops_registration:
  "map (\<lambda>p. get_strategy p (bt_registry (snd (register_all conflict_env ''{}'' [] [] \<lparr>bt_tick = 0, bt_registry = empty_registry\<rparr>))))
     [''a1'', ''b2'', ''c3''] = [AaveOn ''0xT1'' ''T1'' None, Manual, Manual]"
  by (simp add: register_all_def register_aave_strategies_from_config_def register_midas_strategies_from_config_def
      conflict_env_def empty_registry_def act_eqs tryA_def liftE_def bask_def register_pool_def register_in_def
      parse_defillama_pool_ids_def extract_token_id_def spelled register_def get_strategy_def take_holding_def Let_def)

text \<open>C36: in every registry that registrations lead to, at start or later, a pool is registered once, an
  asset of a chain is held by one pool, a pool holds one asset and is registered. A registration fails
  exactly when another pool holds its asset; one that succeeds gives the pool its strategy, under every
  spelling of its id, and changes no other pool's.\<close>

theorem registry_wellformed:
  assumes "registered r"
  shows "distinct (pool_ids r)
    \<and> (\<forall>holding p q. (holding, p) \<in> set (rg_holdings r) \<and> (holding, q) \<in> set (rg_holdings r) \<longrightarrow> p = q)
    \<and> (\<forall>h g p. (h, p) \<in> set (rg_holdings r) \<and> (g, p) \<in> set (rg_holdings r) \<longrightarrow> h = g)
    \<and> (\<forall>h p. (h, p) \<in> set (rg_holdings r) \<longrightarrow> p \<in> set (pool_ids r))
    \<and> registered (bt_registry (snd (register_all env aave midas llama \<lparr>bt_tick = n, bt_registry = r\<rparr>)))
    \<and> (\<forall>p s c a. (\<exists>e. register p s (Some c) (Some a) r = Inl e)
         \<longleftrightarrow> (\<exists>q. ((c, lower a), q) \<in> set (rg_holdings r) \<and> q \<noteq> lower (removeprefix ''0x'' p)))
    \<and> (\<forall>p s c a r'. register p s c a r = Inr r' \<longrightarrow>
         (\<forall>q. get_strategy q r' = (if lower (removeprefix ''0x'' q) = lower (removeprefix ''0x'' p) then s else get_strategy q r)))"
proof (intro conjI allI)
  have ok: "registry_ok r" using assms by (rule registered_ok)
  show "distinct (pool_ids r)" using ok by (simp add: registry_ok_def pool_ids_def)
  show "(holding, p) \<in> set (rg_holdings r) \<and> (holding, q) \<in> set (rg_holdings r) \<longrightarrow> p = q" for holding p q
    using ok by (auto simp: registry_ok_def dest: eq_key_imp_eq_value)
  show "(h, p) \<in> set (rg_holdings r) \<and> (g, p) \<in> set (rg_holdings r) \<longrightarrow> h = g" for h g p
    using ok inj_onD [of snd "set (rg_holdings r)" "(h, p)" "(g, p)"] by (auto simp: registry_ok_def distinct_map)
  show "(h, p) \<in> set (rg_holdings r) \<longrightarrow> p \<in> set (pool_ids r)" for h p
    using ok by (force simp: registry_ok_def pool_ids_def)
  show "registered (bt_registry (snd (register_all env aave midas llama \<lparr>bt_tick = n, bt_registry = r\<rparr>)))"
    using keepsD [OF keeps_register_all, of "\<lparr>bt_tick = n, bt_registry = r\<rparr>"] assms by simp
  have lookup: "map_of (rg_holdings r) h = Some q \<longleftrightarrow> (h, q) \<in> set (rg_holdings r)" for h q
    using ok by (simp add: registry_ok_def)
  show "(\<exists>e. register p s (Some c) (Some a) r = Inl e)
         \<longleftrightarrow> (\<exists>q. ((c, lower a), q) \<in> set (rg_holdings r) \<and> q \<noteq> lower (removeprefix ''0x'' p))" for p s c a
    unfolding lookup [symmetric] by (auto simp: register_def Let_def normalize_def split: option.splits)
  show "register p s c a r = Inr r' \<longrightarrow>
         (\<forall>q. get_strategy q r' = (if lower (removeprefix ''0x'' q) = lower (removeprefix ''0x'' p) then s else get_strategy q r))"
    for p s c a r'
    by (auto simp: register_def get_strategy_def normalize_def Let_def update_conv' split: option.splits if_splits)
qed

theorem registry_wellformed_witness:
  "\<exists>r. register ''0xA1'' (AaveOn ''0xAB'' ''T'' None) (Some 8453) (Some ''0xAB'') empty_registry = Inr r
     \<and> get_strategy ''a1'' r = AaveOn ''0xAB'' ''T'' None
     \<and> (\<exists>e. register ''b2'' (MidasOn ''0xab'' ''T'' None) (Some 8453) (Some ''0xab'') r = Inl e)"
proof -
  obtain r where r: "register ''0xA1'' (AaveOn ''0xAB'' ''T'' None) (Some 8453) (Some ''0xAB'') empty_registry = Inr r"
    and held: "((8453, lower ''0xab''), ''a1'') \<in> set (rg_holdings r)" and got: "get_strategy ''a1'' r = AaveOn ''0xAB'' ''T'' None"
    by (simp add: register_def empty_registry_def Let_def take_holding_def get_strategy_def spelled)
  have "registered r" using registered.another [OF registered.empty r] .
  from registry_wellformed [OF this] held have
    "\<exists>e. register ''b2'' (MidasOn ''0xab'' ''T'' None) (Some 8453) (Some ''0xab'') r = Inl e"
    using spelled(2) by (auto simp: normalize_def)
  with r got show ?thesis by blast
qed

end
