(* ===== verification/Accounting.thy ===== *)
theory Accounting
  imports Portfolio Bridges
begin

text \<open>
  The client of the accounting service (\<open>clients/accounting.py\<close>) and the identity of a caller that rests on it
  (\<open>api/_auth.py\<close>). What the service answers is a parameter, question by question; \<open>hr_data\<close> is what
  the code reads out of a body, or the error it raises there. The lock around an exchange is left
  out: other tasks may run wherever this one waits.
\<close>

section \<open>State and environment\<close>

record 'a reply =
  hr_status :: int
  hr_text :: string
  hr_data :: "exc + 'a"

record token_record =
  tr_id :: string
  tr_type :: int
  tr_type_name :: string
  tr_data :: string
  tr_chain :: "int option"
  tr_chain_name :: "string option"
  tr_address :: "string option"
  tr_symbol :: "string option"
  tr_name :: "string option"
  tr_decimals :: "int option"

record balance_record =
  ba_user :: string
  ba_token :: string
  ba_balance :: string
  ba_symbol :: "string option"
  ba_chain :: "string option"

record siwe_auth =
  sa_token :: string
  sa_address :: string
  sa_expires :: rat

record jwt_identity =
  ji_token :: string
  ji_address :: string

record acct =
  ak_tick :: nat
  ak_siwe :: "string option"
  ak_jwt :: "string option"
  ak_auth_at :: "rat option"
  ak_infos :: "string \<rightharpoonup> token_record"
  ak_auths :: "string \<rightharpoonup> siwe_auth"

type_synonym 'a kact = "(acct, exc, 'a) act"

record acct_env =
  kv_time :: "nat \<Rightarrow> rat"
  kv_utc :: "nat \<Rightarrow> rat"
  kv_other :: "nat \<Rightarrow> acct \<Rightarrow> acct"
  kv_stamp :: "rat \<Rightarrow> string"
  kv_base_url :: string
  kv_lp_address :: string
  kv_chain :: int
  kv_key :: "exc + unit"
  kv_sign :: "string \<Rightarrow> exc + string"
  kv_hash :: "string \<Rightarrow> string"
  kv_is_address :: "string \<Rightarrow> bool"
  kv_checksum :: "string \<Rightarrow> exc + string"
  kv_nonce :: "nat \<Rightarrow> string \<Rightarrow> exc + string reply"
  kv_login :: "nat \<Rightarrow> string \<Rightarrow> string \<Rightarrow> exc + (string \<times> (exc + string)) reply"
  kv_balance :: "nat \<Rightarrow> string \<Rightarrow> string \<Rightarrow> exc + balance_record reply"
  kv_token :: "nat \<Rightarrow> string \<Rightarrow> exc + token_record reply"
  kv_tokens :: "nat \<Rightarrow> exc + token_record list reply"
  kv_exchange :: "nat \<Rightarrow> string \<Rightarrow> exc + (string \<times> string \<times> int) reply"
  kv_history :: "nat \<Rightarrow> string \<Rightarrow> nat \<Rightarrow> nat \<Rightarrow> exc + (history_entry list \<times> (exc + int)) reply"
  kv_fuel :: nat

definition kask :: "(nat \<Rightarrow> exc + 'a) \<Rightarrow> 'a kact" where
  "kask f = (\<lambda>s. (f (ak_tick s), s\<lparr>ak_tick := Suc (ak_tick s)\<rparr>))"

definition kpause :: "acct_env \<Rightarrow> unit kact" where
  "kpause env = (\<lambda>s. (Inr (), (kv_other env (ak_tick s) s)\<lparr>ak_tick := Suc (ak_tick s)\<rparr>))"

definition kawait :: "acct_env \<Rightarrow> (nat \<Rightarrow> exc + 'a) \<Rightarrow> 'a kact" where
  "kawait env f = bindA (tryA (kask f)) (\<lambda>r. seqA (kpause env) (liftE r))"

definition ktime :: "acct_env \<Rightarrow> rat kact" where
  "ktime env = kask (\<lambda>n. Inr (kv_time env n))"

section \<open>Requests\<close>

definition ACCOUNTING_MAX_RETRIES :: nat where "ACCOUNTING_MAX_RETRIES = 3"
definition JWT_SIWE_CACHE_SKEW_SECONDS :: int where "JWT_SIWE_CACHE_SKEW_SECONDS = 30"
definition HISTORY_PAGE_LIMIT :: nat where "HISTORY_PAGE_LIMIT = 100"

definition raise_for_status :: "'a reply \<Rightarrow> exc + 'a reply" where
  "raise_for_status r =
     (if 200 \<le> hr_status r \<and> hr_status r \<le> 299 then Inr r else Inl (HttpStatus (hr_status r) (hr_text r)))"

text \<open>What is asked again: a connection that failed, and a failure of the service.\<close>

definition worth_retry :: "exc \<Rightarrow> bool" where
  "worth_retry e \<longleftrightarrow> (case e of TransportError _ _ \<Rightarrow> True | HttpStatus code _ \<Rightarrow> 500 \<le> code | _ \<Rightarrow> False)"

text \<open>The argument counts the attempts left after this one.\<close>

fun request_attempts :: "nat \<Rightarrow> acct_env \<Rightarrow> (nat \<Rightarrow> exc + 'a reply) \<Rightarrow> 'a reply kact" where
  "request_attempts k env f =
     bindA (tryA (bindA (kawait env f) (\<lambda>response. liftE (raise_for_status response)))) (\<lambda>r.
     case r of
       Inr response \<Rightarrow> ret response
     | Inl e \<Rightarrow>
         (case k of
            0 \<Rightarrow> throw e
          | Suc j \<Rightarrow> if worth_retry e then seqA (kpause env) (request_attempts j env f) else throw e))"

declare request_attempts.simps [simp del]

definition request_with_retry :: "acct_env \<Rightarrow> (nat \<Rightarrow> exc + 'a reply) \<Rightarrow> 'a reply kact" where
  "request_with_retry env f = request_attempts (ACCOUNTING_MAX_RETRIES - 1) env f"

text \<open>A request of the client's own account: signing in, and the header.\<close>

definition truthy :: "string option \<Rightarrow> bool" where
  "truthy x \<longleftrightarrow> (case x of None \<Rightarrow> False | Some s \<Rightarrow> s \<noteq> [])"

function remove_all :: "string \<Rightarrow> string \<Rightarrow> string" where
  "remove_all p [] = []"
| "remove_all p (c # s) =
     (if p \<noteq> [] \<and> prefix p (c # s) then remove_all p (drop (length p) (c # s)) else c # remove_all p s)"
  by pat_completeness auto

termination
  by (relation "measure (\<lambda>(p, s). length s)") (auto simp: neq_Nil_conv)

definition siwe_domain :: "string \<Rightarrow> string" where
  "siwe_domain base_url =
     rev (dropWhile (\<lambda>c. c = CHR ''/'') (rev (remove_all ''http://'' (remove_all ''https://'' base_url))))"

definition siwe_message :: "acct_env \<Rightarrow> string \<Rightarrow> rat \<Rightarrow> string" where
  "siwe_message env nonce now =
     (let newline = [char_of (10 :: nat)] in
      siwe_domain (kv_base_url env) @ '' wants you to sign in with your Ethereum account:'' @ newline
      @ kv_lp_address env @ newline @ newline @ ''Sign in to Privana on chain '' @ show_int (kv_chain env) @ newline @ newline
      @ ''URI: '' @ kv_base_url env @ newline
      @ ''Version: 1'' @ newline @ ''Chain ID: '' @ show_int (kv_chain env) @ newline @ ''Nonce: '' @ nonce @ newline
      @ ''Issued At: '' @ kv_stamp env now @ newline
      @ ''Expiration Time: '' @ kv_stamp env (now + 86400))"

definition sign_in :: "acct_env \<Rightarrow> unit kact" where
  "sign_in env =
     seqA (liftE (kv_key env))
     (bindA (kawait env (\<lambda>n. kv_nonce env n (kv_lp_address env))) (\<lambda>r.
      bindA (liftE (raise_for_status r)) (\<lambda>r.
      bindA (liftE (hr_data r)) (\<lambda>nonce.
      bindA (kask (\<lambda>n. Inr (kv_utc env n))) (\<lambda>now.
      bindA (liftE (kv_sign env (siwe_message env nonce now))) (\<lambda>signature.
      bindA (kawait env (\<lambda>n. kv_login env n (siwe_message env nonce now) signature)) (\<lambda>r.
      bindA (liftE (raise_for_status r)) (\<lambda>r.
      bindA (liftE (hr_data r)) (\<lambda>(siwe_token, jwt).
      seqA (modifyA (\<lambda>s. s\<lparr>ak_siwe := Some siwe_token\<rparr>))
      (bindA (liftE jwt) (\<lambda>jwt_token.
       seqA (modifyA (\<lambda>s. s\<lparr>ak_jwt := Some jwt_token\<rparr>))
       (bindA (ktime env) (\<lambda>at_time. modifyA (\<lambda>s. s\<lparr>ak_auth_at := Some at_time\<rparr>))))))))))))))"

definition ensure_authenticated :: "acct_env \<Rightarrow> unit kact" where
  "ensure_authenticated env =
     bindA (getA (\<lambda>s. (truthy (ak_siwe s) \<and> truthy (ak_jwt s), ak_auth_at s))) (\<lambda>(held, since).
     case since of
       None \<Rightarrow> sign_in env
     | Some t \<Rightarrow>
         if held \<and> t \<noteq> 0
         then bindA (ktime env) (\<lambda>now. if now - t < 3600 then ret () else sign_in env)
         else sign_in env)"

definition send_authed :: "acct_env \<Rightarrow> (nat \<Rightarrow> string \<Rightarrow> exc + 'a reply) \<Rightarrow> 'a reply kact" where
  "send_authed env f =
     bindA (getA (\<lambda>s. ''Bearer '' @ (case ak_jwt s of None \<Rightarrow> ''None'' | Some t \<Rightarrow> t))) (\<lambda>header.
       kawait env (\<lambda>n. f n header))"

definition auth_refused :: "'a reply \<Rightarrow> bool" where
  "auth_refused r \<longleftrightarrow> hr_status r = 401 \<or> (hr_status r = 400 \<and> contains ''SIWE'' (hr_text r))"

fun auth_attempts :: "nat \<Rightarrow> acct_env \<Rightarrow> (nat \<Rightarrow> string \<Rightarrow> exc + 'a reply) \<Rightarrow> 'a reply kact" where
  "auth_attempts k env f =
     bindA (send_authed env f) (\<lambda>first.
     bindA (if auth_refused first
            then seqA (modifyA (\<lambda>s. s\<lparr>ak_siwe := None, ak_jwt := None, ak_auth_at := None\<rparr>))
                   (seqA (ensure_authenticated env) (send_authed env f))
            else ret first) (\<lambda>response.
     case k of
       0 \<Rightarrow> liftE (raise_for_status response)
     | Suc j \<Rightarrow>
         if 500 \<le> hr_status response then seqA (kpause env) (auth_attempts j env f)
         else liftE (raise_for_status response)))"

declare auth_attempts.simps [simp del]

definition authenticated_request :: "acct_env \<Rightarrow> (nat \<Rightarrow> string \<Rightarrow> exc + 'a reply) \<Rightarrow> 'a reply kact" where
  "authenticated_request env f = seqA (ensure_authenticated env) (auth_attempts (ACCOUNTING_MAX_RETRIES - 1) env f)"

section \<open>The operations\<close>

definition get_lp_balance :: "acct_env \<Rightarrow> string \<Rightarrow> balance_record kact" where
  "get_lp_balance env token_id =
     bindA (authenticated_request env (\<lambda>n header. kv_balance env n header token_id)) (\<lambda>r. liftE (hr_data r))"

definition get_token_info :: "acct_env \<Rightarrow> string \<Rightarrow> token_record kact" where
  "get_token_info env token_id =
     bindA (getA (\<lambda>s. ak_infos s token_id)) (\<lambda>known.
     case known of
       Some info \<Rightarrow> ret info
     | None \<Rightarrow>
         bindA (request_with_retry env (\<lambda>n. kv_token env n token_id)) (\<lambda>r.
         bindA (liftE (hr_data r)) (\<lambda>info.
         seqA (modifyA (\<lambda>s. s\<lparr>ak_infos := (ak_infos s)(token_id \<mapsto> info)\<rparr>)) (ret info))))"

definition list_all_tokens :: "acct_env \<Rightarrow> token_record list kact" where
  "list_all_tokens env = bindA (request_with_retry env (kv_tokens env)) (\<lambda>r. liftE (hr_data r))"

text \<open>The exchange of a JWT. An answer that is kept is dropped 30 seconds before it expires.\<close>

definition strip :: "string \<Rightarrow> string" where
  "strip s = rev (dropWhile re_space (rev (dropWhile re_space s)))"

definition cached_auth :: "rat \<Rightarrow> string \<Rightarrow> acct \<Rightarrow> siwe_auth option" where
  "cached_auth now key s =
     (case ak_auths s key of Some a \<Rightarrow> if now < sa_expires a then Some a else None | None \<Rightarrow> None)"

definition drop_expired :: "rat \<Rightarrow> (string \<rightharpoonup> siwe_auth) \<Rightarrow> (string \<rightharpoonup> siwe_auth)" where
  "drop_expired now auths key =
     (case auths key of Some a \<Rightarrow> if sa_expires a \<le> now then None else Some a | None \<Rightarrow> None)"

definition keep_auth :: "string \<Rightarrow> rat \<Rightarrow> string \<Rightarrow> string \<Rightarrow> int \<Rightarrow> siwe_auth kact" where
  "keep_auth key now siwe_token address expires_in =
     (let cache_ttl = expires_in - JWT_SIWE_CACHE_SKEW_SECONDS;
          auth = \<lparr>sa_token = siwe_token, sa_address = address, sa_expires = now + of_int cache_ttl\<rparr>
      in seqA (modifyA (\<lambda>s. s\<lparr>ak_auths :=
                 (if 0 < cache_ttl then (ak_auths s)(key \<mapsto> auth) else (ak_auths s)(key := None))\<rparr>))
           (ret auth))"

definition accept_exchange :: "acct_env \<Rightarrow> string \<Rightarrow> rat \<Rightarrow> (string \<times> string \<times> int) reply \<Rightarrow> siwe_auth kact" where
  "accept_exchange env key now r =
     bindA (liftE (raise_for_status r)) (\<lambda>r.
     bindA (liftE (hr_data r)) (\<lambda>(siwe_token, address, expires_in).
     seqA (if siwe_token = [] \<or> expires_in \<le> 0
           then throw (RuntimeError ''Accounting JWT exchange returned an invalid token'') else ret ())
     (seqA (if \<not> kv_is_address env address
            then throw (RuntimeError ''Accounting JWT exchange returned an invalid address'') else ret ())
     (seqA (modifyA (\<lambda>s. s\<lparr>ak_auths := drop_expired now (ak_auths s)\<rparr>))
     (bindA (liftE (kv_checksum env address)) (\<lambda>checksummed.
        keep_auth key now siwe_token checksummed expires_in))))))"

definition exchange_fresh :: "acct_env \<Rightarrow> string \<Rightarrow> string \<Rightarrow> rat \<Rightarrow> siwe_auth kact" where
  "exchange_fresh env jwt_token key now =
     bindA (kawait env (\<lambda>n. kv_exchange env n jwt_token)) (accept_exchange env key now)"

definition exchange_jwt_for_siwe_auth :: "acct_env \<Rightarrow> string \<Rightarrow> siwe_auth kact" where
  "exchange_jwt_for_siwe_auth env jwt_token =
     (let jwt = strip jwt_token; key = kv_hash env jwt in
      seqA (if jwt = [] then throw (ValueError ''JWT bearer token is required'') else ret ())
      (bindA (ktime env) (\<lambda>now.
       bindA (getA (cached_auth now key)) (\<lambda>cached.
       case cached of
         Some auth \<Rightarrow> ret auth
       | None \<Rightarrow>
           seqA (kpause env)
           (bindA (ktime env) (\<lambda>now.
            bindA (getA (cached_auth now key)) (\<lambda>cached.
            case cached of
              Some auth \<Rightarrow> ret auth
            | None \<Rightarrow> exchange_fresh env jwt key now)))))))"

definition exchange_jwt_for_siwe_token :: "acct_env \<Rightarrow> string \<Rightarrow> string kact" where
  "exchange_jwt_for_siwe_token env jwt_token =
     bindA (exchange_jwt_for_siwe_auth env jwt_token) (\<lambda>auth. ret (sa_token auth))"

definition get_jwt_identity :: "acct_env \<Rightarrow> string \<Rightarrow> jwt_identity kact" where
  "get_jwt_identity env jwt_token =
     bindA (exchange_jwt_for_siwe_auth env jwt_token) (\<lambda>auth.
       ret \<lparr>ji_token = sa_token auth, ji_address = sa_address auth\<rparr>)"

text \<open>The pages of a history, from the oldest on.\<close>

fun history_pages :: "nat \<Rightarrow> acct_env \<Rightarrow> string \<Rightarrow> nat \<Rightarrow> history_entry list \<Rightarrow> history_entry list kact" where
  "history_pages 0 env siwe_token page_index entries = throw OutOfFuel"
| "history_pages (Suc k) env siwe_token page_index entries =
     bindA (request_with_retry env (\<lambda>n. kv_history env n siwe_token page_index HISTORY_PAGE_LIMIT)) (\<lambda>r.
     bindA (liftE (hr_data r)) (\<lambda>(page, listed).
     if length page < HISTORY_PAGE_LIMIT then ret (entries @ page)
     else bindA (liftE listed) (\<lambda>total_entries.
       if total_entries \<le> int (length (entries @ page)) then ret (entries @ page)
       else history_pages k env siwe_token (Suc page_index) (entries @ page))))"

definition get_user_history :: "acct_env \<Rightarrow> string \<Rightarrow> history_entry list kact" where
  "get_user_history env siwe_token =
     bindA (history_pages (kv_fuel env) env siwe_token 0 []) (\<lambda>entries. ret (sort_key he_ts entries))"

section \<open>The caller of a route\<close>

definition auth_error :: "string \<Rightarrow> exc" where
  "auth_error detail = HTTPException 401 detail"

definition bearer_token :: "string \<Rightarrow> exc + string" where
  "bearer_token authorization =
     (let scheme = takeWhile (\<lambda>c. c \<noteq> CHR '' '') authorization;
          token = drop 1 (dropWhile (\<lambda>c. c \<noteq> CHR '' '') authorization)
      in if lower scheme \<noteq> ''bearer'' \<or> strip token = [] then Inl (auth_error ''Invalid bearer token'')
         else Inr (strip token))"

text \<open>The answer the route gives for a failure; what is not listed leaves the route as it is.\<close>

definition auth_failure :: "string \<Rightarrow> exc \<Rightarrow> exc" where
  "auth_failure failure_detail e =
     (case e of
        HttpStatus code _ \<Rightarrow>
          if code = 401 then auth_error ''Invalid bearer token''
          else if code = 403 then HTTPException 403 ''Bearer token is not allowed''
          else HTTPException 502 failure_detail
      | TransportError _ _ \<Rightarrow> HTTPException 502 failure_detail
      | KeyError \<Rightarrow> HTTPException 502 failure_detail
      | ValueError _ \<Rightarrow> HTTPException 502 failure_detail
      | _ \<Rightarrow> if runtime_error e then HTTPException 502 failure_detail else e)"

definition resolve_via_accounting :: "'a kact \<Rightarrow> string \<Rightarrow> 'a kact" where
  "resolve_via_accounting call failure_detail =
     bindA (tryA call) (\<lambda>r. case r of Inr x \<Rightarrow> ret x | Inl e \<Rightarrow> throw (auth_failure failure_detail e))"

text \<open>The headers are looked up whatever their case; an empty one counts as absent.\<close>

definition jwt_identity_of :: "acct_env \<Rightarrow> (string \<rightharpoonup> string) \<Rightarrow> jwt_identity kact" where
  "jwt_identity_of env headers =
     seqA (if truthy (headers ''x-siwe-token'')
           then throw (HTTPException 400 ''Use Authorization bearer token; X-SIWE-Token is not accepted'') else ret ())
     (case headers ''authorization'' of
        None \<Rightarrow> throw (auth_error ''Bearer token required'')
      | Some authorization \<Rightarrow>
          if authorization = [] then throw (auth_error ''Bearer token required'')
          else bindA (liftE (bearer_token authorization)) (\<lambda>token.
            resolve_via_accounting (get_jwt_identity env token) ''Accounting token validation failed''))"

text \<open>A read that may come with a SIWE token instead of a JWT (\<open>api/earn.py\<close>): the address is known only
  for the latter.\<close>

definition private_read_identity :: "acct_env \<Rightarrow> (string \<rightharpoonup> string) \<Rightarrow> (string \<times> string option) kact" where
  "private_read_identity env headers =
     (let authorization = headers ''authorization''; siwe_token = headers ''x-siwe-token'' in
      if truthy authorization \<and> truthy siwe_token
      then throw (HTTPException 400 ''Use either Authorization or X-SIWE-Token, not both'')
      else if truthy siwe_token then ret (the siwe_token, None)
      else if \<not> truthy authorization then throw (auth_error ''Bearer token required'')
      else bindA (liftE (bearer_token (the authorization))) (\<lambda>token.
        bindA (resolve_via_accounting (get_jwt_identity env token) ''Accounting token exchange failed'') (\<lambda>identity.
          ret (ji_token identity, Some (ji_address identity)))))"

definition private_read_token :: "acct_env \<Rightarrow> (string \<rightharpoonup> string) \<Rightarrow> string kact" where
  "private_read_token env headers = bindA (private_read_identity env headers) (\<lambda>(token, _). ret token)"

end
