(* ===== verification/AccountingInv.thy ===== *)
theory AccountingInv
  imports Accounting
begin

text \<open>
  What the callers of the accounting client get: a history is a snapshot however it grows while it is
  read, and an identity comes from an answer to the caller's own token that has not run out.
\<close>

section \<open>Questions and time\<close>

lemma outcomes_ktime:
  "outcomes (\<lambda>s. P s \<and> T \<le> ak_tick s) (ktime env)
     (\<lambda>now s. \<exists>c. now = kv_time env c \<and> T \<le> c \<and> c < ak_tick s \<and> (\<exists>t. P t \<and> s = t\<lparr>ak_tick := Suc c\<rparr>)) E"
  by (auto simp: outcomes_def ktime_def kask_def)

lemma outcomes_kpause: "outcomes (\<lambda>s. T \<le> ak_tick s) (kpause env) (\<lambda>_ s. T \<le> ak_tick s) E"
  by (simp add: outcomes_def kpause_def)

lemma kawait_eq:
  "kawait env f s = (f (ak_tick s), (kv_other env (Suc (ak_tick s)) (s\<lparr>ak_tick := Suc (ak_tick s)\<rparr>))\<lparr>ak_tick := Suc (Suc (ak_tick s))\<rparr>)"
  by (simp add: kawait_def kask_def kpause_def act_eqs tryA_def liftE_def)

lemma outcomes_kawait:
  "outcomes (\<lambda>s. T \<le> ak_tick s) (kawait env f)
     (\<lambda>r s. \<exists>n. T \<le> n \<and> n < ak_tick s \<and> f n = Inr r) (\<lambda>e s. T \<le> ak_tick s \<and> (\<exists>n. f n = Inl e))"
  by (auto simp: outcomes_def kawait_eq split: sum.splits)

definition ok_reply :: "'a reply \<Rightarrow> bool" where
  "ok_reply r \<longleftrightarrow> 200 \<le> hr_status r \<and> hr_status r \<le> 299"

definition failed_with :: "(nat \<Rightarrow> exc + 'a reply) \<Rightarrow> exc \<Rightarrow> bool" where
  "failed_with f e \<longleftrightarrow> (\<exists>n. f n = Inl e) \<or> (\<exists>n r. f n = Inr r \<and> \<not> ok_reply r \<and> e = HttpStatus (hr_status r) (hr_text r))"

lemma outcomes_try_then:
  assumes "outcomes P m R F" and "\<And>x. outcomes (R x) (g (Inr x)) Q E" and "\<And>e. outcomes (F e) (g (Inl e)) Q E"
  shows "outcomes P (bindA (tryA m) g) Q E"
  unfolding outcomes_def
proof (intro allI impI)
  fix s assume P: "P s"
  obtain r s' where ms: "m s = (r, s')" by (cases "m s")
  have step: "bindA (tryA m) g s = g r s'" by (simp add: bindA_def tryA_def ms)
  show "case bindA (tryA m) g s of (Inl e, t) \<Rightarrow> E e t | (Inr x, t) \<Rightarrow> Q x t"
    using outcomesD [OF assms(1) P] assms(2,3) ms by (cases r) (auto simp: step outcomes_def)
qed

lemma outcomes_attempt:
  "outcomes (\<lambda>s. T \<le> ak_tick s) (bindA (kawait env f) (\<lambda>response. liftE (raise_for_status response)))
     (\<lambda>r s. \<exists>n. T \<le> n \<and> n < ak_tick s \<and> f n = Inr r \<and> ok_reply r) (\<lambda>e s. T \<le> ak_tick s \<and> failed_with f e)"
  unfolding outcomes_def bindA_eq kawait_eq liftE_def raise_for_status_def failed_with_def ok_reply_def
  by (auto split: sum.splits)

lemma outcomes_request:
  "outcomes (\<lambda>s. T \<le> ak_tick s) (request_attempts k env f)
     (\<lambda>r s. \<exists>n. T \<le> n \<and> n < ak_tick s \<and> f n = Inr r \<and> ok_reply r) (\<lambda>e s. failed_with f e)"
proof (induction k)
  case 0
  show ?case
    by (subst request_attempts.simps, rule outcomes_try_then [OF outcomes_attempt]) (auto intro: outcomes_ret outcomes_throw)
next
  case (Suc k)
  show ?case
    by (subst request_attempts.simps, rule outcomes_try_then [OF outcomes_attempt])
      (auto intro!: outcomes_ret outcomes_throw outcomes_if outcomes_seqA [OF outcomes_weaken [OF outcomes_kpause] Suc])
qed

section \<open>A history\<close>

lemma outcomes_page:
  assumes "\<And>r n. T \<le> n \<Longrightarrow> f n = Inr r \<Longrightarrow> ok_reply r \<Longrightarrow> outcomes (\<lambda>s. Suc n \<le> ak_tick s) (g r) Q E"
    and "\<And>e s. failed_with f e \<Longrightarrow> E e s"
  shows "outcomes (\<lambda>s. T \<le> ak_tick s) (bindA (request_with_retry env f) g) Q E"
  unfolding request_with_retry_def
proof (rule outcomes_bindA)
  show "outcomes (\<lambda>s. T \<le> ak_tick s) (request_attempts (ACCOUNTING_MAX_RETRIES - 1) env f)
      (\<lambda>r s. \<exists>n. (T \<le> n \<and> f n = Inr r \<and> ok_reply r) \<and> Suc n \<le> ak_tick s) E"
    by (rule outcomes_weaken [OF outcomes_request]) (auto intro: assms(2))
  show "outcomes (\<lambda>s. \<exists>n. (T \<le> n \<and> f n = Inr r \<and> ok_reply r) \<and> Suc n \<le> ak_tick s) (g r) Q E" for r
    by (intro outcomes_some outcomes_fact assms(1)) auto
qed

lemma prefix_take: "prefix xs ys \<Longrightarrow> k \<le> length xs \<Longrightarrow> take k ys = take k xs"
  by (auto simp: prefix_def)

lemma outcomes_history_pages:
  assumes grows: "\<And>m n. m \<le> n \<Longrightarrow> prefix (H m) (H n)"
    and served: "\<And>n page r. kv_history env n token page 100 = Inr r \<Longrightarrow> ok_reply r \<Longrightarrow>
        hr_data r = Inr (take 100 (drop (100 * page) (H n)), Inr (int (length (H n))))"
    and small: "\<And>n. length (H n) < 100 * kv_fuel env"
    and start: "T0 \<le> T" "page + k = kv_fuel env"
    and read: "\<And>n. T \<le> n \<Longrightarrow> entries = take (100 * page) (H n) \<and> 100 * page \<le> length (H n)"
  shows "outcomes (\<lambda>s. T \<le> ak_tick s) (history_pages k env token page entries)
     (\<lambda>es s. \<exists>n\<ge>T0. n < ak_tick s \<and> es = H n) (\<lambda>e s. \<exists>page. failed_with (\<lambda>n. kv_history env n token page 100) e)"
  using start read
proof (induction k arbitrary: T page entries)
  case 0
  then have False using small [of T] 0(3) [OF order_refl] by auto
  then show ?case ..
next
  case (Suc k)
  let ?E = "\<lambda>e s. \<exists>page. failed_with (\<lambda>n. kv_history env n token page 100) e"
  let ?rest = "\<lambda>r. bindA (liftE (hr_data r)) (\<lambda>(page_entries, listed).
     if length page_entries < HISTORY_PAGE_LIMIT then ret (entries @ page_entries)
     else bindA (liftE listed) (\<lambda>total_entries.
       if total_entries \<le> int (length (entries @ page_entries)) then ret (entries @ page_entries)
       else history_pages k env token (Suc page) (entries @ page_entries)))"
  have "outcomes (\<lambda>s. Suc n \<le> ak_tick s) (?rest r) (\<lambda>es s. \<exists>n\<ge>T0. n < ak_tick s \<and> es = H n) ?E"
    if n: "T \<le> n" and got: "kv_history env n token page 100 = Inr r" "ok_reply r" for n r
  proof -
    let ?page = "take 100 (drop (100 * page) (H n))"
    note data = served [OF got]
    note here = Suc.prems(3) [OF n]
    have so_far: "entries @ ?page = take (100 * Suc page) (H n)"
      using here by (simp add: take_add [symmetric] add.commute)
    have bound: "T0 \<le> n" using Suc.prems(1) n by simp
    consider (all_read) "entries @ ?page = H n" "length ?page < 100 \<or> length (H n) \<le> length (entries @ ?page)"
      | (more) "length ?page = 100" "length (entries @ ?page) < length (H n)"
      using so_far here by (cases "length (H n) \<le> 100 * Suc page") auto
    then show ?thesis
    proof cases
      case all_read
      then show ?thesis
        using bound by (auto simp: outcomes_def data bindA_eq liftE_def act_simps HISTORY_PAGE_LIMIT_def)
    next
      case more
      have next_read: "entries @ ?page = take (100 * Suc page) (H m) \<and> 100 * Suc page \<le> length (H m)" if "Suc n \<le> m" for m
        using prefix_take [OF grows, of n m "100 * Suc page"] prefix_length_le [OF grows, of n m] more so_far that by auto
      have "?rest r = history_pages k env token (Suc page) (entries @ ?page)"
        using more by (auto simp: data bindA_def liftE_def HISTORY_PAGE_LIMIT_def fun_eq_iff)
      moreover have "T0 \<le> Suc n" "Suc page + k = kv_fuel env" using bound Suc.prems(2) by auto
      ultimately show ?thesis
        using Suc.IH [OF _ _ next_read] by simp
    qed
  qed
  then show ?case
    unfolding history_pages.simps HISTORY_PAGE_LIMIT_def [symmetric]
    by (intro outcomes_page) (auto simp: HISTORY_PAGE_LIMIT_def)
qed

text \<open>C37: the history of a user is read as of one moment: while the service appends to it between the
  pages, the entries returned are exactly those it had when the last page was read, oldest first. The
  walk ends, and it fails only with a failure of a request.\<close>

theorem history_is_snapshot:
  assumes grows: "\<And>m n. m \<le> n \<Longrightarrow> prefix (H m) (H n)"
    and served: "\<And>n page r. kv_history env n token page 100 = Inr r \<Longrightarrow> 200 \<le> hr_status r \<Longrightarrow> hr_status r \<le> 299 \<Longrightarrow>
        hr_data r = Inr (take 100 (drop (100 * page) (H n)), Inr (int (length (H n))))"
    and small: "\<And>n. length (H n) < 100 * kv_fuel env"
  shows "case get_user_history env token s of
      (Inr entries, s') \<Rightarrow> \<exists>n\<ge>ak_tick s. n < ak_tick s' \<and> entries = sort_key he_ts (H n)
    | (Inl e, s') \<Rightarrow> \<exists>n page. kv_history env n token page 100 = Inl e
        \<or> (\<exists>r. kv_history env n token page 100 = Inr r \<and> \<not> (200 \<le> hr_status r \<and> hr_status r \<le> 299)
              \<and> e = HttpStatus (hr_status r) (hr_text r))"
proof -
  have "outcomes (\<lambda>t. ak_tick s \<le> ak_tick t) (history_pages (kv_fuel env) env token 0 [])
     (\<lambda>es t. \<exists>n\<ge>ak_tick s. n < ak_tick t \<and> es = H n) (\<lambda>e t. \<exists>page. failed_with (\<lambda>n. kv_history env n token page 100) e)"
    by (rule outcomes_history_pages [OF grows served small]) (auto simp: ok_reply_def)
  then show ?thesis
    by (fastforce simp: get_user_history_def bindA_eq act_simps outcomes_def failed_with_def ok_reply_def
        split: prod.splits sum.splits)
qed

section \<open>An identity\<close>

text \<open>\<open>exchanged env jwt c n a\<close>: \<open>a\<close> is what the service ok_reply question \<open>n\<close> with, which asked it about \<open>jwt\<close>,
  and its time counts from the earlier question \<open>c\<close>.\<close>

definition exchanged :: "acct_env \<Rightarrow> string \<Rightarrow> nat \<Rightarrow> nat \<Rightarrow> siwe_auth \<Rightarrow> bool" where
  "exchanged env jwt c n a \<longleftrightarrow>
     c < n \<and> (\<exists>r address expires_in. kv_exchange env n jwt = Inr r \<and> 200 \<le> hr_status r \<and> hr_status r \<le> 299
       \<and> hr_data r = Inr (sa_token a, address, expires_in) \<and> sa_token a \<noteq> [] \<and> 0 < expires_in
       \<and> kv_is_address env address \<and> kv_checksum env address = Inr (sa_address a)
       \<and> sa_expires a = kv_time env c + of_int (expires_in - 30))"

definition cache_ok :: "acct_env \<Rightarrow> acct \<Rightarrow> bool" where
  "cache_ok env s \<longleftrightarrow>
     (\<forall>key a. ak_auths s key = Some a \<longrightarrow> (\<exists>jwt c n. key = kv_hash env jwt \<and> exchanged env jwt c n a))"

definition shared_fairly :: "acct_env \<Rightarrow> bool" where
  "shared_fairly env \<longleftrightarrow> (\<forall>n s. cache_ok env s \<longrightarrow> cache_ok env (kv_other env n s))"

definition kept_from :: "acct_env \<Rightarrow> nat \<Rightarrow> acct \<Rightarrow> bool" where
  "kept_from env T s \<longleftrightarrow> cache_ok env s \<and> T \<le> ak_tick s"

text \<open>An answer the call may give: its own, or one that has not run out.\<close>

definition good_auth :: "acct_env \<Rightarrow> nat \<Rightarrow> string \<Rightarrow> siwe_auth \<Rightarrow> bool" where
  "good_auth env T jwt a \<longleftrightarrow>
     (\<exists>holder c n. kv_hash env holder = kv_hash env jwt \<and> exchanged env holder c n a
       \<and> (holder = jwt \<and> T \<le> c \<or> (\<exists>k\<ge>T. kv_time env k < sa_expires a)))"

lemma cache_ok_tick [simp]: "cache_ok env (s\<lparr>ak_tick := n\<rparr>) = cache_ok env s"
  by (simp add: cache_ok_def)

lemma cached_good:
  "cache_ok env s \<Longrightarrow> cached_auth (kv_time env k) (kv_hash env jwt) s = Some a \<Longrightarrow> T \<le> k \<Longrightarrow> good_auth env T jwt a"
  unfolding good_auth_def cached_auth_def cache_ok_def
  by (clarsimp split: option.splits if_splits) metis

lemma cache_ok_dropped: "cache_ok env s \<Longrightarrow> cache_ok env (s\<lparr>ak_auths := drop_expired now (ak_auths s)\<rparr>)"
  by (auto simp: cache_ok_def drop_expired_def split: option.splits if_splits)

lemma cache_ok_kept:
  assumes "cache_ok env s" and "exchanged env jwt c n a"
  shows "cache_ok env (s\<lparr>ak_auths := (drop_expired now (ak_auths s))(kv_hash env jwt \<mapsto> a)\<rparr>)"
    and "cache_ok env (s\<lparr>ak_auths := (drop_expired now (ak_auths s))(kv_hash env jwt := None)\<rparr>)"
  using assms by (auto simp: cache_ok_def drop_expired_def split: option.splits if_splits)

lemma outcomes_kclock:
  "outcomes (kept_from env T) (ktime env) (\<lambda>now s. \<exists>c. (now = kv_time env c \<and> T \<le> c) \<and> kept_from env (Suc c) s) E"
  by (auto simp: outcomes_def ktime_def kask_def kept_from_def)

lemma accept_exchange_good:
  assumes times: "T \<le> c" "c < n" and got: "kv_exchange env n jwt = Inr r"
  shows "outcomes (cache_ok env) (accept_exchange env (kv_hash env jwt) (kv_time env c) r)
     (\<lambda>a s. cache_ok env s \<and> good_auth env T jwt a) (\<lambda>_. cache_ok env)"
  unfolding outcomes_def
proof (intro allI impI)
  fix s assume ok: "cache_ok env s"
  have issue: "exchanged env jwt c n \<lparr>sa_token = token, sa_address = a, sa_expires = kv_time env c + of_int (t - 30)\<rparr>"
    if "200 \<le> hr_status r" "hr_status r \<le> 299" "hr_data r = Inr (token, address, t)" "token \<noteq> []" "0 < t"
      "kv_is_address env address" "kv_checksum env address = Inr a" for token address t a
    using times got that by (auto simp: exchanged_def)
  have good: "exchanged env jwt c n a \<Longrightarrow> good_auth env T jwt a" for a
    using times unfolding good_auth_def by blast
  show "case accept_exchange env (kv_hash env jwt) (kv_time env c) r s of
      (Inl e, t) \<Rightarrow> cache_ok env t | (Inr a, t) \<Rightarrow> cache_ok env t \<and> good_auth env T jwt a"
    using ok cache_ok_dropped [OF ok] cache_ok_kept [OF ok issue] good [OF issue]
    by (auto simp: accept_exchange_def act_eqs liftE_def raise_for_status_def keep_auth_def Let_def
        JWT_SIWE_CACHE_SKEW_SECONDS_def split: sum.splits if_splits)
qed

lemma exchange_fresh_good:
  assumes fair: "shared_fairly env" and c: "T \<le> c"
  shows "outcomes (kept_from env (Suc c)) (exchange_fresh env jwt (kv_hash env jwt) (kv_time env c))
     (\<lambda>a s. cache_ok env s \<and> good_auth env T jwt a) (\<lambda>_. cache_ok env)"
proof -
  have "outcomes (kept_from env (Suc c)) (kawait env (\<lambda>n. kv_exchange env n jwt))
     (\<lambda>r s. \<exists>n. (c < n \<and> kv_exchange env n jwt = Inr r) \<and> cache_ok env s) (\<lambda>_. cache_ok env)"
    using fair by (auto simp: outcomes_def kawait_eq shared_fairly_def kept_from_def Suc_le_eq split: sum.splits)
  then show ?thesis
    unfolding exchange_fresh_def
    by (rule outcomes_bindA) (intro outcomes_some outcomes_fact, elim conjE, rule accept_exchange_good [OF c])
qed

lemma exchange_good:
  assumes fair: "shared_fairly env"
  shows "outcomes (kept_from env T) (exchange_jwt_for_siwe_auth env jwt_token)
     (\<lambda>a s. cache_ok env s \<and> good_auth env T (strip jwt_token) a) (\<lambda>_. cache_ok env)"
proof -
  let ?jwt = "strip jwt_token"
  let ?Q = "\<lambda>a s. cache_ok env s \<and> good_auth env T ?jwt a"
  have look: "outcomes (kept_from env (Suc c)) (bindA (getA (cached_auth (kv_time env c) (kv_hash env ?jwt))) g) ?Q (\<lambda>_. cache_ok env)"
    if "T \<le> c" and "outcomes (kept_from env (Suc c)) (g None) ?Q (\<lambda>_. cache_ok env)" and "\<And>a. g (Some a) = ret a" for c g
    unfolding outcomes_def
  proof (intro allI impI)
    fix s assume s: "kept_from env (Suc c) s"
    show "case bindA (getA (cached_auth (kv_time env c) (kv_hash env ?jwt))) g s of
        (Inl e, t) \<Rightarrow> cache_ok env t | (Inr a, t) \<Rightarrow> ?Q a t"
    proof (cases "cached_auth (kv_time env c) (kv_hash env ?jwt) s")
      case None
      with that(2) s show ?thesis by (simp add: bindA_eq act_simps outcomes_def)
    next
      case (Some a)
      with cached_good [OF _ Some that(1)] s that(3) show ?thesis by (simp add: bindA_eq act_simps kept_from_def)
    qed
  qed
  have second: "outcomes (kept_from env (Suc c)) (bindA (ktime env) (\<lambda>now. bindA (getA (cached_auth now (kv_hash env ?jwt))) (\<lambda>cached.
       case cached of Some auth \<Rightarrow> ret auth | None \<Rightarrow> exchange_fresh env ?jwt (kv_hash env ?jwt) now))) ?Q (\<lambda>_. cache_ok env)"
    if "T \<le> c" for c
    by (rule outcomes_bindA [OF outcomes_kclock], intro outcomes_some outcomes_fact, elim conjE, hypsubst)
      (rule look, use that in \<open>auto intro!: exchange_fresh_good fair\<close>)
  have pause: "outcomes (kept_from env U) (kpause env) (\<lambda>_. kept_from env U) (\<lambda>_. cache_ok env)" for U
    using fair by (auto simp: outcomes_def kpause_def kept_from_def shared_fairly_def)
  have first: "outcomes (kept_from env T) (bindA (ktime env) (\<lambda>now. bindA (getA (cached_auth now (kv_hash env ?jwt))) (\<lambda>cached.
       case cached of Some auth \<Rightarrow> ret auth | None \<Rightarrow> seqA (kpause env) (bindA (ktime env) (\<lambda>now.
         bindA (getA (cached_auth now (kv_hash env ?jwt))) (\<lambda>cached.
           case cached of Some auth \<Rightarrow> ret auth | None \<Rightarrow> exchange_fresh env ?jwt (kv_hash env ?jwt) now)))))) ?Q (\<lambda>_. cache_ok env)"
    by (rule outcomes_bindA [OF outcomes_kclock], intro outcomes_some outcomes_fact, elim conjE, hypsubst)
      (rule look, auto intro!: outcomes_seqA [OF pause second])
  show ?thesis
    unfolding exchange_jwt_for_siwe_auth_def Let_def
    by (rule outcomes_seqA [OF _ first]) (auto simp: outcomes_def act_simps kept_from_def)
qed

lemma dropWhile_strip: "(\<And>c. xs \<noteq> [] \<Longrightarrow> \<not> P (hd xs)) \<Longrightarrow> dropWhile P xs = xs"
  by (cases xs) auto

lemma strip_strip [simp]: "strip (strip s) = strip s"
proof -
  define t where "t = dropWhile re_space s"
  define u where "u = rev (dropWhile re_space (rev t))"
  have head: "\<not> re_space (hd t)" if "t \<noteq> []" using that hd_dropWhile [of re_space s] by (simp add: t_def)
  obtain w where w: "t = u @ w"
    using takeWhile_dropWhile_id [of re_space "rev t"] by (metis rev_append rev_rev_ident u_def)
  have "\<not> re_space (hd u)" if "u \<noteq> []" using head that w by simp
  then have "dropWhile re_space u = u" by (auto intro: dropWhile_strip)
  moreover have "rev (dropWhile re_space (rev u)) = u" by (simp add: u_def)
  ultimately show ?thesis by (simp add: strip_def t_def [symmetric] u_def [symmetric])
qed

lemma bearer_token_parts:
  assumes "bearer_token authorization = Inr jwt"
  shows "\<exists>scheme rest. authorization = scheme @ CHR '' '' # rest \<and> lower scheme = ''bearer'' \<and> CHR '' '' \<notin> set scheme
           \<and> jwt = strip rest \<and> jwt \<noteq> []"
proof -
  let ?space = "\<lambda>c. c \<noteq> CHR '' ''"
  have ok: "lower (takeWhile ?space authorization) = ''bearer''" "jwt = strip (drop 1 (dropWhile ?space authorization))" "jwt \<noteq> []"
    using assms by (auto simp: bearer_token_def Let_def split: if_splits)
  then obtain c rest where tail: "dropWhile ?space authorization = c # rest"
    by (cases "dropWhile ?space authorization") (auto simp: strip_def)
  then have "c = CHR '' ''" using hd_dropWhile [of ?space authorization] by auto
  with tail have "authorization = takeWhile ?space authorization @ CHR '' '' # rest"
    using takeWhile_dropWhile_id [of ?space authorization] by simp
  moreover have "CHR '' '' \<notin> set (takeWhile ?space authorization)" by (auto dest: set_takeWhileD)
  ultimately show ?thesis using ok tail by auto
qed

lemma resolve_eq:
  "resolve_via_accounting call detail s =
     (case call s of (Inr x, t) \<Rightarrow> (Inr x, t) | (Inl e, t) \<Rightarrow> (Inl (auth_failure detail e), t))"
  by (simp add: resolve_via_accounting_def bindA_eq tryA_def act_simps split: prod.splits sum.splits)

text \<open>What the body of \<open>jwt_identity\<close> does once the headers are in order.\<close>

lemma jwt_identity_of_cases:
  obtains (refused) e where "jwt_identity_of env headers s = (Inl e, s)"
      "\<exists>code detail. e = HTTPException code detail \<and> (code = 400 \<and> truthy (headers ''x-siwe-token'')
          \<or> code = 401 \<and> (\<forall>a. headers ''authorization'' = Some a \<longrightarrow> (\<exists>f. bearer_token a = Inl f)))"
  | (asked) authorization jwt where "headers ''x-siwe-token'' \<in> {None, Some []}" "headers ''authorization'' = Some authorization"
      "bearer_token authorization = Inr jwt"
      "jwt_identity_of env headers s = resolve_via_accounting (get_jwt_identity env jwt) ''Accounting token validation failed'' s"
proof -
  show thesis
  proof (cases "truthy (headers ''x-siwe-token'')")
    case True
    then show thesis by (intro refused) (auto simp: jwt_identity_of_def act_eqs)
  next
    case False
    then have plain: "headers ''x-siwe-token'' \<in> {None, Some []}" by (auto simp: truthy_def split: option.splits)
    show thesis
    proof (cases "headers ''authorization''")
      case None
      with False show thesis by (intro refused) (auto simp: jwt_identity_of_def act_eqs auth_error_def)
    next
      case (Some authorization)
      show thesis
      proof (cases "bearer_token authorization")
        case (Inl e)
        then have "e = auth_error ''Invalid bearer token''" by (auto simp: bearer_token_def Let_def split: if_splits)
        with Inl False Some show thesis
          by (intro refused [of "if authorization = [] then auth_error ''Bearer token required'' else e"])
            (simp_all add: jwt_identity_of_def act_eqs auth_error_def liftE_def)
      next
        case (Inr jwt)
        then have "authorization \<noteq> []" using bearer_token_parts by fastforce
        with False Some plain Inr show thesis by (intro asked) (auto simp: jwt_identity_of_def act_eqs liftE_def)
      qed
    qed
  qed
qed

text \<open>C38: a caller is taken for the owner of an address only on the word of the accounting service about the
  bearer token that came with the request (or one of the same hash): its answer to this very call, or one kept
  from before that is used less than its lifetime, less 30 seconds, after it was asked for. The address is the
  checksummed one of that answer. Whatever happens, only such answers are kept.\<close>

theorem caller_identified:
  assumes fair: "\<And>n t. cache_ok env t \<Longrightarrow> cache_ok env (kv_other env n t)" and start: "cache_ok env s"
    and run: "jwt_identity_of env headers s = (r, s')"
  shows "cache_ok env s' \<and> (\<forall>identity. r = Inr identity \<longrightarrow>
     headers ''x-siwe-token'' \<in> {None, Some []}
     \<and> (\<exists>scheme rest. headers ''authorization'' = Some (scheme @ CHR '' '' # rest) \<and> lower scheme = ''bearer''
        \<and> (\<exists>holder c n reply address expires_in. kv_hash env holder = kv_hash env (strip rest)
             \<and> kv_exchange env n holder = Inr reply \<and> 200 \<le> hr_status reply \<and> hr_status reply \<le> 299
             \<and> hr_data reply = Inr (ji_token identity, address, expires_in) \<and> ji_token identity \<noteq> []
             \<and> kv_is_address env address \<and> kv_checksum env address = Inr (ji_address identity)
             \<and> c < n \<and> (holder = strip rest \<and> ak_tick s \<le> c
                  \<or> (\<exists>k\<ge>ak_tick s. kv_time env k < kv_time env c + of_int (expires_in - 30))))))"
proof -
  have here: "kept_from env (ak_tick s) s" using start by (simp add: kept_from_def)
  have good: "outcomes (kept_from env (ak_tick s)) (exchange_jwt_for_siwe_auth env t)
     (\<lambda>a s'. cache_ok env s' \<and> good_auth env (ak_tick s) (strip t) a) (\<lambda>_. cache_ok env)" for t
    by (rule exchange_good) (use fair in \<open>auto simp: shared_fairly_def\<close>)
  show ?thesis
  proof (cases rule: jwt_identity_of_cases [of env headers s])
    case refused
    with run start show ?thesis by auto
  next
    case (asked authorization jwt)
    obtain out u where ex: "exchange_jwt_for_siwe_auth env jwt s = (out, u)" by (cases "exchange_jwt_for_siwe_auth env jwt s")
    have u: "cache_ok env u" "out = Inr a \<Longrightarrow> good_auth env (ak_tick s) (strip jwt) a" for a
      using outcomesD [OF good here] ex by (cases out; auto)+
    have state: "s' = u" and returned: "r = Inr identity \<Longrightarrow> \<exists>a. out = Inr a \<and> identity = \<lparr>ji_token = sa_token a, ji_address = sa_address a\<rparr>" for identity
      using run unfolding asked(4) resolve_eq get_jwt_identity_def bindA_eq ex by (auto simp: act_simps split: sum.splits)
    obtain scheme rest where parts: "authorization = scheme @ CHR '' '' # rest" "lower scheme = ''bearer''" "jwt = strip rest"
      using bearer_token_parts [OF asked(3)] by blast
    have "\<exists>holder c n reply address expires_in. kv_hash env holder = kv_hash env (strip rest)
             \<and> kv_exchange env n holder = Inr reply \<and> 200 \<le> hr_status reply \<and> hr_status reply \<le> 299
             \<and> hr_data reply = Inr (ji_token identity, address, expires_in) \<and> ji_token identity \<noteq> []
             \<and> kv_is_address env address \<and> kv_checksum env address = Inr (ji_address identity)
             \<and> c < n \<and> (holder = strip rest \<and> ak_tick s \<le> c
                  \<or> (\<exists>k\<ge>ak_tick s. kv_time env k < kv_time env c + of_int (expires_in - 30)))" if "r = Inr identity" for identity
    proof -
      from returned [OF that] obtain a where a: "out = Inr a" "identity = \<lparr>ji_token = sa_token a, ji_address = sa_address a\<rparr>"
        by blast
      with u(2) [of a] parts(3) show ?thesis
        unfolding good_auth_def exchanged_def by simp metis
    qed
    with asked parts u(1) state show ?thesis by blast
  qed
qed

section \<open>The failures of an identity\<close>

definition exchange_fault :: "acct_env \<Rightarrow> exc \<Rightarrow> bool" where
  "exchange_fault env e \<longleftrightarrow>
     (\<exists>m. e = ValueError m) \<or> (\<exists>m. e = RuntimeError m) \<or> (\<exists>n jwt. kv_exchange env n jwt = Inl e)
     \<or> (\<exists>n jwt r. kv_exchange env n jwt = Inr r \<and> (hr_data r = Inl e \<or> e = HttpStatus (hr_status r) (hr_text r)))
     \<or> (\<exists>address. kv_checksum env address = Inl e)"

lemma exchange_faults:
  assumes "exchange_jwt_for_siwe_auth env jwt s = (Inl e, s')"
  shows "exchange_fault env e"
proof -
  have accept: "outcomes (\<lambda>_. True) (accept_exchange env key now r) (\<lambda>_ _. True) (\<lambda>e _. exchange_fault env e)"
    if "kv_exchange env n j = Inr r" for key now r n j
    using that by (auto simp: outcomes_def accept_exchange_def keep_auth_def Let_def act_eqs liftE_def raise_for_status_def
        exchange_fault_def split: sum.splits if_splits prod.splits)
  have fresh: "outcomes (\<lambda>_. True) (exchange_fresh env j key now) (\<lambda>_ _. True) (\<lambda>e _. exchange_fault env e)" for j key now
    unfolding exchange_fresh_def
  proof (rule outcomes_bindA)
    show "outcomes (\<lambda>_. True) (kawait env (\<lambda>n. kv_exchange env n j))
        (\<lambda>r _. \<exists>n. kv_exchange env n j = Inr r \<and> True) (\<lambda>e _. exchange_fault env e)"
      by (auto simp: outcomes_def kawait_eq exchange_fault_def split: sum.splits)
    show "outcomes (\<lambda>_. \<exists>n. kv_exchange env n j = Inr r \<and> True) (accept_exchange env key now r) (\<lambda>_ _. True)
        (\<lambda>e _. exchange_fault env e)" for r
      by (intro outcomes_some outcomes_fact accept)
  qed
  have pass: "outcomes (\<lambda>_. True) (ktime env) (\<lambda>_ _. True) E" "outcomes (\<lambda>_. True) (kpause env) (\<lambda>_ _. True) E"
    "outcomes (\<lambda>_. True) (getA g) (\<lambda>_ _. True) E" for E g
    by (simp_all add: outcomes_def ktime_def kask_def kpause_def act_simps)
  have own: "exchange_fault env (ValueError m)" for m by (simp add: exchange_fault_def)
  have "outcomes (\<lambda>_. True) (exchange_jwt_for_siwe_auth env jwt) (\<lambda>_ _. True) (\<lambda>e _. exchange_fault env e)"
    unfolding exchange_jwt_for_siwe_auth_def Let_def
    using own
    by (intro outcomes_seqA [where R = "\<lambda>_. True"] outcomes_bindA [OF pass(1)] outcomes_bindA [OF pass(3)] outcomes_if outcomes_throw)
      (auto intro!: outcomes_ret outcomes_seqA [OF pass(2)] outcomes_bindA [OF pass(1)] outcomes_bindA [OF pass(3)] fresh
        split: option.splits)
  from outcomesD(2) [OF this TrueI assms] show ?thesis .
qed


end
