(* ===== verification/AccountingDemo.thy ===== *)
theory AccountingDemo
  imports AccountingInv
begin

text \<open>An accounting service with a growing history and one known caller, and the properties of the client
  applied to it.\<close>

definition entry_at :: "nat \<Rightarrow> history_entry" where
  "entry_at i = \<lparr>he_kind = ''deposit'', he_ts = int i, he_token = None, he_amount = None, he_counterparty = None\<rparr>"

definition history_at :: "nat \<Rightarrow> history_entry list" where
  "history_at n = map entry_at [0..<min 250 (120 + n)]"

definition demo_acct :: acct_env where
  "demo_acct =
     \<lparr>kv_time = of_nat, kv_utc = of_nat, kv_other = (\<lambda>_ s. s), kv_stamp = (\<lambda>_. []), kv_base_url = ''https://a'',
      kv_lp_address = ''0x1'', kv_chain = 23294, kv_key = Inr (), kv_sign = (\<lambda>_. Inr ''0x''), kv_hash = (\<lambda>t. t),
      kv_is_address = (\<lambda>a. a \<noteq> []), kv_checksum = Inr, kv_nonce = (\<lambda>_ _. Inl (TransportError [] [])),
      kv_login = (\<lambda>_ _ _. Inl (TransportError [] [])), kv_balance = (\<lambda>_ _ _. Inl (TransportError [] [])),
      kv_token = (\<lambda>_ _. Inl (TransportError [] [])), kv_tokens = (\<lambda>_. Inl (TransportError [] [])),
      kv_exchange = (\<lambda>_ jwt. Inr
        (if jwt = ''good'' then \<lparr>hr_status = 200, hr_text = [], hr_data = Inr (''siwe'', ''0xA'', 3600)\<rparr>
         else \<lparr>hr_status = 401, hr_text = [], hr_data = Inl KeyError\<rparr>)),
      kv_history = (\<lambda>n _ page limit. Inr \<lparr>hr_status = 200, hr_text = [],
        hr_data = Inr (take limit (drop (limit * page) (history_at n)), Inr (int (length (history_at n))))\<rparr>),
      kv_fuel = 3\<rparr>"

definition acct_start :: acct where
  "acct_start = \<lparr>ak_tick = 0, ak_siwe = None, ak_jwt = None, ak_auth_at = None, ak_infos = Map.empty, ak_auths = Map.empty\<rparr>"

text \<open>A history that grows from 120 to 250 entries while it is read.\<close>

theorem history_is_snapshot_witness:
  "\<exists>n s'. get_user_history demo_acct ''siwe'' acct_start = (Inr (sort_key he_ts (history_at n)), s')"
proof -
  have grows: "prefix (history_at m) (history_at n)" if "m \<le> n" for m n
  proof -
    have "history_at m = take (min 250 (120 + m)) (history_at n)"
      using that by (simp add: history_at_def take_map min_def)
    then show ?thesis by (simp add: take_is_prefix)
  qed
  have served: "kv_history demo_acct n ''siwe'' page 100 = Inr r \<Longrightarrow> 200 \<le> hr_status r \<Longrightarrow> hr_status r \<le> 299 \<Longrightarrow>
      hr_data r = Inr (take 100 (drop (100 * page) (history_at n)), Inr (int (length (history_at n))))" for n page r
    by (auto simp: demo_acct_def)
  have small: "length (history_at n) < 100 * kv_fuel demo_acct" for n
    by (simp add: history_at_def demo_acct_def)
  have answered: "\<exists>r. kv_history demo_acct n ''siwe'' page 100 = Inr r \<and> hr_status r = 200" for n page
    by (simp add: demo_acct_def)
  obtain r s' where run: "get_user_history demo_acct ''siwe'' acct_start = (r, s')"
    by (cases "get_user_history demo_acct ''siwe'' acct_start")
  note shown = history_is_snapshot [where H = history_at and env = demo_acct and token = "''siwe''" and s = acct_start, OF grows served small, unfolded run]
  show ?thesis
  proof (cases r)
    case (Inl e)
    with shown obtain n page where "kv_history demo_acct n ''siwe'' page 100 = Inl e
        \<or> (\<exists>r. kv_history demo_acct n ''siwe'' page 100 = Inr r \<and> \<not> (200 \<le> hr_status r \<and> hr_status r \<le> 299))"
      by auto
    with answered [of n page] show ?thesis by auto
  next
    case (Inr entries)
    with shown run show ?thesis by auto
  qed
qed

definition demo_headers :: "string \<rightharpoonup> string" where
  "demo_headers = [''authorization'' \<mapsto> ''Bearer good'']"

theorem caller_identified_witness:
  "\<exists>s'. jwt_identity_of demo_acct demo_headers acct_start = (Inr \<lparr>ji_token = ''siwe'', ji_address = ''0xA''\<rparr>, s')
     \<and> cache_ok demo_acct s'"
proof -
  have evaluated: "fst (jwt_identity_of demo_acct demo_headers acct_start) = Inr \<lparr>ji_token = ''siwe'', ji_address = ''0xA''\<rparr>"
    by code_simp
  obtain s' where run: "jwt_identity_of demo_acct demo_headers acct_start = (Inr \<lparr>ji_token = ''siwe'', ji_address = ''0xA''\<rparr>, s')"
    using evaluated by (metis prod.collapse)
  have "cache_ok demo_acct s'"
    using caller_identified [OF _ _ run] by (simp add: cache_ok_def demo_acct_def acct_start_def)
  with run show ?thesis by blast
qed


end
