(* ===== verification/EarnRoutes.thy ===== *)
theory EarnRoutes
  imports Rates Ledger EarnWorker
begin

text \<open>
  The earn routes (\<open>api/earn.py\<close>), the snapshot of the pool listing (\<open>services/earn/cache.py\<close>) and the reads of
  the vault service behind them that nothing else uses. Decimal texts of an answer are the numbers they print;
  what \<open>asyncio.gather\<close> runs side by side is run in order, other tasks coming in between, so that of several
  failures the first in order is the one raised.
\<close>

section \<open>Positions\<close>

record position =
  po_pool :: string
  po_token :: string
  po_shares :: int
  po_underlying :: int
  po_rate :: shown_rate
  po_change :: "change option"
  po_earned :: "int option"
  po_status :: earned_status
  po_basis :: "int option"
  po_deposits :: nat
  po_first :: "int option"

definition get_withdraw_nonce :: "(nat \<Rightarrow> nat list \<Rightarrow> exc + nat) \<Rightarrow> string \<Rightarrow> nat vact" where
  "get_withdraw_nonce nonce_of token_hex =
     bindA (liftE (pool_bytes token_hex)) (\<lambda>token. read_with_retry (\<lambda>n. nonce_of n token))"

text \<open>A position of the bearer of a token in one pool: its shares, its value, the rate and pool it has.\<close>

definition get_user_balance :: "'e vault_env_scheme \<Rightarrow> nat list \<Rightarrow> string \<Rightarrow> (string \<times> string \<times> int \<times> int \<times> shown_rate) vact" where
  "get_user_balance env pool_id token_hex =
     bindA (get_user_shares env pool_id token_hex) (\<lambda>shares.
     bindA (if 0 < shares then convert_to_assets env pool_id shares else ret 0) (\<lambda>underlying.
     bindA (get_pool env pool_id) (\<lambda>pool.
       ret (pool_hex pool_id, ps_token pool, shares, underlying, exchange_rate (ps_assets pool) (ps_shares pool)))))"

definition position_change ::
  "'e vault_env_scheme \<Rightarrow> (nat \<Rightarrow> rate_row list) \<Rightarrow> string option \<Rightarrow> string \<Rightarrow> int \<Rightarrow> int \<Rightarrow> int \<Rightarrow> change option vact" where
  "position_change env rates user_address pool_id shares total_assets total_shares =
     bindA (vnow env) (\<lambda>now.
     in_thread env
       (bindA (vask (\<lambda>n. Inr (rates n))) (\<lambda>t.
        bindA (vquery (change_24h user_address pool_id shares total_assets total_shares now t)) liftE)))"

definition fetch_balance ::
  "'e vault_env_scheme \<Rightarrow> (string \<Rightarrow> int option) \<Rightarrow> (nat \<Rightarrow> rate_row list) \<Rightarrow> string \<Rightarrow> string option
     \<Rightarrow> nat list \<times> pool_state \<Rightarrow> position option vact" where
  "fetch_balance env unrecorded rates token_hex user_address entry =
     (case entry of (raw_id, pool) \<Rightarrow>
      let pool_id_hex = pool_hex raw_id in
      bindA (liftE (pool_bytes pool_id_hex)) (\<lambda>pool_id.
      bindA (in_thread env (get_user_shares env pool_id token_hex)) (\<lambda>shares.
      if shares = 0 then ret None
      else
      bindA (in_thread env (convert_to_assets env pool_id shares)) (\<lambda>underlying.
      bindA (rate_snapshot env pool_id_hex) (\<lambda>snapshot.
      bindA (tryA (case snapshot of
                     None \<Rightarrow> ret None
                   | Some (assets, in_pool) \<Rightarrow>
                       position_change env rates user_address pool_id_hex shares assets in_pool)) (\<lambda>changed.
      bindA (tryA (in_thread env (vquery (earned_active unrecorded user_address pool_id_hex shares underlying (Some (ps_shares pool)))))) (\<lambda>looked.
      let earned = (case looked of Inl _ \<Rightarrow> withheld LedgerIncomplete | Inr e \<Rightarrow> e) in
      ret (Some \<lparr>po_pool = pool_id_hex, po_token = ps_token pool, po_shares = shares, po_underlying = underlying,
        po_rate = exchange_rate (case snapshot of Some (assets, _) \<Rightarrow> assets | None \<Rightarrow> ps_assets pool) (ps_shares pool),
        po_change = (case changed of Inl _ \<Rightarrow> None | Inr c \<Rightarrow> c),
        po_earned = er_active earned, po_status = er_verdict earned, po_basis = er_cost_basis earned,
        po_deposits = er_deposits earned, po_first = er_first earned\<rparr>))))))))"

fun fetch_balances ::
  "'e vault_env_scheme \<Rightarrow> (string \<Rightarrow> int option) \<Rightarrow> (nat \<Rightarrow> rate_row list) \<Rightarrow> string \<Rightarrow> string option
     \<Rightarrow> (nat list \<times> pool_state) list \<Rightarrow> position list vact" where
  "fetch_balances env unrecorded rates token_hex user_address [] = ret []"
| "fetch_balances env unrecorded rates token_hex user_address (entry # pools) =
     bindA (fetch_balance env unrecorded rates token_hex user_address entry) (\<lambda>found.
     bindA (fetch_balances env unrecorded rates token_hex user_address pools) (\<lambda>rest.
       ret (case found of None \<Rightarrow> rest | Some p \<Rightarrow> p # rest)))"

definition get_all_balances ::
  "'e vault_env_scheme \<Rightarrow> (string \<Rightarrow> int option) \<Rightarrow> (nat \<Rightarrow> rate_row list) \<Rightarrow> string \<Rightarrow> string option \<Rightarrow> position list vact" where
  "get_all_balances env unrecorded rates token_hex user_address =
     seqA (if token_hex = [] then throw (ValueError ''token is required'') else ret ())
     (bindA (in_thread env (list_pools env)) (fetch_balances env unrecorded rates token_hex user_address))"

text \<open>The check of \<open>BalanceResponse\<close>.\<close>

definition earned_value_matches_status :: "position \<Rightarrow> bool" where
  "earned_value_matches_status p \<longleftrightarrow> (po_earned p = None) = (po_status p \<noteq> EarnedOk)"

definition balance_responses :: "position list \<Rightarrow> exc + position list" where
  "balance_responses ps =
     (if list_all earned_value_matches_status ps then Inr ps
      else Inl (ValueError (''earned_active must be set if and only if earned_active_status is '' @ [CHR 0x27] @ ''ok'' @ [CHR 0x27])))"

section \<open>Answers\<close>

text \<open>\<open>except ValueError\<close> with its own status, and \<open>except Exception\<close> with 500 and a fixed text.\<close>

definition answered_by :: "int \<Rightarrow> string \<Rightarrow> 'a vact \<Rightarrow> 'a vact" where
  "answered_by bad_value failure m =
     bindA (tryA m) (\<lambda>r.
     case r of
       Inr x \<Rightarrow> ret x
     | Inl (ValueError text) \<Rightarrow> throw (HTTPException bad_value text)
     | Inl _ \<Rightarrow> throw (HTTPException 500 failure))"

definition POOL_ID_HEX_LEN :: nat where "POOL_ID_HEX_LEN = 64"

definition pool_id_bytes :: "string \<Rightarrow> exc + nat list" where
  "pool_id_bytes pool_id =
     (let stripped = removeprefix ''0x'' pool_id;
          raw = (case fromhex stripped of None \<Rightarrow> [] | Some bs \<Rightarrow> bs)
      in if length stripped \<noteq> POOL_ID_HEX_LEN \<or> length raw \<noteq> 32
         then Inl (HTTPException 400 ''pool_id must be a 32-byte hex value'') else Inr raw)"

definition get_balances ::
  "'e vault_env_scheme \<Rightarrow> (string \<Rightarrow> int option) \<Rightarrow> (nat \<Rightarrow> rate_row list) \<Rightarrow> string \<Rightarrow> string option \<Rightarrow> position list vact" where
  "get_balances env unrecorded rates token_hex user_address =
     answered_by 400 ''Failed to get balances''
       (bindA (get_all_balances env unrecorded rates token_hex user_address) (\<lambda>ps. liftE (balance_responses ps)))"

record pool_answer =
  pa_pool :: string
  pa_token :: string
  pa_strategy :: string
  pa_assets :: int
  pa_address :: string
  pa_apy :: int
  pa_active :: bool

record pool_detail = pool_answer +
  pd_shares :: int

definition get_pool_route :: "'e vault_env_scheme \<Rightarrow> string \<Rightarrow> pool_detail vact" where
  "get_pool_route env pool_id =
     bindA (liftE (pool_id_bytes pool_id)) (\<lambda>raw.
     answered_by 404 ''Failed to get pool''
       (bindA (in_thread env (get_pool env raw)) (\<lambda>p.
        seqA (if ps_address p = ZERO_POOL then throw (ValueError ''Pool not found'') else ret ())
        (bindA (effective_total_assets env pool_id (ps_assets p)) (\<lambda>effective.
         bindA (strategy_apy_safe env pool_id) (\<lambda>apy_bps.
           ret \<lparr>pa_pool = pool_id, pa_token = ps_token p, pa_strategy = st_name (ve_strategy env pool_id),
             pa_assets = effective, pa_address = ps_address p, pa_apy = apy_bps, pa_active = ps_active p,
             pd_shares = ps_shares p\<rparr>))))))"

definition get_deposit_quote_route :: "'e vault_env_scheme \<Rightarrow> string \<Rightarrow> string \<Rightarrow> string \<Rightarrow> deposit_quote vact" where
  "get_deposit_quote_route env pool_id amount user_address =
     bindA (liftE (pool_id_bytes pool_id)) (\<lambda>_.
       answered_by 400 ''Failed to get deposit quote'' (get_deposit_quote env pool_id amount user_address))"

text \<open>The posts: 409 is an answer with a payload of its own, and what is not listed leaves the route.\<close>

datatype conflict = NonceHeld string string | NonceSpent nat

definition require_earn_worker :: "bool \<Rightarrow> exc + unit" where
  "require_earn_worker signs_as_lp = (if signs_as_lp then Inl (HTTPException 503 ''Earn is disabled'') else Inr ())"

definition deposit_route ::
  "'e vault_env_scheme \<Rightarrow> bool \<Rightarrow> string \<Rightarrow> string \<Rightarrow> string \<Rightarrow> nat \<Rightarrow> string \<Rightarrow> (conflict + string \<times> earn_status) vact" where
  "deposit_route env signs_as_lp pool_id user_address amount nonce signature =
     bindA (liftE (require_earn_worker signs_as_lp)) (\<lambda>_.
     bindA (liftE (pool_id_bytes pool_id)) (\<lambda>_.
     bindA (tryA (schedule_deposit env pool_id user_address amount nonce signature)) (\<lambda>r.
     case r of
       Inr scheduled \<Rightarrow> ret (Inr scheduled)
     | Inl (OperationPending kind holder) \<Rightarrow> ret (Inl (NonceHeld kind holder))
     | Inl (StaleNonce _ current) \<Rightarrow> ret (Inl (NonceSpent current))
     | Inl (PendingLimitReached held) \<Rightarrow>
         throw (HTTPException 429 (show_nat held @ '' earn requests are still being processed; wait for one to finish before sending another''))
     | Inl (ValueError text) \<Rightarrow> throw (HTTPException 400 text)
     | Inl e \<Rightarrow> throw e)))"

definition withdraw_route ::
  "'e vault_env_scheme \<Rightarrow> bool \<Rightarrow> string \<Rightarrow> string \<Rightarrow> string \<Rightarrow> nat \<Rightarrow> string \<Rightarrow> (string \<times> earn_status) vact" where
  "withdraw_route env signs_as_lp pool_id user_address amount nonce signature =
     bindA (liftE (require_earn_worker signs_as_lp)) (\<lambda>_.
     bindA (liftE (pool_id_bytes pool_id)) (\<lambda>_.
     bindA (tryA (schedule_withdraw env pool_id user_address amount nonce signature)) (\<lambda>r.
     case r of
       Inr scheduled \<Rightarrow> ret scheduled
     | Inl (PendingLimitReached held) \<Rightarrow>
         throw (HTTPException 429 (show_nat held @ '' earn requests are still being processed; wait for one to finish before sending another''))
     | Inl (ValueError text) \<Rightarrow> throw (HTTPException 400 text)
     | Inl e \<Rightarrow> throw e)))"

definition get_withdraw_nonce_route :: "'e vault_env_scheme \<Rightarrow> (nat \<Rightarrow> nat list \<Rightarrow> exc + nat) \<Rightarrow> string \<Rightarrow> nat vact" where
  "get_withdraw_nonce_route env nonce_of token_hex =
     answered_by 400 ''Failed to fetch withdraw nonce'' (in_thread env (get_withdraw_nonce nonce_of token_hex))"

section \<open>The snapshot of the listing\<close>

fun pool_answers :: "'e vault_env_scheme \<Rightarrow> (nat list \<times> pool_state) list \<Rightarrow> pool_answer list vact" where
  "pool_answers env [] = ret []"
| "pool_answers env ((raw_id, p) # pools) =
     bindA (effective_total_assets env (pool_hex raw_id) (ps_assets p)) (\<lambda>effective.
     bindA (strategy_apy_safe env (pool_hex raw_id)) (\<lambda>apy_bps.
     bindA (pool_answers env pools) (\<lambda>rest.
       ret (\<lparr>pa_pool = pool_hex raw_id, pa_token = ps_token p, pa_strategy = st_name (ve_strategy env (pool_hex raw_id)),
          pa_assets = effective, pa_address = ps_address p, pa_apy = apy_bps,
          pa_active = ps_active p\<rparr> # rest))))"

definition refresh_once :: "'e vault_env_scheme \<Rightarrow> pool_answer list vact" where
  "refresh_once env = bindA (in_thread env (list_pools env)) (pool_answers env)"

text \<open>A turn of the loop: a failed refresh leaves the snapshot.\<close>

definition cache_turn :: "'e vault_env_scheme \<Rightarrow> pool_answer list option \<Rightarrow> pool_answer list option vact" where
  "cache_turn env snapshot =
     bindA (tryA (refresh_once env)) (\<lambda>r. ret (case r of Inr pools \<Rightarrow> Some pools | Inl _ \<Rightarrow> snapshot))"

definition list_pools_route :: "pool_answer list option \<Rightarrow> exc + pool_answer list" where
  "list_pools_route snapshot =
     (case snapshot of None \<Rightarrow> Inl (HTTPException 503 ''Earn pools are loading'') | Some pools \<Rightarrow> Inr pools)"

section \<open>What a balance shows\<close>

lemma earned_coherent: "(er_active (earned_active u user p shares v t d) = None) = (er_verdict (earned_active u user p shares v t d) \<noteq> EarnedOk)"
  by (auto simp: earned_active_def withheld_def Let_def split: option.splits)

lemma earned_anonymous: "user \<in> {None, Some []} \<Longrightarrow> er_verdict (earned_active u user p shares v t d) = Unsupported"
  by (auto simp: earned_active_def withheld_def)

lemma change_anonymous: "user \<in> {None, Some []} \<Longrightarrow> change_24h user p shares a t now rates d = Inr None"
  by (auto simp: change_24h_def)

definition presentable :: "string option \<Rightarrow> position \<Rightarrow> bool" where
  "presentable user p \<longleftrightarrow> po_shares p \<noteq> 0 \<and> (po_earned p = None) = (po_status p \<noteq> EarnedOk)
     \<and> (user \<in> {None, Some []} \<longrightarrow> po_change p = None \<and> po_status p = Unsupported)"

lemma hoare_any: "hoare (\<lambda>_. True) m (\<lambda>_ _. True) (\<lambda>_. True)"
  by (simp add: hoare_def split: prod.splits sum.splits)

lemma hoare_then: "(\<And>x. hoare (\<lambda>_. True) (f x) Q (\<lambda>_. True)) \<Longrightarrow> hoare (\<lambda>_. True) (bindA m f) Q (\<lambda>_. True)"
  by (rule hoare_bindA [OF hoare_any])

lemma hoare_then_fact:
  assumes "hoare (\<lambda>_. True) m (\<lambda>x _. P x) (\<lambda>_. True)" and "\<And>x. P x \<Longrightarrow> hoare (\<lambda>_. True) (f x) Q (\<lambda>_. True)"
  shows "hoare (\<lambda>_. True) (bindA m f) Q (\<lambda>_. True)"
  using assms by (fastforce simp: hoare_def bindA_def split: prod.splits sum.splits)

lemma hoare_returns: "Q x \<Longrightarrow> hoare (\<lambda>_. True) (ret x) (\<lambda>x _. Q x) E"
  by (simp add: hoare_def act_simps)

lemma in_thread_eq: "in_thread env m s = (case m s of (x, s') \<Rightarrow> (x, (ee_other env (vs_tick s') s')\<lparr>vs_tick := Suc (vs_tick s')\<rparr>))"
  by (simp add: in_thread_def vpause_def tryA_def liftE_def act_eqs split: prod.splits)

lemma fetched_earned:
  "hoare (\<lambda>_. True) (tryA (in_thread env (vquery (earned_active u user p shares v t))))
     (\<lambda>r _. \<exists>d. r = Inr (earned_active u user p shares v t d)) (\<lambda>_. True)"
  by (auto simp: hoare_def tryA_def in_thread_eq vquery_def act_simps)

lemma fetched_change:
  "hoare (\<lambda>_. True) (tryA (case snapshot of None \<Rightarrow> ret None
        | Some (assets, in_pool) \<Rightarrow> position_change env rates user p shares assets in_pool))
     (\<lambda>r _. user \<in> {None, Some []} \<longrightarrow> (case r of Inl _ \<Rightarrow> None | Inr c \<Rightarrow> c) = None) (\<lambda>_. True)"
  by (auto simp: hoare_def tryA_def position_change_def in_thread_eq vquery_def vnow_def vask_def bindA_eq liftE_def act_simps
      change_24h_def split: option.splits prod.splits sum.splits)

lemma fetch_balance_presentable:
  "hoare (\<lambda>_. True) (fetch_balance env u rates token user entry)
     (\<lambda>found _. \<forall>p. found = Some p \<longrightarrow> po_pool p = pool_hex (fst entry) \<and> presentable user p) (\<lambda>_. True)"
  unfolding fetch_balance_def Let_def case_prod_beta
  by (rule hoare_then, rule hoare_then, rule hoare_if, rule hoare_returns, simp, rule hoare_then, rule hoare_then,
      rule hoare_then_fact [OF fetched_change [unfolded case_prod_beta]], rule hoare_then_fact [OF fetched_earned], rule hoare_returns)
    (auto simp: presentable_def earned_coherent earned_anonymous)

lemma fetch_balances_presentable:
  "hoare (\<lambda>_. True) (fetch_balances env u rates token user pools)
     (\<lambda>ps _. subseq (map po_pool ps) (map (pool_hex \<circ> fst) pools) \<and> (\<forall>p\<in>set ps. presentable user p)) (\<lambda>_. True)"
proof (induction pools)
  case Nil
  then show ?case by (simp add: hoare_def act_simps)
next
  case (Cons entry pools)
  show ?case
    unfolding fetch_balances.simps
    by (rule hoare_then_fact [OF fetch_balance_presentable], rule hoare_then_fact [OF Cons])
      (auto simp: hoare_def act_simps split: option.splits)
qed


text \<open>A bearer with shares in the one pool of \<open>demo_worker\<close>, read without an address.\<close>

definition demo_reads :: worker_env where
  "demo_reads = demo_worker\<lparr>ve_user_shares := (\<lambda>_ _ _. Inr 50)\<rparr>"


end
