(* ===== verification/Prices.thy ===== *)
theory Prices
  imports Registry Rates "HOL-Library.List_Lexorder" "HOL-Library.Char_ord"
begin

text \<open>
  Token prices: the sampled history (\<open>services/price_history.py\<close>), the spot prices that are refreshed on demand
  (\<open>services/spot_prices.py\<close>), and the list of supported tokens (\<open>core/tokens.py\<close>). CoinGecko, the settings, the
  clock and the JSON parser are parameters; a price is an integer in units of 1e-8 USD.
\<close>

section \<open>State and environment\<close>

record price_row =
  pc_coin :: string
  pc_ts :: int
  pc_price :: int

record spot_price =
  sp_token :: string
  sp_price :: int
  sp_updated :: int

record price_state =
  pt_tick :: nat
  pt_rows :: "price_row list"
  pt_spot :: "(string \<times> spot_price) list"
  pt_attempted :: "rat option"
  pt_locked :: bool

record price_env =
  qv_boot :: boot_env
  qv_coins :: "nat \<Rightarrow> string"
  qv_supported :: "nat \<Rightarrow> string"
  qv_time :: "nat \<Rightarrow> rat"
  qv_history :: "nat \<Rightarrow> string \<Rightarrow> int \<Rightarrow> exc + (int \<times> int) list"
  qv_spot :: "nat \<Rightarrow> string list \<Rightarrow> exc + (string \<times> int) list"
  qv_other :: "nat \<Rightarrow> price_state \<Rightarrow> price_state"

type_synonym 'a pact = "(price_state, exc, 'a) act"

definition pask :: "(nat \<Rightarrow> exc + 'a) \<Rightarrow> 'a pact" where
  "pask f = (\<lambda>s. (f (pt_tick s), s\<lparr>pt_tick := Suc (pt_tick s)\<rparr>))"

definition ppause :: "price_env \<Rightarrow> unit pact" where
  "ppause env = (\<lambda>s. (Inr (), (qv_other env (pt_tick s) s)\<lparr>pt_tick := Suc (pt_tick s)\<rparr>))"

definition pawait :: "price_env \<Rightarrow> (nat \<Rightarrow> exc + 'a) \<Rightarrow> 'a pact" where
  "pawait env f = bindA (tryA (pask f)) (\<lambda>r. seqA (ppause env) (liftE r))"

definition ptime :: "price_env \<Rightarrow> rat pact" where
  "ptime env = pask (\<lambda>n. Inr (qv_time env n))"

section \<open>The configuration\<close>

text \<open>\<open>parse_coingecko_token_ids\<close> has the text of \<open>_parse_defillama_pool_ids\<close>.\<close>

definition parse_coingecko_token_ids :: "boot_env \<Rightarrow> string \<Rightarrow> (string \<times> string) list" where
  "parse_coingecko_token_ids env raw_config =
     (if blank_text raw_config then []
      else case bo_json env raw_config of
        Some (JObj entries) \<Rightarrow>
          fold (\<lambda>(k, v). AList.update (lower k) (case v of JStr s \<Rightarrow> s | _ \<Rightarrow> bo_str env v)) entries []
      | _ \<Rightarrow> [])"

definition coin_mapping :: "price_env \<Rightarrow> (string \<times> string) list pact" where
  "coin_mapping env = bindA (pask (\<lambda>n. Inr (qv_coins env n))) (\<lambda>raw. ret (parse_coingecko_token_ids (qv_boot env) raw))"

definition configured_coin_ids :: "price_env \<Rightarrow> string list pact" where
  "configured_coin_ids env = bindA (coin_mapping env) (\<lambda>m. ret (sorted_list_of_set (set (map snd m))))"

text \<open>\<open>raw.split(",")\<close>\<close>

fun split_commas :: "string \<Rightarrow> string list" where
  "split_commas [] = [[]]"
| "split_commas (c # s) =
     (if c = CHR '','' then [] # split_commas s
      else case split_commas s of [] \<Rightarrow> [[c]] | w # ws \<Rightarrow> (c # w) # ws)"

definition trim_spaces :: "string \<Rightarrow> string" where
  "trim_spaces s = rev (dropWhile re_space (rev (dropWhile re_space s)))"

definition get_supported_token_ids :: "string \<Rightarrow> string list" where
  "get_supported_token_ids raw =
     (if blank_text raw then []
      else map (\<lambda>t. lower (trim_spaces t)) (filter (\<lambda>t. trim_spaces t \<noteq> []) (split_commas raw)))"

section \<open>The history\<close>

definition MAX_BACKFILL_DAYS :: int where "MAX_BACKFILL_DAYS = 365"

definition same_quote :: "price_row \<Rightarrow> price_row \<Rightarrow> bool" where
  "same_quote a b \<longleftrightarrow> pc_coin a = pc_coin b \<and> pc_ts a = pc_ts b"

text \<open>\<open>INSERT OR IGNORE\<close> of one row after the other; the result counts the rows written.\<close>

fun insert_quotes :: "price_row list \<Rightarrow> price_row list \<Rightarrow> int \<times> price_row list" where
  "insert_quotes [] t = (0, t)"
| "insert_quotes (row # rows) t =
     (if list_ex (same_quote row) t then insert_quotes rows t
      else case insert_quotes rows (t @ [row]) of (n, t') \<Rightarrow> (n + 1, t'))"

definition store_points :: "string \<Rightarrow> (int \<times> int) list \<Rightarrow> price_row list \<Rightarrow> int \<times> price_row list" where
  "store_points coin_id points =
     insert_quotes (map (\<lambda>(ts, price). \<lparr>pc_coin = coin_id, pc_ts = sample_bucket ts, pc_price = price\<rparr>) (sort_key fst points))"

definition store_points_now :: "string \<Rightarrow> (int \<times> int) list \<Rightarrow> int pact" where
  "store_points_now coin_id points =
     (\<lambda>s. case store_points coin_id points (pt_rows s) of (n, t) \<Rightarrow> (Inr n, s\<lparr>pt_rows := t\<rparr>))"

definition read_price_points :: "string \<Rightarrow> int option \<Rightarrow> int \<Rightarrow> price_row list \<Rightarrow> (int \<times> int) list" where
  "read_price_points coin_id days now t =
     map (\<lambda>r. (pc_ts r, pc_price r)) (sort_key pc_ts (filter (\<lambda>r. pc_coin r = coin_id
       \<and> (case days of None \<Rightarrow> True | Some d \<Rightarrow> pc_ts r \<ge> now - d * 86400)) t))"

text \<open>The series of each token asked for, empty for one that is not configured or not sampled.\<close>

definition price_series_for_tokens :: "price_env \<Rightarrow> string list \<Rightarrow> (string \<times> (int \<times> int) list) list pact" where
  "price_series_for_tokens env token_ids =
     bindA (coin_mapping env) (\<lambda>mapping.
     bindA (getA pt_rows) (\<lambda>t.
       ret (fold (\<lambda>token_id. AList.update token_id
              (case map_of mapping (lower token_id) of
                 None \<Rightarrow> [] | Some coin_id \<Rightarrow> if coin_id = [] then [] else read_price_points coin_id None 0 t)) token_ids [])))"

fun backfill_coins :: "price_env \<Rightarrow> int \<Rightarrow> bool \<Rightarrow> string list \<Rightarrow> int pact" where
  "backfill_coins env days first [] = ret 0"
| "backfill_coins env days first (coin_id # coins) =
     seqA (if first then ret () else ppause env)
     (bindA (tryA (pawait env (\<lambda>n. qv_history env n coin_id days))) (\<lambda>r.
      bindA (case r of Inl _ \<Rightarrow> ret 0 | Inr points \<Rightarrow> store_points_now coin_id points) (\<lambda>written.
      bindA (backfill_coins env days False coins) (\<lambda>stored. ret (written + stored)))))"

definition backfill :: "price_env \<Rightarrow> int \<Rightarrow> int pact" where
  "backfill env days = bindA (configured_coin_ids env) (backfill_coins env days True)"

fun store_samples :: "int \<Rightarrow> (string \<times> int) list \<Rightarrow> int pact" where
  "store_samples now [] = ret 0"
| "store_samples now ((coin_id, price_e8) # prices) =
     bindA (store_points_now coin_id [(now, price_e8)]) (\<lambda>n.
     bindA (store_samples now prices) (\<lambda>stored. ret (n + stored)))"

definition sample_prices :: "price_env \<Rightarrow> int pact" where
  "sample_prices env =
     bindA (configured_coin_ids env) (\<lambda>coin_ids.
     if coin_ids = [] then ret 0
     else bindA (tryA (pawait env (\<lambda>n. qv_spot env n coin_ids))) (\<lambda>r.
       case r of
         Inl _ \<Rightarrow> ret 0
       | Inr prices \<Rightarrow> bindA (ptime env) (\<lambda>now. store_samples \<lfloor>now\<rfloor> prices)))"

section \<open>Spot prices\<close>

definition REFRESH_INTERVAL_SEC :: rat where "REFRESH_INTERVAL_SEC = 300"

definition coin_by_token :: "price_env \<Rightarrow> (string \<times> string) list pact" where
  "coin_by_token env =
     bindA (pask (\<lambda>n. Inr (get_supported_token_ids (qv_supported env n)))) (\<lambda>supported.
     bindA (coin_mapping env) (\<lambda>mapping. ret (filter (\<lambda>(token_id, _). token_id \<in> set supported) mapping)))"

definition refresh_due :: "price_env \<Rightarrow> bool pact" where
  "refresh_due env =
     bindA (getA pt_attempted) (\<lambda>attempted.
     case attempted of
       None \<Rightarrow> ret True
     | Some t \<Rightarrow> bindA (ptime env) (\<lambda>now. ret (now - t \<ge> REFRESH_INTERVAL_SEC)))"

definition put_spot :: "int \<Rightarrow> (string \<times> int) list \<Rightarrow> (string \<times> string) list \<Rightarrow> (string \<times> spot_price) list \<Rightarrow> (string \<times> spot_price) list" where
  "put_spot now by_coin =
     fold (\<lambda>(token_id, coin_id) prices.
       case map_of by_coin coin_id of
         None \<Rightarrow> prices
       | Some price_e8 \<Rightarrow> AList.update token_id \<lparr>sp_token = token_id, sp_price = price_e8, sp_updated = now\<rparr> prices)"

definition refresh_spot :: "price_env \<Rightarrow> unit pact" where
  "refresh_spot env =
     bindA (ptime env) (\<lambda>now.
     seqA (modifyA (\<lambda>s. s\<lparr>pt_attempted := Some now\<rparr>))
     (bindA (coin_by_token env) (\<lambda>coins.
      if coins = [] then ret ()
      else bindA (tryA (pawait env (\<lambda>n. qv_spot env n (sorted_list_of_set (set (map snd coins)))))) (\<lambda>r.
        case r of
          Inl _ \<Rightarrow> ret ()
        | Inr by_coin \<Rightarrow> bindA (ptime env) (\<lambda>now.
              modifyA (\<lambda>s. s\<lparr>pt_spot := put_spot \<lfloor>now\<rfloor> by_coin coins (pt_spot s)\<rparr>))))))"

text \<open>A caller asks for a refresh only when one is due, and waits for the one under way. Other tasks run
  until the lock is free.\<close>

definition current_prices :: "price_env \<Rightarrow> spot_price list pact" where
  "current_prices env =
     bindA (refresh_due env) (\<lambda>due.
     bindA (getA pt_locked) (\<lambda>locked.
     seqA (if due \<or> locked
           then seqA (ppause env)
             (seqA (modifyA (\<lambda>s. s\<lparr>pt_locked := True\<rparr>))
             (bindA (tryA (bindA (refresh_due env) (\<lambda>still. if still then refresh_spot env else ret ()))) (\<lambda>r.
              seqA (modifyA (\<lambda>s. s\<lparr>pt_locked := False\<rparr>)) (liftE r))))
           else ret ())
       (bindA (getA pt_spot) (\<lambda>prices. ret (sort_key sp_token (map snd prices))))))"

section \<open>What the table keeps\<close>

text \<open>Storing only appends, one row per coin and slot, and counts what it appended.\<close>

abbreviation quote_keys :: "price_row list \<Rightarrow> (string \<times> int) list" where
  "quote_keys t \<equiv> map (\<lambda>r. (pc_coin r, pc_ts r)) t"

lemma insert_quotes_kept:
  assumes "distinct (quote_keys t)"
  shows "\<exists>added. insert_quotes rows t = (int (length added), t @ added) \<and> distinct (quote_keys (t @ added)) \<and> set added \<subseteq> set rows"
  using assms
proof (induction rows arbitrary: t)
  case Nil
  then show ?case by simp
next
  case (Cons row rows)
  show ?case
  proof (cases "list_ex (same_quote row) t")
    case True
    with Cons.IH [OF Cons.prems] show ?thesis by auto
  next
    case False
    then have "distinct (quote_keys (t @ [row]))"
      using Cons.prems by (auto simp: list_ex_iff same_quote_def)
    from Cons.IH [OF this] obtain added where
      "insert_quotes rows (t @ [row]) = (int (length added), (t @ [row]) @ added)"
      "distinct (quote_keys ((t @ [row]) @ added))" "set added \<subseteq> set rows" by blast
    with False show ?thesis by (intro exI [of _ "row # added"]) auto
  qed
qed

lemma stored_once:
  "distinct (quote_keys t) \<Longrightarrow>
     \<exists>added. store_points coin_id points t = (int (length added), t @ added) \<and> distinct (quote_keys (t @ added))
       \<and> (\<forall>r\<in>set added. pc_coin r = coin_id \<and> pc_ts r mod SAMPLE_INTERVAL_SEC = 0)"
  using insert_quotes_kept [of t "map (\<lambda>(ts, price). \<lparr>pc_coin = coin_id, pc_ts = sample_bucket ts, pc_price = price\<rparr>) (sort_key fst points)"]
  by (fastforce simp: store_points_def sample_bucket_def minus_mod_eq_mult_div)

end
